(* ===== verification/Prelude.thy ===== *)
theory Prelude
  imports Main "HOL-Library.AList" "HOL-Library.List_Lexorder" "HOL-Library.Product_Lexorder"
    "HOL-Library.Code_Target_Nat"
begin

text \<open>
  Shared foundations: the types every component uses (Python strings as lists of code points,
  byte strings, dictionaries, exceptions), the sequencing of operations that may raise after
  having changed the state, and the generic lemmas and interfaces the components build on.

  \<^item> A Python \<open>str\<close> is a list of code points and a \<open>bytes\<close> object is a list of byte values;
    \<open>lit\<close> turns an Isabelle string literal into either (they agree on ASCII).
  \<^item> A Python \<open>dict\<close> is an association list in insertion order: assignment keeps the position
    of an existing key and appends a new one, deletion removes the key. The library's
    \<open>AList.update\<close> and \<open>AList.delete\<close> do exactly this.
  \<^item> An operation of a component takes the state and returns the result (\<open>Inl\<close> an exception,
    \<open>Inr\<close> a value) with the state it leaves, since a Python method that raises keeps the
    changes it made before. \<open>sbind\<close> sequences two such operations.
\<close>

section \<open>Types\<close>

type_synonym pystr = "nat list"
type_synonym bytes = "nat list"
type_synonym ('k, 'v) dict = "('k \<times> 'v) list"

definition lit :: "string \<Rightarrow> pystr" where
  "lit cs = map of_char cs"

text \<open>
  The exceptions the modelled code raises. \<open>CommandParseError\<close> and \<open>CommandValidationError\<close> are
  the two subclasses of \<open>CommandError\<close>; \<open>MiniRedisError\<close> and \<open>CliUsageError\<close> belong to the two
  clients, \<open>BenchmarkCancelled\<close> and \<open>MongoBaselineError\<close> to the benchmark; the others are raised by the interpreter, and their messages are kept only where some
  caller reads them.
\<close>

datatype py_exc =
    CommandParseError pystr
  | CommandValidationError pystr
  | ValueError
  | IndexError
  | OverflowError
  | OSError
  | ConnectionError
  | TypeError pystr
  | KeyError
  | RuntimeError pystr
  | MiniRedisError pystr
  | CliUsageError pystr
  | BenchmarkCancelled
  | MongoBaselineError pystr
  | RecursionError

fun is_command_error :: "py_exc \<Rightarrow> bool" where
  "is_command_error (CommandParseError _) = True"
| "is_command_error (CommandValidationError _) = True"
| "is_command_error _ = False"

fun exc_message :: "py_exc \<Rightarrow> pystr" where
  "exc_message (CommandParseError m) = m"
| "exc_message (CommandValidationError m) = m"
| "exc_message (TypeError m) = m"
| "exc_message (RuntimeError m) = m"
| "exc_message (MiniRedisError m) = m"
| "exc_message (CliUsageError m) = m"
| "exc_message _ = []"

section \<open>Collections of rewrite rules\<close>

named_theorems dict_simps \<open>lookup and key-set rules for dictionaries\<close>
named_theorems frame_simps \<open>fields of a state that an operation leaves alone\<close>

section \<open>Sequencing operations that may raise\<close>

definition sbind :: "('e + 'a) \<times> 's \<Rightarrow> ('a \<Rightarrow> 's \<Rightarrow> ('e + 'b) \<times> 's) \<Rightarrow> ('e + 'b) \<times> 's" where
  "sbind r f = (case r of (Inl e, s) \<Rightarrow> (Inl e, s) | (Inr a, s) \<Rightarrow> f a s)"

definition rbind :: "'e + 'a \<Rightarrow> ('a \<Rightarrow> 'e + 'b) \<Rightarrow> 'e + 'b" where
  "rbind r f = (case r of Inl e \<Rightarrow> Inl e | Inr a \<Rightarrow> f a)"

lemma sbind_simps [simp]:
  "sbind (Inl e, s) f = (Inl e, s)"
  "sbind (Inr a, s) f = f a s"
  by (simp_all add: sbind_def)

lemma rbind_simps [simp]:
  "rbind (Inl e) f = Inl e"
  "rbind (Inr a) f = f a"
  by (simp_all add: rbind_def)

text \<open>An invariant of the state passes through a sequence when it passes through both parts.\<close>

lemma sbind_inv:
  assumes "I (snd r)"
    and "\<And>a s. r = (Inr a, s) \<Longrightarrow> I s \<Longrightarrow> I (snd (f a s))"
  shows "I (snd (sbind r f))"
proof (cases r)
  case (Pair x s)
  then show ?thesis using assms by (cases x) auto
qed

lemma rbind_eq_Inr [simp]: "rbind r f = Inr b \<longleftrightarrow> (\<exists>a. r = Inr a \<and> f a = Inr b)"
  by (cases r) auto

lemma rbind_eq_Inl: "rbind r f = Inl e \<longleftrightarrow> r = Inl e \<or> (\<exists>a. r = Inr a \<and> f a = Inl e)"
  by (cases r) auto

text \<open>A result that, if it is an exception, is a command error.\<close>

definition clean :: "py_exc + 'a \<Rightarrow> bool" where
  "clean r \<longleftrightarrow> (\<forall>e. r = Inl e \<longrightarrow> is_command_error e)"

lemma clean_simps [simp]: "clean (Inr a)" "clean (Inl e) = is_command_error e"
  by (simp_all add: clean_def)

lemma clean_rbind: "clean r \<Longrightarrow> (\<And>a. r = Inr a \<Longrightarrow> clean (f a)) \<Longrightarrow> clean (rbind r f)"
  by (cases r) auto

lemma clean_if: "(P \<Longrightarrow> clean a) \<Longrightarrow> (\<not> P \<Longrightarrow> clean b) \<Longrightarrow> clean (if P then a else b)"
  by simp

lemma rbind_cong [fundef_cong]:
  "r = r' \<Longrightarrow> (\<And>a. r' = Inr a \<Longrightarrow> f a = f' a) \<Longrightarrow> rbind r f = rbind r' f'"
  by (cases r') auto

section \<open>String literals\<close>

lemma lit_eq_iff [simp]: "lit a = lit b \<longleftrightarrow> a = b"
proof -
  have "inj (of_char :: char \<Rightarrow> nat)" by (rule injI) simp
  then show ?thesis by (simp add: lit_def inj_map_eq_map)
qed

lemma lit_Nil_iff [simp]: "lit cs = [] \<longleftrightarrow> cs = []" "[] = lit cs \<longleftrightarrow> cs = []"
  by (auto simp: lit_def)

section \<open>Dictionaries\<close>

definition keys_of :: "('k, 'v) dict \<Rightarrow> 'k list" where
  "keys_of d = map fst d"

definition wf_dict :: "('k, 'v) dict \<Rightarrow> bool" where
  "wf_dict d \<longleftrightarrow> distinct (keys_of d)"

lemma map_of_update_if [dict_simps]:
  "map_of (AList.update k v d) k' = (if k' = k then Some v else map_of d k')"
  by (simp add: update_conv')

lemma map_of_delete_if [dict_simps]:
  "map_of (AList.delete k d) k' = (if k' = k then None else map_of d k')"
  by (simp add: delete_conv')

lemma keys_of_update [dict_simps]:
  "keys_of (AList.update k v d) = (if k \<in> set (keys_of d) then keys_of d else keys_of d @ [k])"
  by (simp add: keys_of_def update_keys)

lemma keys_of_delete [dict_simps]: "keys_of (AList.delete k d) = removeAll k (keys_of d)"
  by (simp add: keys_of_def delete_keys)

lemma wf_dict_empty [simp]: "wf_dict []"
  by (simp add: wf_dict_def keys_of_def)

lemma wf_dict_single: "wf_dict [(k, v)]"
  by (simp add: wf_dict_def keys_of_def)

lemma wf_dict_update [simp]: "wf_dict d \<Longrightarrow> wf_dict (AList.update k v d)"
  by (simp add: wf_dict_def dict_simps)

lemma wf_dict_delete [simp]: "wf_dict d \<Longrightarrow> wf_dict (AList.delete k d)"
  by (simp add: wf_dict_def dict_simps distinct_removeAll)

lemma keys_of_iff: "k \<in> set (keys_of d) \<longleftrightarrow> map_of d k \<noteq> None"
  by (simp add: keys_of_def map_of_eq_None_iff)

lemma keys_of_empty_iff [simp]: "keys_of d = [] \<longleftrightarrow> d = []"
  by (simp add: keys_of_def)

lemma delete_absent: "map_of d k = None \<Longrightarrow> AList.delete k d = d"
  by (simp add: map_of_eq_None_iff)

lemma map_of_in_set: "map_of d k = Some v \<Longrightarrow> (k, v) \<in> set d"
  by (rule map_of_SomeD)

lemma wf_dict_map_of: "wf_dict d \<Longrightarrow> map_of d k = Some v \<longleftrightarrow> (k, v) \<in> set d"
  by (simp add: wf_dict_def keys_of_def)

text \<open>The sum of a size over the entries of a dictionary, and how updates change it.\<close>

definition dict_sum :: "('k \<Rightarrow> 'v \<Rightarrow> nat) \<Rightarrow> ('k, 'v) dict \<Rightarrow> nat" where
  "dict_sum f d = sum_list (map (\<lambda>(k, v). f k v) d)"

lemma dict_sum_Nil [simp]: "dict_sum f [] = 0"
  by (simp add: dict_sum_def)

lemma dict_sum_delete_le: "dict_sum f (AList.delete k d) \<le> dict_sum f d"
  by (induction d) (auto simp: dict_sum_def)

lemma dict_sum_delete:
  "wf_dict d \<Longrightarrow> map_of d k = Some v \<Longrightarrow> dict_sum f (AList.delete k d) + f k v = dict_sum f d"
proof (induction d)
  case Nil
  then show ?case by simp
next
  case (Cons p d)
  obtain k' v' where p: "p = (k', v')" by (cases p)
  show ?case
  proof (cases "k' = k")
    case True
    then have "map_of d k = None"
      using Cons.prems p by (auto simp: wf_dict_def keys_of_def map_of_eq_None_iff)
    then show ?thesis
      using True Cons.prems p by (simp add: dict_sum_def delete_absent)
  next
    case False
    then show ?thesis
      using Cons p by (auto simp: dict_sum_def wf_dict_def keys_of_def)
  qed
qed

lemma dict_sum_single:
  "wf_dict d \<Longrightarrow> set (keys_of d) \<subseteq> {k} \<Longrightarrow> dict_sum f d = (case map_of d k of None \<Rightarrow> 0 | Some v \<Rightarrow> f k v)"
proof (cases d)
  case (Cons p d')
  assume "wf_dict d" "set (keys_of d) \<subseteq> {k}"
  then have "fst p = k" "k \<notin> set (map fst d')" "set (map fst d') \<subseteq> {k}"
    using Cons by (auto simp: wf_dict_def keys_of_def)
  then have "fst p = k" "d' = []" by (cases d'; auto)+
  with Cons show ?thesis by (cases p) (simp add: dict_sum_def)
qed (simp add: keys_of_def)

section \<open>A keyed store as an interface\<close>

text \<open>
  What the clients of a repository rely on: the keys are listed once each and are those with a
  value, writing and removing act on one key, and every operation keeps the representation sound.
  The removal loops of the program (sweeping, flushing, deleting many) are proved once, here.
\<close>

locale keyed_store =
  fixes keys :: "'s \<Rightarrow> 'k list"
    and get :: "'s \<Rightarrow> 'k \<Rightarrow> 'v option"
    and put :: "'k \<Rightarrow> 'v \<Rightarrow> 's \<Rightarrow> 's"
    and remove :: "'k \<Rightarrow> 's \<Rightarrow> 's"
    and ok :: "'s \<Rightarrow> bool"
  assumes keys_get: "k \<in> set (keys s) \<longleftrightarrow> get s k \<noteq> None"
    and distinct_keys: "ok s \<Longrightarrow> distinct (keys s)"
    and get_put: "get (put k v s) k' = (if k' = k then Some v else get s k')"
    and get_remove: "get (remove k s) k' = (if k' = k then None else get s k')"
    and ok_put: "ok s \<Longrightarrow> ok (put k v s)"
    and ok_remove: "ok s \<Longrightarrow> ok (remove k s)"
begin

lemma get_remove_all: "get (fold remove ks s) k = (if k \<in> set ks then None else get s k)"
  by (induction ks arbitrary: s) (auto simp: get_remove)

lemma ok_remove_all: "ok s \<Longrightarrow> ok (fold remove ks s)"
  by (induction ks arbitrary: s) (auto simp: ok_remove)

lemma remove_every_key: "keys (fold remove (keys s) s) = []"
proof -
  have "k \<notin> set (keys (fold remove (keys s) s))" for k
    using keys_get[of k s] by (auto simp: keys_get get_remove_all)
  then show ?thesis by (cases "keys (fold remove (keys s) s)") auto
qed

lemma keys_put: "set (keys (put k v s)) = insert k (set (keys s))"
  by (auto simp: keys_get get_put split: if_splits)

lemma keys_remove: "set (keys (remove k s)) = set (keys s) - {k}"
  by (auto simp: keys_get get_remove split: if_splits)

lemma put_get_roundtrip: "get (put k v s) k = Some v"
  by (simp add: get_put)

lemma length_keys_remove:
  assumes "ok s" "get s k \<noteq> None"
  shows "length (keys (remove k s)) < length (keys s)"
proof -
  have "card (set (keys (remove k s))) < card (set (keys s))"
    using assms(2) keys_get[of k s] by (intro psubset_card_mono) (auto simp: keys_remove)
  then show ?thesis
    using assms(1) by (simp add: distinct_card distinct_keys ok_remove)
qed

end

end
