(* ===== verification/PyText.thy ===== *)
theory PyText
  imports Prelude
begin

text \<open>
  The part of Python's \<open>str\<close>, \<open>bytes\<close> and \<open>int\<close> that the sources use: UTF-8 encoding and strict
  decoding, \<open>strip\<close>, \<open>upper\<close> and \<open>lower\<close>, \<open>find\<close> of a line end, slices, \<open>int(text)\<close> and
  \<open>str(number)\<close>. The round trips \<open>decode(encode(s)) = s\<close> and \<open>int(str(n)) = n\<close> are proved here;
  the protocol theories rest on them.

  A string the server holds was decoded from UTF-8 and so has Unicode scalar values only
  (\<open>decode_utf8_sound\<close>); \<open>encode_utf8\<close> is meant for such strings, where Python's encoder does
  not raise.
\<close>

section \<open>UTF-8\<close>

definition scalar :: "nat \<Rightarrow> bool" where
  "scalar c \<longleftrightarrow> c < 0xD800 \<or> (0xE000 \<le> c \<and> c < 0x110000)"

definition utf8_char :: "nat \<Rightarrow> bytes" where
  "utf8_char c =
     (if c < 0x80 then [c]
      else if c < 0x800 then [0xC0 + c div 64, 0x80 + c mod 64]
      else if c < 0x10000 then [0xE0 + c div 4096, 0x80 + c div 64 mod 64, 0x80 + c mod 64]
      else [0xF0 + c div 262144, 0x80 + c div 4096 mod 64, 0x80 + c div 64 mod 64, 0x80 + c mod 64])"

definition encode_utf8 :: "pystr \<Rightarrow> bytes" where
  "encode_utf8 s = concat (map utf8_char s)"

definition is_cont :: "nat \<Rightarrow> bool" where
  "is_cont b \<longleftrightarrow> 0x80 \<le> b \<and> b < 0xC0"

text \<open>
  Strict decoding: overlong forms, surrogates, values beyond \<open>0x10FFFF\<close>, stray continuation bytes
  and truncated sequences are errors (\<open>None\<close>, Python's \<open>UnicodeDecodeError\<close>).
\<close>

fun decode_utf8 :: "bytes \<Rightarrow> pystr option" where
  "decode_utf8 [] = Some []"
| "decode_utf8 (b # bs) =
     (if b < 0x80 then map_option ((#) b) (decode_utf8 bs)
      else if 0xC2 \<le> b \<and> b < 0xE0 then
        (case bs of
           b1 # r \<Rightarrow>
             if is_cont b1
             then map_option ((#) ((b - 0xC0) * 64 + (b1 - 0x80))) (decode_utf8 r)
             else None
         | _ \<Rightarrow> None)
      else if 0xE0 \<le> b \<and> b < 0xF0 then
        (case bs of
           b1 # b2 # r \<Rightarrow>
             (let c = (b - 0xE0) * 4096 + (b1 - 0x80) * 64 + (b2 - 0x80)
              in if is_cont b1 \<and> is_cont b2 \<and> 0x800 \<le> c \<and> scalar c
                 then map_option ((#) c) (decode_utf8 r)
                 else None)
         | _ \<Rightarrow> None)
      else if 0xF0 \<le> b \<and> b < 0xF5 then
        (case bs of
           b1 # b2 # b3 # r \<Rightarrow>
             (let c = (b - 0xF0) * 262144 + (b1 - 0x80) * 4096 + (b2 - 0x80) * 64 + (b3 - 0x80)
              in if is_cont b1 \<and> is_cont b2 \<and> is_cont b3 \<and> 0x10000 \<le> c \<and> scalar c
                 then map_option ((#) c) (decode_utf8 r)
                 else None)
         | _ \<Rightarrow> None)
      else None)"

declare decode_utf8.simps(2) [simp del]

definition ascii :: "pystr \<Rightarrow> bool" where
  "ascii s \<longleftrightarrow> (\<forall>c \<in> set s. c < 0x80)"

section \<open>Case, white space, lines and slices\<close>

text \<open>
  \<open>str.isspace\<close> per code point (the 29 characters of Unicode 14), and \<open>str.strip\<close>.
\<close>

definition is_space :: "nat \<Rightarrow> bool" where
  "is_space c \<longleftrightarrow>
     (9 \<le> c \<and> c \<le> 13) \<or> (0x1C \<le> c \<and> c \<le> 0x20) \<or> c = 0x85 \<or> c = 0xA0 \<or> c = 0x1680 \<or>
     (0x2000 \<le> c \<and> c \<le> 0x200A) \<or> c = 0x2028 \<or> c = 0x2029 \<or> c = 0x202F \<or> c = 0x205F \<or> c = 0x3000"

definition strip_by :: "(nat \<Rightarrow> bool) \<Rightarrow> pystr \<Rightarrow> pystr" where
  "strip_by p s = rev (dropWhile p (rev (dropWhile p s)))"

definition py_strip :: "pystr \<Rightarrow> pystr" where
  "py_strip s = strip_by is_space s"

text \<open>
  \<open>str.upper\<close> and \<open>str.lower\<close>, exact on ASCII and on every other code point whose image contains
  an ASCII character; the remaining code points, which stay outside ASCII, are left alone. The
  sources only compare the results with ASCII names.
\<close>

definition upper_char :: "nat \<Rightarrow> pystr" where
  "upper_char c =
     (if 97 \<le> c \<and> c \<le> 122 then [c - 32]
      else if c < 0x80 then [c]
      else if c = 0xDF then lit ''SS''
      else if c = 0x131 then lit ''I''
      else if c = 0x149 then 0x2BC # lit ''N''
      else if c = 0x17F then lit ''S''
      else if c = 0x1F0 then lit ''J'' @ [0x30C]
      else if c = 0x1E96 then lit ''H'' @ [0x331]
      else if c = 0x1E97 then lit ''T'' @ [0x308]
      else if c = 0x1E98 then lit ''W'' @ [0x30A]
      else if c = 0x1E99 then lit ''Y'' @ [0x30A]
      else if c = 0x1E9A then lit ''A'' @ [0x2BE]
      else if c = 0xFB00 then lit ''FF''
      else if c = 0xFB01 then lit ''FI''
      else if c = 0xFB02 then lit ''FL''
      else if c = 0xFB03 then lit ''FFI''
      else if c = 0xFB04 then lit ''FFL''
      else if c = 0xFB05 \<or> c = 0xFB06 then lit ''ST''
      else [c])"

definition py_upper :: "pystr \<Rightarrow> pystr" where
  "py_upper s = concat (map upper_char s)"

definition lower_char :: "nat \<Rightarrow> pystr" where
  "lower_char c =
     (if 65 \<le> c \<and> c \<le> 90 then [c + 32]
      else if c = 0x130 then [105, 0x307]
      else if c = 0x212A then [107]
      else [c])"

definition py_lower :: "pystr \<Rightarrow> pystr" where
  "py_lower s = concat (map lower_char s)"

text \<open>\<open>crlf\<close> is the line end; \<open>find_crlf data start\<close> is \<open>data.find("\r\n", start)\<close> (\<open>None\<close> for -1).\<close>

definition crlf :: pystr where
  "crlf = [13, 10]"

fun first_crlf :: "pystr \<Rightarrow> nat option" where
  "first_crlf (a # b # r) =
     (if a = 13 \<and> b = 10 then Some 0 else map_option Suc (first_crlf (b # r)))"
| "first_crlf _ = None"

definition find_crlf :: "pystr \<Rightarrow> nat \<Rightarrow> nat option" where
  "find_crlf data start = map_option ((+) start) (first_crlf (drop start data))"

definition slice :: "pystr \<Rightarrow> nat \<Rightarrow> nat \<Rightarrow> pystr" where
  "slice data i j = take (j - i) (drop i data)"

section \<open>Integers as text\<close>

text \<open>
  The zeros of the 66 decimal digit blocks of Unicode 14 (general category Nd). \<open>int\<close> and \<open>float\<close>
  accept any of these digits and any white space around the number.
\<close>

definition nd_zeros :: "nat list" where
  "nd_zeros =
     [0x30, 0x660, 0x6F0, 0x7C0, 0x966, 0x9E6, 0xA66, 0xAE6, 0xB66, 0xBE6, 0xC66, 0xCE6, 0xD66,
      0xDE6, 0xE50, 0xED0, 0xF20, 0x1040, 0x1090, 0x17E0, 0x1810, 0x1946, 0x19D0, 0x1A80, 0x1A90,
      0x1B50, 0x1BB0, 0x1C40, 0x1C50, 0xA620, 0xA8D0, 0xA900, 0xA9D0, 0xA9F0, 0xAA50, 0xABF0,
      0xFF10, 0x104A0, 0x10D30, 0x11066, 0x110F0, 0x11136, 0x111D0, 0x112F0, 0x11450, 0x114D0,
      0x11650, 0x116C0, 0x11730, 0x118E0, 0x11950, 0x11C50, 0x11D50, 0x11DA0, 0x16A60, 0x16AC0,
      0x16B50, 0x1D7CE, 0x1D7D8, 0x1D7E2, 0x1D7EC, 0x1D7F6, 0x1E140, 0x1E2F0, 0x1E950, 0x1FBF0]"

definition decimal_value :: "nat \<Rightarrow> nat option" where
  "decimal_value c = map_option (\<lambda>z. c - z) (find (\<lambda>z. z \<le> c \<and> c < z + 10) nd_zeros)"

definition numeric_char :: "nat \<Rightarrow> nat" where
  "numeric_char c =
     (if c < 127 then c
      else if is_space c then 32
      else case decimal_value c of Some d \<Rightarrow> 48 + d | None \<Rightarrow> 63)"

definition is_ascii_space :: "nat \<Rightarrow> bool" where
  "is_ascii_space c \<longleftrightarrow> (9 \<le> c \<and> c \<le> 13) \<or> c = 32"

definition is_digit :: "nat \<Rightarrow> bool" where
  "is_digit c \<longleftrightarrow> 48 \<le> c \<and> c \<le> 57"

definition numeric_text :: "pystr \<Rightarrow> pystr" where
  "numeric_text s = strip_by is_ascii_space (map numeric_char s)"

text \<open>Digits with single underscores between them; the flag says that a digit was just read.\<close>

fun read_digits :: "nat \<Rightarrow> bool \<Rightarrow> pystr \<Rightarrow> nat option" where
  "read_digits acc prev [] = (if prev then Some acc else None)"
| "read_digits acc prev (c # cs) =
     (if is_digit c then read_digits (10 * acc + (c - 48)) True cs
      else if c = 95 \<and> prev then read_digits acc False cs
      else None)"

definition py_int :: "pystr \<Rightarrow> int option" where
  "py_int s =
     (case numeric_text s of
        [] \<Rightarrow> None
      | c # cs \<Rightarrow>
          if c = 45 then map_option (\<lambda>n. - int n) (read_digits 0 False cs)
          else if c = 43 then map_option int (read_digits 0 False cs)
          else map_option int (read_digits 0 False (c # cs)))"

fun show_nat :: "nat \<Rightarrow> pystr" where
  "show_nat n = (if n < 10 then [48 + n] else show_nat (n div 10) @ [48 + n mod 10])"

declare show_nat.simps [simp del]

definition show_int :: "int \<Rightarrow> pystr" where
  "show_int i = (if i < 0 then 45 # show_nat (nat (- i)) else show_nat (nat i))"

section \<open>UTF-8 round trips\<close>

lemma split64: "z < 64 \<Longrightarrow> (u * 64 + z) div 64 = u" "z < 64 \<Longrightarrow> (u * 64 + z) mod 64 = (z::nat)"
  by simp_all

lemma div_chain: "c div 4096 = c div 64 div (64::nat)" "c div 262144 = c div 64 div 64 div (64::nat)"
  by (simp_all flip: div_mult2_eq)

lemma join64: "c div 64 * 64 + c mod 64 = (c::nat)"
  by (rule div_mult_mod_eq)

lemma join4096: "c div 4096 * 4096 + c div 64 mod 64 * 64 + c mod 64 = (c::nat)"
  using join64[of c] join64[of "c div 64"] unfolding div_chain by linarith

lemma join262144:
  "c div 262144 * 262144 + c div 4096 mod 64 * 4096 + c div 64 mod 64 * 64 + c mod 64 = (c::nat)"
  using join64[of c] join4096[of "c div 64"] unfolding div_chain by linarith

lemma utf8_char_decode:
  assumes "scalar c"
  shows "decode_utf8 (utf8_char c @ bs) = map_option ((#) c) (decode_utf8 bs)"
proof -
  consider "c < 0x80" | "0x80 \<le> c" "c < 0x800" | "0x800 \<le> c" "c < 0x10000"
    | "0x10000 \<le> c" "c < 0x110000"
    using assms unfolding scalar_def by linarith
  then show ?thesis
  proof cases
    case 1
    then show ?thesis by (simp add: utf8_char_def decode_utf8.simps(2))
  next
    case 2
    then have "2 \<le> c div 64" "c div 64 < 32" by auto
    then show ?thesis using 2
      by (simp add: utf8_char_def decode_utf8.simps(2) is_cont_def)
  next
    case 3
    have "c div 4096 < 16" using 3 by auto
    then show ?thesis using 3 assms join4096[of c]
      by (simp add: utf8_char_def decode_utf8.simps(2) is_cont_def Let_def)
  next
    case 4
    have "c div 262144 < 5" using 4 by auto
    then show ?thesis using 4 assms join262144[of c]
      by (simp add: utf8_char_def decode_utf8.simps(2) is_cont_def Let_def)
  qed
qed

lemma decode_encode_utf8: "list_all scalar s \<Longrightarrow> decode_utf8 (encode_utf8 s) = Some s"
  by (induction s) (auto simp: encode_utf8_def utf8_char_decode)

lemma utf8_two:
  assumes "0xC2 \<le> b" "b < 0xE0" "is_cont b1"
  shows "utf8_char ((b - 0xC0) * 64 + (b1 - 0x80)) = [b, b1]"
    and "scalar ((b - 0xC0) * 64 + (b1 - 0x80))"
proof -
  define x y where "x = b - 0xC0" and "y = b1 - 0x80"
  have "b = x + 0xC0" "b1 = y + 0x80" "2 \<le> x" "x < 32" "y < 64"
    using assms by (auto simp: x_def y_def is_cont_def)
  then show "utf8_char ((b - 0xC0) * 64 + (b1 - 0x80)) = [b, b1]"
    and "scalar ((b - 0xC0) * 64 + (b1 - 0x80))"
    by (auto simp: utf8_char_def scalar_def)
qed

lemma utf8_three:
  assumes "0xE0 \<le> b" "b < 0xF0" "is_cont b1" "is_cont b2"
    and "c = (b - 0xE0) * 4096 + (b1 - 0x80) * 64 + (b2 - 0x80)" "0x800 \<le> c"
  shows "utf8_char c = [b, b1, b2]"
proof -
  define x y z where "x = b - 0xE0" and "y = b1 - 0x80" and "z = b2 - 0x80"
  have eq: "b = x + 0xE0" "b1 = y + 0x80" "b2 = z + 0x80" and lt: "x < 16" "y < 64" "z < 64"
    using assms by (auto simp: x_def y_def z_def is_cont_def)
  have c: "c = (x * 64 + y) * 64 + z" using assms(5) eq by simp
  have "c div 4096 = x" "c div 64 mod 64 = y" "c mod 64 = z"
    unfolding c div_chain using lt by (simp_all only: split64)
  moreover have "c < 0x10000" using lt c by simp
  ultimately have "c div 4096 = x \<and> c div 64 mod 64 = y \<and> c mod 64 = z \<and> c < 0x10000" by blast
  then show ?thesis using assms(6) eq by (simp add: utf8_char_def)
qed

lemma utf8_four:
  assumes "0xF0 \<le> b" "is_cont b1" "is_cont b2" "is_cont b3"
    and "c = (b - 0xF0) * 262144 + (b1 - 0x80) * 4096 + (b2 - 0x80) * 64 + (b3 - 0x80)"
    and "0x10000 \<le> c"
  shows "utf8_char c = [b, b1, b2, b3]"
proof -
  define x y z w where "x = b - 0xF0" and "y = b1 - 0x80" and "z = b2 - 0x80" and "w = b3 - 0x80"
  have eq: "b = x + 0xF0" "b1 = y + 0x80" "b2 = z + 0x80" "b3 = w + 0x80"
    and lt: "y < 64" "z < 64" "w < 64"
    using assms by (auto simp: x_def y_def z_def w_def is_cont_def)
  have c: "c = ((x * 64 + y) * 64 + z) * 64 + w" using assms(5) eq by simp
  have "c div 262144 = x" "c div 4096 mod 64 = y" "c div 64 mod 64 = z" "c mod 64 = w"
    unfolding c div_chain using lt by (simp_all only: split64)
  then show ?thesis using assms(6) eq by (simp add: utf8_char_def)
qed

lemma decode_utf8_sound:
  "decode_utf8 bs = Some s \<Longrightarrow> list_all scalar s \<and> encode_utf8 s = bs"
proof (induction bs arbitrary: s rule: decode_utf8.induct)
  case 1
  then show ?case by (simp add: encode_utf8_def)
next
  case (2 b bs)
  have cons: "encode_utf8 (c # t) = utf8_char c @ encode_utf8 t" for c t
    by (simp add: encode_utf8_def)
  consider "b < 0x80" | "0xC2 \<le> b \<and> b < 0xE0" | "0xE0 \<le> b \<and> b < 0xF0" | "0xF0 \<le> b \<and> b < 0xF5"
    using 2(5) by (auto simp: decode_utf8.simps(2) split: if_splits)
  then show ?case
  proof cases
    case 1
    then obtain t where "decode_utf8 bs = Some t" "s = b # t"
      using 2(5) by (auto simp: decode_utf8.simps(2))
    with 1 2(1) show ?thesis by (auto simp: cons utf8_char_def scalar_def)
  next
    case c: 2
    obtain b1 r t where bs: "bs = b1 # r" "is_cont b1" "decode_utf8 r = Some t"
      and s: "s = ((b - 0xC0) * 64 + (b1 - 0x80)) # t"
      using 2(5) c by (auto simp: decode_utf8.simps(2) split: list.splits if_splits)
    have "list_all scalar t \<and> encode_utf8 t = r" using 2(2)[OF _ c bs(1) bs(2) bs(3)] c by simp
    then show ?thesis using utf8_two[of b b1] c bs s by (simp add: cons)
  next
    case c: 3
    obtain b1 b2 r t where bs: "bs = b1 # b2 # r" "is_cont b1" "is_cont b2" "decode_utf8 r = Some t"
      and s: "s = ((b - 0xE0) * 4096 + (b1 - 0x80) * 64 + (b2 - 0x80)) # t"
      and x: "scalar (hd s)" "0x800 \<le> hd s"
      using 2(5) c by (auto simp: decode_utf8.simps(2) Let_def split: list.splits if_splits)
    have "list_all scalar t \<and> encode_utf8 t = r"
      using 2(3)[OF _ _ c bs(1) refl refl _ bs(4)] c bs x s by simp
    then show ?thesis using utf8_three[of b b1 b2 "hd s"] c bs s x by (simp add: cons)
  next
    case c: 4
    obtain b1 b2 b3 r t where bs: "bs = b1 # b2 # b3 # r" "is_cont b1" "is_cont b2" "is_cont b3"
        "decode_utf8 r = Some t"
      and s: "s = ((b - 0xF0) * 262144 + (b1 - 0x80) * 4096 + (b2 - 0x80) * 64 + (b3 - 0x80)) # t"
      and x: "scalar (hd s)" "0x10000 \<le> hd s"
      using 2(5) c by (auto simp: decode_utf8.simps(2) Let_def split: list.splits if_splits)
    have "list_all scalar t \<and> encode_utf8 t = r"
      using 2(4)[OF _ _ _ c bs(1) refl refl refl _ bs(5)] c bs x s by simp
    then show ?thesis using utf8_four[of b b1 b2 b3 "hd s"] c bs s x by (simp add: cons)
  qed
qed

lemma encode_utf8_simps [simp]:
  "encode_utf8 [] = []"
  "encode_utf8 (c # s) = utf8_char c @ encode_utf8 s"
  "encode_utf8 (s @ t) = encode_utf8 s @ encode_utf8 t"
  by (simp_all add: encode_utf8_def)

lemma encode_ascii: "ascii s \<Longrightarrow> encode_utf8 s = s"
  by (induction s) (auto simp: ascii_def utf8_char_def)

lemma ascii_scalar: "ascii s \<Longrightarrow> list_all scalar s"
  by (fastforce simp: ascii_def scalar_def list_all_iff)

lemma decode_ascii: "ascii s \<Longrightarrow> decode_utf8 s = Some s"
  using decode_encode_utf8[OF ascii_scalar] by (simp add: encode_ascii)

lemma ascii_append [simp]: "ascii (s @ t) \<longleftrightarrow> ascii s \<and> ascii t"
  by (auto simp: ascii_def)

lemma ascii_Cons [simp]: "ascii (c # s) \<longleftrightarrow> c < 0x80 \<and> ascii s"
  by (auto simp: ascii_def)

lemma ascii_Nil [simp]: "ascii []"
  by (simp add: ascii_def)

lemma length_encode_utf8: "length s \<le> length (encode_utf8 s)"
  by (induction s) (auto simp: utf8_char_def)

section \<open>Numbers round trip\<close>

lemma show_nat_not_Nil [simp]: "show_nat n \<noteq> []"
  by (subst show_nat.simps) simp

lemma show_nat_digits: "c \<in> set (show_nat n) \<Longrightarrow> is_digit c"
proof (induction n rule: show_nat.induct)
  case (1 n)
  then show ?case
    by (cases "n < 10") (auto simp: show_nat.simps[of n] is_digit_def)
qed

lemma ascii_show_nat [simp]: "ascii (show_nat n)"
  by (auto simp: ascii_def is_digit_def dest: show_nat_digits)

lemma ascii_show_int [simp]: "ascii (show_int i)"
  by (simp add: show_int_def)

lemma read_digits_append:
  "(\<And>c. c \<in> set xs \<Longrightarrow> is_digit c) \<Longrightarrow> xs \<noteq> [] \<Longrightarrow>
   read_digits acc p (xs @ ys) =
   read_digits (foldl (\<lambda>a c. 10 * a + (c - 48)) acc xs) True ys"
proof (induction xs arbitrary: acc p)
  case Nil
  then show ?case by simp
next
  case (Cons x xs)
  show ?case
  proof (cases "xs = []")
    case True
    then show ?thesis using Cons.prems by simp
  next
    case False
    then show ?thesis using Cons.prems Cons.IH[of "10 * acc + (x - 48)" True] by simp
  qed
qed

lemma foldl_show_nat: "foldl (\<lambda>a c. 10 * a + (c - 48)) 0 (show_nat n) = n"
proof (induction n rule: show_nat.induct)
  case (1 n)
  then show ?case by (cases "n < 10") (auto simp: show_nat.simps[of n])
qed

lemma read_digits_show_nat [simp]: "read_digits 0 False (show_nat n) = Some n"
  using read_digits_append[of "show_nat n" 0 False "[]"] show_nat_digits
  by (simp add: foldl_show_nat)

lemma strip_by_id:
  assumes "\<And>c. c \<in> set s \<Longrightarrow> \<not> p c"
  shows "strip_by p s = s"
proof -
  have 1: "dropWhile p t = t" if "set t \<subseteq> set s" for t
    using that assms by (cases t) auto
  show ?thesis by (simp add: strip_by_def 1)
qed

lemma numeric_text_digits:
  assumes "\<And>c. c \<in> set s \<Longrightarrow> is_digit c \<or> c = 45"
  shows "numeric_text s = s"
proof -
  have "map numeric_char s = s"
    using assms by (intro map_idI) (fastforce simp: numeric_char_def is_digit_def)
  moreover have "strip_by is_ascii_space s = s"
    using assms by (intro strip_by_id) (fastforce simp: is_ascii_space_def is_digit_def)
  ultimately show ?thesis by (simp add: numeric_text_def)
qed

lemma py_int_show_nat [simp]: "py_int (show_nat n) = Some (int n)"
proof -
  have nt: "numeric_text (show_nat n) = show_nat n"
    using show_nat_digits by (intro numeric_text_digits) blast
  obtain c cs where s: "show_nat n = c # cs" by (cases "show_nat n") auto
  have "is_digit c" using show_nat_digits[of c n] s by simp
  moreover have "read_digits 0 False (c # cs) = Some n" using s read_digits_show_nat[of n] by simp
  ultimately show ?thesis
    using nt s by (simp add: py_int_def is_digit_def del: read_digits.simps)
qed

lemma py_int_show_int [simp]: "py_int (show_int i) = Some i"
proof (cases "i < 0")
  case True
  have "numeric_text (45 # show_nat (nat (- i))) = 45 # show_nat (nat (- i))"
    using show_nat_digits by (intro numeric_text_digits) auto
  then show ?thesis using True by (simp add: show_int_def py_int_def)
next
  case False
  then show ?thesis by (simp add: show_int_def)
qed

section \<open>Lines\<close>

lemma first_crlf_Some:
  "13 \<notin> set xs \<Longrightarrow> first_crlf (xs @ 13 # 10 # r) = Some (length xs)"
proof (induction xs)
  case Nil
  then show ?case by simp
next
  case (Cons x xs)
  then show ?case by (cases xs) auto
qed

lemma first_crlf_bound: "first_crlf s = Some n \<Longrightarrow> n + 2 \<le> length s"
  by (induction s arbitrary: n rule: first_crlf.induct) (auto split: if_splits)

lemma find_crlf_line:
  "13 \<notin> set xs \<Longrightarrow> find_crlf (pre @ xs @ crlf @ r) (length pre) = Some (length pre + length xs)"
  by (simp add: find_crlf_def crlf_def first_crlf_Some)

lemma find_crlf_bounds:
  "find_crlf data i = Some j \<Longrightarrow> i \<le> j \<and> j + 2 \<le> length data"
  by (auto simp: find_crlf_def dest!: first_crlf_bound)

lemma slice_mid [simp]: "slice (pre @ xs @ r) (length pre) (length pre + length xs) = xs"
  by (simp add: slice_def)

lemma show_nat_no_break [simp]: "13 \<notin> set (show_nat n)" "10 \<notin> set (show_nat n)"
  by (auto simp: is_digit_def dest: show_nat_digits)

lemma show_int_no_break [simp]: "13 \<notin> set (show_int i)" "10 \<notin> set (show_int i)"
  by (simp_all add: show_int_def)

lemma ascii_crlf [simp]: "ascii crlf"
  by (simp add: crlf_def)

end
