(* ===== verification/PyFloat.thy ===== *)
theory PyFloat
  imports Complex_Main "HOL-Library.Log_Nat" PyText
begin

text \<open>
  Python's \<open>float\<close>: IEEE binary64 values with signed zero, infinities and NaN, correctly rounded
  addition and subtraction, comparison, \<open>math.ceil\<close>, \<open>float(text)\<close> and \<open>format(x, "g")\<close>.
  A finite non-zero value is the rational number it denotes; \<open>round64\<close> rounds a rational to the
  nearest representable value, ties to even. Expiration times and sorted-set scores use this type;
  the infinities and NaN matter, since \<open>float\<close> accepts them from a client.
\<close>

section \<open>Values\<close>

datatype pyfloat = Finite rat | NegZero | PosInf | NegInf | NaN

definition pow2 :: "int \<Rightarrow> rat" where
  "pow2 e = (if 0 \<le> e then 2 ^ nat e else 1 / 2 ^ nat (- e))"

definition pow10 :: "int \<Rightarrow> rat" where
  "pow10 e = (if 0 \<le> e then 10 ^ nat e else 1 / 10 ^ nat (- e))"

text \<open>The exponent of the leading binary digit of a positive rational.\<close>

definition ilog2 :: "rat \<Rightarrow> int" where
  "ilog2 x = (case quotient_of x of (p, q) \<Rightarrow>
     (let k = bitlen p - bitlen q in if pow2 k \<le> x then k else k - 1))"

definition round_half_even :: "rat \<Rightarrow> int" where
  "round_half_even x =
     (let f = \<lfloor>x\<rfloor>; d = x - of_int f
      in if d < 1 / 2 then f
         else if 1 / 2 < d then f + 1
         else if even f then f else f + 1)"

definition round64 :: "rat \<Rightarrow> pyfloat" where
  "round64 x =
     (if x = 0 then Finite 0
      else let e = ilog2 \<bar>x\<bar>;
               q = pow2 (max e (- 1022) - 52);
               y = of_int (round_half_even (x / q)) * q
           in if 1023 \<le> e \<and> pow2 1024 \<le> \<bar>y\<bar> then (if x < 0 then NegInf else PosInf)
              else if y = 0 then (if x < 0 then NegZero else Finite 0)
              else Finite y)"

section \<open>Arithmetic and comparison\<close>

fun fneg :: "pyfloat \<Rightarrow> pyfloat" where
  "fneg (Finite x) = (if x = 0 then NegZero else Finite (- x))"
| "fneg NegZero = Finite 0"
| "fneg PosInf = NegInf"
| "fneg NegInf = PosInf"
| "fneg NaN = NaN"

fun fadd :: "pyfloat \<Rightarrow> pyfloat \<Rightarrow> pyfloat" where
  "fadd NaN _ = NaN"
| "fadd _ NaN = NaN"
| "fadd PosInf NegInf = NaN"
| "fadd NegInf PosInf = NaN"
| "fadd PosInf _ = PosInf"
| "fadd _ PosInf = PosInf"
| "fadd NegInf _ = NegInf"
| "fadd _ NegInf = NegInf"
| "fadd NegZero y = y"
| "fadd x NegZero = x"
| "fadd (Finite x) (Finite y) = round64 (x + y)"

definition fsub :: "pyfloat \<Rightarrow> pyfloat \<Rightarrow> pyfloat" where
  "fsub x y = fadd x (fneg y)"

fun fval :: "pyfloat \<Rightarrow> rat" where
  "fval (Finite x) = x"
| "fval _ = 0"

text \<open>\<open>x <= y\<close> and \<open>x == y\<close>; every comparison with NaN is false.\<close>

definition fle :: "pyfloat \<Rightarrow> pyfloat \<Rightarrow> bool" where
  "fle x y \<longleftrightarrow> x \<noteq> NaN \<and> y \<noteq> NaN \<and>
     (x = NegInf \<or> y = PosInf \<or>
      (x \<noteq> PosInf \<and> y \<noteq> NegInf \<and> fval x \<le> fval y))"

definition flt :: "pyfloat \<Rightarrow> pyfloat \<Rightarrow> bool" where
  "flt x y \<longleftrightarrow> fle x y \<and> \<not> fle y x"

definition feq :: "pyfloat \<Rightarrow> pyfloat \<Rightarrow> bool" where
  "feq x y \<longleftrightarrow> fle x y \<and> fle y x"

text \<open>\<open>math.ceil\<close> raises on infinities (\<open>OverflowError\<close>) and on NaN (\<open>ValueError\<close>).\<close>

fun fceil :: "pyfloat \<Rightarrow> py_exc + int" where
  "fceil (Finite x) = Inr \<lceil>x\<rceil>"
| "fceil NegZero = Inr 0"
| "fceil PosInf = Inl OverflowError"
| "fceil NegInf = Inl OverflowError"
| "fceil NaN = Inl ValueError"

section \<open>Reading\<close>

text \<open>
  \<open>float(text)\<close> strips white space, removes underscores that stand between digits, and then reads
  \<open>[sign] (inf | infinity | nan)\<close> in any case or \<open>[sign] digits [. digits] [e [sign] digits]\<close> with
  at least one digit before the exponent.
\<close>

fun drop_underscores :: "nat \<Rightarrow> pystr \<Rightarrow> pystr option" where
  "drop_underscores prev [] = (if prev = 95 then None else Some [])"
| "drop_underscores prev (c # cs) =
     (if c = 95 then (if is_digit prev then drop_underscores c cs else None)
      else if prev = 95 \<and> \<not> is_digit c then None
      else map_option ((#) c) (drop_underscores c cs))"

definition digits_value :: "pystr \<Rightarrow> nat" where
  "digits_value ds = foldl (\<lambda>a c. 10 * a + (c - 48)) 0 ds"

definition read_exponent :: "pystr \<Rightarrow> int option" where
  "read_exponent s =
     (let (neg, t) = (case s of c # cs \<Rightarrow> if c = 45 then (True, cs) else if c = 43 then (False, cs)
                                          else (False, s) | [] \<Rightarrow> (False, s))
      in if t \<noteq> [] \<and> list_all is_digit t
         then Some (if neg then - int (digits_value t) else int (digits_value t))
         else None)"

definition decimal_float :: "bool \<Rightarrow> nat \<Rightarrow> int \<Rightarrow> pyfloat" where
  "decimal_float neg m e =
     (if m = 0 then (if neg then NegZero else Finite 0)
      else round64 ((if neg then -1 else 1) * of_nat m * pow10 e))"

definition read_decimal :: "bool \<Rightarrow> pystr \<Rightarrow> pyfloat option" where
  "read_decimal neg s =
     (let ip = takeWhile is_digit s; r1 = dropWhile is_digit s;
          (fp, r2) = (case r1 of
                        c # cs \<Rightarrow> if c = 46 then (takeWhile is_digit cs, dropWhile is_digit cs)
                                  else ([], r1)
                      | [] \<Rightarrow> ([], r1))
      in if ip @ fp = [] then None
         else (case r2 of
                 [] \<Rightarrow> Some (decimal_float neg (digits_value (ip @ fp)) (- int (length fp)))
               | c # cs \<Rightarrow>
                   if c = 101 \<or> c = 69
                   then map_option
                          (\<lambda>e. decimal_float neg (digits_value (ip @ fp)) (e - int (length fp)))
                          (read_exponent cs)
                   else None))"

definition read_unsigned :: "bool \<Rightarrow> pystr \<Rightarrow> pyfloat option" where
  "read_unsigned neg s =
     (let l = py_lower s
      in if l = lit ''inf'' \<or> l = lit ''infinity'' then Some (if neg then NegInf else PosInf)
         else if l = lit ''nan'' then Some NaN
         else read_decimal neg s)"

definition py_float :: "pystr \<Rightarrow> pyfloat option" where
  "py_float s =
     (case drop_underscores 0 (numeric_text s) of
        None \<Rightarrow> None
      | Some [] \<Rightarrow> None
      | Some (c # cs) \<Rightarrow>
          if c = 45 then read_unsigned True cs
          else if c = 43 then read_unsigned False cs
          else read_unsigned False (c # cs))"

section \<open>Writing\<close>

text \<open>The exponent of the leading decimal digit of a positive rational.\<close>

definition ilog10 :: "rat \<Rightarrow> int" where
  "ilog10 a =
     (if 1 \<le> a then int (length (show_nat (nat \<lfloor>a\<rfloor>))) - 1
      else - int (length (show_nat (nat (\<lceil>1 / a\<rceil> - 1)))))"

text \<open>Six significant digits (as a number of six digits) and the exponent of the first.\<close>

definition six_digits :: "rat \<Rightarrow> nat \<times> int" where
  "six_digits a =
     (let e = ilog10 a; n = nat (round_half_even (a / pow10 (e - 5)))
      in if n = 1000000 then (100000, e + 1) else (n, e))"

definition strip_zeros :: "pystr \<Rightarrow> pystr" where
  "strip_zeros ds = rev (dropWhile ((=) 48) (rev ds))"

definition with_fraction :: "pystr \<Rightarrow> pystr \<Rightarrow> pystr" where
  "with_fraction ip fp = (if strip_zeros fp = [] then ip else ip @ lit ''.'' @ strip_zeros fp)"

definition show_exponent :: "int \<Rightarrow> pystr" where
  "show_exponent e =
     (let d = show_nat (nat \<bar>e\<bar>)
      in (if e < 0 then lit ''-'' else lit ''+'') @ (if length d < 2 then lit ''0'' else []) @ d)"

definition format_positive :: "rat \<Rightarrow> pystr" where
  "format_positive a =
     (case six_digits a of (n, e) \<Rightarrow>
        (let ds = show_nat n
         in if e < -4 \<or> 6 \<le> e
            then with_fraction (take 1 ds) (drop 1 ds) @ lit ''e'' @ show_exponent e
            else if 0 \<le> e then with_fraction (take (nat e + 1) ds) (drop (nat e + 1) ds)
            else with_fraction (lit ''0'') (replicate (nat (- e) - 1) 48 @ ds)))"

fun format_g :: "pyfloat \<Rightarrow> pystr" where
  "format_g (Finite x) =
     (if x = 0 then lit ''0''
      else if x < 0 then lit ''-'' @ format_positive (- x)
      else format_positive x)"
| "format_g NegZero = lit ''-0''"
| "format_g PosInf = lit ''inf''"
| "format_g NegInf = lit ''-inf''"
| "format_g NaN = lit ''nan''"

section \<open>Order\<close>

lemma fle_refl [simp]: "fle x x \<longleftrightarrow> x \<noteq> NaN"
  by (cases x) (auto simp: fle_def)

lemma fle_NaN [simp]: "\<not> fle NaN x" "\<not> fle x NaN"
  by (simp_all add: fle_def)

lemma fle_trans: "fle x y \<Longrightarrow> fle y z \<Longrightarrow> fle x z"
  by (cases x; cases y; cases z) (auto simp: fle_def)

lemma fle_total: "x \<noteq> NaN \<Longrightarrow> y \<noteq> NaN \<Longrightarrow> fle x y \<or> fle y x"
  by (cases x; cases y) (auto simp: fle_def)

lemma feq_trans: "feq x y \<Longrightarrow> feq y z \<Longrightarrow> feq x z"
  by (auto simp: feq_def intro: fle_trans)

section \<open>Rounding\<close>

lemma pow2_powi: "pow2 e = 2 powi e"
  by (simp add: pow2_def power_int_def power_one_over inverse_eq_divide)

lemma pow2_pos [simp]: "0 < pow2 e"
  by (simp add: pow2_def)

lemma pow2_add: "pow2 (a + b) = pow2 a * pow2 b"
  by (simp add: pow2_powi power_int_add)

lemma pow2_mono: "a \<le> b \<Longrightarrow> pow2 a \<le> pow2 b"
  by (simp add: pow2_powi power_int_increasing)

lemma pow2_less: "pow2 a < pow2 b \<Longrightarrow> a < b"
  using pow2_mono[of b a] by force

lemma bitlen_pow2: "0 < p \<Longrightarrow> pow2 (bitlen p - 1) \<le> of_int p" "0 < p \<Longrightarrow> of_int p < pow2 (bitlen p)"
proof -
  assume p: "0 < p"
  then have b: "2 ^ nat (bitlen p - 1) \<le> p" "p < 2 ^ nat (bitlen p)" using bitlen_bounds by auto
  have "0 < bitlen p" using p b(2) by (cases "0 < bitlen p") auto
  then have "pow2 (bitlen p - 1) = of_int (2 ^ nat (bitlen p - 1))" "pow2 (bitlen p) = of_int (2 ^ nat (bitlen p))"
    by (simp_all add: pow2_def)
  then show "pow2 (bitlen p - 1) \<le> of_int p" "of_int p < pow2 (bitlen p)" using b by (simp_all only: of_int_le_iff of_int_less_iff)
qed

lemma ilog2_bounds:
  assumes "0 < x"
  shows "pow2 (ilog2 x) \<le> x" "x < pow2 (ilog2 x + 1)"
proof -
  obtain p q where x: "quotient_of x = (p, q)" by fastforce
  then have q: "0 < q" and xq: "x = of_int p / of_int q" using quotient_of_denom_pos quotient_of_div by auto
  then have p: "0 < p" using assms by (simp add: zero_less_divide_iff)
  let ?k = "bitlen p - bitlen q"
  note b = bitlen_pow2[OF p] bitlen_pow2[OF q]
  have "pow2 (?k - 1) * of_int q \<le> pow2 (?k - 1) * pow2 (bitlen q)" using b(4) by (simp add: less_imp_le)
  also have "\<dots> = pow2 (bitlen p - 1)" by (simp flip: pow2_add)
  finally have lo: "pow2 (?k - 1) \<le> x" using b(1) q by (simp add: xq field_simps)
  have "pow2 (bitlen p) = pow2 (?k + 1) * pow2 (bitlen q - 1)" by (simp flip: pow2_add)
  also have "\<dots> \<le> pow2 (?k + 1) * of_int q" using b(3) by (simp add: less_imp_le)
  finally have "x < pow2 (?k + 1)" using b(2) q by (simp add: xq field_simps)
  then show "pow2 (ilog2 x) \<le> x" "x < pow2 (ilog2 x + 1)" using lo by (auto simp: ilog2_def x Let_def)
qed

lemma round_half_even_mono: "of_int k \<le> x \<Longrightarrow> k \<le> round_half_even x" "x \<le> of_int k \<Longrightarrow> round_half_even x \<le> k"
proof -
  show "k \<le> round_half_even x" if "of_int k \<le> x"
    using that le_floor_iff[of k x] by (auto simp: round_half_even_def Let_def)
  assume x: "x \<le> of_int k"
  show "round_half_even x \<le> k"
  proof (cases "x = of_int \<lfloor>x\<rfloor>")
    case True
    then have "round_half_even x = \<lfloor>x\<rfloor>" by (simp add: round_half_even_def Let_def)
    then show ?thesis using x True by linarith
  next
    case False
    then have "of_int \<lfloor>x\<rfloor> < (of_int k :: rat)" using x of_int_floor_le[of x] by linarith
    then have "\<lfloor>x\<rfloor> < k" by simp
    then show ?thesis by (auto simp: round_half_even_def Let_def)
  qed
qed

text \<open>Rounding respects the integers below \<open>2^53\<close>, which are represented exactly.\<close>

lemma round64_between:
  assumes "0 < x" "of_int k \<le> x" "x \<le> of_int m" "m < 2 ^ 53" "0 \<le> k"
  shows "\<exists>y. round64 x = Finite y \<and> of_int k \<le> y \<and> y \<le> of_int m"
proof -
  let ?e = "ilog2 x" let ?d = "52 - max ?e (- 1022)" let ?q = "pow2 (- ?d)"
  have "pow2 ?e < pow2 53"
  proof -
    have "pow2 ?e \<le> of_int m" using ilog2_bounds(1)[OF assms(1)] assms(3) by linarith
    also have "\<dots> < of_int (2 ^ 53)" using assms(4) by (simp only: of_int_less_iff)
    finally show ?thesis by (simp add: pow2_def)
  qed
  then have e: "?e \<le> 52" "0 \<le> ?d" using pow2_less[of ?e 53] by auto
  have scale: "of_int i = of_int (i * 2 ^ nat ?d) * ?q" for i
    using e(2) by (simp add: pow2_def)
  define r where "r = round_half_even (x / ?q)"
  have q: "0 < ?q" by simp
  have "k * 2 ^ nat ?d \<le> r" unfolding r_def
    by (rule round_half_even_mono) (use assms(2) scale[of k] q in \<open>simp only: pos_le_divide_eq\<close>)
  moreover have "r \<le> m * 2 ^ nat ?d" unfolding r_def
    by (rule round_half_even_mono) (use assms(3) scale[of m] q in \<open>simp only: pos_divide_le_eq\<close>)
  ultimately have y: "of_int k \<le> of_int r * ?q" "of_int r * ?q \<le> of_int m"
    unfolding scale[of k] scale[of m] using q by (simp_all only: mult_le_cancel_right_pos of_int_le_iff)
  have "0 \<le> r" using assms(5) \<open>k * _ \<le> r\<close> by (meson dual_order.trans mult_nonneg_nonneg zero_le_numeral zero_le_power)
  have "max ?e (- 1022) - 52 = - ?d" by simp
  then have "round64 x = Finite (of_int r * ?q)"
    using assms(1) e by (simp add: round64_def Let_def r_def)
  then show ?thesis using y by blast
qed

end
