(* ===== verification/Resp.thy ===== *)
theory Resp
  imports PyText
begin

text \<open>
  The RESP layer (\<open>internal/protocol/resp\<close>): the value types, the request decoder and the response
  encoder.

  The decoder works on the decoded text with an index, as \<open>RespRequestDecoder\<close> does; every error is
  \<open>CommandParseError ERR_PROTOCOL_ERROR\<close>. Its recursion \<open>_decode_value\<close> / \<open>_decode_array\<close> is bounded
  by the interpreter's stack: the first argument is the number of nested calls left, and running
  out of it is Python's \<open>RecursionError\<close>.

  Main results: a frame written by the client conventions decodes item by item and as an array
  (\<open>decode_items_at\<close>, \<open>decode_array_at\<close>), the decoder never reads past the text and always advances
  (\<open>decode_progress\<close>), and it raises nothing but protocol errors as long as the stack is deeper than
  the text is long (\<open>decode_errors\<close>).
\<close>

section \<open>Values and messages\<close>

datatype resp =
    RespSimpleString pystr
  | RespBlobString pystr
  | RespNumber int
  | RespNull
  | RespSimpleError pystr
  | RespArray "resp list"
  | RespMap "(resp \<times> resp) list"
  | RespBoolean bool

definition RESP_OK :: pystr where "RESP_OK = lit ''OK''"
definition RESP_ERR_PREFIX :: pystr where "RESP_ERR_PREFIX = lit ''ERR''"
definition ERR_EMPTY_COMMAND :: pystr where "ERR_EMPTY_COMMAND = lit ''empty command''"
definition ERR_PROTOCOL_ERROR :: pystr where "ERR_PROTOCOL_ERROR = lit ''protocol error''"
definition ERR_UNSUPPORTED_COMMAND :: pystr where
  "ERR_UNSUPPORTED_COMMAND = lit ''unsupported command''"
definition ERR_WRONG_NUMBER_OF_ARGUMENTS :: pystr where
  "ERR_WRONG_NUMBER_OF_ARGUMENTS = lit ''wrong number of arguments''"
definition ERR_INVALID_INTEGER :: pystr where "ERR_INVALID_INTEGER = lit ''invalid integer''"
definition ERR_INVALID_FLOAT :: pystr where "ERR_INVALID_FLOAT = lit ''invalid float''"
definition ERR_INVALID_TTL :: pystr where "ERR_INVALID_TTL = lit ''invalid ttl''"
definition ERR_INVALID_DB :: pystr where "ERR_INVALID_DB = lit ''DB index is out of range''"
definition ERR_UNSUPPORTED_PROTOCOL_VERSION :: pystr where
  "ERR_UNSUPPORTED_PROTOCOL_VERSION = lit ''unsupported protocol version''"
definition ERR_UNSUPPORTED_AUTH :: pystr where
  "ERR_UNSUPPORTED_AUTH = lit ''AUTH is not configured''"
definition ERR_UNSUPPORTED_CLIENT_SUBCOMMAND :: pystr where
  "ERR_UNSUPPORTED_CLIENT_SUBCOMMAND = lit ''unsupported CLIENT subcommand''"
definition ERR_WRONG_TYPE :: pystr where
  "ERR_WRONG_TYPE = lit ''WRONGTYPE Operation against a key holding the wrong kind of value''"

abbreviation protocol_error :: "py_exc + 'a" where
  "protocol_error \<equiv> Inl (CommandParseError ERR_PROTOCOL_ERROR)"

section \<open>Request decoder\<close>

definition read_line :: "pystr \<Rightarrow> nat \<Rightarrow> py_exc + (pystr \<times> nat)" where
  "read_line data start =
     (case find_crlf data start of
        None \<Rightarrow> protocol_error
      | Some end_index \<Rightarrow> Inr (slice data start end_index, end_index + 2))"

definition decode_number :: "pystr \<Rightarrow> nat \<Rightarrow> py_exc + (resp \<times> nat)" where
  "decode_number data index =
     rbind (read_line data (index + 1)) (\<lambda>(number_text, cursor).
       case py_int number_text of
         None \<Rightarrow> protocol_error
       | Some number \<Rightarrow> Inr (RespNumber number, cursor))"

definition decode_simple_string :: "pystr \<Rightarrow> nat \<Rightarrow> py_exc + (resp \<times> nat)" where
  "decode_simple_string data index =
     rbind (read_line data (index + 1)) (\<lambda>(value, cursor). Inr (RespSimpleString value, cursor))"

definition decode_blob_string :: "pystr \<Rightarrow> nat \<Rightarrow> py_exc + (resp \<times> nat)" where
  "decode_blob_string data index =
     rbind (read_line data (index + 1)) (\<lambda>(length_text, cursor).
       case py_int length_text of
         None \<Rightarrow> protocol_error
       | Some len \<Rightarrow>
           if len < 0 then protocol_error
           else let end_index = cursor + nat len
                in if end_index + 2 > length data \<or> slice data end_index (end_index + 2) \<noteq> crlf
                   then protocol_error
                   else Inr (RespBlobString (slice data cursor end_index), end_index + 2))"

function (sequential) decode_value :: "nat \<Rightarrow> pystr \<Rightarrow> nat \<Rightarrow> py_exc + (resp \<times> nat)"
  and decode_array :: "nat \<Rightarrow> pystr \<Rightarrow> nat \<Rightarrow> py_exc + (resp \<times> nat)"
  and decode_items :: "nat \<Rightarrow> nat \<Rightarrow> pystr \<Rightarrow> nat \<Rightarrow> py_exc + (resp list \<times> nat)" where
  "decode_value 0 data index = Inl RecursionError"
| "decode_value (Suc stack) data index =
     (if index \<ge> length data then protocol_error
      else if data ! index = of_char CHR ''*'' then decode_array stack data index
      else if data ! index = of_char CHR ''$'' then decode_blob_string data index
      else if data ! index = of_char CHR ''+'' then decode_simple_string data index
      else if data ! index = of_char CHR '':'' then decode_number data index
      else protocol_error)"
| "decode_array stack data index =
     rbind (read_line data (index + 1)) (\<lambda>(count_text, cursor).
       case py_int count_text of
         None \<Rightarrow> protocol_error
       | Some count \<Rightarrow>
           if count < 0 then protocol_error
           else rbind (decode_items stack (nat count) data cursor)
                  (\<lambda>(items, cursor). Inr (RespArray items, cursor)))"
| "decode_items stack 0 data cursor = Inr ([], cursor)"
| "decode_items stack (Suc n) data cursor =
     rbind (decode_value stack data cursor) (\<lambda>(item, cursor).
       rbind (decode_items stack n data cursor) (\<lambda>(items, cursor). Inr (item # items, cursor)))"
  by pat_completeness auto
termination
  by (relation "measures
        [\<lambda>x. case x of Inl (st, _) \<Rightarrow> st | Inr (Inl (st, _)) \<Rightarrow> st | Inr (Inr (st, _)) \<Rightarrow> st,
         \<lambda>x. case x of Inl _ \<Rightarrow> 0 | Inr (Inl _) \<Rightarrow> 2 | Inr (Inr _) \<Rightarrow> 1,
         \<lambda>x. case x of Inr (Inr (_, n, _)) \<Rightarrow> n | _ \<Rightarrow> 0]") auto

definition decode :: "nat \<Rightarrow> bytes \<Rightarrow> py_exc + resp" where
  "decode stack data =
     (case decode_utf8 data of
        None \<Rightarrow> protocol_error
      | Some txt \<Rightarrow>
          rbind (decode_value stack txt 0) (\<lambda>(v, next_index).
            case v of
              RespArray items \<Rightarrow> if next_index \<noteq> length txt then protocol_error else Inr v
            | _ \<Rightarrow> protocol_error))"

section \<open>Response encoder\<close>

definition flatten_entries :: "(resp \<times> resp) list \<Rightarrow> resp list" where
  "flatten_entries entries = concat (map (\<lambda>(k, v). [k, v]) entries)"

lemma size_flatten_entries:
  "size_list size (flatten_entries es) = size_list (size_prod size size) es"
  by (induction es) (auto simp: flatten_entries_def)

lemma size_flatten_member:
  "(k, v) \<in> set es \<Longrightarrow> size k < Suc (size_list (size_prod size size) es) \<and>
     size v < Suc (size_list (size_prod size size) es)"
  by (induction es) auto

function (sequential) encode :: "int \<Rightarrow> resp \<Rightarrow> bytes" where
  "encode pv (RespSimpleString v) = encode_utf8 (lit ''+'' @ v @ crlf)"
| "encode pv (RespBlobString v) =
     (let payload = encode_utf8 v
      in lit ''$'' @ encode_utf8 (show_nat (length payload)) @ crlf @ payload @ crlf)"
| "encode pv (RespNumber n) = encode_utf8 (lit '':'' @ show_int n @ crlf)"
| "encode pv RespNull = (if pv = 2 then lit ''$-1'' @ crlf else lit ''_'' @ crlf)"
| "encode pv (RespSimpleError m) =
     encode_utf8 (lit ''-'' @ RESP_ERR_PREFIX @ lit '' '' @ m @ crlf)"
| "encode pv (RespBoolean b) =
     (if pv = 2 then encode_utf8 (lit '':'' @ show_nat (if b then 1 else 0) @ crlf)
      else if b then lit ''#t'' @ crlf else lit ''#f'' @ crlf)"
| "encode pv (RespArray items) =
     lit ''*'' @ encode_utf8 (show_nat (length items)) @ crlf @ concat (map (encode pv) items)"
| "encode pv (RespMap entries) =
     (if pv = 2 then encode 2 (RespArray (flatten_entries entries))
      else lit ''%'' @ encode_utf8 (show_nat (length entries)) @ crlf @
           concat (map (\<lambda>(k, v). encode pv k @ encode pv v) entries))"
  by pat_completeness auto
termination
  by (relation "measures [\<lambda>(_, v). size v, \<lambda>(_, v). case v of RespMap _ \<Rightarrow> 1 | _ \<Rightarrow> 0]")
    (auto simp: size_flatten_entries less_Suc_eq_le size_list_estimation'
       dest: size_flatten_member)

section \<open>The decoder advances and stays inside the text\<close>

lemma read_line_bounds:
  "read_line data i = Inr (t, j) \<Longrightarrow> i + 2 \<le> j \<and> j \<le> length data"
  by (auto simp: read_line_def split: option.splits dest: find_crlf_bounds)

lemma decode_number_bounds:
  "decode_number data i = Inr (v, j) \<Longrightarrow> i < j \<and> j \<le> length data"
  by (auto simp: decode_number_def split: option.splits dest!: read_line_bounds)

lemma decode_simple_string_bounds:
  "decode_simple_string data i = Inr (v, j) \<Longrightarrow> i < j \<and> j \<le> length data"
  by (auto simp: decode_simple_string_def dest!: read_line_bounds)

lemma decode_blob_string_bounds:
  "decode_blob_string data i = Inr (v, j) \<Longrightarrow> i < j \<and> j \<le> length data"
  by (auto simp: decode_blob_string_def Let_def split: option.splits if_splits
      dest!: read_line_bounds)

lemma decode_progress:
  "decode_value stack data i = Inr (v, j) \<Longrightarrow> i < j \<and> j \<le> length data"
  "decode_array stack data i = Inr (v, j) \<Longrightarrow> i < j \<and> j \<le> length data"
  "decode_items stack n data i = Inr (vs, j) \<Longrightarrow> i \<le> length data \<Longrightarrow>
     i + n \<le> j \<and> j \<le> length data \<and> length vs = n"
proof (induction stack data i and stack data i and stack n data i arbitrary: v j and v j and vs j
    rule: decode_value_decode_array_decode_items.induct)
  case (2 stack data index)
  then show ?case
    by (auto split: if_splits dest: decode_number_bounds decode_simple_string_bounds
        decode_blob_string_bounds)
next
  case (3 stack data index)
  then show ?case
    by (fastforce split: option.splits if_splits dest: read_line_bounds)
next
  case (5 stack n data cursor)
  obtain item c items where 1: "decode_value stack data cursor = Inr (item, c)"
    and 2: "decode_items stack n data c = Inr (items, j)" and vs: "vs = item # items"
    using "5.prems"(1) by auto
  have "cursor < c \<and> c \<le> length data" using "5.IH"(1)[OF 1] .
  moreover have "c + n \<le> j \<and> j \<le> length data \<and> length items = n"
    using "5.IH"(2)[OF 1 refl 2] calculation by simp
  ultimately show ?case using vs by simp
qed auto

section \<open>Decoding well-formed text\<close>

definition blob_text :: "pystr \<Rightarrow> pystr" where
  "blob_text p = lit ''$'' @ show_nat (length p) @ crlf @ p @ crlf"

definition number_text :: "int \<Rightarrow> pystr" where
  "number_text i = lit '':'' @ show_int i @ crlf"

lemma read_line_at:
  assumes "13 \<notin> set line"
  shows "read_line (pre @ c # line @ crlf @ post) (Suc (length pre)) =
    Inr (line, length pre + 1 + length line + 2)"
proof -
  have "find_crlf ((pre @ [c]) @ line @ crlf @ post) (length (pre @ [c])) =
      Some (length (pre @ [c]) + length line)"
    using assms by (rule find_crlf_line)
  moreover have "slice ((pre @ [c]) @ line @ (crlf @ post)) (length (pre @ [c]))
      (length (pre @ [c]) + length line) = line"
    by (rule slice_mid)
  ultimately show ?thesis by (simp add: read_line_def)
qed

lemma decode_blob_at:
  "decode_value (Suc st) (pre @ blob_text p @ post) (length pre) =
     Inr (RespBlobString p, length pre + length (blob_text p))"
proof -
  let ?c = "of_char CHR ''$'' :: nat"
  let ?h = "show_nat (length p)"
  let ?cur = "length pre + 1 + length ?h + 2"
  let ?data = "pre @ ?c # ?h @ crlf @ p @ crlf @ post"
  have line: "read_line ?data (Suc (length pre)) = Inr (?h, ?cur)"
    using read_line_at[of ?h pre ?c "p @ crlf @ post"] by simp
  have mid: "slice ?data ?cur (?cur + length p) = p"
    using slice_mid[of "pre @ ?c # ?h @ crlf" p "crlf @ post"] by (simp add: crlf_def ac_simps)
  have tail: "slice ?data (?cur + length p) (?cur + length p + 2) = crlf"
    using slice_mid[of "pre @ ?c # ?h @ crlf @ p" crlf post] by (simp add: crlf_def ac_simps)
  have "decode_blob_string ?data (length pre) = Inr (RespBlobString p, ?cur + length p + 2)"
    using line mid tail by (simp add: decode_blob_string_def Let_def crlf_def)
  then show ?thesis by (simp add: blob_text_def lit_def nth_append crlf_def)
qed

lemma decode_number_at:
  "decode_value (Suc st) (pre @ number_text i @ post) (length pre) =
     Inr (RespNumber i, length pre + length (number_text i))"
proof -
  let ?c = "of_char CHR '':'' :: nat"
  have "read_line (pre @ ?c # show_int i @ crlf @ post) (Suc (length pre)) =
      Inr (show_int i, length pre + 1 + length (show_int i) + 2)"
    by (rule read_line_at) simp
  then have "decode_number (pre @ ?c # show_int i @ crlf @ post) (length pre) =
      Inr (RespNumber i, length pre + 1 + length (show_int i) + 2)"
    by (simp add: decode_number_def)
  then show ?thesis by (simp add: number_text_def lit_def nth_append crlf_def)
qed

text \<open>
  Any way \<open>txt\<close> of writing items that decodes item by item decodes as a sequence and, behind an
  array header, as an array.
\<close>

lemma decode_items_at:
  assumes "\<And>x pre post. x \<in> set xs \<Longrightarrow>
      decode_value st (pre @ txt x @ post) (length pre) = Inr (val x, length pre + length (txt x))"
  shows "decode_items st (length xs) (pre @ concat (map txt xs) @ post) (length pre) =
      Inr (map val xs, length pre + length (concat (map txt xs)))"
  using assms
proof (induction xs arbitrary: pre)
  case Nil
  then show ?case by simp
next
  case (Cons x xs)
  have 1: "decode_value st (pre @ txt x @ concat (map txt xs) @ post) (length pre) =
      Inr (val x, length pre + length (txt x))"
    using Cons.prems by simp
  have "decode_items st (length xs) ((pre @ txt x) @ concat (map txt xs) @ post) (length (pre @ txt x)) =
      Inr (map val xs, length (pre @ txt x) + length (concat (map txt xs)))"
    using Cons.prems by (intro Cons.IH) simp
  with 1 show ?case by simp
qed

lemma decode_array_at:
  assumes "\<And>x pre post. x \<in> set xs \<Longrightarrow>
      decode_value st (pre @ txt x @ post) (length pre) = Inr (val x, length pre + length (txt x))"
  shows "decode_value (Suc st)
      (lit ''*'' @ show_nat (length xs) @ crlf @ concat (map txt xs)) 0 =
      Inr (RespArray (map val xs),
           length (lit ''*'' @ show_nat (length xs) @ crlf @ concat (map txt xs)))"
proof -
  let ?c = "of_char CHR ''*'' :: nat"
  let ?h = "show_nat (length xs)"
  let ?body = "concat (map txt xs)"
  have line: "read_line (?c # ?h @ crlf @ ?body) (Suc 0) = Inr (?h, Suc (length ?h + 2))"
    using read_line_at[of ?h "[]" ?c ?body] by simp
  have "decode_items st (length xs) ((?c # ?h @ crlf) @ ?body @ []) (length (?c # ?h @ crlf)) =
      Inr (map val xs, length (?c # ?h @ crlf) + length ?body)"
    using assms by (rule decode_items_at)
  then have items: "decode_items st (length xs) (?c # ?h @ crlf @ ?body) (Suc (length ?h + 2)) =
      Inr (map val xs, Suc (length ?h + 2 + length ?body))"
    by (simp add: crlf_def)
  show ?thesis using line items by (simp add: lit_def crlf_def)
qed

section \<open>Errors of the decoder\<close>

lemma leaf_errors:
  "read_line data i = Inl e \<Longrightarrow> is_command_error e"
  "decode_number data i = Inl e \<Longrightarrow> is_command_error e"
  "decode_simple_string data i = Inl e \<Longrightarrow> is_command_error e"
  "decode_blob_string data i = Inl e \<Longrightarrow> is_command_error e"
  by (auto simp: read_line_def decode_number_def decode_simple_string_def decode_blob_string_def
      rbind_eq_Inl Let_def split: option.splits if_splits)

lemma decode_errors:
  "decode_value stack data i = Inl e \<Longrightarrow> is_command_error e \<or> e = RecursionError \<and> stack \<le> length data - i"
  "decode_array stack data i = Inl e \<Longrightarrow> is_command_error e \<or> e = RecursionError \<and> stack < length data - i"
  "decode_items stack n data i = Inl e \<Longrightarrow> is_command_error e \<or> e = RecursionError \<and> stack \<le> length data - i"
proof (induction stack data i and stack data i and stack n data i arbitrary: e and e and e
    rule: decode_value_decode_array_decode_items.induct)
  case (2 stack data index)
  then show ?case by (fastforce split: if_splits dest: leaf_errors)
next
  case (3 stack data index)
  show ?case
  proof (cases "read_line data (index + 1)")
    case (Inl x)
    then show ?thesis using "3.prems" leaf_errors(1)[OF Inl] by simp
  next
    case (Inr p)
    obtain t cur where p: "p = (t, cur)" by (cases p)
    have "index + 3 \<le> cur" "cur \<le> length data" using read_line_bounds[of data "index + 1"] Inr p by auto
    moreover have "is_command_error e \<or> e = RecursionError \<and> stack \<le> length data - cur"
      using "3.prems" "3.IH" Inr p
      by (auto simp: rbind_eq_Inl split: option.splits if_splits)
    ultimately show ?thesis by auto
  qed
next
  case (5 stack n data cursor)
  show ?case
  proof (cases "decode_value stack data cursor")
    case (Inl x)
    then show ?thesis using "5.prems" "5.IH"(1)[OF Inl] by simp
  next
    case (Inr p)
    obtain item c where p: "p = (item, c)" by (cases p)
    have "cursor < c" using decode_progress(1) Inr p by blast
    moreover have "decode_items stack n data c = Inl e"
      using "5.prems" Inr p by (auto simp: rbind_eq_Inl)
    ultimately show ?thesis using "5.IH"(2)[OF Inr p[symmetric]] by fastforce
  qed
qed auto

end
