(* ===== verification/Command.thy ===== *)
theory Command
  imports Resp PyFloat
begin

text \<open>
  Commands (\<open>internal/command\<close>) and the protocol handler (\<open>internal/protocol/resp/protocol_handler.py\<close>,
  \<open>hello_handler.py\<close>): a decoded request becomes a \<open>Command\<close>, is validated, and is either answered at
  once (\<open>HELLO\<close>, or an error) or handed on.

  Main results: the shape of the arguments of a validated command (\<open>validated_args\<close>, on which the
  command service relies to index and convert them), and that the only exceptions of parsing and
  validation are command errors.
\<close>

section \<open>Commands and their parser\<close>

record command =
  name :: pystr
  arguments :: "pystr list"

text \<open>Indexing a tuple of arguments raises \<open>IndexError\<close> out of range.\<close>

definition arg :: "pystr list \<Rightarrow> nat \<Rightarrow> py_exc + pystr" where
  "arg args i = (if i < length args then Inr (args ! i) else Inl IndexError)"

fun coerce_token :: "resp \<Rightarrow> py_exc + pystr" where
  "coerce_token (RespBlobString v) = Inr v"
| "coerce_token (RespSimpleString v) = Inr v"
| "coerce_token (RespNumber n) = Inr (show_int n)"
| "coerce_token _ = Inl (CommandParseError ERR_PROTOCOL_ERROR)"

fun coerce_tokens :: "resp list \<Rightarrow> py_exc + pystr list" where
  "coerce_tokens [] = Inr []"
| "coerce_tokens (item # items) =
     rbind (coerce_token item) (\<lambda>t. rbind (coerce_tokens items) (\<lambda>ts. Inr (t # ts)))"

definition parse :: "resp list \<Rightarrow> py_exc + command" where
  "parse items =
     (if items = [] then Inl (CommandParseError ERR_EMPTY_COMMAND)
      else rbind (coerce_tokens items) (\<lambda>parts.
        let command_name = py_strip (hd parts)
        in if command_name = [] then Inl (CommandParseError ERR_EMPTY_COMMAND)
           else Inr \<lparr>name = py_upper command_name, arguments = tl parts\<rparr>))"

section \<open>Validator\<close>

definition SUPPORTED_ARITY :: "(pystr, nat) dict" where
  "SUPPORTED_ARITY =
     [(lit ''HELLO'', 1), (lit ''AUTH'', 1), (lit ''SELECT'', 1), (lit ''SET'', 2), (lit ''GET'', 1),
      (lit ''DEL'', 1), (lit ''EXPIRE'', 2), (lit ''TTL'', 1), (lit ''DBSIZE'', 0),
      (lit ''FLUSHDB'', 0), (lit ''HSET'', 3), (lit ''HGET'', 2), (lit ''HDEL'', 2),
      (lit ''HGETALL'', 1), (lit ''LPOP'', 1), (lit ''RPOP'', 1), (lit ''LRANGE'', 3),
      (lit ''SMEMBERS'', 1), (lit ''SISMEMBER'', 2), (lit ''ZRANGE'', 3), (lit ''ZSCORE'', 2)]"

definition MIN_ARITY :: "(pystr, nat) dict" where
  "MIN_ARITY =
     [(lit ''PING'', 0), (lit ''INFO'', 0), (lit ''CLIENT'', 1), (lit ''CONFIG'', 2),
      (lit ''LPUSH'', 2), (lit ''RPUSH'', 2), (lit ''SADD'', 2), (lit ''SREM'', 2),
      (lit ''ZADD'', 3), (lit ''ZREM'', 2)]"

definition invalid :: "pystr \<Rightarrow> py_exc + 'a" where
  "invalid m = Inl (CommandValidationError m)"

definition validate_integer_argument :: "pystr \<Rightarrow> py_exc + int" where
  "validate_integer_argument v =
     (case py_int v of None \<Rightarrow> invalid ERR_INVALID_INTEGER | Some i \<Rightarrow> Inr i)"

definition validate_float_argument :: "pystr \<Rightarrow> py_exc + pyfloat" where
  "validate_float_argument v =
     (case py_float v of None \<Rightarrow> invalid ERR_INVALID_FLOAT | Some x \<Rightarrow> Inr x)"

definition validate_arity :: "command \<Rightarrow> py_exc + unit" where
  "validate_arity c =
     (case map_of SUPPORTED_ARITY (name c) of
        Some n \<Rightarrow>
          if length (arguments c) \<noteq> n then invalid ERR_WRONG_NUMBER_OF_ARGUMENTS else Inr ()
      | None \<Rightarrow>
          (case map_of MIN_ARITY (name c) of
             None \<Rightarrow> invalid ERR_UNSUPPORTED_COMMAND
           | Some n \<Rightarrow>
               if length (arguments c) < n then invalid ERR_WRONG_NUMBER_OF_ARGUMENTS
               else Inr ()))"

text \<open>The integer checks of the bounds of \<open>LRANGE\<close> and \<open>ZRANGE\<close>.\<close>

definition validate_range_bounds :: "command \<Rightarrow> py_exc + unit" where
  "validate_range_bounds c =
     rbind (arg (arguments c) 1) (\<lambda>a. rbind (validate_integer_argument a) (\<lambda>_.
     rbind (arg (arguments c) 2) (\<lambda>b. rbind (validate_integer_argument b) (\<lambda>_. Inr ()))))"

text \<open>The loop over \<open>range(1, len(arguments), 2)\<close> that checks the scores of \<open>ZADD\<close>.\<close>

fun validate_scores :: "pystr list \<Rightarrow> py_exc + unit" where
  "validate_scores (score # member # rest) =
     rbind (validate_float_argument score) (\<lambda>_. validate_scores rest)"
| "validate_scores [score] = rbind (validate_float_argument score) (\<lambda>_. Inr ())"
| "validate_scores [] = Inr ()"

definition validate_config :: "command \<Rightarrow> py_exc + unit" where
  "validate_config c =
     rbind (arg (arguments c) 0) (\<lambda>a0.
       let subcommand = py_upper a0
       in if subcommand = lit ''GET'' then
            (if length (arguments c) \<noteq> 2 then invalid ERR_WRONG_NUMBER_OF_ARGUMENTS else Inr ())
          else if subcommand = lit ''SET'' then
            (if length (arguments c) \<noteq> 3 then invalid ERR_WRONG_NUMBER_OF_ARGUMENTS
             else rbind (arg (arguments c) 2) (\<lambda>a2.
               rbind (validate_integer_argument a2) (\<lambda>v.
                 if v < 0 then invalid ERR_INVALID_INTEGER else Inr ())))
          else invalid ERR_UNSUPPORTED_COMMAND)"

definition validate_client :: "command \<Rightarrow> py_exc + unit" where
  "validate_client c =
     rbind (arg (arguments c) 0) (\<lambda>a0.
       let subcommand = py_upper a0
       in if subcommand = lit ''SETNAME'' then
            (if length (arguments c) \<noteq> 2 then invalid ERR_WRONG_NUMBER_OF_ARGUMENTS else Inr ())
          else if subcommand = lit ''SETINFO'' then
            (if length (arguments c) \<noteq> 3 then invalid ERR_WRONG_NUMBER_OF_ARGUMENTS else Inr ())
          else if subcommand = lit ''MAINT_NOTIFICATIONS'' then
            (if length (arguments c) < 2 then invalid ERR_WRONG_NUMBER_OF_ARGUMENTS else Inr ())
          else invalid ERR_UNSUPPORTED_CLIENT_SUBCOMMAND)"

text \<open>
  The checks of \<open>validate\<close> in their order. Each is guarded by the command's name, so that for a
  given name all but one fall through.
\<close>

definition validate :: "command \<Rightarrow> py_exc + unit" where
  "validate c =
     rbind (validate_arity c) (\<lambda>_.
     rbind (if name c = lit ''HELLO''
            then rbind (arg (arguments c) 0) (\<lambda>a. rbind (validate_integer_argument a) (\<lambda>_. Inr ()))
            else Inr ()) (\<lambda>_.
     if name c = lit ''AUTH'' then Inr () else
     rbind (if name c = lit ''EXPIRE''
            then rbind (arg (arguments c) 1) (\<lambda>a. rbind (validate_float_argument a) (\<lambda>seconds.
                   if fle seconds (Finite 0) then invalid ERR_INVALID_TTL else Inr ()))
            else Inr ()) (\<lambda>_.
     rbind (if name c = lit ''SELECT''
            then rbind (arg (arguments c) 0) (\<lambda>a. rbind (validate_integer_argument a) (\<lambda>db_index.
                   if db_index < 0 then invalid ERR_INVALID_DB else Inr ()))
            else Inr ()) (\<lambda>_.
     rbind (if name c = lit ''LRANGE'' then validate_range_bounds c else Inr ()) (\<lambda>_.
     rbind (if name c = lit ''ZRANGE'' then validate_range_bounds c else Inr ()) (\<lambda>_.
     rbind (if name c = lit ''ZADD''
            then if length (arguments c) mod 2 = 0 then invalid ERR_WRONG_NUMBER_OF_ARGUMENTS
                 else validate_scores (drop 1 (arguments c))
            else Inr ()) (\<lambda>_.
     if name c = lit ''PING'' \<and> length (arguments c) > 1
       then invalid ERR_WRONG_NUMBER_OF_ARGUMENTS else
     if name c = lit ''INFO'' \<and> length (arguments c) > 1
       then invalid ERR_WRONG_NUMBER_OF_ARGUMENTS else
     if name c = lit ''CONFIG'' then validate_config c else
     if name c = lit ''CLIENT'' then validate_client c else Inr ())))))))"

section \<open>HELLO and the protocol handler\<close>

definition hello_handle :: "int \<Rightarrow> resp" where
  "hello_handle version =
     (if version \<notin> {2, 3} then RespSimpleError ERR_UNSUPPORTED_PROTOCOL_VERSION
      else RespMap
        [(RespSimpleString (lit ''server''), RespSimpleString (lit ''mini-redis'')),
         (RespSimpleString (lit ''version''), RespSimpleString (lit ''1.0'')),
         (RespSimpleString (lit ''proto''), RespNumber version)])"

record protocol_result =
  result_command :: "command option"
  result_response :: "resp option"
  result_version :: "int option"

definition has_immediate_response :: "protocol_result \<Rightarrow> bool" where
  "has_immediate_response r \<longleftrightarrow> result_response r \<noteq> None"

definition protocol_handle :: "nat \<Rightarrow> bytes \<Rightarrow> py_exc + protocol_result" where
  "protocol_handle stack data =
     rbind (decode stack data) (\<lambda>request.
     rbind (case request of RespArray items \<Rightarrow> parse items | _ \<Rightarrow> protocol_error) (\<lambda>command.
     rbind (validate command) (\<lambda>_.
       if name command = lit ''HELLO'' then
         rbind (arg (arguments command) 0) (\<lambda>a.
           case py_int a of
             None \<Rightarrow> Inl ValueError
           | Some version \<Rightarrow>
               Inr \<lparr>result_command = None, result_response = Some (hello_handle version),
                    result_version = Some version\<rparr>)
       else Inr \<lparr>result_command = Some command, result_response = None,
                 result_version = None\<rparr>)))"

definition handle_with_error_response :: "nat \<Rightarrow> bytes \<Rightarrow> py_exc + protocol_result" where
  "handle_with_error_response stack data =
     (case protocol_handle stack data of
        Inl e \<Rightarrow>
          if is_command_error e
          then Inr \<lparr>result_command = None, result_response = Some (RespSimpleError (exc_message e)),
                    result_version = None\<rparr>
          else Inl e
      | Inr r \<Rightarrow> Inr r)"

section \<open>What validation guarantees\<close>

lemma validate_integer_eq [simp]:
  "validate_integer_argument v = Inr i \<longleftrightarrow> py_int v = Some i"
  by (auto simp: validate_integer_argument_def invalid_def split: option.splits)

lemma validate_float_eq [simp]:
  "validate_float_argument v = Inr x \<longleftrightarrow> py_float v = Some x"
  by (auto simp: validate_float_argument_def invalid_def split: option.splits)

lemma invalid_neq [simp]: "invalid m \<noteq> Inr a"
  by (simp add: invalid_def)

lemma arg_simps [simp]:
  "arg (a # as) 0 = Inr a" "arg (a # as) (Suc i) = arg as i" "arg [] i = Inl IndexError"
  by (simp_all add: arg_def)

lemma arg_eq_Inr: "arg as i = Inr a \<longleftrightarrow> i < length as \<and> a = as ! i"
  by (auto simp: arg_def)

text \<open>The number of arguments, by the tables.\<close>

lemma validated_arity:
  assumes "validate c = Inr ()"
  shows "map_of SUPPORTED_ARITY (name c) = Some n \<Longrightarrow> length (arguments c) = n"
    "map_of SUPPORTED_ARITY (name c) = None \<Longrightarrow> \<exists>n. map_of MIN_ARITY (name c) = Some n \<and> n \<le> length (arguments c)"
proof -
  have "validate_arity c = Inr ()" using assms by (auto simp: validate_def)
  then show "map_of SUPPORTED_ARITY (name c) = Some n \<Longrightarrow> length (arguments c) = n"
    "map_of SUPPORTED_ARITY (name c) = None \<Longrightarrow> \<exists>n. map_of MIN_ARITY (name c) = Some n \<and> n \<le> length (arguments c)"
    by (auto simp: validate_arity_def split: option.splits if_splits)
qed

text \<open>
  A score list that passed the check and has a member for every score: every second element,
  from the first, is a float.
\<close>

fun scored :: "pystr list \<Rightarrow> bool" where
  "scored (score # member # rest) = (py_float score \<noteq> None \<and> scored rest)"
| "scored [score] = False"
| "scored [] = True"

lemma validated_scores: "validate_scores as = Inr () \<Longrightarrow> even (length as) \<Longrightarrow> scored as"
  by (induction as rule: scored.induct) auto

text \<open>The shape of the arguments of a validated command, by its name.\<close>

definition argument_shape :: "pystr \<Rightarrow> pystr list \<Rightarrow> bool" where
  "argument_shape nm as \<longleftrightarrow>
     (nm \<in> {lit ''SET'', lit ''EXPIRE'', lit ''HGET'', lit ''HDEL'', lit ''SISMEMBER'', lit ''ZSCORE''}
        \<longrightarrow> length as = 2) \<and>
     (nm \<in> {lit ''SELECT'', lit ''GET'', lit ''DEL'', lit ''TTL'', lit ''HGETALL'', lit ''LPOP'',
             lit ''RPOP'', lit ''SMEMBERS''} \<longrightarrow> length as = 1) \<and>
     (nm \<in> {lit ''HSET'', lit ''LRANGE'', lit ''ZRANGE''} \<longrightarrow> length as = 3) \<and>
     (nm \<in> {lit ''LPUSH'', lit ''RPUSH'', lit ''SADD'', lit ''SREM'', lit ''ZREM'', lit ''CONFIG''}
        \<longrightarrow> 2 \<le> length as) \<and>
     (nm = lit ''EXPIRE'' \<longrightarrow> py_float (as ! 1) \<noteq> None) \<and>
     (nm = lit ''SELECT'' \<longrightarrow> py_int (as ! 0) \<noteq> None) \<and>
     (nm \<in> {lit ''LRANGE'', lit ''ZRANGE''} \<longrightarrow> py_int (as ! 1) \<noteq> None \<and> py_int (as ! 2) \<noteq> None) \<and>
     (nm = lit ''ZADD'' \<longrightarrow> 3 \<le> length as \<and> scored (drop 1 as)) \<and>
     (nm = lit ''CLIENT'' \<longrightarrow> 1 \<le> length as) \<and>
     (nm = lit ''CONFIG'' \<and> py_upper (as ! 0) = lit ''SET'' \<longrightarrow>
        length as = 3 \<and> py_int (as ! 2) \<noteq> None)"

lemma validated_args: "validate c = Inr () \<Longrightarrow> argument_shape (name c) (arguments c)"
proof -
  assume v: "validate c = Inr ()"
  note ar = validated_arity[OF v]
  show ?thesis
    unfolding argument_shape_def
  proof (intro conjI impI, goal_cases)
    case 1
    then show ?case using ar(1)[of 2] by (auto simp: SUPPORTED_ARITY_def)
  next
    case 2
    then show ?case using ar(1)[of 1] by (auto simp: SUPPORTED_ARITY_def)
  next
    case 3
    then show ?case using ar(1)[of 3] by (auto simp: SUPPORTED_ARITY_def)
  next
    case 4
    then show ?case using ar(2) by (auto simp: SUPPORTED_ARITY_def MIN_ARITY_def)
  next
    case 9
    then show ?case using ar(2) by (auto simp: SUPPORTED_ARITY_def MIN_ARITY_def)
  next
    case 10
    then have "even (length (drop 1 (arguments c)))" "validate_scores (drop 1 (arguments c)) = Inr ()"
      using v ar(2) by (auto simp: validate_def SUPPORTED_ARITY_def MIN_ARITY_def split: if_splits)
    then show ?case by (rule validated_scores[rotated])
  next
    case 11
    then show ?case using ar(2) by (auto simp: SUPPORTED_ARITY_def MIN_ARITY_def)
  qed (use v in \<open>auto simp: validate_def validate_range_bounds_def validate_config_def Let_def
        arg_eq_Inr split: if_splits\<close>)
qed

lemma argument_shape_simps:
  "argument_shape (lit ''GET'') as \<longleftrightarrow> length as = 1"
  "argument_shape (lit ''DEL'') as \<longleftrightarrow> length as = 1"
  "argument_shape (lit ''TTL'') as \<longleftrightarrow> length as = 1"
  "argument_shape (lit ''HGETALL'') as \<longleftrightarrow> length as = 1"
  "argument_shape (lit ''LPOP'') as \<longleftrightarrow> length as = 1"
  "argument_shape (lit ''RPOP'') as \<longleftrightarrow> length as = 1"
  "argument_shape (lit ''SMEMBERS'') as \<longleftrightarrow> length as = 1"
  "argument_shape (lit ''SET'') as \<longleftrightarrow> length as = 2"
  "argument_shape (lit ''HGET'') as \<longleftrightarrow> length as = 2"
  "argument_shape (lit ''HDEL'') as \<longleftrightarrow> length as = 2"
  "argument_shape (lit ''SISMEMBER'') as \<longleftrightarrow> length as = 2"
  "argument_shape (lit ''ZSCORE'') as \<longleftrightarrow> length as = 2"
  "argument_shape (lit ''LPUSH'') as \<longleftrightarrow> 2 \<le> length as"
  "argument_shape (lit ''RPUSH'') as \<longleftrightarrow> 2 \<le> length as"
  "argument_shape (lit ''SADD'') as \<longleftrightarrow> 2 \<le> length as"
  "argument_shape (lit ''SREM'') as \<longleftrightarrow> 2 \<le> length as"
  "argument_shape (lit ''ZREM'') as \<longleftrightarrow> 2 \<le> length as"
  "argument_shape (lit ''HSET'') as \<longleftrightarrow> length as = 3"
  "argument_shape (lit ''EXPIRE'') as \<longleftrightarrow> length as = 2 \<and> py_float (as ! 1) \<noteq> None"
  "argument_shape (lit ''SELECT'') as \<longleftrightarrow> length as = 1 \<and> py_int (as ! 0) \<noteq> None"
  "argument_shape (lit ''LRANGE'') as \<longleftrightarrow> length as = 3 \<and> py_int (as ! 1) \<noteq> None \<and> py_int (as ! 2) \<noteq> None"
  "argument_shape (lit ''ZRANGE'') as \<longleftrightarrow> length as = 3 \<and> py_int (as ! 1) \<noteq> None \<and> py_int (as ! 2) \<noteq> None"
  "argument_shape (lit ''ZADD'') as \<longleftrightarrow> 3 \<le> length as \<and> scored (drop 1 as)"
  "argument_shape (lit ''CLIENT'') as \<longleftrightarrow> 1 \<le> length as"
  "argument_shape (lit ''CONFIG'') as \<longleftrightarrow> 2 \<le> length as \<and>
     (py_upper (as ! 0) = lit ''SET'' \<longrightarrow> length as = 3 \<and> py_int (as ! 2) \<noteq> None)"
  by (simp_all add: argument_shape_def del: One_nat_def)

text \<open>Parsing and validation raise nothing but command errors.\<close>

lemma clean_invalid [simp]: "clean (invalid m)"
  by (simp add: invalid_def)

lemma clean_validate_argument [simp]:
  "clean (validate_integer_argument v)" "clean (validate_float_argument v)"
  by (simp_all add: validate_integer_argument_def validate_float_argument_def split: option.splits)

lemma clean_parse: "clean (parse items)"
proof -
  have token: "clean (coerce_token item)" for item by (cases item) simp_all
  have "clean (coerce_tokens items)" for items
    by (induction items) (auto intro!: clean_rbind token)
  then show ?thesis by (auto simp: parse_def Let_def intro!: clean_rbind)
qed

lemma clean_arg: "clean (arg as i) \<longleftrightarrow> i < length as"
  by (simp add: arg_def)

lemma clean_scores: "clean (validate_scores as)"
  by (induction as rule: validate_scores.induct) (auto intro!: clean_rbind)

lemma arity_length:
  assumes "validate_arity c = Inr ()"
  shows "map_of SUPPORTED_ARITY (name c) = Some n \<Longrightarrow> length (arguments c) = n"
    "map_of SUPPORTED_ARITY (name c) = None \<Longrightarrow> map_of MIN_ARITY (name c) = Some n \<Longrightarrow> n \<le> length (arguments c)"
  using assms by (auto simp: validate_arity_def split: option.splits if_splits)

lemma clean_validate: "clean (validate c)"
proof -
  have arity: "clean (validate_arity c)"
    by (simp add: validate_arity_def split: option.splits)
  have range: "length (arguments c) = 3 \<Longrightarrow> clean (validate_range_bounds c)"
    by (auto simp: validate_range_bounds_def clean_arg intro!: clean_rbind)
  have config: "validate_arity c = Inr a \<Longrightarrow> name c = lit ''CONFIG'' \<Longrightarrow> clean (validate_config c)" for a
    using arity_length(2)[of c 2]
    by (auto simp: SUPPORTED_ARITY_def MIN_ARITY_def validate_config_def clean_arg Let_def
        intro!: clean_rbind)
  have client: "validate_arity c = Inr a \<Longrightarrow> name c = lit ''CLIENT'' \<Longrightarrow> clean (validate_client c)" for a
    using arity_length(2)[of c 1]
    by (auto simp: SUPPORTED_ARITY_def MIN_ARITY_def validate_client_def clean_arg Let_def
        intro!: clean_rbind)
  show ?thesis
    unfolding validate_def
    by (intro clean_rbind clean_if arity config client)
      (auto dest!: arity_length(1) intro!: range clean_scores
        simp: clean_arg SUPPORTED_ARITY_def MIN_ARITY_def)
qed

end
