(* ===== verification/Repository.thy ===== *)
theory Repository
  imports PyFloat
begin

text \<open>
  The in-memory repositories (\<open>internal/repository\<close>): typed entries in a dictionary of keys, and a
  dictionary of expiration times. Both implement the keyed-store interface; the abstract classes
  \<open>StoreRepository\<close> and \<open>TtlRepository\<close> are that interface.

  A \<open>ValueEntry\<close> pairs a type tag with a value; every place of the sources that builds one pairs the
  tag with a value of that type, so an entry is a datatype with one constructor per tag and
  \<open>entry_type\<close> reads the tag. A hash and a sorted set are dictionaries, a set is a list without
  repetition (the sources read a set only by membership, size and in sorted order).
\<close>

section \<open>Entries\<close>

datatype value_type = STRING | HASH | LIST | SET | ZSET

datatype value_entry =
    StringEntry pystr
  | HashEntry "(pystr, pystr) dict"
  | ListEntry "pystr list"
  | SetEntry "pystr list"
  | ZsetEntry "(pystr, pyfloat) dict"

fun entry_type :: "value_entry \<Rightarrow> value_type" where
  "entry_type (StringEntry _) = STRING"
| "entry_type (HashEntry _) = HASH"
| "entry_type (ListEntry _) = LIST"
| "entry_type (SetEntry _) = SET"
| "entry_type (ZsetEntry _) = ZSET"

type_synonym store_repo = "(pystr, value_entry) dict"
type_synonym ttl_repo = "(pystr, pyfloat) dict"

section \<open>The store\<close>

definition store_list_keys :: "store_repo \<Rightarrow> pystr list" where
  "store_list_keys st = keys_of st"

definition store_get :: "store_repo \<Rightarrow> pystr \<Rightarrow> value_entry option" where
  "store_get st key = map_of st key"

definition store_set :: "pystr \<Rightarrow> value_entry \<Rightarrow> store_repo \<Rightarrow> store_repo" where
  "store_set key entry st = AList.update key entry st"

text \<open>\<open>delete\<close> returns whether the key was there; the repository without it is the second component.\<close>

definition store_delete :: "pystr \<Rightarrow> store_repo \<Rightarrow> bool \<times> store_repo" where
  "store_delete key st = (map_of st key \<noteq> None, AList.delete key st)"

section \<open>Expiration times\<close>

definition ttl_list_keys :: "ttl_repo \<Rightarrow> pystr list" where
  "ttl_list_keys tr = keys_of tr"

definition get_expiration :: "ttl_repo \<Rightarrow> pystr \<Rightarrow> pyfloat option" where
  "get_expiration tr key = map_of tr key"

definition set_expiration :: "pystr \<Rightarrow> pyfloat \<Rightarrow> ttl_repo \<Rightarrow> ttl_repo" where
  "set_expiration key expires_at tr = AList.update key expires_at tr"

definition delete_expiration :: "pystr \<Rightarrow> ttl_repo \<Rightarrow> ttl_repo" where
  "delete_expiration key tr = AList.delete key tr"

section \<open>Both are keyed stores\<close>

abbreviation store_remove :: "pystr \<Rightarrow> store_repo \<Rightarrow> store_repo" where
  "store_remove key st \<equiv> snd (store_delete key st)"

lemmas repo_defs = store_list_keys_def store_get_def store_set_def store_delete_def
  ttl_list_keys_def get_expiration_def set_expiration_def delete_expiration_def

interpretation store: keyed_store store_list_keys store_get store_set store_remove wf_dict
  by unfold_locales (auto simp: repo_defs dict_simps keys_of_iff wf_dict_def distinct_removeAll)

interpretation expirations: keyed_store ttl_list_keys get_expiration set_expiration
  delete_expiration wf_dict
  by unfold_locales (auto simp: repo_defs dict_simps keys_of_iff wf_dict_def distinct_removeAll)

lemmas repo_get [simp] = store.get_put store.get_remove expirations.get_put expirations.get_remove
lemmas repo_ok [simp] = store.ok_put store.ok_remove expirations.ok_put expirations.ok_remove

end
