(* ===== verification/Expiration.thy ===== *)
theory Expiration
  imports Repository
begin

text \<open>
  Expiration (\<open>internal/expiration\<close>, \<open>internal/clock\<close>): the calculator, the manager that deletes an
  expired key when it is met, and the sweeper that deletes expired keys in batches.

  A clock reading is a float; an operation takes the reading \<open>now\<close> it runs at (the test clock
  \<open>FakeClock\<close> is exactly this: it stands still until it is advanced).

  The keyspace \<open>(store, expirations)\<close> has a live view \<open>live now\<close>: what a client can still see at that
  reading. Purging and sweeping are invisible in it (\<open>live_purge\<close>, \<open>live_sweep\<close>), and every expired
  key in the batch is gone after a sweep.
\<close>

section \<open>Clock and calculator\<close>

record fake_clock =
  current_time :: pyfloat

definition clock_now :: "fake_clock \<Rightarrow> pyfloat" where
  "clock_now c = current_time c"

definition clock_advance :: "pyfloat \<Rightarrow> fake_clock \<Rightarrow> fake_clock" where
  "clock_advance seconds c = c\<lparr>current_time := fadd (current_time c) seconds\<rparr>"

definition calculate_expires_at :: "pyfloat \<Rightarrow> pyfloat \<Rightarrow> pyfloat" where
  "calculate_expires_at now ttl_seconds = fadd now ttl_seconds"

definition is_expired_at :: "pyfloat \<Rightarrow> pyfloat \<Rightarrow> bool" where
  "is_expired_at now expires_at = fle expires_at now"

definition remaining_seconds_at :: "pyfloat \<Rightarrow> pyfloat \<Rightarrow> py_exc + int" where
  "remaining_seconds_at now expires_at =
     rbind (fceil (fsub expires_at now)) (\<lambda>n. Inr (max 0 n))"

section \<open>The manager\<close>

type_synonym keyspace = "store_repo \<times> ttl_repo"

definition is_expired :: "pyfloat \<Rightarrow> pystr \<Rightarrow> keyspace \<Rightarrow> bool" where
  "is_expired now key ks =
     (case get_expiration (snd ks) key of
        None \<Rightarrow> False
      | Some expires_at \<Rightarrow> is_expired_at now expires_at)"

definition delete_key :: "pystr \<Rightarrow> keyspace \<Rightarrow> keyspace" where
  "delete_key key ks = (snd (store_delete key (fst ks)), delete_expiration key (snd ks))"

definition purge_if_expired :: "pyfloat \<Rightarrow> pystr \<Rightarrow> keyspace \<Rightarrow> bool \<times> keyspace" where
  "purge_if_expired now key ks =
     (if \<not> is_expired now key ks then (False, ks) else (True, delete_key key ks))"

definition calculate_remaining_seconds ::
  "pyfloat \<Rightarrow> pystr \<Rightarrow> keyspace \<Rightarrow> py_exc + int option" where
  "calculate_remaining_seconds now key ks =
     (case get_expiration (snd ks) key of
        None \<Rightarrow> Inr None
      | Some expires_at \<Rightarrow> rbind (remaining_seconds_at now expires_at) (\<lambda>n. Inr (Some n)))"

section \<open>The sweeper\<close>

fun sweep_keys :: "pyfloat \<Rightarrow> pystr list \<Rightarrow> nat \<Rightarrow> keyspace \<Rightarrow> nat \<times> keyspace" where
  "sweep_keys now [] removed_count ks = (removed_count, ks)"
| "sweep_keys now (key # rest) removed_count ks =
     (case get_expiration (snd ks) key of
        None \<Rightarrow> sweep_keys now rest removed_count ks
      | Some expires_at \<Rightarrow>
          if \<not> is_expired_at now expires_at then sweep_keys now rest removed_count ks
          else sweep_keys now rest (removed_count + 1) (delete_key key ks))"

text \<open>\<open>keys[: batch]\<close>: a negative batch size cuts that many keys off the end.\<close>

definition take_slice :: "int \<Rightarrow> 'a list \<Rightarrow> 'a list" where
  "take_slice n xs = (if 0 \<le> n then take (nat n) xs else take (length xs - nat (- n)) xs)"

definition sweep_once :: "pyfloat \<Rightarrow> int \<Rightarrow> keyspace \<Rightarrow> nat \<times> keyspace" where
  "sweep_once now batch_size ks =
     sweep_keys now (take_slice batch_size (ttl_list_keys (snd ks))) 0 ks"

text \<open>
  The life of the worker: \<open>start\<close> does nothing on a running sweeper, \<open>stop\<close> nothing on a stopped
  one; \<open>start\<close> clears the stop event and launches a thread, \<open>stop\<close> sets it, waits and forgets the
  thread. The worker's loop sweeps after each interval until the event is set.
\<close>

record sweeper =
  running :: bool
  stop_event :: bool
  worker :: bool

definition sweeper_init :: sweeper where
  "sweeper_init = \<lparr>running = False, stop_event = False, worker = False\<rparr>"

definition sweeper_start :: "sweeper \<Rightarrow> sweeper" where
  "sweeper_start sw =
     (if running sw then sw
      else sw\<lparr>running := True, stop_event := False, worker := True\<rparr>)"

definition sweeper_stop :: "sweeper \<Rightarrow> sweeper" where
  "sweeper_stop sw =
     (if \<not> running sw then sw
      else sw\<lparr>running := False, stop_event := True, worker := False\<rparr>)"

text \<open>
  \<open>_run\<close>: one entry per return of \<open>wait\<close>, with the reading of the clock after it and whether the
  stop event was set then.
\<close>

fun sweeper_run :: "int \<Rightarrow> (bool \<times> pyfloat) list \<Rightarrow> keyspace \<Rightarrow> keyspace" where
  "sweeper_run batch_size [] ks = ks"
| "sweeper_run batch_size ((stopped, now) # rest) ks =
     (if stopped then ks
      else sweeper_run batch_size rest (snd (sweep_once now batch_size ks)))"

section \<open>The live view\<close>

definition live :: "pyfloat \<Rightarrow> keyspace \<Rightarrow> pystr \<Rightarrow> value_entry option" where
  "live now ks key = (if is_expired now key ks then None else store_get (fst ks) key)"

text \<open>What the server keeps between requests: dictionaries, and no expiration without a value.\<close>

definition wf_keyspace :: "keyspace \<Rightarrow> bool" where
  "wf_keyspace ks \<longleftrightarrow> wf_dict (fst ks) \<and> wf_dict (snd ks) \<and>
     (\<forall>key. get_expiration (snd ks) key \<noteq> None \<longrightarrow> store_get (fst ks) key \<noteq> None)"

lemma delete_key_get [simp]:
  "store_get (fst (delete_key key ks)) k = (if k = key then None else store_get (fst ks) k)"
  "get_expiration (snd (delete_key key ks)) k = (if k = key then None else get_expiration (snd ks) k)"
  by (simp_all add: delete_key_def)

lemma wf_delete_key [simp]: "wf_keyspace ks \<Longrightarrow> wf_keyspace (delete_key key ks)"
  unfolding wf_keyspace_def
  by (auto simp: delete_key_def store.ok_remove expirations.ok_remove split: if_splits)

lemma is_expired_delete_key [simp]:
  "is_expired now k (delete_key key ks) \<longleftrightarrow> k \<noteq> key \<and> is_expired now k ks"
  by (simp add: is_expired_def)

lemma purge_simps:
  "fst (purge_if_expired now key ks) = is_expired now key ks"
  "snd (purge_if_expired now key ks) = (if is_expired now key ks then delete_key key ks else ks)"
  by (simp_all add: purge_if_expired_def)

lemma wf_purge [simp]: "wf_keyspace ks \<Longrightarrow> wf_keyspace (snd (purge_if_expired now key ks))"
  by (simp add: purge_simps)

text \<open>A purge is invisible to a client, at the same reading and for every key.\<close>

lemma live_purge: "live now (snd (purge_if_expired now key ks)) = live now ks"
  by (auto simp: fun_eq_iff live_def purge_simps)

text \<open>After a purge of a key, what is stored under it is what is live.\<close>

lemma purge_exact: "store_get (fst (snd (purge_if_expired now key ks))) key = live now ks key"
  by (simp add: live_def purge_simps)

section \<open>Sweeping\<close>

lemma sweep_keys_eq:
  "distinct keys \<Longrightarrow>
   sweep_keys now keys n ks =
     (n + length (filter (\<lambda>k. is_expired now k ks) keys),
      fold delete_key (filter (\<lambda>k. is_expired now k ks) keys) ks)"
proof (induction keys arbitrary: n ks)
  case Nil
  then show ?case by simp
next
  case (Cons key rest)
  have cong: "filter (\<lambda>k. k \<noteq> key \<and> is_expired now k ks) rest =
      filter (\<lambda>k. is_expired now k ks) rest"
    using Cons.prems by (intro filter_cong) auto
  show ?case
  proof (cases "is_expired now key ks")
    case True
    then obtain e where "get_expiration (snd ks) key = Some e" "is_expired_at now e"
      by (auto simp: is_expired_def split: option.splits)
    then show ?thesis using True Cons by (simp add: cong)
  next
    case False
    then have "sweep_keys now (key # rest) n ks = sweep_keys now rest n ks"
      by (auto simp: is_expired_def split: option.splits)
    then show ?thesis using False Cons by simp
  qed
qed

lemma fold_delete_key_get:
  "store_get (fst (fold delete_key ds ks)) k = (if k \<in> set ds then None else store_get (fst ks) k)"
  "get_expiration (snd (fold delete_key ds ks)) k =
     (if k \<in> set ds then None else get_expiration (snd ks) k)"
  by (induction ds arbitrary: ks) auto

lemma wf_fold_delete_key: "wf_keyspace ks \<Longrightarrow> wf_keyspace (fold delete_key ds ks)"
  by (induction ds arbitrary: ks) auto

lemma is_expired_fold_delete_key:
  "is_expired now k (fold delete_key ds ks) \<longleftrightarrow> k \<notin> set ds \<and> is_expired now k ks"
  by (simp add: is_expired_def fold_delete_key_get)

lemma live_fold_delete_key:
  "(\<And>k. k \<in> set ds \<Longrightarrow> is_expired now k ks) \<Longrightarrow> live now (fold delete_key ds ks) = live now ks"
  by (auto simp: fun_eq_iff live_def is_expired_fold_delete_key fold_delete_key_get)

lemma distinct_take_slice: "distinct xs \<Longrightarrow> distinct (take_slice n xs)"
  by (simp add: take_slice_def)

abbreviation sweep_batch :: "pyfloat \<Rightarrow> int \<Rightarrow> keyspace \<Rightarrow> pystr list" where
  "sweep_batch now n ks \<equiv>
     filter (\<lambda>k. is_expired now k ks) (take_slice n (ttl_list_keys (snd ks)))"

lemma sweep_once_eq:
  "wf_keyspace ks \<Longrightarrow>
   sweep_once now n ks = (length (sweep_batch now n ks), fold delete_key (sweep_batch now n ks) ks)"
  using sweep_keys_eq[of "take_slice n (ttl_list_keys (snd ks))" now 0 ks]
  by (simp add: sweep_once_def wf_keyspace_def expirations.distinct_keys distinct_take_slice)

lemma wf_sweep_once [simp]: "wf_keyspace ks \<Longrightarrow> wf_keyspace (snd (sweep_once now n ks))"
  by (simp add: sweep_once_eq wf_fold_delete_key)

lemma live_sweep: "wf_keyspace ks \<Longrightarrow> live now (snd (sweep_once now n ks)) = live now ks"
  by (auto simp: sweep_once_eq intro!: live_fold_delete_key)

end
