(* ===== verification/Eviction.thy ===== *)
theory Eviction
  imports Prelude
begin

text \<open>
  The eviction loop as an interface. Two components hold a bounded number of bytes by the same
  scheme: while the bytes in use exceed the limit, drop the least recently used key that is not
  protected; if only protected keys are left and the limit is still exceeded, drop those. What the
  scheme guarantees is proved here once, from what one step of it does.
\<close>

section \<open>The scan for the oldest key\<close>

text \<open>
  One pass over the keys that keeps the first unprotected key of least rank. The accumulator pairs
  the key with its rank; \<open>None\<close> stands for no key yet and an infinite rank.
\<close>

fun pick_oldest :: "('k \<Rightarrow> nat) \<Rightarrow> 'k list \<Rightarrow> 'k list \<Rightarrow> ('k \<times> nat) option \<Rightarrow> ('k \<times> nat) option" where
  "pick_oldest rank protected [] oldest = oldest"
| "pick_oldest rank protected (key # rest) oldest =
     (if key \<in> set protected then pick_oldest rank protected rest oldest
      else if (case oldest of None \<Rightarrow> True | Some (_, a) \<Rightarrow> rank key < a)
           then pick_oldest rank protected rest (Some (key, rank key))
           else pick_oldest rank protected rest oldest)"

lemma pick_oldest_None:
  "pick_oldest rank ps ks oldest = None \<longleftrightarrow> oldest = None \<and> set ks \<subseteq> set ps"
  by (induction ks arbitrary: oldest) (auto simp del: not_None_eq split: option.split)

lemma pick_oldest_member:
  "pick_oldest rank ps ks oldest = Some (k, a) \<Longrightarrow>
     oldest = Some (k, a) \<or> k \<in> set ks - set ps \<and> a = rank k"
proof (induction ks arbitrary: oldest)
  case (Cons key ks)
  then show ?case
    by (cases "key \<in> set ps") (auto split: if_splits dest!: Cons.IH)
qed simp

lemma pick_oldest_least:
  "pick_oldest rank ps ks oldest = Some (k, a) \<Longrightarrow>
     (\<forall>j \<in> set ks - set ps. a \<le> rank j) \<and> (\<forall>j b. oldest = Some (j, b) \<longrightarrow> a \<le> b)"
proof (induction ks arbitrary: oldest)
  case (Cons key ks)
  show ?case
  proof (cases "key \<in> set ps")
    case True
    then show ?thesis using Cons by auto
  next
    case free: False
    show ?thesis
    proof (cases "case oldest of None \<Rightarrow> True | Some (_, b) \<Rightarrow> rank key < b")
      case True
      then have "pick_oldest rank ps ks (Some (key, rank key)) = Some (k, a)"
        using Cons.prems free by simp
      then show ?thesis using Cons.IH True by (fastforce split: option.splits)
    next
      case False
      then have "pick_oldest rank ps ks oldest = Some (k, a)" using Cons.prems free by simp
      then show ?thesis using Cons.IH False by (fastforce split: option.splits)
    qed
  qed
qed simp

section \<open>The loop\<close>

locale lru_store =
  fixes keys :: "'s \<Rightarrow> 'k list"
    and used :: "'s \<Rightarrow> nat"
    and rank :: "'s \<Rightarrow> 'k \<Rightarrow> nat"
    and candidate :: "'k list \<Rightarrow> 's \<Rightarrow> 'k option"
    and evict :: "'k \<Rightarrow> 's \<Rightarrow> 's"
    and loop :: "'k list \<Rightarrow> int \<Rightarrow> 's \<Rightarrow> 's"
    and ok :: "'s \<Rightarrow> bool"
  assumes cand_None: "ok s \<Longrightarrow> candidate ps s = None \<Longrightarrow> set (keys s) \<subseteq> set ps"
    and cand_Some: "ok s \<Longrightarrow> candidate ps s = Some k \<Longrightarrow> k \<in> set (keys s) - set ps"
    and cand_min: "ok s \<Longrightarrow> candidate ps s = Some k \<Longrightarrow> j \<in> set (keys s) - set ps \<Longrightarrow>
      rank s k \<le> rank s j"
    and evict_keys: "ok s \<Longrightarrow> set (keys (evict k s)) = set (keys s) - {k}"
    and evict_rank: "ok s \<Longrightarrow> j \<noteq> k \<Longrightarrow> rank (evict k s) j = rank s j"
    and evict_used: "ok s \<Longrightarrow> used (evict k s) \<le> used s"
    and evict_ok: "ok s \<Longrightarrow> ok (evict k s)"
    and loop_step: "ok s \<Longrightarrow> loop ps m s =
      (if int (used s) > m
       then (case candidate ps s of None \<Rightarrow> s | Some k \<Rightarrow> loop ps m (evict k s))
       else s)"
begin

text \<open>Whatever one eviction keeps, the loop keeps; the loop ends because every step drops a key.\<close>

lemma loop_keeps:
  assumes "ok s" "P s"
    and step: "\<And>s k. ok s \<Longrightarrow> P s \<Longrightarrow> candidate ps s = Some k \<Longrightarrow> m < int (used s) \<Longrightarrow> P (evict k s)"
  shows "ok (loop ps m s) \<and> P (loop ps m s) \<and>
     (int (used (loop ps m s)) \<le> m \<or> set (keys (loop ps m s)) \<subseteq> set ps)"
  using assms(1,2)
proof (induction "card (set (keys s))" arbitrary: s rule: less_induct)
  case less
  show ?case
  proof (cases "m < int (used s)")
    case False
    then show ?thesis using less.prems loop_step[of s] by simp
  next
    case big: True
    show ?thesis
    proof (cases "candidate ps s")
      case None
      then show ?thesis using less.prems big loop_step[of s] cand_None[of s ps] by simp
    next
      case (Some k)
      have "k \<in> set (keys s)" using cand_Some[OF less.prems(1) Some] by simp
      then have "card (set (keys (evict k s))) < card (set (keys s))"
        unfolding evict_keys[OF less.prems(1)] by (intro card_Diff1_less) auto
      then have "ok (loop ps m (evict k s)) \<and> P (loop ps m (evict k s)) \<and>
          (int (used (loop ps m (evict k s))) \<le> m \<or>
           set (keys (loop ps m (evict k s))) \<subseteq> set ps)"
        using less.hyps[of "evict k s"] less.prems evict_ok step[OF less.prems Some big] by blast
      moreover have "loop ps m s = loop ps m (evict k s)"
        using Some big less.prems loop_step[of s] by simp
      ultimately show ?thesis by simp
    qed
  qed
qed

lemma loop_inv:
  assumes "ok s" "P s"
    and "\<And>s k. ok s \<Longrightarrow> P s \<Longrightarrow> candidate ps s = Some k \<Longrightarrow> m < int (used s) \<Longrightarrow> P (evict k s)"
  shows "P (loop ps m s)"
  using loop_keeps[of s P ps m] assms by blast

lemma loop_ok: "ok s \<Longrightarrow> ok (loop ps m s)"
  using loop_keeps[where P = "\<lambda>_. True"] by blast

lemma loop_bounded:
  "ok s \<Longrightarrow> int (used (loop ps m s)) \<le> m \<or> set (keys (loop ps m s)) \<subseteq> set ps"
  using loop_keeps[where P = "\<lambda>_. True"] by blast

lemma loop_used_le: "ok s \<Longrightarrow> used (loop ps m s) \<le> used s"
  by (rule loop_inv[where P = "\<lambda>t. used t \<le> used s"]) (auto intro: le_trans evict_used)

lemma loop_keys_subset: "ok s \<Longrightarrow> set (keys (loop ps m s)) \<subseteq> set (keys s)"
  by (rule loop_inv[where P = "\<lambda>t. set (keys t) \<subseteq> set (keys s)"]) (auto simp: evict_keys)

text \<open>The loop never drops a protected key.\<close>

lemma loop_protects:
  assumes "ok s" "k \<in> set ps" "k \<in> set (keys s)"
  shows "k \<in> set (keys (loop ps m s))"
proof -
  have "k \<in> set (keys (evict j t))"
    if "ok t" "k \<in> set (keys t)" "candidate ps t = Some j" for t j
    using that assms(2) cand_Some[of t ps j] by (auto simp: evict_keys)
  then show ?thesis using loop_inv[where P = "\<lambda>t. k \<in> set (keys t)"] assms by blast
qed

text \<open>Nothing is dropped while the limit is respected.\<close>

lemma loop_idle: "ok s \<Longrightarrow> int (used s) \<le> m \<Longrightarrow> loop ps m s = s"
  by (simp add: loop_step)

text \<open>
  Least recently used first: a key that was dropped was not used more recently than any
  unprotected key that stayed.
\<close>

lemma loop_lru:
  assumes "ok s" "j \<in> set (keys s)" "j \<notin> set (keys (loop ps m s))"
    and "k \<in> set (keys (loop ps m s))" "k \<notin> set ps"
  shows "rank s j \<le> rank s k"
proof -
  let ?P = "\<lambda>t. set (keys t) \<subseteq> set (keys s) \<and> (\<forall>i \<in> set (keys t). rank t i = rank s i) \<and>
    (\<forall>i \<in> set (keys s) - set (keys t). \<forall>l \<in> set (keys t) - set ps. rank s i \<le> rank s l)"
  have "?P (evict c t)" if t: "ok t" "?P t" "candidate ps t = Some c" for t c
  proof -
    have c: "c \<in> set (keys t) - set ps" using cand_Some t by blast
    have "rank s c \<le> rank s l" if "l \<in> set (keys t) - set ps" for l
      using cand_min[OF t(1,3) that] t(2) c that by simp
    then show ?thesis using t c by (auto simp: evict_keys evict_rank)
  qed
  then have "?P (loop ps m s)"
    using assms(1) by (intro loop_inv[where P = ?P]) simp_all
  then show ?thesis using assms by blast
qed

end

end
