(* ===== verification/ServiceState.thy ===== *)
theory ServiceState
  imports Expiration Eviction Command
begin

text \<open>
  The state of the command service and its bookkeeping (\<open>internal/service\<close>): the five small services
  \<open>SetService\<close>, \<open>GetService\<close>, \<open>DelService\<close>, \<open>ExpireService\<close>, \<open>TtlService\<close> on the shared keyspace, the
  access order, the purge of all expired keys, the memory estimate and the eviction that enforces
  \<open>maxmemory\<close>.

  Main results: the loops that look a listed key up again never find it missing, so they leave the
  state alone and compute the sum and the minimum they are meant to; the eviction loop is an
  instance of the LRU interface; and \<open>_ensure_max_memory\<close> really brings the memory under the limit
  (\<open>ensure_max_memory_limit\<close>).
\<close>

section \<open>The services on the keyspace\<close>

definition set_service :: "pystr \<Rightarrow> pystr \<Rightarrow> keyspace \<Rightarrow> pystr \<times> keyspace" where
  "set_service key v ks =
     (RESP_OK, (store_set key (StringEntry v) (fst ks), delete_expiration key (snd ks)))"

definition get_service :: "pyfloat \<Rightarrow> pystr \<Rightarrow> keyspace \<Rightarrow> value_entry option \<times> keyspace" where
  "get_service now key ks =
     (let ks' = snd (purge_if_expired now key ks) in (store_get (fst ks') key, ks'))"

definition del_service :: "pyfloat \<Rightarrow> pystr \<Rightarrow> keyspace \<Rightarrow> int \<times> keyspace" where
  "del_service now key ks =
     (case purge_if_expired now key ks of (purged, ks1) \<Rightarrow>
        if purged then (0, ks1)
        else case store_delete key (fst ks1) of (deleted, st) \<Rightarrow>
          if \<not> deleted then (0, (st, snd ks1))
          else (1, (st, delete_expiration key (snd ks1))))"

definition expire_service :: "pyfloat \<Rightarrow> pystr \<Rightarrow> pyfloat \<Rightarrow> keyspace \<Rightarrow> int \<times> keyspace" where
  "expire_service now key ttl_seconds ks =
     (case purge_if_expired now key ks of (purged, ks1) \<Rightarrow>
        if purged then (0, ks1)
        else if store_get (fst ks1) key = None then (0, ks1)
        else (1, (fst ks1, set_expiration key (calculate_expires_at now ttl_seconds) (snd ks1))))"

definition ttl_service :: "pyfloat \<Rightarrow> pystr \<Rightarrow> keyspace \<Rightarrow> (py_exc + int) \<times> keyspace" where
  "ttl_service now key ks =
     (case purge_if_expired now key ks of (purged, ks1) \<Rightarrow>
        if purged then (Inr (-2), ks1)
        else if store_get (fst ks1) key = None then (Inr (-2), ks1)
        else if get_expiration (snd ks1) key = None then (Inr (-1), ks1)
        else (rbind (calculate_remaining_seconds now key ks1)
                (\<lambda>remaining. Inr (case remaining of None \<Rightarrow> -1 | Some n \<Rightarrow> n)), ks1))"

section \<open>State\<close>

record service =
  repos :: keyspace
  max_memory_bytes :: "int option"
  access_clock :: nat
  access_order :: "(pystr, nat) dict"
  evicted_keys :: nat

abbreviation entry_of :: "service \<Rightarrow> pystr \<Rightarrow> value_entry option" where
  "entry_of s key \<equiv> store_get (fst (repos s)) key"

abbreviation key_list :: "service \<Rightarrow> pystr list" where
  "key_list s \<equiv> store_list_keys (fst (repos s))"

definition normalize_max_memory_bytes :: "int option \<Rightarrow> int option" where
  "normalize_max_memory_bytes v =
     (case v of None \<Rightarrow> None | Some n \<Rightarrow> if n \<le> 0 then None else Some n)"

definition service_init :: "keyspace \<Rightarrow> int option \<Rightarrow> service" where
  "service_init ks max_memory =
     \<lparr>repos = ks, max_memory_bytes = normalize_max_memory_bytes max_memory,
      access_clock = 0, access_order = [], evicted_keys = 0\<rparr>"

section \<open>Access order\<close>

definition forget_key :: "pystr \<Rightarrow> service \<Rightarrow> service" where
  "forget_key key s = s\<lparr>access_order := AList.delete key (access_order s)\<rparr>"

definition touch_key :: "pystr \<Rightarrow> service \<Rightarrow> service" where
  "touch_key key s =
     (if entry_of s key = None then forget_key key s
      else s\<lparr>access_clock := access_clock s + 1,
             access_order := AList.update key (access_clock s + 1) (access_order s)\<rparr>)"

definition store_entry :: "pystr \<Rightarrow> value_entry \<Rightarrow> service \<Rightarrow> service" where
  "store_entry key entry s =
     touch_key key (s\<lparr>repos := (store_set key entry (fst (repos s)), snd (repos s))\<rparr>)"

definition delete_entry_and_ttl :: "pystr \<Rightarrow> service \<Rightarrow> service" where
  "delete_entry_and_ttl key s = forget_key key (s\<lparr>repos := delete_key key (repos s)\<rparr>)"

definition purge_key :: "pyfloat \<Rightarrow> pystr \<Rightarrow> service \<Rightarrow> service" where
  "purge_key now key s = s\<lparr>repos := snd (purge_if_expired now key (repos s))\<rparr>"

definition purge_and_forget :: "pyfloat \<Rightarrow> pystr \<Rightarrow> service \<Rightarrow> service" where
  "purge_and_forget now key s =
     (let s1 = purge_key now key s
      in if entry_of s1 key = None then forget_key key s1 else s1)"

definition purge_all_expired_keys :: "pyfloat \<Rightarrow> service \<Rightarrow> service" where
  "purge_all_expired_keys now s =
     fold (purge_and_forget now) (ttl_list_keys (snd (repos s))) s"

section \<open>Memory estimate\<close>

definition byte_len :: "pystr \<Rightarrow> nat" where
  "byte_len s = length (encode_utf8 s)"

fun estimate_entry_bytes :: "pystr \<Rightarrow> value_entry \<Rightarrow> nat" where
  "estimate_entry_bytes key (StringEntry v) = byte_len key + byte_len v"
| "estimate_entry_bytes key (HashEntry h) =
     byte_len key + sum_list (map (\<lambda>(field, v). byte_len field + byte_len v) h)"
| "estimate_entry_bytes key (ListEntry vs) = byte_len key + sum_list (map byte_len vs)"
| "estimate_entry_bytes key (SetEntry vs) = byte_len key + sum_list (map byte_len vs)"
| "estimate_entry_bytes key (ZsetEntry z) =
     byte_len key + sum_list (map (\<lambda>(member, score). byte_len member + byte_len (format_g score)) z)"

fun sum_entry_bytes :: "pystr list \<Rightarrow> nat \<Rightarrow> service \<Rightarrow> nat \<times> service" where
  "sum_entry_bytes [] bytes_used s = (bytes_used, s)"
| "sum_entry_bytes (key # rest) bytes_used s =
     (case entry_of s key of
        None \<Rightarrow> sum_entry_bytes rest bytes_used (forget_key key s)
      | Some entry \<Rightarrow> sum_entry_bytes rest (bytes_used + estimate_entry_bytes key entry) s)"

definition current_memory_bytes :: "service \<Rightarrow> nat \<times> service" where
  "current_memory_bytes s = sum_entry_bytes (key_list s) 0 s"

section \<open>Eviction\<close>

text \<open>
  The scan for the least recently used key. The accumulator is the pair of \<open>oldest_key\<close> and
  \<open>oldest_access\<close>; \<open>None\<close> is the start, no key and an infinite access time.
\<close>

definition access_of :: "service \<Rightarrow> pystr \<Rightarrow> nat" where
  "access_of s key = (case map_of (access_order s) key of None \<Rightarrow> 0 | Some a \<Rightarrow> a)"

fun scan_oldest ::
  "pystr list \<Rightarrow> pystr list \<Rightarrow> (pystr \<times> nat) option \<Rightarrow> service \<Rightarrow> (pystr \<times> nat) option \<times> service" where
  "scan_oldest protected [] oldest s = (oldest, s)"
| "scan_oldest protected (key # rest) oldest s =
     (if key \<in> set protected then scan_oldest protected rest oldest s
      else if entry_of s key = None then scan_oldest protected rest oldest (forget_key key s)
      else let access = access_of s key
           in if (case oldest of None \<Rightarrow> True | Some (_, oldest_access) \<Rightarrow> access < oldest_access)
              then scan_oldest protected rest (Some (key, access)) s
              else scan_oldest protected rest oldest s)"

definition eviction_candidate :: "pystr list \<Rightarrow> service \<Rightarrow> pystr option \<times> service" where
  "eviction_candidate protected s =
     (case scan_oldest protected (key_list s) None s of
        (oldest, s') \<Rightarrow> (map_option fst oldest, s'))"

definition evict_key :: "pystr \<Rightarrow> service \<Rightarrow> service" where
  "evict_key key s =
     (let s1 = delete_entry_and_ttl key s in s1\<lparr>evicted_keys := evicted_keys s1 + 1\<rparr>)"

lemma forget_key_frame [simp]:
  "repos (forget_key key s) = repos s"
  "max_memory_bytes (forget_key key s) = max_memory_bytes s"
  "access_clock (forget_key key s) = access_clock s"
  "evicted_keys (forget_key key s) = evicted_keys s"
  "access_order (forget_key key s) = AList.delete key (access_order s)"
  by (simp_all add: forget_key_def)

lemma evict_key_repos [simp]: "repos (evict_key key s) = delete_key key (repos s)"
  by (simp add: evict_key_def Let_def delete_entry_and_ttl_def)

text \<open>A listed key is always found, so the loops over the listed keys do not change the state.\<close>

lemma sum_entry_bytes_eq:
  "(\<And>k. k \<in> set ks \<Longrightarrow> entry_of s k \<noteq> None) \<Longrightarrow>
   sum_entry_bytes ks bytes_used s =
     (bytes_used + sum_list (map (\<lambda>k. estimate_entry_bytes k (the (entry_of s k))) ks), s)"
proof (induction ks arbitrary: bytes_used)
  case Nil
  then show ?case by simp
next
  case (Cons k ks)
  from Cons.prems[of k] obtain e where "entry_of s k = Some e" by auto
  moreover have "sum_entry_bytes ks (bytes_used + estimate_entry_bytes k e) s =
      (bytes_used + estimate_entry_bytes k e +
         sum_list (map (\<lambda>k. estimate_entry_bytes k (the (entry_of s k))) ks), s)"
    using Cons.prems by (intro Cons.IH) auto
  ultimately show ?case by simp
qed

lemma key_list_found: "k \<in> set (key_list s) \<longleftrightarrow> entry_of s k \<noteq> None"
  by (rule store.keys_get)

lemma scan_oldest_eq:
  "(\<And>k. k \<in> set ks \<Longrightarrow> entry_of s k \<noteq> None) \<Longrightarrow>
   scan_oldest ps ks oldest s = (pick_oldest (access_of s) ps ks oldest, s)"
proof (induction ks arbitrary: oldest)
  case (Cons key ks)
  then have "entry_of s key \<noteq> None" "\<And>k. k \<in> set ks \<Longrightarrow> entry_of s k \<noteq> None" by auto
  then show ?case using Cons.IH by (simp add: Let_def del: not_None_eq)
qed simp

abbreviation lru_candidate :: "pystr list \<Rightarrow> service \<Rightarrow> pystr option" where
  "lru_candidate ps s \<equiv> map_option fst (pick_oldest (access_of s) ps (key_list s) None)"

lemma eviction_candidate_eq: "eviction_candidate ps s = (lru_candidate ps s, s)"
  using scan_oldest_eq[of "key_list s" s ps None]
  by (simp add: eviction_candidate_def key_list_found)

definition memory_use :: "service \<Rightarrow> nat" where
  "memory_use s = sum_list (map (\<lambda>k. estimate_entry_bytes k (the (entry_of s k))) (key_list s))"

lemma current_memory_eq: "current_memory_bytes s = (memory_use s, s)"
  using sum_entry_bytes_eq[of "key_list s" s 0]
  by (simp add: current_memory_bytes_def memory_use_def key_list_found)

lemma lru_candidate_member: "lru_candidate ps s = Some k \<Longrightarrow> k \<in> set (key_list s) - set ps"
  by (auto dest: pick_oldest_member)

lemma length_delete_key:
  "k \<in> set (store_list_keys (fst ks)) \<Longrightarrow> length (fst (delete_key k ks)) < length (fst ks)"
proof -
  assume "k \<in> set (store_list_keys (fst ks))"
  then have "length (removeAll k (keys_of (fst ks))) < length (keys_of (fst ks))"
    by (intro length_removeAll_less) (simp add: repo_defs)
  then have "length (keys_of (AList.delete k (fst ks))) < length (keys_of (fst ks))"
    by (simp add: dict_simps)
  then show ?thesis by (simp add: delete_key_def repo_defs keys_of_def)
qed

text \<open>The \<open>while\<close> loop of \<open>_ensure_max_memory\<close>. Each round deletes a stored key, so it ends.\<close>

function evict_loop :: "pystr list \<Rightarrow> int \<Rightarrow> service \<Rightarrow> service" where
  "evict_loop protected m s =
     (case current_memory_bytes s of (bytes_used, s1) \<Rightarrow>
        if int bytes_used > m then
          (case eviction_candidate protected s1 of
             (None, s2) \<Rightarrow> s2
           | (Some key, s2) \<Rightarrow> evict_loop protected m (evict_key key s2))
        else s1)"
  by pat_completeness auto
termination
  by (relation "measure (\<lambda>(_, _, s). length (fst (repos s)))")
    (auto simp: current_memory_eq eviction_candidate_eq intro!: length_delete_key
       dest: lru_candidate_member[OF sym])

declare evict_loop.simps [simp del]

fun evict_protected :: "pystr list \<Rightarrow> int \<Rightarrow> service \<Rightarrow> service" where
  "evict_protected [] m s = s"
| "evict_protected (key # rest) m s =
     (case current_memory_bytes s of (bytes_used, s1) \<Rightarrow>
        if int bytes_used \<le> m then s1
        else if entry_of s1 key = None then evict_protected rest m (forget_key key s1)
        else evict_protected rest m (evict_key key s1))"

definition ensure_max_memory :: "pyfloat \<Rightarrow> pystr list \<Rightarrow> service \<Rightarrow> service" where
  "ensure_max_memory now protected s =
     (case max_memory_bytes s of
        None \<Rightarrow> s
      | Some m \<Rightarrow>
          (let s1 = evict_loop protected m (purge_all_expired_keys now s)
           in case current_memory_bytes s1 of (bytes_used, s2) \<Rightarrow>
                if int bytes_used \<le> m then s2 else evict_protected protected m s2))"

text \<open>Mutating the value of a stored entry in place, as the collection commands do.\<close>

definition put_entry :: "pystr \<Rightarrow> value_entry \<Rightarrow> service \<Rightarrow> service" where
  "put_entry key entry s = s\<lparr>repos := (store_set key entry (fst (repos s)), snd (repos s))\<rparr>"

section \<open>Invariant of the state\<close>

text \<open>
  Between commands: the keyspace is well-formed; every stored key has an access time, access times
  are distinct and at most the access clock; a memory limit is positive.
\<close>

definition wf_access :: "service \<Rightarrow> bool" where
  "wf_access s \<longleftrightarrow> wf_dict (access_order s) \<and>
     (\<forall>k. entry_of s k \<noteq> None \<longrightarrow> map_of (access_order s) k \<noteq> None) \<and>
     (\<forall>k a. map_of (access_order s) k = Some a \<longrightarrow> a \<le> access_clock s) \<and>
     (\<forall>j k a. map_of (access_order s) j = Some a \<longrightarrow> map_of (access_order s) k = Some a \<longrightarrow> j = k)"

definition wf_service :: "service \<Rightarrow> bool" where
  "wf_service s \<longleftrightarrow> wf_keyspace (repos s) \<and> wf_access s \<and>
     (\<forall>m. max_memory_bytes s = Some m \<longrightarrow> 0 < m)"

lemma wf_serviceD:
  assumes "wf_service s"
  shows "wf_keyspace (repos s)" "wf_access s" "wf_dict (fst (repos s))"
    "max_memory_bytes s = Some m \<Longrightarrow> 0 < m"
  using assms by (simp_all add: wf_service_def wf_keyspace_def)

lemma wf_service_init:
  "wf_service (service_init ([], []) max_memory)"
  by (auto simp: wf_service_def service_init_def wf_keyspace_def wf_access_def repo_defs
      normalize_max_memory_bytes_def split: option.splits if_splits)

lemma wf_forget_key: "wf_service s \<Longrightarrow> entry_of s key = None \<Longrightarrow> wf_service (forget_key key s)"
  by (auto simp: wf_service_def wf_access_def dict_simps split: if_splits)

lemma wf_access_bump:
  assumes "wf_access s" "\<And>k. k \<noteq> key \<Longrightarrow> entry_of t k \<noteq> None \<Longrightarrow> entry_of s k \<noteq> None"
    and "access_order t = AList.update key (access_clock s + 1) (access_order s)"
    and "access_clock t = access_clock s + 1"
  shows "wf_access t"
proof -
  have le: "a \<noteq> Suc (access_clock s)" if "map_of (access_order s) k = Some a" for k a
    using assms(1) that by (fastforce simp: wf_access_def)
  show ?thesis
    unfolding wf_access_def
  proof (intro conjI allI impI)
    fix j k a
    assume "map_of (access_order t) j = Some a" "map_of (access_order t) k = Some a"
    then show "j = k"
      using assms(1,3) le[of j a] le[of k a]
      by (auto simp: wf_access_def dict_simps split: if_splits)
  next
    fix k a
    assume "map_of (access_order t) k = Some a"
    then show "a \<le> access_clock t"
      using assms(1,3,4) by (auto simp: wf_access_def dict_simps le_SucI split: if_splits)
  qed (use assms in \<open>auto simp: wf_access_def dict_simps\<close>)
qed

lemma wf_touch_key [simp]: "wf_service s \<Longrightarrow> wf_service (touch_key key s)"
proof (cases "entry_of s key = None")
  case True
  then show "wf_service s \<Longrightarrow> wf_service (touch_key key s)"
    by (simp add: touch_key_def wf_forget_key)
next
  case False
  assume wf: "wf_service s"
  have "wf_access (touch_key key s)"
    by (rule wf_access_bump[of s key]) (use wf False in \<open>auto simp: touch_key_def wf_service_def\<close>)
  then show ?thesis using wf False by (auto simp: wf_service_def touch_key_def)
qed

lemma touch_key_frame [simp]:
  "repos (touch_key key s) = repos s"
  "max_memory_bytes (touch_key key s) = max_memory_bytes s"
  "evicted_keys (touch_key key s) = evicted_keys s"
  by (simp_all add: touch_key_def)

lemma put_entry_frame [simp]:
  "entry_of (put_entry key e s) k = (if k = key then Some e else entry_of s k)"
  "snd (repos (put_entry key e s)) = snd (repos s)"
  "max_memory_bytes (put_entry key e s) = max_memory_bytes s"
  "evicted_keys (put_entry key e s) = evicted_keys s"
  "access_order (put_entry key e s) = access_order s"
  "access_clock (put_entry key e s) = access_clock s"
  by (simp_all add: put_entry_def)

lemma wf_keyspace_put:
  "wf_keyspace ks \<Longrightarrow> wf_keyspace (store_set key e (fst ks), snd ks)"
  "wf_keyspace ks \<Longrightarrow> wf_keyspace (store_set key e (fst ks), delete_expiration key (snd ks))"
  unfolding wf_keyspace_def
  by (auto simp: store.ok_put expirations.ok_remove split: if_splits)

lemma wf_put_entry:
  "wf_service s \<Longrightarrow> entry_of s key \<noteq> None \<Longrightarrow> wf_service (put_entry key e s)"
  by (simp add: wf_service_def wf_access_def put_entry_def wf_keyspace_put)

text \<open>Writing a key and touching it afterwards, whether or not it was stored before.\<close>

lemma wf_write_touch:
  assumes "wf_service s" "wf_keyspace ks"
    and "\<And>k. store_get (fst ks) k = (if k = key then Some e else entry_of s k)"
  shows "wf_service (touch_key key (s\<lparr>repos := ks\<rparr>))"
proof -
  have "wf_access (touch_key key (s\<lparr>repos := ks\<rparr>))"
    by (rule wf_access_bump[of s key]) (use assms in \<open>auto simp: touch_key_def wf_service_def\<close>)
  then show ?thesis using assms by (simp add: wf_service_def touch_key_def)
qed

lemma wf_touch_put [simp]: "wf_service s \<Longrightarrow> wf_service (touch_key key (put_entry key e s))"
  unfolding put_entry_def
  by (rule wf_write_touch[where e = e]) (auto simp: wf_keyspace_put wf_service_def)

lemma store_entry_eq: "store_entry key e s = touch_key key (put_entry key e s)"
  by (simp add: store_entry_def put_entry_def)

lemma wf_repos_shrink:
  assumes "wf_service s" "wf_keyspace ks" "\<And>k. store_get (fst ks) k \<noteq> None \<Longrightarrow> entry_of s k \<noteq> None"
  shows "wf_service (s\<lparr>repos := ks\<rparr>)"
  using assms by (simp add: wf_service_def wf_access_def)

lemma wf_purge_key [simp]: "wf_service s \<Longrightarrow> wf_service (purge_key now key s)"
  unfolding purge_key_def
  by (rule wf_repos_shrink) (auto simp: wf_service_def purge_simps split: if_splits)

lemma wf_delete_entry [simp]: "wf_service s \<Longrightarrow> wf_service (delete_entry_and_ttl key s)"
  unfolding delete_entry_and_ttl_def
  by (rule wf_forget_key, rule wf_repos_shrink) (auto simp: wf_service_def split: if_splits)

lemma wf_evict_key [simp]: "wf_service s \<Longrightarrow> wf_service (evict_key key s)"
  using wf_delete_entry[of s key]
  by (simp add: evict_key_def Let_def wf_service_def wf_access_def)

lemma delete_entry_frame [simp]:
  "repos (delete_entry_and_ttl key s) = delete_key key (repos s)"
  "max_memory_bytes (delete_entry_and_ttl key s) = max_memory_bytes s"
  "access_clock (delete_entry_and_ttl key s) = access_clock s"
  "access_order (delete_entry_and_ttl key s) = AList.delete key (access_order s)"
  "evicted_keys (delete_entry_and_ttl key s) = evicted_keys s"
  by (simp_all add: delete_entry_and_ttl_def)

lemma purge_key_frame [simp]:
  "repos (purge_key now key s) = snd (purge_if_expired now key (repos s))"
  "max_memory_bytes (purge_key now key s) = max_memory_bytes s"
  "evicted_keys (purge_key now key s) = evicted_keys s"
  by (simp_all add: purge_key_def)

section \<open>Purging every expired key\<close>

lemma purge_and_forget_frame [simp]:
  "repos (purge_and_forget now key s) = snd (purge_if_expired now key (repos s))"
  "max_memory_bytes (purge_and_forget now key s) = max_memory_bytes s"
  "evicted_keys (purge_and_forget now key s) = evicted_keys s"
  by (simp_all add: purge_and_forget_def Let_def)

lemma wf_purge_and_forget [simp]: "wf_service s \<Longrightarrow> wf_service (purge_and_forget now key s)"
  by (simp add: purge_and_forget_def Let_def wf_forget_key)

lemma fold_purge_frame:
  "max_memory_bytes (fold (purge_and_forget now) ks s) = max_memory_bytes s"
  "evicted_keys (fold (purge_and_forget now) ks s) = evicted_keys s"
  "is_expired now k (repos (fold (purge_and_forget now) ks s)) \<longleftrightarrow>
     k \<notin> set ks \<and> is_expired now k (repos s)"
  "entry_of (fold (purge_and_forget now) ks s) k =
     (if k \<in> set ks \<and> is_expired now k (repos s) then None else entry_of s k)"
  "get_expiration (snd (repos (fold (purge_and_forget now) ks s))) k =
     (if k \<in> set ks \<and> is_expired now k (repos s) then None
      else get_expiration (snd (repos s)) k)"
  by (induction ks arbitrary: s) (auto simp: purge_simps)

lemma purge_all_frame [simp]:
  "max_memory_bytes (purge_all_expired_keys now s) = max_memory_bytes s"
  "evicted_keys (purge_all_expired_keys now s) = evicted_keys s"
  by (simp_all add: purge_all_expired_keys_def fold_purge_frame)

lemma is_expired_listed: "is_expired now k ks \<Longrightarrow> k \<in> set (ttl_list_keys (snd ks))"
  by (auto simp: is_expired_def expirations.keys_get split: option.splits)

text \<open>Afterwards what is stored is what is live, and nothing is expired any more.\<close>

lemma purge_all_exact:
  "entry_of (purge_all_expired_keys now s) k = live now (repos s) k"
  "\<not> is_expired now k (repos (purge_all_expired_keys now s))"
  "get_expiration (snd (repos (purge_all_expired_keys now s))) k =
     (if is_expired now k (repos s) then None else get_expiration (snd (repos s)) k)"
  by (auto simp: purge_all_expired_keys_def fold_purge_frame live_def dest: is_expired_listed)

lemma wf_purge_all [simp]: "wf_service s \<Longrightarrow> wf_service (purge_all_expired_keys now s)"
proof -
  have "wf_service s \<Longrightarrow> wf_service (fold (purge_and_forget now) ks s)" for ks
    by (induction ks arbitrary: s) auto
  then show "wf_service s \<Longrightarrow> wf_service (purge_all_expired_keys now s)"
    by (simp add: purge_all_expired_keys_def)
qed

lemma live_purge_all: "live now (repos (purge_all_expired_keys now s)) = live now (repos s)"
  by (auto simp: fun_eq_iff live_def purge_all_exact)

section \<open>The eviction loop is an LRU store\<close>

lemma memory_use_dict_sum:
  assumes "wf_dict (fst (repos s))"
  shows "memory_use s = dict_sum estimate_entry_bytes (fst (repos s))"
proof -
  have "map (\<lambda>k. estimate_entry_bytes k (the (map_of d k))) (map fst d) =
      map (\<lambda>(k, v). estimate_entry_bytes k v) d" if "distinct (map fst d)" for d
    using that by auto
  from this[of "fst (repos s)"] show ?thesis
    using assms unfolding memory_use_def dict_sum_def wf_dict_def repo_defs keys_of_def by metis
qed

lemma memory_use_forget [simp]: "memory_use (forget_key key s) = memory_use s"
  by (simp add: memory_use_def)

lemma memory_use_evict_le:
  "wf_dict (fst (repos s)) \<Longrightarrow> memory_use (evict_key key s) \<le> memory_use s"
  by (simp add: memory_use_dict_sum delete_key_def repo_defs dict_sum_delete_le)

lemma access_of_evict: "j \<noteq> k \<Longrightarrow> access_of (evict_key k s) j = access_of s j"
  by (simp add: access_of_def evict_key_def Let_def dict_simps)

lemma evict_loop_step:
  "evict_loop ps m s =
     (if int (memory_use s) > m
      then (case lru_candidate ps s of None \<Rightarrow> s | Some k \<Rightarrow> evict_loop ps m (evict_key k s))
      else s)"
  by (subst evict_loop.simps) (simp add: current_memory_eq eviction_candidate_eq split: option.splits)

interpretation lru: lru_store key_list memory_use access_of lru_candidate evict_key evict_loop
  "\<lambda>s. wf_dict (fst (repos s))"
proof (unfold_locales, goal_cases)
  case (1 s ps)
  then show ?case by (simp add: pick_oldest_None)
next
  case (2 s ps k)
  then show ?case by (intro lru_candidate_member)
next
  case (3 s ps k j)
  then obtain a where p: "pick_oldest (access_of s) ps (key_list s) None = Some (k, a)" by auto
  have "a = access_of s k" using pick_oldest_member[OF p] by simp
  then show ?case using pick_oldest_least[OF p] 3(3) by auto
next
  case (4 s k)
  then show ?case by (simp add: store.keys_remove delete_key_def)
next
  case (8 s ps m)
  show ?case by (rule evict_loop_step)
qed (simp_all add: access_of_evict memory_use_evict_le delete_key_def)

lemma evict_key_frame [simp]:
  "max_memory_bytes (evict_key key s) = max_memory_bytes s"
  "evicted_keys (evict_key key s) = evicted_keys s + 1"
  by (simp_all add: evict_key_def Let_def)

text \<open>Eviction only removes keys: what is left has its value and its expiration unchanged.\<close>

definition shrinks :: "service \<Rightarrow> service \<Rightarrow> bool" where
  "shrinks s t \<longleftrightarrow> max_memory_bytes t = max_memory_bytes s \<and>
     (\<forall>k. entry_of t k = entry_of s k \<and>
            get_expiration (snd (repos t)) k = get_expiration (snd (repos s)) k \<or>
          entry_of t k = None \<and> get_expiration (snd (repos t)) k = None)"

lemma shrinks_refl [simp]: "shrinks s s"
  by (simp add: shrinks_def)

lemma shrinks_entry:
  "shrinks s t \<Longrightarrow> entry_of t k = Some e \<Longrightarrow>
   entry_of s k = Some e \<and> get_expiration (snd (repos t)) k = get_expiration (snd (repos s)) k"
  unfolding shrinks_def by (metis option.distinct(1))

lemma shrinks_trans: "shrinks s t \<Longrightarrow> shrinks t u \<Longrightarrow> shrinks s u"
  unfolding shrinks_def by metis

lemma shrinks_evict: "shrinks s (evict_key key s)"
  by (simp add: shrinks_def)

lemma shrinks_forget: "shrinks s (forget_key key s)"
  by (simp add: shrinks_def)

lemma evict_loop_shrinks: "wf_service s \<Longrightarrow> wf_service (evict_loop ps m s) \<and> shrinks s (evict_loop ps m s)"
  by (rule lru.loop_inv[where P = "\<lambda>t. wf_service t \<and> shrinks s t"])
    (auto dest: wf_serviceD(3) intro: shrinks_trans shrinks_evict)

lemma evict_protected_shrinks:
  "wf_service s \<Longrightarrow> wf_service (evict_protected ps m s) \<and> shrinks s (evict_protected ps m s)"
proof (induction ps m s rule: evict_protected.induct)
  case (2 key rest m s)
  then show ?case
    by (auto simp: current_memory_eq wf_forget_key intro: shrinks_trans shrinks_evict shrinks_forget)
qed simp

lemma evict_protected_bound:
  "wf_service s \<Longrightarrow> 0 \<le> m \<Longrightarrow> set (key_list s) \<subseteq> set ps \<Longrightarrow>
   int (memory_use (evict_protected ps m s)) \<le> m"
proof (induction ps m s rule: evict_protected.induct)
  case (1 m s)
  then show ?case by (simp add: memory_use_def)
next
  case (2 key rest m s)
  show ?case
  proof (cases "int (memory_use s) \<le> m")
    case True
    then show ?thesis by (simp add: current_memory_eq)
  next
    case big: False
    show ?thesis
    proof (cases "entry_of s key = None")
      case True
      then have "set (key_list (forget_key key s)) \<subseteq> set rest"
        using "2.prems"(3) key_list_found[of key s] by auto
      then show ?thesis
        using 2 big True by (simp add: current_memory_eq wf_forget_key)
    next
      case False
      have "set (key_list (evict_key key s)) \<subseteq> set rest"
        using "2.prems" lru.evict_keys[of s key] wf_serviceD(3)[of s] by auto
      then show ?thesis
        using 2 big False by (simp add: current_memory_eq del: not_None_eq)
    qed
  qed
qed

lemma ensure_max_memory_eq:
  "max_memory_bytes s = Some m \<Longrightarrow>
   ensure_max_memory now ps s =
     (let s1 = evict_loop ps m (purge_all_expired_keys now s)
      in if int (memory_use s1) \<le> m then s1 else evict_protected ps m s1)"
  by (simp add: ensure_max_memory_def current_memory_eq Let_def)

lemma ensure_max_memory_shrinks:
  "wf_service s \<Longrightarrow> max_memory_bytes s = Some m \<Longrightarrow>
   wf_service (ensure_max_memory now ps s) \<and>
   shrinks (purge_all_expired_keys now s) (ensure_max_memory now ps s)"
  using evict_loop_shrinks[of "purge_all_expired_keys now s" ps m]
    evict_protected_shrinks[of "evict_loop ps m (purge_all_expired_keys now s)" ps m]
  by (auto simp: ensure_max_memory_eq Let_def intro: shrinks_trans)

lemma wf_ensure_max_memory [simp]: "wf_service s \<Longrightarrow> wf_service (ensure_max_memory now ps s)"
proof (cases "max_memory_bytes s")
  case None
  then show "wf_service s \<Longrightarrow> ?thesis" by (simp add: ensure_max_memory_def)
next
  case (Some m)
  then show "wf_service s \<Longrightarrow> ?thesis" using ensure_max_memory_shrinks by blast
qed

lemma ensure_max_memory_frame [simp]:
  "wf_service s \<Longrightarrow> max_memory_bytes (ensure_max_memory now ps s) = max_memory_bytes s"
proof (cases "max_memory_bytes s")
  case (Some m)
  assume "wf_service s"
  then show ?thesis
    using ensure_max_memory_shrinks[of s m now ps] Some by (simp add: shrinks_def)
qed (simp add: ensure_max_memory_def)

text \<open>The limit is strict: whatever was protected, the memory in use ends up at most the limit.\<close>

lemma ensure_max_memory_limit:
  assumes "wf_service s" "max_memory_bytes s = Some m"
  shows "int (memory_use (ensure_max_memory now ps s)) \<le> m"
proof -
  let ?s1 = "evict_loop ps m (purge_all_expired_keys now s)"
  have wf1: "wf_service (purge_all_expired_keys now s)" using assms(1) by simp
  then have "int (memory_use ?s1) \<le> m \<or> set (key_list ?s1) \<subseteq> set ps"
    by (intro lru.loop_bounded) (rule wf_serviceD(3))
  then show ?thesis
    using assms wf_serviceD(4)[of s m] evict_protected_bound[of ?s1 m ps]
      evict_loop_shrinks[OF wf1, of ps m]
    by (auto simp: ensure_max_memory_eq Let_def)
qed

text \<open>A protected key whose own entry fits within the limit survives.\<close>

lemma ensure_max_memory_keeps:
  assumes "wf_service s" "entry_of s key = Some e" "\<not> is_expired now key (repos s)"
    and fits: "\<And>m. max_memory_bytes s = Some m \<Longrightarrow> int (estimate_entry_bytes key e) \<le> m"
  shows "entry_of (ensure_max_memory now [key] s) key = Some e"
proof (cases "max_memory_bytes s")
  case None
  then show ?thesis using assms by (simp add: ensure_max_memory_def)
next
  case (Some m)
  let ?p = "purge_all_expired_keys now s"
  let ?s1 = "evict_loop [key] m ?p"
  have wf: "wf_service ?p" using assms(1) by simp
  note wd = wf_serviceD(3)[OF this]
  have p: "entry_of ?p key = Some e" using assms by (simp add: purge_all_exact live_def)
  then have "key \<in> set (key_list ?s1)"
    using lru.loop_protects[OF wd] by (simp add: key_list_found)
  then have k1: "entry_of ?s1 key = Some e"
    using evict_loop_shrinks[OF wf, of "[key]" m] p shrinks_entry[of ?p ?s1 key]
    by (auto simp: key_list_found)
  have "int (memory_use ?s1) \<le> m"
  proof (rule ccontr)
    assume "\<not> int (memory_use ?s1) \<le> m"
    then have "set (key_list ?s1) \<subseteq> {key}" using lru.loop_bounded[OF wd, of "[key]" m] by auto
    moreover have "wf_dict (fst (repos ?s1))"
      using evict_loop_shrinks[OF wf] by (blast dest: wf_serviceD(3))
    ultimately have "memory_use ?s1 = estimate_entry_bytes key e"
      using k1 by (simp add: memory_use_dict_sum dict_sum_single repo_defs)
    then show False using fits[OF Some] \<open>\<not> int (memory_use ?s1) \<le> m\<close> by simp
  qed
  then show ?thesis using k1 Some by (simp add: ensure_max_memory_eq Let_def)
qed

text \<open>Access times tell stored keys apart.\<close>

lemma access_times_differ:
  assumes "wf_service s" "entry_of s j \<noteq> None" "entry_of s k \<noteq> None" "access_of s j = access_of s k"
  shows "j = k"
proof -
  obtain a b where "map_of (access_order s) j = Some a" "map_of (access_order s) k = Some b"
    using wf_serviceD(2)[OF assms(1)] assms(2,3) unfolding wf_access_def by blast
  then show ?thesis
    using wf_serviceD(2)[OF assms(1)] assms(4) unfolding wf_access_def access_of_def by simp
qed

end
