(* ===== verification/CommandService.thy ===== *)
theory CommandService
  imports ServiceState
begin

text \<open>
  The commands (\<open>internal/service/command_service.py\<close>): typed access to an entry, the operations on
  hashes, lists, sets and sorted sets, the administrative commands, and the dispatcher \<open>execute\<close>.

  An operation returns its result, or the exception it raises, with the state it leaves behind: a
  \<open>WRONGTYPE\<close> error, for example, is raised after the key was purged or touched. Python mutates the
  collection inside the stored entry; the model writes the entry back with \<open>put_entry\<close>, which keeps
  the key's place in the store.
\<close>

section \<open>Typed access\<close>

definition wrong_type :: "py_exc + 'a" where
  "wrong_type = Inl (CommandValidationError ERR_WRONG_TYPE)"

fun require_string :: "value_entry \<Rightarrow> py_exc + pystr" where
  "require_string (StringEntry v) = Inr v"
| "require_string _ = wrong_type"

definition get_live_entry :: "pyfloat \<Rightarrow> pystr \<Rightarrow> service \<Rightarrow> value_entry option \<times> service" where
  "get_live_entry now key s =
     (let s1 = purge_key now key s
      in case entry_of s1 key of
           None \<Rightarrow> (None, forget_key key s1)
         | Some entry \<Rightarrow> (Some entry, touch_key key s1))"

definition get_typed_entry ::
  "pyfloat \<Rightarrow> pystr \<Rightarrow> value_type \<Rightarrow> service \<Rightarrow> (py_exc + value_entry option) \<times> service" where
  "get_typed_entry now key t s =
     (case get_live_entry now key s of
        (None, s1) \<Rightarrow> (Inr None, s1)
      | (Some entry, s1) \<Rightarrow>
          if entry_type entry \<noteq> t then (wrong_type, s1) else (Inr (Some entry), s1))"

text \<open>The value of an entry of the right type (the type was checked before).\<close>

fun hash_of :: "value_entry \<Rightarrow> (pystr, pystr) dict" where
  "hash_of (HashEntry h) = h"
| "hash_of _ = []"

fun list_of :: "value_entry \<Rightarrow> pystr list" where
  "list_of (ListEntry l) = l"
| "list_of _ = []"

fun set_of :: "value_entry \<Rightarrow> pystr list" where
  "set_of (SetEntry l) = l"
| "set_of _ = []"

fun zset_of :: "value_entry \<Rightarrow> (pystr, pyfloat) dict" where
  "zset_of (ZsetEntry z) = z"
| "zset_of _ = []"

text \<open>The entry of a key, stored fresh when there is none; also the head of \<open>_execute_hset\<close>.\<close>

definition get_or_create ::
  "pyfloat \<Rightarrow> pystr \<Rightarrow> value_type \<Rightarrow> value_entry \<Rightarrow> service \<Rightarrow> (py_exc + value_entry) \<times> service" where
  "get_or_create now key t fresh s =
     sbind (get_typed_entry now key t s) (\<lambda>entry s1.
       case entry of
         None \<Rightarrow> (Inr fresh, store_entry key fresh s1)
       | Some e \<Rightarrow> (Inr e, s1))"

definition get_or_create_list :: "pyfloat \<Rightarrow> pystr \<Rightarrow> service \<Rightarrow> (py_exc + value_entry) \<times> service" where
  "get_or_create_list now key s = get_or_create now key LIST (ListEntry []) s"

definition get_or_create_set :: "pyfloat \<Rightarrow> pystr \<Rightarrow> service \<Rightarrow> (py_exc + value_entry) \<times> service" where
  "get_or_create_set now key s = get_or_create now key SET (SetEntry []) s"

definition get_or_create_zset :: "pyfloat \<Rightarrow> pystr \<Rightarrow> service \<Rightarrow> (py_exc + value_entry) \<times> service" where
  "get_or_create_zset now key s = get_or_create now key ZSET (ZsetEntry []) s"

section \<open>Hashes\<close>

definition execute_hset ::
  "pyfloat \<Rightarrow> pystr \<Rightarrow> pystr \<Rightarrow> pystr \<Rightarrow> service \<Rightarrow> (py_exc + int) \<times> service" where
  "execute_hset now key field v s =
     sbind (get_or_create now key HASH (HashEntry []) s) (\<lambda>entry s1.
       let hash_value = hash_of entry;
           created = (if field \<notin> set (keys_of hash_value) then 1 else 0)
       in (Inr created,
           touch_key key (put_entry key (HashEntry (AList.update field v hash_value)) s1)))"

definition execute_hget ::
  "pyfloat \<Rightarrow> pystr \<Rightarrow> pystr \<Rightarrow> service \<Rightarrow> (py_exc + pystr option) \<times> service" where
  "execute_hget now key field s =
     sbind (get_typed_entry now key HASH s) (\<lambda>entry s1.
       case entry of
         None \<Rightarrow> (Inr None, s1)
       | Some e \<Rightarrow> (Inr (map_of (hash_of e) field), s1))"

definition execute_hdel ::
  "pyfloat \<Rightarrow> pystr \<Rightarrow> pystr \<Rightarrow> service \<Rightarrow> (py_exc + int) \<times> service" where
  "execute_hdel now key field s =
     sbind (get_typed_entry now key HASH s) (\<lambda>entry s1.
       case entry of
         None \<Rightarrow> (Inr 0, s1)
       | Some e \<Rightarrow>
           (let removed = (if field \<in> set (keys_of (hash_of e)) then 1 else 0);
                rest = AList.delete field (hash_of e);
                s2 = put_entry key (HashEntry rest) s1
            in (Inr removed, if rest = [] then delete_entry_and_ttl key s2 else s2)))"

definition execute_hgetall :: "pyfloat \<Rightarrow> pystr \<Rightarrow> service \<Rightarrow> (py_exc + resp) \<times> service" where
  "execute_hgetall now key s =
     sbind (get_typed_entry now key HASH s) (\<lambda>entry s1.
       case entry of
         None \<Rightarrow> (Inr (RespMap []), s1)
       | Some e \<Rightarrow>
           (Inr (RespMap (map (\<lambda>(field, v). (RespBlobString field, RespBlobString v))
                             (sort (hash_of e)))), s1))"

section \<open>Lists\<close>

definition execute_lpush ::
  "pyfloat \<Rightarrow> pystr \<Rightarrow> pystr list \<Rightarrow> service \<Rightarrow> (py_exc + int) \<times> service" where
  "execute_lpush now key vs s =
     sbind (get_or_create_list now key s) (\<lambda>entry s1.
       let list_value = fold (\<lambda>v l. v # l) vs (list_of entry)
       in (Inr (int (length list_value)), touch_key key (put_entry key (ListEntry list_value) s1)))"

definition execute_rpush ::
  "pyfloat \<Rightarrow> pystr \<Rightarrow> pystr list \<Rightarrow> service \<Rightarrow> (py_exc + int) \<times> service" where
  "execute_rpush now key vs s =
     sbind (get_or_create_list now key s) (\<lambda>entry s1.
       let list_value = list_of entry @ vs
       in (Inr (int (length list_value)), touch_key key (put_entry key (ListEntry list_value) s1)))"

definition execute_lpop :: "pyfloat \<Rightarrow> pystr \<Rightarrow> service \<Rightarrow> (py_exc + pystr option) \<times> service" where
  "execute_lpop now key s =
     sbind (get_typed_entry now key LIST s) (\<lambda>entry s1.
       case entry of
         None \<Rightarrow> (Inr None, s1)
       | Some e \<Rightarrow>
           (case list_of e of
              [] \<Rightarrow> (Inr None, s1)
            | v # rest \<Rightarrow>
                (let s2 = put_entry key (ListEntry rest) s1
                 in (Inr (Some v), if rest = [] then delete_entry_and_ttl key s2 else s2))))"

definition execute_rpop :: "pyfloat \<Rightarrow> pystr \<Rightarrow> service \<Rightarrow> (py_exc + pystr option) \<times> service" where
  "execute_rpop now key s =
     sbind (get_typed_entry now key LIST s) (\<lambda>entry s1.
       case entry of
         None \<Rightarrow> (Inr None, s1)
       | Some e \<Rightarrow>
           (if list_of e = [] then (Inr None, s1)
            else let v = last (list_of e); rest = butlast (list_of e);
                     s2 = put_entry key (ListEntry rest) s1
                 in (Inr (Some v), if rest = [] then delete_entry_and_ttl key s2 else s2)))"

definition slice_sequence :: "'a list \<Rightarrow> int \<Rightarrow> int \<Rightarrow> 'a list" where
  "slice_sequence vs start stop =
     (if vs = [] then []
      else
        let len = int (length vs);
            start1 = (if start < 0 then start + len else start);
            stop1 = (if stop < 0 then stop + len else stop);
            start2 = (if start1 < 0 then 0 else start1)
        in if stop1 < 0 \<or> start2 \<ge> len \<or> start2 > stop1 then []
           else let stop2 = (if stop1 \<ge> len then len - 1 else stop1)
                in take (nat (stop2 + 1) - nat start2) (drop (nat start2) vs))"

definition execute_lrange ::
  "pyfloat \<Rightarrow> pystr \<Rightarrow> int \<Rightarrow> int \<Rightarrow> service \<Rightarrow> (py_exc + resp) \<times> service" where
  "execute_lrange now key start stop s =
     sbind (get_typed_entry now key LIST s) (\<lambda>entry s1.
       case entry of
         None \<Rightarrow> (Inr (RespArray []), s1)
       | Some e \<Rightarrow>
           (Inr (RespArray (map RespBlobString (slice_sequence (list_of e) start stop))), s1))"

section \<open>Sets\<close>

fun add_members :: "pystr list \<Rightarrow> int \<Rightarrow> pystr list \<Rightarrow> int \<times> pystr list" where
  "add_members [] created set_value = (created, set_value)"
| "add_members (m # ms) created set_value =
     (if m \<notin> set set_value then add_members ms (created + 1) (set_value @ [m])
      else add_members ms created set_value)"

fun discard_members :: "pystr list \<Rightarrow> int \<Rightarrow> pystr list \<Rightarrow> int \<times> pystr list" where
  "discard_members [] removed set_value = (removed, set_value)"
| "discard_members (m # ms) removed set_value =
     discard_members ms (if m \<in> set set_value then removed + 1 else removed) (removeAll m set_value)"

definition execute_sadd ::
  "pyfloat \<Rightarrow> pystr \<Rightarrow> pystr list \<Rightarrow> service \<Rightarrow> (py_exc + int) \<times> service" where
  "execute_sadd now key members s =
     sbind (get_or_create_set now key s) (\<lambda>entry s1.
       case add_members members 0 (set_of entry) of (created, set_value) \<Rightarrow>
         (Inr created, touch_key key (put_entry key (SetEntry set_value) s1)))"

definition execute_srem ::
  "pyfloat \<Rightarrow> pystr \<Rightarrow> pystr list \<Rightarrow> service \<Rightarrow> (py_exc + int) \<times> service" where
  "execute_srem now key members s =
     sbind (get_typed_entry now key SET s) (\<lambda>entry s1.
       case entry of
         None \<Rightarrow> (Inr 0, s1)
       | Some e \<Rightarrow>
           (case discard_members members 0 (set_of e) of (removed, rest) \<Rightarrow>
              (let s2 = put_entry key (SetEntry rest) s1
               in (Inr removed, if rest = [] then delete_entry_and_ttl key s2 else s2))))"

definition execute_smembers :: "pyfloat \<Rightarrow> pystr \<Rightarrow> service \<Rightarrow> (py_exc + resp) \<times> service" where
  "execute_smembers now key s =
     sbind (get_typed_entry now key SET s) (\<lambda>entry s1.
       case entry of
         None \<Rightarrow> (Inr (RespArray []), s1)
       | Some e \<Rightarrow> (Inr (RespArray (map RespBlobString (sort (set_of e)))), s1))"

definition execute_sismember ::
  "pyfloat \<Rightarrow> pystr \<Rightarrow> pystr \<Rightarrow> service \<Rightarrow> (py_exc + int) \<times> service" where
  "execute_sismember now key member s =
     sbind (get_typed_entry now key SET s) (\<lambda>entry s1.
       case entry of
         None \<Rightarrow> (Inr 0, s1)
       | Some e \<Rightarrow> (Inr (if member \<in> set (set_of e) then 1 else 0), s1))"

section \<open>Sorted sets\<close>

text \<open>
  The loop of \<open>_execute_zadd\<close>. A score that is no number raises \<open>ValueError\<close> and a missing member
  \<open>IndexError\<close>; the pairs added before stay.
\<close>

fun add_scores ::
  "pystr list \<Rightarrow> int \<Rightarrow> (pystr, pyfloat) dict \<Rightarrow> (py_exc + int) \<times> (pystr, pyfloat) dict" where
  "add_scores [] created z = (Inr created, z)"
| "add_scores (score_text # rest) created z =
     (case py_float score_text of
        None \<Rightarrow> (Inl ValueError, z)
      | Some score \<Rightarrow>
          (case rest of
             [] \<Rightarrow> (Inl IndexError, z)
           | member # rest' \<Rightarrow>
               add_scores rest' (if member \<notin> set (keys_of z) then created + 1 else created)
                 (AList.update member score z)))"

definition execute_zadd ::
  "pyfloat \<Rightarrow> pystr \<Rightarrow> pystr list \<Rightarrow> service \<Rightarrow> (py_exc + int) \<times> service" where
  "execute_zadd now key args s =
     sbind (get_or_create_zset now key s) (\<lambda>entry s1.
       case add_scores args 0 (zset_of entry) of (r, z) \<Rightarrow>
         sbind (r, put_entry key (ZsetEntry z) s1) (\<lambda>created s2. (Inr created, touch_key key s2)))"

fun pop_members :: "pystr list \<Rightarrow> int \<Rightarrow> (pystr, pyfloat) dict \<Rightarrow> int \<times> (pystr, pyfloat) dict" where
  "pop_members [] removed z = (removed, z)"
| "pop_members (m # ms) removed z =
     pop_members ms (if m \<in> set (keys_of z) then removed + 1 else removed) (AList.delete m z)"

definition execute_zrem ::
  "pyfloat \<Rightarrow> pystr \<Rightarrow> pystr list \<Rightarrow> service \<Rightarrow> (py_exc + int) \<times> service" where
  "execute_zrem now key members s =
     sbind (get_typed_entry now key ZSET s) (\<lambda>entry s1.
       case entry of
         None \<Rightarrow> (Inr 0, s1)
       | Some e \<Rightarrow>
           (case pop_members members 0 (zset_of e) of (removed, rest) \<Rightarrow>
              (let s2 = put_entry key (ZsetEntry rest) s1
               in (Inr removed, if rest = [] then delete_entry_and_ttl key s2 else s2))))"

text \<open>
  \<open>sorted(items, key=lambda item: (item[1], item[0]))\<close>: Python compares the key tuples by score and,
  for equal scores, by member. A stable insertion sort by that comparison gives the same list as
  Python's sort whenever no score is NaN (with NaN the comparison is no order and Python leaves the
  result open).
\<close>

definition item_less :: "pystr \<times> pyfloat \<Rightarrow> pystr \<times> pyfloat \<Rightarrow> bool" where
  "item_less x y =
     (if feq (snd x) (snd y) then fst x < fst y else flt (snd x) (snd y))"

fun insert_item :: "pystr \<times> pyfloat \<Rightarrow> (pystr, pyfloat) dict \<Rightarrow> (pystr, pyfloat) dict" where
  "insert_item x [] = [x]"
| "insert_item x (y # ys) = (if item_less x y then x # y # ys else y # insert_item x ys)"

definition sort_items :: "(pystr, pyfloat) dict \<Rightarrow> (pystr, pyfloat) dict" where
  "sort_items items = fold insert_item items []"

definition execute_zrange ::
  "pyfloat \<Rightarrow> pystr \<Rightarrow> int \<Rightarrow> int \<Rightarrow> service \<Rightarrow> (py_exc + resp) \<times> service" where
  "execute_zrange now key start stop s =
     sbind (get_typed_entry now key ZSET s) (\<lambda>entry s1.
       case entry of
         None \<Rightarrow> (Inr (RespArray []), s1)
       | Some e \<Rightarrow>
           (let ordered_members = map fst (sort_items (zset_of e))
            in (Inr (RespArray (map RespBlobString (slice_sequence ordered_members start stop))), s1)))"

definition execute_zscore ::
  "pyfloat \<Rightarrow> pystr \<Rightarrow> pystr \<Rightarrow> service \<Rightarrow> (py_exc + pystr option) \<times> service" where
  "execute_zscore now key member s =
     sbind (get_typed_entry now key ZSET s) (\<lambda>entry s1.
       case entry of
         None \<Rightarrow> (Inr None, s1)
       | Some e \<Rightarrow> (Inr (map_option format_g (map_of (zset_of e) member)), s1))"

section \<open>Administration\<close>

definition execute_ping :: "pystr list \<Rightarrow> resp" where
  "execute_ping args = (case args of [] \<Rightarrow> RespSimpleString (lit ''PONG'') | a # _ \<Rightarrow> RespBlobString a)"

definition int_arg :: "pystr \<Rightarrow> py_exc + int" where
  "int_arg v = (case py_int v of None \<Rightarrow> Inl ValueError | Some i \<Rightarrow> Inr i)"

definition float_arg :: "pystr \<Rightarrow> py_exc + pyfloat" where
  "float_arg v = (case py_float v of None \<Rightarrow> Inl ValueError | Some x \<Rightarrow> Inr x)"

definition execute_select :: "pystr \<Rightarrow> py_exc + resp" where
  "execute_select db_index =
     rbind (int_arg db_index) (\<lambda>i.
       if i < 0 then Inl (CommandValidationError ERR_INVALID_DB)
       else Inr (RespSimpleString (lit ''OK'')))"

definition execute_client :: "pystr list \<Rightarrow> py_exc + resp" where
  "execute_client args =
     rbind (arg args 0) (\<lambda>a0.
       if py_upper a0 \<in> {lit ''SETNAME'', lit ''SETINFO'', lit ''MAINT_NOTIFICATIONS''}
       then Inr (RespSimpleString (lit ''OK''))
       else Inl (CommandValidationError ERR_UNSUPPORTED_COMMAND))"

definition execute_dbsize :: "pyfloat \<Rightarrow> service \<Rightarrow> int \<times> service" where
  "execute_dbsize now s =
     (let s1 = purge_all_expired_keys now s in (int (length (key_list s1)), s1))"

definition execute_flushdb :: "service \<Rightarrow> service" where
  "execute_flushdb s =
     (let s1 = fold delete_entry_and_ttl (key_list s) s
      in s1\<lparr>access_order := [], evicted_keys := 0\<rparr>)"

definition join_crlf :: "pystr list \<Rightarrow> pystr" where
  "join_crlf ls = (case ls of [] \<Rightarrow> [] | l # rest \<Rightarrow> l @ concat (map (\<lambda>x. crlf @ x) rest))"

definition or_zero :: "int option \<Rightarrow> int" where
  "or_zero v = (case v of None \<Rightarrow> 0 | Some n \<Rightarrow> n)"

definition execute_info :: "pyfloat \<Rightarrow> pystr list \<Rightarrow> service \<Rightarrow> (py_exc + pystr) \<times> service" where
  "execute_info now args s =
     (if args \<noteq> [] \<and> py_upper (hd args) \<notin> {lit ''ALL'', lit ''MEMORY''}
      then (Inl (CommandValidationError ERR_UNSUPPORTED_COMMAND), s)
      else
        let s1 = purge_all_expired_keys now s
        in case current_memory_bytes s1 of (used_memory, s2) \<Rightarrow>
             (Inr (join_crlf
                [lit ''# Memory'',
                 lit ''used_memory:'' @ show_nat used_memory,
                 lit ''maxmemory:'' @ show_int (or_zero (max_memory_bytes s2)),
                 lit ''keys:'' @ show_nat (length (key_list s2)),
                 lit ''evicted_keys:'' @ show_nat (evicted_keys s2)]), s2))"

definition execute_config :: "pyfloat \<Rightarrow> pystr list \<Rightarrow> service \<Rightarrow> (py_exc + resp) \<times> service" where
  "execute_config now args s =
     sbind (arg args 0, s) (\<lambda>a0 s.
     sbind (arg args 1, s) (\<lambda>a1 s.
       let subcommand = py_upper a0; parameter = py_lower a1
       in if parameter \<noteq> lit ''maxmemory''
            then (Inl (CommandValidationError ERR_UNSUPPORTED_COMMAND), s)
          else if subcommand = lit ''GET'' then
            (Inr (RespArray [RespBlobString (lit ''maxmemory''),
                             RespBlobString (show_int (or_zero (max_memory_bytes s)))]), s)
          else if subcommand = lit ''SET'' then
            sbind (arg args 2, s) (\<lambda>a2 s.
            sbind (int_arg a2, s) (\<lambda>v s.
              let s1 = s\<lparr>max_memory_bytes := normalize_max_memory_bytes (Some v)\<rparr>
              in (Inr (RespSimpleString RESP_OK), ensure_max_memory now [] s1)))
          else (Inl (CommandValidationError ERR_UNSUPPORTED_COMMAND), s)))"

section \<open>The dispatcher\<close>

text \<open>
  The branches of \<open>execute\<close> for the string and expiration commands, and what the other branches do
  with the result of the operation they call.
\<close>

definition run_set :: "pyfloat \<Rightarrow> pystr \<Rightarrow> pystr \<Rightarrow> service \<Rightarrow> (py_exc + resp) \<times> service" where
  "run_set now key v s =
     (case set_service key v (repos s) of (response, ks) \<Rightarrow>
        (Inr (RespSimpleString response),
         ensure_max_memory now [key] (touch_key key (s\<lparr>repos := ks\<rparr>))))"

definition run_get :: "pyfloat \<Rightarrow> pystr \<Rightarrow> service \<Rightarrow> (py_exc + resp) \<times> service" where
  "run_get now key s =
     (case get_service now key (repos s) of (entry, ks) \<Rightarrow>
        let s1 = s\<lparr>repos := ks\<rparr>
        in case entry of
             None \<Rightarrow> (Inr RespNull, forget_key key s1)
           | Some e \<Rightarrow> (rbind (require_string e) (\<lambda>v. Inr (RespBlobString v)), touch_key key s1))"

definition run_del :: "pyfloat \<Rightarrow> pystr \<Rightarrow> service \<Rightarrow> (py_exc + resp) \<times> service" where
  "run_del now key s =
     (case del_service now key (repos s) of (deleted, ks) \<Rightarrow>
        (Inr (RespNumber deleted), forget_key key (s\<lparr>repos := ks\<rparr>)))"

definition run_expire :: "pyfloat \<Rightarrow> pystr \<Rightarrow> pystr \<Rightarrow> service \<Rightarrow> (py_exc + resp) \<times> service" where
  "run_expire now key seconds s =
     sbind (float_arg seconds, s) (\<lambda>ttl_seconds s.
       case expire_service now key ttl_seconds (repos s) of (applied, ks) \<Rightarrow>
         let s1 = s\<lparr>repos := ks\<rparr>
         in (Inr (RespNumber applied), if applied \<noteq> 0 then touch_key key s1 else s1))"

definition run_ttl :: "pyfloat \<Rightarrow> pystr \<Rightarrow> service \<Rightarrow> (py_exc + resp) \<times> service" where
  "run_ttl now key s =
     (case ttl_service now key (repos s) of (r, ks) \<Rightarrow>
        (rbind r (\<lambda>n. Inr (RespNumber n)), s\<lparr>repos := ks\<rparr>))"

definition number_reply :: "(py_exc + int) \<times> service \<Rightarrow> (py_exc + resp) \<times> service" where
  "number_reply r = sbind r (\<lambda>n s. (Inr (RespNumber n), s))"

definition limited_reply ::
  "pyfloat \<Rightarrow> pystr \<Rightarrow> (py_exc + int) \<times> service \<Rightarrow> (py_exc + resp) \<times> service" where
  "limited_reply now key r =
     sbind r (\<lambda>n s. (Inr (RespNumber n), ensure_max_memory now [key] s))"

definition blob_reply :: "(py_exc + pystr option) \<times> service \<Rightarrow> (py_exc + resp) \<times> service" where
  "blob_reply r =
     sbind r (\<lambda>v s. (Inr (case v of None \<Rightarrow> RespNull | Some t \<Rightarrow> RespBlobString t), s))"

text \<open>The first, second and third argument, read from left to right as the calls evaluate them.\<close>

definition with_arg ::
  "pystr list \<Rightarrow> nat \<Rightarrow> (pystr \<Rightarrow> service \<Rightarrow> (py_exc + 'a) \<times> service) \<Rightarrow> service \<Rightarrow> (py_exc + 'a) \<times> service"
  where "with_arg args i f s = sbind (arg args i, s) f"

definition with_range ::
  "pystr list \<Rightarrow> (pystr \<Rightarrow> int \<Rightarrow> int \<Rightarrow> service \<Rightarrow> (py_exc + 'a) \<times> service) \<Rightarrow> service
    \<Rightarrow> (py_exc + 'a) \<times> service" where
  "with_range args f =
     with_arg args 0 (\<lambda>key.
     with_arg args 1 (\<lambda>a s. sbind (int_arg a, s) (\<lambda>start.
     with_arg args 2 (\<lambda>b s. sbind (int_arg b, s) (\<lambda>stop. f key start stop)))))"

definition execute :: "pyfloat \<Rightarrow> command \<Rightarrow> service \<Rightarrow> (py_exc + resp) \<times> service" where
  "execute now c s =
     (let args = arguments c; nm = name c in
      if nm = lit ''AUTH'' then (Inl (CommandValidationError ERR_UNSUPPORTED_AUTH), s)
      else if nm = lit ''PING'' then (Inr (execute_ping args), s)
      else if nm = lit ''SELECT'' then with_arg args 0 (\<lambda>db s. (execute_select db, s)) s
      else if nm = lit ''CLIENT'' then (execute_client args, s)
      else if nm = lit ''SET'' then
        with_arg args 0 (\<lambda>key. with_arg args 1 (\<lambda>v. run_set now key v)) s
      else if nm = lit ''GET'' then with_arg args 0 (run_get now) s
      else if nm = lit ''DEL'' then with_arg args 0 (run_del now) s
      else if nm = lit ''EXPIRE'' then
        with_arg args 0 (\<lambda>key. with_arg args 1 (\<lambda>sec. run_expire now key sec)) s
      else if nm = lit ''TTL'' then with_arg args 0 (run_ttl now) s
      else if nm = lit ''DBSIZE'' then
        (case execute_dbsize now s of (n, s1) \<Rightarrow> (Inr (RespNumber n), s1))
      else if nm = lit ''FLUSHDB'' then (Inr (RespSimpleString RESP_OK), execute_flushdb s)
      else if nm = lit ''INFO'' then
        sbind (execute_info now args s) (\<lambda>t s1. (Inr (RespBlobString t), s1))
      else if nm = lit ''CONFIG'' then execute_config now args s
      else if nm = lit ''HSET'' then
        with_arg args 0 (\<lambda>key. with_arg args 1 (\<lambda>field. with_arg args 2 (\<lambda>v s.
          limited_reply now key (execute_hset now key field v s)))) s
      else if nm = lit ''HGET'' then
        with_arg args 0 (\<lambda>key. with_arg args 1 (\<lambda>field s.
          blob_reply (execute_hget now key field s))) s
      else if nm = lit ''HDEL'' then
        with_arg args 0 (\<lambda>key. with_arg args 1 (\<lambda>field s.
          number_reply (execute_hdel now key field s))) s
      else if nm = lit ''HGETALL'' then with_arg args 0 (execute_hgetall now) s
      else if nm = lit ''LPUSH'' then
        with_arg args 0 (\<lambda>key s. limited_reply now key (execute_lpush now key (drop 1 args) s)) s
      else if nm = lit ''RPUSH'' then
        with_arg args 0 (\<lambda>key s. limited_reply now key (execute_rpush now key (drop 1 args) s)) s
      else if nm = lit ''LPOP'' then
        with_arg args 0 (\<lambda>key s. blob_reply (execute_lpop now key s)) s
      else if nm = lit ''RPOP'' then
        with_arg args 0 (\<lambda>key s. blob_reply (execute_rpop now key s)) s
      else if nm = lit ''LRANGE'' then with_range args (execute_lrange now) s
      else if nm = lit ''SADD'' then
        with_arg args 0 (\<lambda>key s. limited_reply now key (execute_sadd now key (drop 1 args) s)) s
      else if nm = lit ''SREM'' then
        with_arg args 0 (\<lambda>key s. number_reply (execute_srem now key (drop 1 args) s)) s
      else if nm = lit ''SMEMBERS'' then with_arg args 0 (execute_smembers now) s
      else if nm = lit ''SISMEMBER'' then
        with_arg args 0 (\<lambda>key. with_arg args 1 (\<lambda>member s.
          number_reply (execute_sismember now key member s))) s
      else if nm = lit ''ZADD'' then
        with_arg args 0 (\<lambda>key s. limited_reply now key (execute_zadd now key (drop 1 args) s)) s
      else if nm = lit ''ZREM'' then
        with_arg args 0 (\<lambda>key s. number_reply (execute_zrem now key (drop 1 args) s)) s
      else if nm = lit ''ZRANGE'' then with_range args (execute_zrange now) s
      else if nm = lit ''ZSCORE'' then
        with_arg args 0 (\<lambda>key. with_arg args 1 (\<lambda>member s.
          blob_reply (execute_zscore now key member s))) s
      else (Inl (CommandValidationError ERR_UNSUPPORTED_COMMAND), s))"

end
