(* ===== verification/KeyCommands.thy ===== *)
theory KeyCommands
  imports CommandService
begin

text \<open>
  What the commands on one key promise. A command of the service purges the key if it expired,
  updates the access order, mutates the stored collection in place, removes a collection that became
  empty together with its expiration. Its contract is much simpler: it is a function from the entry
  a client sees under the key to the reply and the entry seen afterwards, and it leaves every other
  key alone. The locale \<open>key_command\<close> states this contract (with the preservation of the service's
  invariant), every operation of \<open>command_service.py\<close> on one key is an interpretation of it with the
  pure function \<open>spec_...\<close> it implements, and the consequences for the live view, the memory in use
  and the well-formedness of entries are proved once, in the locale.
\<close>

section \<open>Sound entries\<close>

text \<open>
  A stored collection is never empty; a hash and a sorted set hold a key once, a set a member once.
\<close>

fun sound_entry :: "value_entry \<Rightarrow> bool" where
  "sound_entry (StringEntry v) = True"
| "sound_entry (HashEntry h) = (h \<noteq> [] \<and> wf_dict h)"
| "sound_entry (ListEntry l) = (l \<noteq> [])"
| "sound_entry (SetEntry l) = (l \<noteq> [] \<and> distinct l)"
| "sound_entry (ZsetEntry z) = (z \<noteq> [] \<and> wf_dict z)"

definition sound_option :: "value_entry option \<Rightarrow> bool" where
  "sound_option e = (case e of None \<Rightarrow> True | Some x \<Rightarrow> sound_entry x)"

definition sound_store :: "service \<Rightarrow> bool" where
  "sound_store s \<longleftrightarrow> (\<forall>k. sound_option (entry_of s k))"

definition option_bytes :: "pystr \<Rightarrow> value_entry option \<Rightarrow> nat" where
  "option_bytes key e = (case e of None \<Rightarrow> 0 | Some x \<Rightarrow> estimate_entry_bytes key x)"

lemma sound_option_simps [simp]:
  "sound_option None" "sound_option (Some e) = sound_entry e"
  by (simp_all add: sound_option_def)

lemma option_bytes_simps [simp]:
  "option_bytes key None = 0" "option_bytes key (Some e) = estimate_entry_bytes key e"
  by (simp_all add: option_bytes_def)

text \<open>Memory in use compares key by key.\<close>

lemma memory_use_mono:
  assumes "wf_service s" "wf_service t"
    and le: "\<And>k. option_bytes k (entry_of t k) \<le> option_bytes k (entry_of s k)"
    and dom: "\<And>k. entry_of t k \<noteq> None \<Longrightarrow> entry_of s k \<noteq> None"
  shows "memory_use t \<le> memory_use s"
proof -
  have sum: "memory_use u = (\<Sum>k \<in> set (key_list u). option_bytes k (entry_of u k))"
    if "wf_service u" for u
  proof -
    have "memory_use u = (\<Sum>k \<in> set (key_list u). estimate_entry_bytes k (the (entry_of u k)))"
      using store.distinct_keys[OF wf_serviceD(3)[OF that]]
      by (simp add: memory_use_def sum_list_distinct_conv_sum_set)
    then show ?thesis
      by (simp add: key_list_found option_bytes_def split: option.splits cong: sum.cong_simp)
        (auto intro!: sum.cong simp: key_list_found)
  qed
  have "set (key_list t) \<subseteq> set (key_list s)" using dom by (auto simp: key_list_found)
  then have "(\<Sum>k \<in> set (key_list t). option_bytes k (entry_of t k)) \<le>
      (\<Sum>k \<in> set (key_list s). option_bytes k (entry_of s k))"
    by (intro order_trans[OF sum_mono sum_mono2]) (auto intro: le)
  then show ?thesis using assms(1,2) by (simp add: sum)
qed

definition within_limit :: "service \<Rightarrow> bool" where
  "within_limit s \<longleftrightarrow> (\<forall>m. max_memory_bytes s = Some m \<longrightarrow> int (memory_use s) \<le> m)"

section \<open>The contract\<close>

text \<open>A specification that never needs more memory, and creates no entry.\<close>

definition shrinking :: "pystr \<Rightarrow> (value_entry option \<Rightarrow> 'r \<times> value_entry option) \<Rightarrow> bool" where
  "shrinking key spec \<longleftrightarrow>
     (\<forall>e. option_bytes key (snd (spec e)) \<le> option_bytes key e) \<and> snd (spec None) = None"

locale key_command =
  fixes op :: "service \<Rightarrow> (py_exc + 'a) \<times> service"
    and spec :: "value_entry option \<Rightarrow> (py_exc + 'a) \<times> value_entry option"
    and now :: pyfloat
    and key :: pystr
  assumes reply: "wf_service s \<Longrightarrow> fst (op s) = fst (spec (live now (repos s) key))"
    and wf: "wf_service s \<Longrightarrow> wf_service (snd (op s))"
    and entry: "wf_service s \<Longrightarrow> entry_of (snd (op s)) k =
      (if k = key then snd (spec (live now (repos s) key)) else entry_of s k)"
    and expiration: "wf_service s \<Longrightarrow> get_expiration (snd (repos (snd (op s)))) k =
      (if k \<noteq> key then get_expiration (snd (repos s)) k
       else if live now (repos s) key = None \<or> entry_of (snd (op s)) key = None then None
       else get_expiration (snd (repos s)) key)"
    and limit: "wf_service s \<Longrightarrow> max_memory_bytes (snd (op s)) = max_memory_bytes s"
begin

text \<open>The command as a function on what a client sees.\<close>

lemma view: "wf_service s \<Longrightarrow>
   live now (repos (snd (op s))) = (live now (repos s))(key := snd (spec (live now (repos s) key)))"
  by (auto simp: fun_eq_iff live_def entry is_expired_def expiration split: option.splits)

lemma unchanged_view:
  "wf_service s \<Longrightarrow> snd (spec (live now (repos s) key)) = live now (repos s) key \<Longrightarrow>
   live now (repos (snd (op s))) = live now (repos s)"
  by (simp add: view)

lemma keeps_sound:
  assumes "wf_service s" "sound_store s"
    and "sound_option (live now (repos s) key) \<Longrightarrow> sound_option (snd (spec (live now (repos s) key)))"
  shows "sound_store (snd (op s))"
proof -
  have "sound_option (live now (repos s) key)"
    using assms(2) by (simp add: sound_store_def live_def)
  then show ?thesis using assms by (simp add: sound_store_def entry)
qed

lemma memory_le:
  assumes "wf_service s"
    and "option_bytes key (snd (spec (live now (repos s) key))) \<le> option_bytes key (live now (repos s) key)"
    and "live now (repos s) key = None \<Longrightarrow> snd (spec (live now (repos s) key)) = None"
  shows "memory_use (snd (op s)) \<le> memory_use s"
proof (rule memory_use_mono[OF assms(1) wf[OF assms(1)]])
  fix k
  have "option_bytes key (live now (repos s) key) \<le> option_bytes key (entry_of s key)"
    by (simp add: live_def)
  then show "option_bytes k (entry_of (snd (op s)) k) \<le> option_bytes k (entry_of s k)"
    using assms(2) by (simp add: entry[OF assms(1)])
  show "entry_of (snd (op s)) k \<noteq> None \<Longrightarrow> entry_of s k \<noteq> None"
    using assms(3) by (cases "entry_of s key") (auto simp: entry[OF assms(1)] live_def split: if_splits)
qed

lemma within_shrinking:
  assumes "wf_service s" "within_limit s" "shrinking key spec"
  shows "within_limit (snd (op s))"
proof -
  have "memory_use (snd (op s)) \<le> memory_use s"
    using assms by (intro memory_le) (auto simp: shrinking_def)
  then show ?thesis using assms by (fastforce simp: within_limit_def limit)
qed

lemma within_unchanged:
  assumes "wf_service s" "within_limit s"
    and "snd (spec (live now (repos s) key)) = live now (repos s) key"
  shows "within_limit (snd (op s))"
proof -
  have "memory_use (snd (op s)) \<le> memory_use s"
    using assms by (intro memory_le) simp_all
  then show ?thesis using assms by (fastforce simp: within_limit_def limit)
qed

text \<open>Later readings of the clock: a key the command leaves alone is seen as before.\<close>

lemma other_keys:
  "wf_service s \<Longrightarrow> k \<noteq> key \<Longrightarrow> live later (repos (snd (op s))) k = live later (repos s) k"
  by (simp add: live_def is_expired_def entry expiration)

end

section \<open>The specifications\<close>

fun spec_get :: "value_entry option \<Rightarrow> (py_exc + resp) \<times> value_entry option" where
  "spec_get None = (Inr RespNull, None)"
| "spec_get (Some (StringEntry v)) = (Inr (RespBlobString v), Some (StringEntry v))"
| "spec_get (Some e) = (wrong_type, Some e)"

fun spec_del :: "value_entry option \<Rightarrow> (py_exc + resp) \<times> value_entry option" where
  "spec_del None = (Inr (RespNumber 0), None)"
| "spec_del (Some e) = (Inr (RespNumber 1), None)"

text \<open>A command on entries of one type: what it does to no entry, and to the value it finds.\<close>

definition on_type ::
  "value_type \<Rightarrow> (py_exc + 'a) \<times> value_entry option \<Rightarrow> (value_entry \<Rightarrow> (py_exc + 'a) \<times> value_entry option)
    \<Rightarrow> value_entry option \<Rightarrow> (py_exc + 'a) \<times> value_entry option" where
  "on_type t absent present e =
     (case e of
        None \<Rightarrow> absent
      | Some x \<Rightarrow> if entry_type x = t then present x else (wrong_type, Some x))"

text \<open>An entry that holds a collection, or none when the collection is empty.\<close>

definition unless_empty :: "('a list \<Rightarrow> value_entry) \<Rightarrow> 'a list \<Rightarrow> value_entry option" where
  "unless_empty mk xs = (if xs = [] then None else Some (mk xs))"

definition spec_hset :: "pystr \<Rightarrow> pystr \<Rightarrow> value_entry option \<Rightarrow> (py_exc + int) \<times> value_entry option" where
  "spec_hset field v = on_type HASH (Inr 1, Some (HashEntry [(field, v)]))
     (\<lambda>e. (Inr (if field \<in> set (keys_of (hash_of e)) then 0 else 1),
           Some (HashEntry (AList.update field v (hash_of e)))))"

definition spec_hget :: "pystr \<Rightarrow> value_entry option \<Rightarrow> (py_exc + pystr option) \<times> value_entry option" where
  "spec_hget field = on_type HASH (Inr None, None) (\<lambda>e. (Inr (map_of (hash_of e) field), Some e))"

definition spec_hdel :: "pystr \<Rightarrow> value_entry option \<Rightarrow> (py_exc + int) \<times> value_entry option" where
  "spec_hdel field = on_type HASH (Inr 0, None)
     (\<lambda>e. (Inr (if field \<in> set (keys_of (hash_of e)) then 1 else 0),
           unless_empty HashEntry (AList.delete field (hash_of e))))"

definition spec_hgetall :: "value_entry option \<Rightarrow> (py_exc + resp) \<times> value_entry option" where
  "spec_hgetall = on_type HASH (Inr (RespMap []), None)
     (\<lambda>e. (Inr (RespMap (map (map_prod RespBlobString RespBlobString) (sort (hash_of e)))), Some e))"

definition spec_push ::
  "(pystr list \<Rightarrow> pystr list) \<Rightarrow> value_entry option \<Rightarrow> (py_exc + int) \<times> value_entry option" where
  "spec_push f = on_type LIST (Inr (int (length (f []))), Some (ListEntry (f [])))
     (\<lambda>e. (Inr (int (length (f (list_of e)))), Some (ListEntry (f (list_of e)))))"

definition spec_lpop :: "value_entry option \<Rightarrow> (py_exc + pystr option) \<times> value_entry option" where
  "spec_lpop = on_type LIST (Inr None, None)
     (\<lambda>e. case list_of e of
            [] \<Rightarrow> (Inr None, Some e)
          | v # rest \<Rightarrow> (Inr (Some v), unless_empty ListEntry rest))"

definition spec_rpop :: "value_entry option \<Rightarrow> (py_exc + pystr option) \<times> value_entry option" where
  "spec_rpop = on_type LIST (Inr None, None)
     (\<lambda>e. if list_of e = [] then (Inr None, Some e)
          else (Inr (Some (last (list_of e))), unless_empty ListEntry (butlast (list_of e))))"

definition spec_lrange ::
  "int \<Rightarrow> int \<Rightarrow> value_entry option \<Rightarrow> (py_exc + resp) \<times> value_entry option" where
  "spec_lrange start stop = on_type LIST (Inr (RespArray []), None)
     (\<lambda>e. (Inr (RespArray (map RespBlobString (slice_sequence (list_of e) start stop))), Some e))"

definition spec_sadd ::
  "pystr list \<Rightarrow> value_entry option \<Rightarrow> (py_exc + int) \<times> value_entry option" where
  "spec_sadd members =
     (let add = (\<lambda>l. case add_members members 0 l of (n, l') \<Rightarrow> (Inr n, Some (SetEntry l')))
      in on_type SET (add []) (\<lambda>e. add (set_of e)))"

definition spec_srem ::
  "pystr list \<Rightarrow> value_entry option \<Rightarrow> (py_exc + int) \<times> value_entry option" where
  "spec_srem members = on_type SET (Inr 0, None)
     (\<lambda>e. case discard_members members 0 (set_of e) of (n, l) \<Rightarrow> (Inr n, unless_empty SetEntry l))"

definition spec_smembers :: "value_entry option \<Rightarrow> (py_exc + resp) \<times> value_entry option" where
  "spec_smembers = on_type SET (Inr (RespArray []), None)
     (\<lambda>e. (Inr (RespArray (map RespBlobString (sort (set_of e)))), Some e))"

definition spec_sismember ::
  "pystr \<Rightarrow> value_entry option \<Rightarrow> (py_exc + int) \<times> value_entry option" where
  "spec_sismember member = on_type SET (Inr 0, None)
     (\<lambda>e. (Inr (if member \<in> set (set_of e) then 1 else 0), Some e))"

definition spec_zadd ::
  "pystr list \<Rightarrow> value_entry option \<Rightarrow> (py_exc + int) \<times> value_entry option" where
  "spec_zadd args =
     (let add = (\<lambda>z. case add_scores args 0 z of (r, z') \<Rightarrow> (r, Some (ZsetEntry z')))
      in on_type ZSET (add []) (\<lambda>e. add (zset_of e)))"

definition spec_zrem ::
  "pystr list \<Rightarrow> value_entry option \<Rightarrow> (py_exc + int) \<times> value_entry option" where
  "spec_zrem members = on_type ZSET (Inr 0, None)
     (\<lambda>e. case pop_members members 0 (zset_of e) of (n, z) \<Rightarrow> (Inr n, unless_empty ZsetEntry z))"

definition spec_zrange ::
  "int \<Rightarrow> int \<Rightarrow> value_entry option \<Rightarrow> (py_exc + resp) \<times> value_entry option" where
  "spec_zrange start stop = on_type ZSET (Inr (RespArray []), None)
     (\<lambda>e. (Inr (RespArray (map RespBlobString
                 (slice_sequence (map fst (sort_items (zset_of e))) start stop))), Some e))"

definition spec_zscore ::
  "pystr \<Rightarrow> value_entry option \<Rightarrow> (py_exc + pystr option) \<times> value_entry option" where
  "spec_zscore member = on_type ZSET (Inr None, None)
     (\<lambda>e. (Inr (map_option format_g (map_of (zset_of e) member)), Some e))"

section \<open>Meeting the contract\<close>

text \<open>The state a command leaves, observed: the entry of its key, everything else as before.\<close>

definition outcome :: "pyfloat \<Rightarrow> pystr \<Rightarrow> service \<Rightarrow> value_entry option \<Rightarrow> service \<Rightarrow> bool" where
  "outcome now key s e t \<longleftrightarrow>
     wf_service t \<and> max_memory_bytes t = max_memory_bytes s \<and>
     (\<forall>k. entry_of t k = (if k = key then e else entry_of s k)) \<and>
     (\<forall>k. get_expiration (snd (repos t)) k =
       (if k \<noteq> key then get_expiration (snd (repos s)) k
        else if live now (repos s) key = None \<or> e = None then None
        else get_expiration (snd (repos s)) key))"

lemma key_commandI:
  assumes "\<And>s. wf_service s \<Longrightarrow> fst (op s) = fst (spec (live now (repos s) key))"
    and "\<And>s. wf_service s \<Longrightarrow> outcome now key s (snd (spec (live now (repos s) key))) (snd (op s))"
  shows "key_command op spec now key"
  using assms unfolding outcome_def by unfold_locales metis+

lemma outcome_purge:
  assumes "wf_service s" "live now (repos s) key = None"
  shows "outcome now key s None (forget_key key (purge_key now key s))"
proof -
  have none: "entry_of (purge_key now key s) key = None"
    using assms(2) purge_exact[of now key "repos s"] by simp
  moreover have "\<not> is_expired now key (repos s) \<Longrightarrow> get_expiration (snd (repos s)) key = None"
    using assms by (auto simp: live_def wf_service_def wf_keyspace_def)
  ultimately show ?thesis
    using assms by (auto simp: outcome_def wf_forget_key purge_simps)
qed

lemma outcome_touch:
  "wf_service s \<Longrightarrow> live now (repos s) key = Some e \<Longrightarrow> outcome now key s (Some e) (touch_key key s)"
  by (auto simp: outcome_def live_def split: if_splits)

lemma outcome_touch_again: "outcome now key s e t \<Longrightarrow> outcome now key s e (touch_key key t)"
  by (simp add: outcome_def)

lemma outcome_put: "outcome now key s (Some e) t \<Longrightarrow> outcome now key s (Some x) (put_entry key x t)"
  by (auto simp: outcome_def intro!: wf_put_entry)

lemma outcome_put_touch:
  "outcome now key s e t \<Longrightarrow> live now (repos s) key = None \<Longrightarrow>
   outcome now key s (Some x) (touch_key key (put_entry key x t))"
  by (simp add: outcome_def)

lemma outcome_delete: "outcome now key s e t \<Longrightarrow> outcome now key s None (delete_entry_and_ttl key t)"
  by (simp add: outcome_def)

lemma outcome_emptied:
  "outcome now key s (Some e) t \<Longrightarrow>
   outcome now key s (unless_empty mk []) (delete_entry_and_ttl key (put_entry key x t))"
  by (auto simp: unless_empty_def intro: outcome_put outcome_delete)

lemma outcome_kept:
  "outcome now key s (Some e) t \<Longrightarrow> xs \<noteq> [] \<Longrightarrow>
   outcome now key s (unless_empty mk xs) (put_entry key (mk xs) t)"
  by (auto simp: unless_empty_def intro: outcome_put)

lemma get_typed_entry_eq:
  "get_typed_entry now key t s =
     (case live now (repos s) key of
        None \<Rightarrow> (Inr None, forget_key key (purge_key now key s))
      | Some e \<Rightarrow> (if entry_type e \<noteq> t then wrong_type else Inr (Some e), touch_key key s))"
proof (cases "live now (repos s) key")
  case None
  then have "entry_of (purge_key now key s) key = None"
    using purge_exact[of now key "repos s"] by simp
  then show ?thesis using None by (simp add: get_typed_entry_def get_live_entry_def)
next
  case (Some e)
  then have "purge_key now key s = s"
    by (simp add: purge_key_def purge_simps live_def split: if_splits)
  then show ?thesis
    using Some by (simp add: get_typed_entry_def get_live_entry_def live_def split: if_splits)
qed

text \<open>The two shapes of the operations: on an entry that is there, and on one created when missing.\<close>

lemma typed_command:
  assumes op: "\<And>s. op s = sbind (get_typed_entry now key t s) (\<lambda>entry s1.
      case entry of None \<Rightarrow> (a, s1) | Some e \<Rightarrow> p e s1)"
    and p: "\<And>s s1 e. outcome now key s (Some e) s1 \<Longrightarrow> entry_type e = t \<Longrightarrow>
      fst (p e s1) = fst (present e) \<and> outcome now key s (snd (present e)) (snd (p e s1))"
  shows "key_command op (on_type t (a, None) present) now key"
proof -
  let ?spec = "on_type t (a, None) present"
  have "fst (op s) = fst (?spec (live now (repos s) key)) \<and>
      outcome now key s (snd (?spec (live now (repos s) key))) (snd (op s))" if "wf_service s" for s
  proof (cases "live now (repos s) key")
    case None
    then show ?thesis using that by (simp add: op on_type_def get_typed_entry_eq outcome_purge)
  next
    case (Some e)
    then show ?thesis using outcome_touch[OF that Some] p[OF outcome_touch[OF that Some]]
      by (simp add: op on_type_def get_typed_entry_eq wrong_type_def)
  qed
  then show ?thesis by (blast intro: key_commandI)
qed

lemma create_command:
  assumes op: "\<And>s. op s = sbind (get_or_create now key t fresh s) p"
    and fresh: "entry_type fresh = t"
    and p: "\<And>s s1 e. outcome now key s (Some e) s1 \<Longrightarrow> entry_type e = t \<Longrightarrow>
      fst (p e s1) = fst (present e) \<and> outcome now key s (snd (present e)) (snd (p e s1))"
  shows "key_command op (on_type t (present fresh) present) now key"
proof -
  let ?spec = "on_type t (present fresh) present"
  have "fst (op s) = fst (?spec (live now (repos s) key)) \<and>
      outcome now key s (snd (?spec (live now (repos s) key))) (snd (op s))" if "wf_service s" for s
  proof (cases "live now (repos s) key")
    case None
    then show ?thesis using p[OF outcome_put_touch[OF outcome_purge[OF that None] None] fresh]
      by (simp add: op on_type_def get_or_create_def get_typed_entry_eq store_entry_eq)
  next
    case (Some e)
    then show ?thesis using outcome_touch[OF that Some] p[OF outcome_touch[OF that Some]]
      by (simp add: op on_type_def get_or_create_def get_typed_entry_eq wrong_type_def)
  qed
  then show ?thesis by (blast intro: key_commandI)
qed

lemmas outcome_intros = outcome_touch_again outcome_put outcome_emptied outcome_kept

interpretation hset: key_command "execute_hset now key field v" "spec_hset field v" now key
  for now key field v
proof -
  let ?present = "\<lambda>e. (Inr (if field \<in> set (keys_of (hash_of e)) then 0 else 1) :: py_exc + int,
     Some (HashEntry (AList.update field v (hash_of e))))"
  have "key_command (execute_hset now key field v) (on_type HASH (?present (HashEntry [])) ?present) now key"
    by (rule create_command[OF execute_hset_def]) (auto simp: Let_def intro!: outcome_intros)
  then show "key_command (execute_hset now key field v) (spec_hset field v) now key"
    by (simp add: spec_hset_def keys_of_def)
qed

interpretation hget: key_command "execute_hget now key field" "spec_hget field" now key
  for now key field
  unfolding spec_hget_def by (rule typed_command[OF execute_hget_def]) auto

interpretation hdel: key_command "execute_hdel now key field" "spec_hdel field" now key
  for now key field
  unfolding spec_hdel_def
  by (rule typed_command[OF execute_hdel_def]) (auto simp: Let_def intro!: outcome_emptied outcome_kept)

interpretation hgetall: key_command "execute_hgetall now key" spec_hgetall now key
  for now key
  unfolding spec_hgetall_def
  by (rule typed_command[OF execute_hgetall_def]) (auto intro!: map_cong)

interpretation lpush: key_command "execute_lpush now key vs" "spec_push (\<lambda>l. rev vs @ l)" now key
  for now key vs
proof -
  let ?f = "\<lambda>l. rev vs @ l"
  let ?present = "\<lambda>e. (Inr (int (length (?f (list_of e)))) :: py_exc + int, Some (ListEntry (?f (list_of e))))"
  have push: "fold (\<lambda>v l. v # l) vs l = rev vs @ l" for l
    by (induction vs arbitrary: l) auto
  have "key_command (execute_lpush now key vs) (on_type LIST (?present (ListEntry [])) ?present) now key"
    by (rule create_command[OF execute_lpush_def[unfolded get_or_create_list_def]]) (auto simp: Let_def push intro!: outcome_intros)
  then show "key_command (execute_lpush now key vs) (spec_push ?f) now key"
    by (simp add: spec_push_def)
qed

interpretation rpush: key_command "execute_rpush now key vs" "spec_push (\<lambda>l. l @ vs)" now key
  for now key vs
proof -
  let ?f = "\<lambda>l. l @ vs"
  let ?present = "\<lambda>e. (Inr (int (length (?f (list_of e)))) :: py_exc + int, Some (ListEntry (?f (list_of e))))"
  have "key_command (execute_rpush now key vs) (on_type LIST (?present (ListEntry [])) ?present) now key"
    by (rule create_command[OF execute_rpush_def[unfolded get_or_create_list_def]]) (auto simp: Let_def intro!: outcome_intros)
  then show "key_command (execute_rpush now key vs) (spec_push ?f) now key"
    by (simp add: spec_push_def)
qed

interpretation lpop: key_command "execute_lpop now key" spec_lpop now key
  for now key
  unfolding spec_lpop_def
  by (rule typed_command[OF execute_lpop_def])
    (auto simp: Let_def intro!: outcome_emptied outcome_kept split: list.splits)

interpretation rpop: key_command "execute_rpop now key" spec_rpop now key
  for now key
  unfolding spec_rpop_def
  by (rule typed_command[OF execute_rpop_def])
    (auto simp: Let_def intro!: outcome_emptied outcome_kept)

interpretation lrange: key_command "execute_lrange now key start stop" "spec_lrange start stop" now key
  for now key start stop
  unfolding spec_lrange_def by (rule typed_command[OF execute_lrange_def]) auto

interpretation sadd: key_command "execute_sadd now key members" "spec_sadd members" now key
  for now key members
proof -
  let ?present = "\<lambda>e. case add_members members 0 (set_of e) of (n, l') \<Rightarrow>
      (Inr n :: py_exc + int, Some (SetEntry l'))"
  have "key_command (execute_sadd now key members) (on_type SET (?present (SetEntry [])) ?present) now key"
    by (rule create_command[OF execute_sadd_def[unfolded get_or_create_set_def]]) (auto intro!: outcome_intros split: prod.splits)
  then show "key_command (execute_sadd now key members) (spec_sadd members) now key"
    by (simp add: spec_sadd_def Let_def)
qed

interpretation srem: key_command "execute_srem now key members" "spec_srem members" now key
  for now key members
  unfolding spec_srem_def
  by (rule typed_command[OF execute_srem_def])
    (auto simp: Let_def intro!: outcome_emptied outcome_kept split: prod.splits)

interpretation smembers: key_command "execute_smembers now key" spec_smembers now key
  for now key
  unfolding spec_smembers_def by (rule typed_command[OF execute_smembers_def]) auto

interpretation sismember: key_command "execute_sismember now key member" "spec_sismember member" now key
  for now key member
  unfolding spec_sismember_def by (rule typed_command[OF execute_sismember_def]) auto

interpretation zadd: key_command "execute_zadd now key args" "spec_zadd args" now key
  for now key args
proof -
  let ?present = "\<lambda>e. case add_scores args 0 (zset_of e) of (r, z') \<Rightarrow> (r, Some (ZsetEntry z'))"
  have "key_command (execute_zadd now key args) (on_type ZSET (?present (ZsetEntry [])) ?present) now key"
    by (rule create_command[OF execute_zadd_def[unfolded get_or_create_zset_def]])
      (auto simp: sbind_def intro!: outcome_intros split: prod.splits sum.splits)
  then show "key_command (execute_zadd now key args) (spec_zadd args) now key"
    by (simp add: spec_zadd_def Let_def)
qed

interpretation zrem: key_command "execute_zrem now key members" "spec_zrem members" now key
  for now key members
  unfolding spec_zrem_def
  by (rule typed_command[OF execute_zrem_def])
    (auto simp: Let_def intro!: outcome_emptied outcome_kept split: prod.splits)

interpretation zrange: key_command "execute_zrange now key start stop" "spec_zrange start stop" now key
  for now key start stop
  unfolding spec_zrange_def by (rule typed_command[OF execute_zrange_def]) (auto simp: Let_def)

interpretation zscore: key_command "execute_zscore now key member" "spec_zscore member" now key
  for now key member
  unfolding spec_zscore_def by (rule typed_command[OF execute_zscore_def]) auto

text \<open>\<open>GET\<close> and \<open>DEL\<close> are written out in the dispatcher; they meet the same contract.\<close>

lemma live_cases:
  obtains (gone) "live now (repos s) key = None"
      "s\<lparr>repos := snd (purge_if_expired now key (repos s))\<rparr> = purge_key now key s"
      "store_get (fst (snd (purge_if_expired now key (repos s)))) key = None"
  | (there) e where "live now (repos s) key = Some e" "\<not> is_expired now key (repos s)"
      "purge_if_expired now key (repos s) = (False, repos s)" "entry_of s key = Some e"
proof (cases "live now (repos s) key")
  case None
  then show ?thesis using purge_exact[of now key "repos s"] by (intro gone) (simp_all add: purge_key_def)
next
  case (Some e)
  then show ?thesis by (intro there) (auto simp: live_def purge_if_expired_def split: if_splits)
qed

interpretation get: key_command "run_get now key" spec_get now key
  for now key
proof (rule key_commandI)
  fix s
  show "fst (run_get now key s) = fst (spec_get (live now (repos s) key))"
  proof (cases now s key rule: live_cases)
    case (there e)
    then show ?thesis by (cases e) (simp_all add: run_get_def get_service_def wrong_type_def)
  qed (simp add: run_get_def get_service_def Let_def)
  assume wf: "wf_service s"
  show "outcome now key s (snd (spec_get (live now (repos s) key))) (snd (run_get now key s))"
  proof (cases now s key rule: live_cases)
    case gone
    then show ?thesis
      using outcome_purge[OF wf, of now key] by (simp add: run_get_def get_service_def Let_def)
  next
    case (there e)
    then show ?thesis using outcome_touch[OF wf there(1)]
      by (cases e) (simp_all add: run_get_def get_service_def)
  qed
qed

interpretation del: key_command "run_del now key" spec_del now key
  for now key
proof (rule key_commandI)
  fix s
  assume wf: "wf_service s"
  show "fst (run_del now key s) = fst (spec_del (live now (repos s) key))"
    by (cases now s key rule: live_cases)
      (auto simp: run_del_def del_service_def repo_defs split: prod.splits if_splits)
  show "outcome now key s (snd (spec_del (live now (repos s) key))) (snd (run_del now key s))"
  proof (cases now s key rule: live_cases)
    case gone
    have "snd (del_service now key (repos s)) = snd (purge_if_expired now key (repos s))"
      using gone(3) by (auto simp: del_service_def repo_defs delete_absent split: prod.splits)
    then have "snd (run_del now key s) = forget_key key (purge_key now key s)"
      using gone(2) by (simp add: run_del_def case_prod_unfold)
    then show ?thesis using outcome_purge[OF wf gone(1)] gone(1) by simp
  next
    case (there e)
    then have "snd (run_del now key s) = delete_entry_and_ttl key s"
      by (simp add: run_del_def del_service_def delete_entry_and_ttl_def delete_key_def repo_defs)
    then show ?thesis using wf there by (simp add: outcome_def)
  qed
qed

section \<open>The loops over the members\<close>

lemma add_members_props:
  assumes "distinct l" "add_members ms n l = (n', l')"
  shows "distinct l'" "set l' = set l \<union> set ms" "n' + int (length l) = n + int (length l')"
  using assms by (induction ms n l rule: add_members.induct) (auto split: if_splits)

lemma length_removeAll_distinct:
  "distinct l \<Longrightarrow> int (length (removeAll m l)) = int (length l) - (if m \<in> set l then 1 else 0)"
  by (simp add: distinct_remove1_removeAll[symmetric] length_remove1 Suc_leI length_pos_if_in_set
      int_ops)

lemma discard_members_eq:
  "distinct l \<Longrightarrow>
   discard_members ms n l =
     (n + int (length l) - int (length (filter (\<lambda>m. m \<notin> set ms) l)), filter (\<lambda>m. m \<notin> set ms) l)"
proof (induction ms n l rule: discard_members.induct)
  case (2 m ms n l)
  have "filter (\<lambda>x. x \<notin> set ms) (removeAll m l) = filter (\<lambda>x. x \<notin> set (m # ms)) l"
    by (auto simp: removeAll_filter_not_eq intro!: filter_cong)
  then show ?case using 2 by (simp add: distinct_removeAll length_removeAll_distinct)
qed simp

lemma delete_filter: "AList.delete k d = filter (\<lambda>p. fst p \<noteq> k) d"
  by (induction d) auto

lemma length_delete:
  assumes "wf_dict d"
  shows "int (length (AList.delete k d)) = int (length d) - (if k \<in> set (keys_of d) then 1 else 0)"
proof -
  have "length (AList.delete k d) = length (removeAll k (keys_of d))"
    using arg_cong[OF keys_of_delete[of k d], of length] by (simp add: keys_of_def)
  then show ?thesis
    using assms length_removeAll_distinct[of "keys_of d" k] by (simp add: wf_dict_def keys_of_def)
qed

lemma pop_members_eq:
  "wf_dict z \<Longrightarrow>
   pop_members ms n z =
     (n + int (length z) - int (length (filter (\<lambda>p. fst p \<notin> set ms) z)), filter (\<lambda>p. fst p \<notin> set ms) z)"
proof (induction ms n z rule: pop_members.induct)
  case (2 m ms n z)
  have "filter (\<lambda>p. fst p \<notin> set ms) (AList.delete m z) = filter (\<lambda>p. fst p \<notin> set (m # ms)) z"
    by (auto simp: delete_filter intro!: filter_cong)
  then show ?case using 2 by (simp add: length_delete)
qed simp

text \<open>The members of a list of scores and members, and the loop of \<open>ZADD\<close> on it.\<close>

fun score_pairs :: "pystr list \<Rightarrow> (pystr \<times> pyfloat) list" where
  "score_pairs (score # member # rest) =
     (member, case py_float score of None \<Rightarrow> NaN | Some x \<Rightarrow> x) # score_pairs rest"
| "score_pairs _ = []"

lemma length_update:
  "length (AList.update k v d) = length d + (if k \<in> set (keys_of d) then 0 else 1)"
proof -
  have "length (keys_of (AList.update k v d)) = length (keys_of d) + (if k \<in> set (keys_of d) then 0 else 1)"
    by (simp add: dict_simps)
  then show ?thesis by (simp add: keys_of_def)
qed

lemma add_scores_eq:
  "scored as \<Longrightarrow>
   add_scores as n z =
     (Inr (n + int (length (fold (\<lambda>(k, v). AList.update k v) (score_pairs as) z)) - int (length z)),
      fold (\<lambda>(k, v). AList.update k v) (score_pairs as) z)"
  by (induction as arbitrary: n z rule: scored.induct) (auto simp: length_update)

lemma wf_add_scores: "wf_dict z \<Longrightarrow> wf_dict (snd (add_scores as n z))"
  by (induction as n z rule: add_scores.induct) (auto split: option.splits list.splits)

end
