(* ===== verification/ServiceProps.thy ===== *)
theory ServiceProps
  imports KeyCommands "HOL-Library.Multiset"
begin

text \<open>
  The dispatcher as a whole: every command keeps the invariant of the service, a validated command
  keeps the stored collections non-empty and the memory within the limit, and raises only command
  errors, with one exception that is characterised exactly.
\<close>

section \<open>Passing an invariant through the dispatcher\<close>

lemma with_arg_inv:
  assumes "I s" "\<And>a. arg as i = Inr a \<Longrightarrow> I (snd (f a s))"
  shows "I (snd (with_arg as i f s))"
  using assms by (auto simp: with_arg_def intro: sbind_inv)

lemma with_range_inv:
  assumes "I s" "\<And>key i j. I (snd (f key i j s))"
  shows "I (snd (with_range as f s))"
  using assms by (simp add: with_range_def with_arg_def sbind_def split: sum.splits)

lemma reply_state [simp]:
  "snd (number_reply r) = snd r" "snd (blob_reply q) = snd q"
  by (auto simp: number_reply_def blob_reply_def sbind_def split: prod.splits sum.splits)

lemma limited_reply_inv:
  "I (snd r) \<Longrightarrow> (\<And>n s. r = (Inr n, s) \<Longrightarrow> I s \<Longrightarrow> I (ensure_max_memory now [key] s)) \<Longrightarrow>
   I (snd (limited_reply now key r))"
  unfolding limited_reply_def by (rule sbind_inv) auto

text \<open>The dispatcher keeps what every branch it takes keeps.\<close>

lemma execute_inv:
  assumes "I s"
    and "\<And>k v. I (snd (run_set now k v s))" "\<And>k. I (snd (run_get now k s))"
    and "\<And>k. I (snd (run_del now k s))" "\<And>k sec. I (snd (run_expire now k sec s))"
    and "\<And>k. I (snd (run_ttl now k s))" "I (snd (execute_dbsize now s))" "I (execute_flushdb s)"
    and "I (snd (execute_info now (arguments c) s))" "I (snd (execute_config now (arguments c) s))"
    and "\<And>k f v. I (snd (limited_reply now k (execute_hset now k f v s)))"
    and "\<And>k f. I (snd (execute_hget now k f s))" "\<And>k f. I (snd (execute_hdel now k f s))"
    and "\<And>k. I (snd (execute_hgetall now k s))"
    and "\<And>k. name c = lit ''LPUSH'' \<Longrightarrow>
           I (snd (limited_reply now k (execute_lpush now k (drop 1 (arguments c)) s)))"
    and "\<And>k. name c = lit ''RPUSH'' \<Longrightarrow>
           I (snd (limited_reply now k (execute_rpush now k (drop 1 (arguments c)) s)))"
    and "\<And>k. I (snd (execute_lpop now k s))" "\<And>k. I (snd (execute_rpop now k s))"
    and "\<And>k i j. I (snd (execute_lrange now k i j s))"
    and "\<And>k. name c = lit ''SADD'' \<Longrightarrow>
           I (snd (limited_reply now k (execute_sadd now k (drop 1 (arguments c)) s)))"
    and "\<And>k ms. I (snd (execute_srem now k ms s))" "\<And>k. I (snd (execute_smembers now k s))"
    and "\<And>k m. I (snd (execute_sismember now k m s))"
    and "\<And>k. name c = lit ''ZADD'' \<Longrightarrow>
           I (snd (limited_reply now k (execute_zadd now k (drop 1 (arguments c)) s)))"
    and "\<And>k ms. I (snd (execute_zrem now k ms s))" "\<And>k i j. I (snd (execute_zrange now k i j s))"
    and "\<And>k m. I (snd (execute_zscore now k m s))"
  shows "I (snd (execute now c s))"
  unfolding execute_def Let_def
  by (simp add: assms with_arg_inv with_range_inv sbind_inv case_prod_unfold del: One_nat_def)

section \<open>The invariant\<close>

definition after_set :: "pystr \<Rightarrow> pystr \<Rightarrow> service \<Rightarrow> service" where
  "after_set key v s = touch_key key (s\<lparr>repos := snd (set_service key v (repos s))\<rparr>)"

lemma run_set_eq:
  "run_set now key v s = (Inr (RespSimpleString RESP_OK), ensure_max_memory now [key] (after_set key v s))"
  by (simp add: run_set_def set_service_def after_set_def)

lemma wf_after_set [simp]: "wf_service s \<Longrightarrow> wf_service (after_set key v s)"
  unfolding after_set_def set_service_def
  by (auto intro!: wf_write_touch[where e = "StringEntry v"] wf_keyspace_put dest: wf_serviceD(1))

lemma after_set_get [simp]:
  "entry_of (after_set key v s) k = (if k = key then Some (StringEntry v) else entry_of s k)"
  "get_expiration (snd (repos (after_set key v s))) k =
     (if k = key then None else get_expiration (snd (repos s)) k)"
  "max_memory_bytes (after_set key v s) = max_memory_bytes s"
  by (simp_all add: after_set_def set_service_def)

lemma wf_run_set [simp]: "wf_service s \<Longrightarrow> wf_service (snd (run_set now key v s))"
  by (simp add: run_set_eq)

lemma wf_keyspace_expire:
  "wf_keyspace ks \<Longrightarrow> store_get (fst ks) key \<noteq> None \<Longrightarrow> wf_keyspace (fst ks, set_expiration key x (snd ks))"
  unfolding wf_keyspace_def by (auto split: if_splits)

lemma run_expire_state:
  assumes "py_float sec = Some x"
  shows "run_expire now key sec s =
    (case live now (repos s) key of
       None \<Rightarrow> (Inr (RespNumber 0), purge_key now key s)
     | Some e \<Rightarrow> (Inr (RespNumber 1),
         touch_key key (s\<lparr>repos := (fst (repos s), set_expiration key (fadd now x) (snd (repos s)))\<rparr>)))"
proof (cases now s key rule: live_cases)
  case gone
  then show ?thesis using assms
    by (auto simp: run_expire_def float_arg_def expire_service_def case_prod_unfold Let_def)
next
  case (there e)
  then show ?thesis using assms
    by (simp add: run_expire_def float_arg_def expire_service_def calculate_expires_at_def)
qed

lemma wf_run_expire [simp]: "wf_service s \<Longrightarrow> wf_service (snd (run_expire now key sec s))"
proof (cases "py_float sec")
  case None
  then show "wf_service s \<Longrightarrow> ?thesis" by (simp add: run_expire_def float_arg_def)
next
  case (Some x)
  assume wf: "wf_service s"
  have "live now (repos s) key = Some e \<Longrightarrow>
     wf_service (s\<lparr>repos := (fst (repos s), set_expiration key (fadd now x) (snd (repos s)))\<rparr>)" for e
    by (rule wf_repos_shrink[OF wf])
      (use wf in \<open>auto simp: wf_service_def live_def split: if_splits intro!: wf_keyspace_expire\<close>)
  then show ?thesis using wf by (simp add: run_expire_state[OF Some] split: option.splits)
qed

lemma run_ttl_state: "snd (run_ttl now key s) = purge_key now key s"
  by (auto simp: run_ttl_def ttl_service_def purge_key_def purge_simps case_prod_unfold)

lemma wf_run_ttl [simp]: "wf_service s \<Longrightarrow> wf_service (snd (run_ttl now key s))"
  by (simp add: run_ttl_state)

lemma wf_flushdb [simp]: "wf_service s \<Longrightarrow> wf_service (execute_flushdb s)"
  and flushdb_empty: "repos (execute_flushdb s) = fold delete_key (key_list s) (repos s)"
proof -
  have fold: "repos (fold delete_entry_and_ttl ks s) = fold delete_key ks (repos s)"
    "max_memory_bytes (fold delete_entry_and_ttl ks s) = max_memory_bytes s" for ks s
    by (induction ks arbitrary: s) auto
  then show "repos (execute_flushdb s) = fold delete_key (key_list s) (repos s)"
    by (simp add: execute_flushdb_def Let_def)
  assume "wf_service s"
  then show "wf_service (execute_flushdb s)"
    by (auto simp: execute_flushdb_def Let_def wf_service_def wf_access_def fold wf_fold_delete_key
        fold_delete_key_get key_list_found)
qed

lemma flushdb_entry [simp]: "entry_of (execute_flushdb s) k = None"
  using key_list_found[of k s] by (simp add: flushdb_empty fold_delete_key_get)

lemma flushdb_keys [simp]: "key_list (execute_flushdb s) = []"
proof -
  have "k \<notin> set (key_list (execute_flushdb s))" for k by (simp add: key_list_found)
  then show ?thesis by (cases "key_list (execute_flushdb s)") auto
qed

lemma wf_set_limit:
  "wf_service s \<Longrightarrow> wf_service (s\<lparr>max_memory_bytes := normalize_max_memory_bytes v\<rparr>)"
  by (auto simp: wf_service_def wf_access_def normalize_max_memory_bytes_def split: option.splits if_splits)

lemma wf_config [simp]: "wf_service s \<Longrightarrow> wf_service (snd (execute_config now as s))"
  unfolding execute_config_def
  by (auto intro!: sbind_inv[where I = wf_service] wf_ensure_max_memory wf_set_limit simp: Let_def)

lemma info_state: "snd (execute_info now as s) = s \<or> snd (execute_info now as s) = purge_all_expired_keys now s"
  by (auto simp: execute_info_def Let_def current_memory_eq)

lemma wf_info [simp]: "wf_service s \<Longrightarrow> wf_service (snd (execute_info now as s))"
  using info_state[of now as s] by auto

lemma wf_dbsize [simp]: "wf_service s \<Longrightarrow> wf_service (snd (execute_dbsize now s))"
  by (simp add: execute_dbsize_def Let_def)

lemmas key_command_wf = hset.wf hget.wf hdel.wf hgetall.wf lpush.wf rpush.wf lpop.wf rpop.wf lrange.wf
  sadd.wf srem.wf smembers.wf sismember.wf zadd.wf zrem.wf zrange.wf zscore.wf get.wf del.wf

lemma wf_limited [simp]: "wf_service (snd r) \<Longrightarrow> wf_service (snd (limited_reply now key r))"
  by (rule limited_reply_inv) auto

lemma wf_execute: "wf_service s \<Longrightarrow> wf_service (snd (execute now c s))"
  by (rule execute_inv) (simp_all add: key_command_wf)

section \<open>Stored collections are never empty\<close>

lemma sound_shrink:
  "sound_entry (SetEntry l) \<Longrightarrow> sound_option (unless_empty SetEntry (filter P l))"
  "sound_entry (ZsetEntry z) \<Longrightarrow> sound_option (unless_empty ZsetEntry (filter Q z))"
  "sound_entry (HashEntry h) \<Longrightarrow> sound_option (unless_empty HashEntry (AList.delete f h))"
  "sound_option (unless_empty ListEntry vs)"
  by (auto simp: unless_empty_def wf_dict_def keys_of_def distinct_map_filter delete_filter)

lemma update_not_Nil [simp]: "AList.update k v d \<noteq> []"
  by (cases d) auto

lemma fold_update_not_Nil: "ps \<noteq> [] \<Longrightarrow> fold (\<lambda>(k, v). AList.update k v) ps z \<noteq> []"
proof -
  have "z \<noteq> [] \<Longrightarrow> fold (\<lambda>(k, v). AList.update k v) qs z \<noteq> []" for qs and z :: "('a, 'b) dict"
    by (induction qs arbitrary: z) (auto simp: case_prod_unfold)
  then show "ps \<noteq> [] \<Longrightarrow> ?thesis" by (cases ps) (auto simp: case_prod_unfold)
qed

lemma score_pairs_Nil: "scored as \<Longrightarrow> score_pairs as = [] \<longleftrightarrow> as = []"
  by (cases as rule: scored.cases) auto

lemma entry_cases:
  obtains (none) "e = None"
  | (string) v where "e = Some (StringEntry v)"
  | (hash) h where "e = Some (HashEntry h)"
  | (list) l where "e = Some (ListEntry l)"
  | (set) l where "e = Some (SetEntry l)"
  | (zset) z where "e = Some (ZsetEntry z)"
  by (metis option.exhaust value_entry.exhaust)

lemmas spec_defs = spec_hset_def spec_hget_def spec_hdel_def spec_hgetall_def spec_push_def
  spec_lpop_def spec_rpop_def spec_lrange_def spec_sadd_def spec_srem_def spec_smembers_def
  spec_sismember_def spec_zadd_def spec_zrem_def spec_zrange_def spec_zscore_def on_type_def Let_def

lemma sound_specs:
  assumes "sound_option e"
  shows "sound_option (snd (spec_hset f v e))" "sound_option (snd (spec_hget f e))"
    "sound_option (snd (spec_hdel f e))" "sound_option (snd (spec_hgetall e))"
    "sound_option (snd (spec_lpop e))" "sound_option (snd (spec_rpop e))"
    "sound_option (snd (spec_lrange i j e))" "sound_option (snd (spec_srem ms e))"
    "sound_option (snd (spec_smembers e))" "sound_option (snd (spec_sismember f e))"
    "sound_option (snd (spec_zrem ms e))" "sound_option (snd (spec_zrange i j e))"
    "sound_option (snd (spec_zscore f e))" "sound_option (snd (spec_get e))"
    "sound_option (snd (spec_del e))"
  using assms
  by (cases e rule: entry_cases,
      simp_all add: spec_defs sound_shrink wf_dict_single discard_members_eq pop_members_eq
        split: list.splits)+

lemma sound_spec_push: "(\<And>l. f l \<noteq> []) \<Longrightarrow> sound_option e \<Longrightarrow> sound_option (snd (spec_push f e))"
  by (cases e rule: entry_cases) (simp_all add: spec_defs)

lemma sound_spec_sadd:
  assumes "ms \<noteq> []" "sound_option e"
  shows "sound_option (snd (spec_sadd ms e))"
proof -
  have "sound_option (Some (SetEntry (snd (add_members ms 0 l))))" if "distinct l" for l
    using assms(1) that add_members_props[OF that, of ms 0] by (cases "add_members ms 0 l") auto
  then show ?thesis using assms(2)
    by (cases e rule: entry_cases) (auto simp: spec_defs case_prod_unfold)
qed

lemma sound_spec_zadd:
  assumes "scored as" "as \<noteq> []" "sound_option e"
  shows "sound_option (snd (spec_zadd as e))"
proof -
  have "sound_option (Some (ZsetEntry (snd (add_scores as 0 z))))" if "wf_dict z" for z
    using assms(1,2) that wf_add_scores[OF that]
    by (simp add: add_scores_eq fold_update_not_Nil score_pairs_Nil) (metis add_scores_eq snd_conv)
  then show ?thesis using assms(3)
    by (cases e rule: entry_cases) (auto simp: spec_defs case_prod_unfold)
qed

text \<open>Operations that only drop entries: purges, sweeps, evictions.\<close>

definition fewer :: "service \<Rightarrow> service \<Rightarrow> bool" where
  "fewer s t \<longleftrightarrow> (\<forall>k. entry_of t k = entry_of s k \<or> entry_of t k = None)"

lemma fewer_sound: "fewer s t \<Longrightarrow> sound_store s \<Longrightarrow> sound_store t"
  unfolding fewer_def sound_store_def by (metis sound_option_simps(1))

lemma fewer_memory: "fewer s t \<Longrightarrow> wf_service s \<Longrightarrow> wf_service t \<Longrightarrow> memory_use t \<le> memory_use s"
  by (rule memory_use_mono) (unfold fewer_def; metis option_bytes_simps(1) zero_le order_refl)+

lemma fewer_within:
  "fewer s t \<Longrightarrow> wf_service s \<Longrightarrow> wf_service t \<Longrightarrow> max_memory_bytes t = max_memory_bytes s \<Longrightarrow>
   within_limit s \<Longrightarrow> within_limit t"
  using fewer_memory[of s t] by (fastforce simp: within_limit_def)

lemma fewer_purge [simp]:
  "fewer s (purge_key now key s)" "fewer s (purge_all_expired_keys now s)" "fewer s s"
  by (auto simp: fewer_def purge_simps purge_all_exact live_def)

lemma fewer_ensure [simp]: "wf_service s \<Longrightarrow> fewer s (ensure_max_memory now ps s)"
proof (cases "max_memory_bytes s")
  case (Some m)
  assume "wf_service s"
  then have "shrinks (purge_all_expired_keys now s) (ensure_max_memory now ps s)"
    using ensure_max_memory_shrinks[OF _ Some] by blast
  then show ?thesis
    unfolding fewer_def shrinks_def by (metis purge_all_exact(1) live_def)
qed (simp add: ensure_max_memory_def fewer_def)

lemma fewer_touch [simp]: "fewer s (touch_key key t) \<longleftrightarrow> fewer s t" "fewer (touch_key key s) t \<longleftrightarrow> fewer s t"
  by (simp_all add: fewer_def)

lemma fewer_run [simp]:
  "fewer s (snd (run_ttl now key s))" "fewer s (snd (run_expire now key sec s))"
  "fewer s (execute_flushdb s)" "fewer s (snd (execute_info now as s))"
  "fewer s (snd (execute_dbsize now s))"
proof -
  show "fewer s (snd (run_expire now key sec s))"
  proof (cases "py_float sec")
    case (Some x)
    then show ?thesis by (simp add: run_expire_state split: option.splits) (simp add: fewer_def)
  qed (simp add: run_expire_def float_arg_def)
  show "fewer s (execute_flushdb s)"
    by (auto simp: fewer_def flushdb_empty fold_delete_key_get)
  show "fewer s (snd (execute_info now as s))"
    using info_state[of now as s] by (metis fewer_purge(2,3))
qed (simp_all add: run_ttl_state execute_dbsize_def Let_def)

lemma sound_run_set:
  "wf_service s \<Longrightarrow> sound_store s \<Longrightarrow> sound_store (snd (run_set now key v s))"
  by (auto simp: run_set_eq sound_store_def[of "after_set key v s"] sound_store_def[of s]
      intro!: fewer_sound[OF fewer_ensure])

lemma sound_limited:
  "wf_service (snd r) \<Longrightarrow> sound_store (snd r) \<Longrightarrow> sound_store (snd (limited_reply now key r))"
  by (rule limited_reply_inv[where I = "\<lambda>s. sound_store s"])
    (auto intro: fewer_sound fewer_ensure)

lemma sound_config:
  assumes "wf_service s" "sound_store s"
  shows "sound_store (snd (execute_config now as s))"
proof -
  have "sound_store (ensure_max_memory now [] (s\<lparr>max_memory_bytes := normalize_max_memory_bytes v\<rparr>))" for v
    by (rule fewer_sound[OF fewer_ensure[OF wf_set_limit[OF assms(1)]]])
      (use assms(2) in \<open>simp add: sound_store_def\<close>)
  then show ?thesis
    unfolding execute_config_def using assms(2)
    by (auto intro!: sbind_inv[where I = sound_store] simp: Let_def)
qed

lemmas key_command_sound = hset.keeps_sound hget.keeps_sound hdel.keeps_sound hgetall.keeps_sound
  lpush.keeps_sound rpush.keeps_sound lpop.keeps_sound rpop.keeps_sound lrange.keeps_sound
  sadd.keeps_sound srem.keeps_sound smembers.keeps_sound sismember.keeps_sound zadd.keeps_sound
  zrem.keeps_sound zrange.keeps_sound zscore.keeps_sound get.keeps_sound del.keeps_sound

lemma sound_execute:
  assumes wf: "wf_service s" and sound: "sound_store s"
    and shape: "argument_shape (name c) (arguments c)"
  shows "sound_store (snd (execute now c s))"
proof (rule execute_inv)
  have "name c \<in> {lit ''LPUSH'', lit ''RPUSH'', lit ''SADD''} \<Longrightarrow> drop 1 (arguments c) \<noteq> []"
    "name c = lit ''ZADD'' \<Longrightarrow> scored (drop 1 (arguments c)) \<and> drop 1 (arguments c) \<noteq> []"
    using shape by (auto simp: argument_shape_simps)
  note args = this
  show "sound_store (snd (run_set now k v s))" for k v by (rule sound_run_set[OF wf sound])
  show "sound_store (snd (execute_config now (arguments c) s))" by (rule sound_config[OF wf sound])
  show "name c = lit ''LPUSH'' \<Longrightarrow> 
      sound_store (snd (limited_reply now k (execute_lpush now k (drop 1 (arguments c)) s)))" for k
    by (rule sound_limited[OF lpush.wf[OF wf] lpush.keeps_sound[OF wf sound sound_spec_push]]) (use args(1) in auto)
  show "name c = lit ''RPUSH'' \<Longrightarrow> 
      sound_store (snd (limited_reply now k (execute_rpush now k (drop 1 (arguments c)) s)))" for k
    by (rule sound_limited[OF rpush.wf[OF wf] rpush.keeps_sound[OF wf sound sound_spec_push]]) (use args(1) in auto)
  show "name c = lit ''SADD'' \<Longrightarrow> 
      sound_store (snd (limited_reply now k (execute_sadd now k (drop 1 (arguments c)) s)))" for k
    by (rule sound_limited[OF sadd.wf[OF wf] sadd.keeps_sound[OF wf sound sound_spec_sadd]]) (use args(1) in auto)
  show "name c = lit ''ZADD'' \<Longrightarrow> 
      sound_store (snd (limited_reply now k (execute_zadd now k (drop 1 (arguments c)) s)))" for k
    by (rule sound_limited[OF zadd.wf[OF wf] zadd.keeps_sound[OF wf sound sound_spec_zadd]]) (use args(2) in auto)
  show "sound_store (snd (limited_reply now k (execute_hset now k f v s)))" for k f v
    by (rule sound_limited[OF hset.wf[OF wf] hset.keeps_sound[OF wf sound sound_specs(1)]])
qed (rule sound fewer_sound[OF fewer_run(1) sound] fewer_sound[OF fewer_run(2) sound]
      fewer_sound[OF fewer_run(3) sound] fewer_sound[OF fewer_run(4) sound]
      fewer_sound[OF fewer_run(5) sound] key_command_sound[OF wf sound], (rule sound_specs, assumption)?)+

section \<open>The memory limit holds after every command\<close>

lemma sum_list_filter_le: "sum_list (map f (filter P xs)) \<le> sum_list (map (f :: 'a \<Rightarrow> nat) xs)"
  by (induction xs) auto

lemma sum_list_butlast_le: "sum_list (map f (butlast xs)) \<le> sum_list (map (f :: 'a \<Rightarrow> nat) xs)"
  by (induction xs) auto

lemma option_bytes_unless_empty:
  "option_bytes key (unless_empty mk xs) \<le> n \<longleftrightarrow> xs = [] \<or> estimate_entry_bytes key (mk xs) \<le> n"
  by (simp add: unless_empty_def)

lemma shrinking_on_type:
  assumes "\<And>x. entry_type x = t \<Longrightarrow> option_bytes key (snd (present x)) \<le> estimate_entry_bytes key x"
  shows "shrinking key (on_type t (a, None) present)"
  using assms by (auto simp: shrinking_def on_type_def split: option.splits)

lemma pop_members_filter:
  "\<exists>P. snd (pop_members ms n z) = filter P z"
proof (induction ms n z rule: pop_members.induct)
  case (1 n z)
  show ?case by (intro exI[of _ "\<lambda>_. True"]) simp
next
  case (2 m ms n z)
  then obtain P where "snd (pop_members (m # ms) n z) = filter P (AList.delete m z)" by auto
  then show ?case by (intro exI[of _ "\<lambda>p. fst p \<noteq> m \<and> P p"]) (simp add: delete_filter conj_commute)
qed

lemma discard_members_filter:
  "\<exists>P. snd (discard_members ms n l) = filter P l"
proof (induction ms n l rule: discard_members.induct)
  case (1 n l)
  show ?case by (intro exI[of _ "\<lambda>_. True"]) simp
next
  case (2 m ms n l)
  then obtain P where "snd (discard_members (m # ms) n l) = filter P (removeAll m l)" by auto
  then show ?case
    by (intro exI[of _ "\<lambda>x. x \<noteq> m \<and> P x"]) (auto simp: removeAll_filter_not_eq intro: filter_cong)
qed

lemma shrinking_reads:
  "shrinking key (spec_hget f)" "shrinking key spec_hgetall" "shrinking key (spec_lrange i j)"
  "shrinking key spec_smembers" "shrinking key (spec_sismember f)"
  "shrinking key (spec_zrange i j)" "shrinking key (spec_zscore f)"
  by (simp_all add: spec_hget_def spec_hgetall_def spec_lrange_def spec_smembers_def
      spec_sismember_def spec_zrange_def spec_zscore_def shrinking_on_type)

lemma shrinking_hdel: "shrinking key (spec_hdel f)"
  unfolding spec_hdel_def
proof (rule shrinking_on_type)
  fix x
  assume "entry_type x = HASH"
  then show "option_bytes key (snd (Inr (if f \<in> set (keys_of (hash_of x)) then 1 else 0) :: py_exc + int,
      unless_empty HashEntry (AList.delete f (hash_of x)))) \<le> estimate_entry_bytes key x"
    by (cases x) (simp_all add: option_bytes_unless_empty delete_filter sum_list_filter_le)
qed

lemma shrinking_pops: "shrinking key spec_lpop" "shrinking key spec_rpop"
proof -
  show "shrinking key spec_lpop"
    unfolding spec_lpop_def
  proof (rule shrinking_on_type)
    fix x
    assume "entry_type x = LIST"
    then show "option_bytes key (snd (case list_of x of [] \<Rightarrow> (Inr None, Some x)
          | v # rest \<Rightarrow> (Inr (Some v), unless_empty ListEntry rest))) \<le> estimate_entry_bytes key x"
      by (cases x) (simp_all add: option_bytes_unless_empty split: list.split)
  qed
  show "shrinking key spec_rpop"
    unfolding spec_rpop_def
  proof (rule shrinking_on_type)
    fix x
    assume "entry_type x = LIST"
    then show "option_bytes key (snd (if list_of x = [] then (Inr None, Some x)
          else (Inr (Some (last (list_of x))), unless_empty ListEntry (butlast (list_of x)))))
        \<le> estimate_entry_bytes key x"
      by (cases x) (simp_all add: option_bytes_unless_empty sum_list_butlast_le)
  qed
qed

lemma shrinking_rems: "shrinking key (spec_srem ms)" "shrinking key (spec_zrem ms)"
proof -
  show "shrinking key (spec_srem ms)"
    unfolding spec_srem_def
  proof (rule shrinking_on_type)
    fix x
    obtain P where "snd (discard_members ms 0 (set_of x)) = filter P (set_of x)"
      using discard_members_filter by blast
    then show "option_bytes key (snd (case discard_members ms 0 (set_of x) of (n, l) \<Rightarrow>
        (Inr n, unless_empty SetEntry l))) \<le> estimate_entry_bytes key x" if "entry_type x = SET"
      using that by (cases x)
        (simp_all add: option_bytes_unless_empty case_prod_unfold sum_list_filter_le)
  qed
  show "shrinking key (spec_zrem ms)"
    unfolding spec_zrem_def
  proof (rule shrinking_on_type)
    fix x
    obtain P where "snd (pop_members ms 0 (zset_of x)) = filter P (zset_of x)"
      using pop_members_filter by blast
    then show "option_bytes key (snd (case pop_members ms 0 (zset_of x) of (n, z) \<Rightarrow>
        (Inr n, unless_empty ZsetEntry z))) \<le> estimate_entry_bytes key x" if "entry_type x = ZSET"
      using that by (cases x)
        (simp_all add: option_bytes_unless_empty case_prod_unfold sum_list_filter_le)
  qed
qed

lemma shrinking_get_del: "shrinking key spec_get" "shrinking key spec_del"
proof -
  have "option_bytes key (snd (spec_get e)) \<le> option_bytes key e"
    "option_bytes key (snd (spec_del e)) \<le> option_bytes key e" for e
    by (cases e rule: entry_cases; simp)+
  then show "shrinking key spec_get" "shrinking key spec_del" by (simp_all add: shrinking_def)
qed

lemmas shrinking_specs = shrinking_reads shrinking_hdel shrinking_pops shrinking_rems shrinking_get_del

lemma within_ensure: "wf_service s \<Longrightarrow> within_limit (ensure_max_memory now ps s)"
  by (simp add: within_limit_def ensure_max_memory_limit)

text \<open>A writing command that raises left the view, and so the memory, alone.\<close>

lemma within_limited:
  assumes kc: "key_command op spec now key" and wf: "wf_service s" and lim: "within_limit s"
    and err: "\<And>x. fst (spec (live now (repos s) key)) = Inl x \<Longrightarrow>
      snd (spec (live now (repos s) key)) = live now (repos s) key"
  shows "within_limit (snd (limited_reply now key (op s)))"
proof (cases "fst (op s)")
  case (Inl x)
  then have "snd (limited_reply now key (op s)) = snd (op s)"
    by (cases "op s") (simp add: limited_reply_def)
  then show ?thesis
    using key_command.within_unchanged[OF kc wf lim] err Inl key_command.reply[OF kc wf] by simp
next
  case (Inr n)
  then have "snd (limited_reply now key (op s)) = ensure_max_memory now [key] (snd (op s))"
    by (cases "op s") (simp add: limited_reply_def)
  then show ?thesis using within_ensure key_command.wf[OF kc wf] by simp
qed

lemma write_specs_raise:
  "fst (spec_hset f v e) = Inl x \<Longrightarrow> snd (spec_hset f v e) = e"
  "fst (spec_push g e) = Inl x \<Longrightarrow> snd (spec_push g e) = e"
  "fst (spec_sadd ms e) = Inl x \<Longrightarrow> snd (spec_sadd ms e) = e"
  "scored as \<Longrightarrow> fst (spec_zadd as e) = Inl x \<Longrightarrow> snd (spec_zadd as e) = e"
  by (cases e rule: entry_cases, simp_all add: spec_defs add_scores_eq case_prod_unfold)+

lemma within_config:
  assumes "wf_service s" "within_limit s"
  shows "within_limit (snd (execute_config now as s))"
  unfolding execute_config_def
  by (auto intro!: sbind_inv[where I = within_limit] within_ensure wf_set_limit assms simp: Let_def)

lemma max_memory_run [simp]:
  "max_memory_bytes (snd (run_ttl now key s)) = max_memory_bytes s"
  "max_memory_bytes (snd (run_expire now key sec s)) = max_memory_bytes s"
  "max_memory_bytes (snd (execute_info now as s)) = max_memory_bytes s"
  "max_memory_bytes (snd (execute_dbsize now s)) = max_memory_bytes s"
proof -
  show "max_memory_bytes (snd (run_expire now key sec s)) = max_memory_bytes s"
    by (simp add: run_expire_def sbind_def case_prod_unfold Let_def split: sum.splits)
  show "max_memory_bytes (snd (execute_info now as s)) = max_memory_bytes s"
    using info_state[of now as s] by auto
qed (simp_all add: run_ttl_state execute_dbsize_def Let_def)

lemma within_flushdb: "wf_service s \<Longrightarrow> within_limit (execute_flushdb s)"
proof -
  assume wf: "wf_service s"
  have "memory_use (execute_flushdb s) = 0" by (simp add: memory_use_def flushdb_keys)
  then show ?thesis
    using wf_serviceD(4)[OF wf_flushdb[OF wf]] by (fastforce simp: within_limit_def)
qed

lemmas key_command_within = hget.within_shrinking hdel.within_shrinking hgetall.within_shrinking
  lpop.within_shrinking rpop.within_shrinking lrange.within_shrinking srem.within_shrinking
  smembers.within_shrinking sismember.within_shrinking zrem.within_shrinking
  zrange.within_shrinking zscore.within_shrinking get.within_shrinking del.within_shrinking

lemma within_execute:
  assumes wf: "wf_service s" and lim: "within_limit s"
    and shape: "argument_shape (name c) (arguments c)"
  shows "within_limit (snd (execute now c s))"
proof (rule execute_inv)
  note raise = write_specs_raise
  show "within_limit (snd (limited_reply now k (execute_hset now k f v s)))" for k f v
    by (rule within_limited[OF hset.key_command_axioms wf lim raise(1)])
  show "within_limit (snd (limited_reply now k (execute_lpush now k vs s)))" for k vs
    by (rule within_limited[OF lpush.key_command_axioms wf lim raise(2)])
  show "within_limit (snd (limited_reply now k (execute_rpush now k vs s)))" for k vs
    by (rule within_limited[OF rpush.key_command_axioms wf lim raise(2)])
  show "within_limit (snd (limited_reply now k (execute_sadd now k ms s)))" for k ms
    by (rule within_limited[OF sadd.key_command_axioms wf lim raise(3)])
  show "within_limit (snd (limited_reply now k (execute_zadd now k (drop 1 (arguments c)) s)))"
    if "name c = lit ''ZADD''" for k
    by (rule within_limited[OF zadd.key_command_axioms wf lim raise(4)])
      (use shape that in \<open>auto simp: argument_shape_simps\<close>)
  show "within_limit (snd (run_set now k v s))" for k v
    using wf by (simp add: run_set_eq within_ensure)
qed (simp_all add: key_command_within[OF wf lim] shrinking_specs lim within_config wf within_flushdb
      fewer_within[OF _ wf _ _ lim])

section \<open>Errors\<close>

lemma clean_wrong_type [simp]: "clean wrong_type"
  by (simp add: wrong_type_def)

lemma clean_replies [simp]:
  "clean (fst (number_reply r)) = clean (fst r)"
  "clean (fst (limited_reply now key r)) = clean (fst r)"
  "clean (fst (blob_reply q)) = clean (fst q)"
  by (auto simp: number_reply_def limited_reply_def blob_reply_def sbind_def clean_def
      split: prod.splits sum.splits)

lemma clean_specs:
  "clean (fst (spec_hset f v e))" "clean (fst (spec_hget f e))" "clean (fst (spec_hdel f e))"
  "clean (fst (spec_hgetall e))" "clean (fst (spec_push g e))" "clean (fst (spec_lpop e))"
  "clean (fst (spec_rpop e))" "clean (fst (spec_lrange i j e))" "clean (fst (spec_sadd ms e))"
  "clean (fst (spec_srem ms e))" "clean (fst (spec_smembers e))" "clean (fst (spec_sismember f e))"
  "scored as \<Longrightarrow> clean (fst (spec_zadd as e))" "clean (fst (spec_zrem ms e))"
  "clean (fst (spec_zrange i j e))" "clean (fst (spec_zscore f e))"
  "clean (fst (spec_get e))" "clean (fst (spec_del e))"
  by (cases e rule: entry_cases,
      simp_all add: spec_defs add_scores_eq case_prod_unfold split: list.splits)+

lemmas key_command_reply = hset.reply hget.reply hdel.reply hgetall.reply lpush.reply rpush.reply
  lpop.reply rpop.reply lrange.reply sadd.reply srem.reply smembers.reply sismember.reply zadd.reply
  zrem.reply zrange.reply zscore.reply get.reply del.reply

lemma with_arg_eq [simp]: "i < length as \<Longrightarrow> with_arg as i f s = f (as ! i) s"
  by (simp add: with_arg_def arg_def)

lemma with_arg_first:
  "2 \<le> length as \<Longrightarrow> with_arg as 0 f s = f (as ! 0) s" "3 \<le> length as \<Longrightarrow> with_arg as 0 f s = f (as ! 0) s"
  by (cases as; simp)+

lemma with_range_eq:
  "length as = 3 \<Longrightarrow> py_int (as ! 1) = Some i \<Longrightarrow> py_int (as ! 2) = Some j \<Longrightarrow>
   with_range as f s = f (as ! 0) i j s"
  by (simp add: with_range_def int_arg_def)

text \<open>
  The one way for a validated command to raise something else: \<open>TTL\<close> on a key whose expiration is
  not a finite number.
\<close>

definition endless :: "pyfloat \<Rightarrow> pystr \<Rightarrow> keyspace \<Rightarrow> bool" where
  "endless now key ks \<longleftrightarrow>
     (\<exists>x. get_expiration (snd ks) key = Some x \<and> fceil (fsub x now) \<in> range Inl)"

lemma clean_ttl: "clean (fst (run_ttl now key s)) \<or> endless now key (repos s)"
  by (cases now s key rule: live_cases)
    (auto simp: run_ttl_def ttl_service_def calculate_remaining_seconds_def endless_def
      remaining_seconds_at_def case_prod_unfold rbind_def purge_simps split: option.splits sum.splits)

lemma clean_map [simp]: "clean (fst (sbind r (\<lambda>t s. (Inr (g t), s)))) = clean (fst r)"
  by (auto simp: sbind_def clean_def split: prod.splits sum.splits)

lemma clean_others:
  "argument_shape (lit ''CONFIG'') as \<Longrightarrow> clean (fst (execute_config now as s))"
  "argument_shape (lit ''SELECT'') as \<Longrightarrow> clean (execute_select (as ! 0))"
  "argument_shape (lit ''CLIENT'') as \<Longrightarrow> clean (execute_client as)"
  "py_float sec = Some x \<Longrightarrow> clean (fst (run_expire now k sec s))"
  "clean (fst (execute_info now as s))"
  by (auto simp: argument_shape_simps execute_config_def execute_select_def execute_client_def
      execute_info_def run_expire_def arg_def int_arg_def float_arg_def Let_def case_prod_unfold)

text \<open>The commands the dispatcher knows.\<close>

definition command_names :: "pystr list" where
  "command_names =
     [lit ''AUTH'', lit ''PING'', lit ''SELECT'', lit ''CLIENT'', lit ''SET'', lit ''GET'', lit
      ''DEL'', lit ''EXPIRE'', lit ''TTL'', lit ''DBSIZE'', lit ''FLUSHDB'', lit ''INFO'', lit
      ''CONFIG'', lit ''HSET'', lit ''HGET'', lit ''HDEL'', lit ''HGETALL'', lit ''LPUSH'', lit
      ''RPUSH'', lit ''LPOP'', lit ''RPOP'', lit ''LRANGE'', lit ''SADD'', lit ''SREM'', lit
      ''SMEMBERS'', lit ''SISMEMBER'', lit ''ZADD'', lit ''ZREM'', lit ''ZRANGE'', lit
      ''ZSCORE'']"

lemma execute_cases:
  assumes "name c = lit ''AUTH'' \<Longrightarrow> P ((Inl (CommandValidationError ERR_UNSUPPORTED_AUTH),
      s))"
    and "name c = lit ''PING'' \<Longrightarrow> P ((Inr (execute_ping (arguments c)), s))"
    and "name c = lit ''SELECT'' \<Longrightarrow> P (with_arg (arguments c) 0 (\<lambda>db s.
      (execute_select db, s)) s)"
    and "name c = lit ''CLIENT'' \<Longrightarrow> P ((execute_client (arguments c), s))"
    and "name c = lit ''SET'' \<Longrightarrow> P (with_arg (arguments c) 0 (\<lambda>key. with_arg
      (arguments c) 1 (\<lambda>v. run_set now key v)) s)"
    and "name c = lit ''GET'' \<Longrightarrow> P (with_arg (arguments c) 0 (run_get now) s)"
    and "name c = lit ''DEL'' \<Longrightarrow> P (with_arg (arguments c) 0 (run_del now) s)"
    and "name c = lit ''EXPIRE'' \<Longrightarrow> P (with_arg (arguments c) 0 (\<lambda>key. with_arg
      (arguments c) 1 (\<lambda>sec. run_expire now key sec)) s)"
    and "name c = lit ''TTL'' \<Longrightarrow> P (with_arg (arguments c) 0 (run_ttl now) s)"
    and "name c = lit ''DBSIZE'' \<Longrightarrow> P ((case execute_dbsize now s of (n, s1)
      \<Rightarrow> (Inr (RespNumber n), s1)))"
    and "name c = lit ''FLUSHDB'' \<Longrightarrow> P ((Inr (RespSimpleString RESP_OK), execute_flushdb
      s))"
    and "name c = lit ''INFO'' \<Longrightarrow> P (sbind (execute_info now (arguments c) s) (\<lambda>t
      s1. (Inr (RespBlobString t), s1)))"
    and "name c = lit ''CONFIG'' \<Longrightarrow> P (execute_config now (arguments c) s)"
    and "name c = lit ''HSET'' \<Longrightarrow> P (with_arg (arguments c) 0 (\<lambda>key. with_arg
      (arguments c) 1 (\<lambda>field. with_arg (arguments c) 2 (\<lambda>v s. limited_reply now key
      (execute_hset now key field v s)))) s)"
    and "name c = lit ''HGET'' \<Longrightarrow> P (with_arg (arguments c) 0 (\<lambda>key. with_arg
      (arguments c) 1 (\<lambda>field s. blob_reply (execute_hget now key field s))) s)"
    and "name c = lit ''HDEL'' \<Longrightarrow> P (with_arg (arguments c) 0 (\<lambda>key. with_arg
      (arguments c) 1 (\<lambda>field s. number_reply (execute_hdel now key field s))) s)"
    and "name c = lit ''HGETALL'' \<Longrightarrow> P (with_arg (arguments c) 0 (execute_hgetall now)
      s)"
    and "name c = lit ''LPUSH'' \<Longrightarrow> P (with_arg (arguments c) 0 (\<lambda>key s.
      limited_reply now key (execute_lpush now key (drop 1 (arguments c)) s)) s)"
    and "name c = lit ''RPUSH'' \<Longrightarrow> P (with_arg (arguments c) 0 (\<lambda>key s.
      limited_reply now key (execute_rpush now key (drop 1 (arguments c)) s)) s)"
    and "name c = lit ''LPOP'' \<Longrightarrow> P (with_arg (arguments c) 0 (\<lambda>key s. blob_reply
      (execute_lpop now key s)) s)"
    and "name c = lit ''RPOP'' \<Longrightarrow> P (with_arg (arguments c) 0 (\<lambda>key s. blob_reply
      (execute_rpop now key s)) s)"
    and "name c = lit ''LRANGE'' \<Longrightarrow> P (with_range (arguments c) (execute_lrange now) s)"
    and "name c = lit ''SADD'' \<Longrightarrow> P (with_arg (arguments c) 0 (\<lambda>key s.
      limited_reply now key (execute_sadd now key (drop 1 (arguments c)) s)) s)"
    and "name c = lit ''SREM'' \<Longrightarrow> P (with_arg (arguments c) 0 (\<lambda>key s.
      number_reply (execute_srem now key (drop 1 (arguments c)) s)) s)"
    and "name c = lit ''SMEMBERS'' \<Longrightarrow> P (with_arg (arguments c) 0 (execute_smembers now)
      s)"
    and "name c = lit ''SISMEMBER'' \<Longrightarrow> P (with_arg (arguments c) 0 (\<lambda>key.
      with_arg (arguments c) 1 (\<lambda>member s. number_reply (execute_sismember now key member s)))
      s)"
    and "name c = lit ''ZADD'' \<Longrightarrow> P (with_arg (arguments c) 0 (\<lambda>key s.
      limited_reply now key (execute_zadd now key (drop 1 (arguments c)) s)) s)"
    and "name c = lit ''ZREM'' \<Longrightarrow> P (with_arg (arguments c) 0 (\<lambda>key s.
      number_reply (execute_zrem now key (drop 1 (arguments c)) s)) s)"
    and "name c = lit ''ZRANGE'' \<Longrightarrow> P (with_range (arguments c) (execute_zrange now) s)"
    and "name c = lit ''ZSCORE'' \<Longrightarrow> P (with_arg (arguments c) 0 (\<lambda>key. with_arg
      (arguments c) 1 (\<lambda>member s. blob_reply (execute_zscore now key member s))) s)"
    and "name c \<notin> set command_names \<Longrightarrow> P (Inl (CommandValidationError ERR_UNSUPPORTED_COMMAND), s)"
  shows "P (execute now c s)"
  unfolding execute_def Let_def
  by (simp add: assms command_names_def del: One_nat_def)

lemma clean_execute:
  assumes "wf_service s" "argument_shape (name c) (arguments c)"
    and "\<not> (name c = lit ''TTL'' \<and> endless now (arguments c ! 0) (repos s))"
  shows "clean (fst (execute now c s))"
  by (rule execute_cases[where P = "\<lambda>r. clean (fst r)"])
    (use assms clean_ttl[of now "arguments c ! 0" s] in \<open>auto simp: argument_shape_simps
      key_command_reply clean_specs with_arg_first with_range_eq clean_others run_set_eq
      execute_dbsize_def Let_def\<close>)

section \<open>The dispatcher refines a specification on the live view\<close>

definition spec_set :: "pystr \<Rightarrow> value_entry option \<Rightarrow> (py_exc + resp) \<times> value_entry option" where
  "spec_set v e = (Inr (RespSimpleString RESP_OK), Some (StringEntry v))"

definition spec_number ::
  "(value_entry option \<Rightarrow> (py_exc + int) \<times> value_entry option)
    \<Rightarrow> value_entry option \<Rightarrow> (py_exc + resp) \<times> value_entry option" where
  "spec_number f e = (rbind (fst (f e)) (\<lambda>n. Inr (RespNumber n)), snd (f e))"

definition spec_blob ::
  "(value_entry option \<Rightarrow> (py_exc + pystr option) \<times> value_entry option)
    \<Rightarrow> value_entry option \<Rightarrow> (py_exc + resp) \<times> value_entry option" where
  "spec_blob f e =
     (rbind (fst (f e)) (\<lambda>v. Inr (case v of None \<Rightarrow> RespNull | Some t \<Rightarrow> RespBlobString t)), snd (f e))"

definition int_of :: "pystr \<Rightarrow> int" where
  "int_of v = (case py_int v of None \<Rightarrow> 0 | Some i \<Rightarrow> i)"

text \<open>The specification of a command on one key: a function on the entry a client sees under it.\<close>

definition key_spec ::
  "pystr \<Rightarrow> pystr list \<Rightarrow> (value_entry option \<Rightarrow> (py_exc + resp) \<times> value_entry option) option" where
  "key_spec nm as =
     (if nm = lit ''SET'' then Some (spec_set (as ! 1))
      else if nm = lit ''GET'' then Some spec_get
      else if nm = lit ''DEL'' then Some spec_del
      else if nm = lit ''HSET'' then Some (spec_number (spec_hset (as ! 1) (as ! 2)))
      else if nm = lit ''HGET'' then Some (spec_blob (spec_hget (as ! 1)))
      else if nm = lit ''HDEL'' then Some (spec_number (spec_hdel (as ! 1)))
      else if nm = lit ''HGETALL'' then Some spec_hgetall
      else if nm = lit ''LPUSH'' then Some (spec_number (spec_push (\<lambda>l. rev (drop 1 as) @ l)))
      else if nm = lit ''RPUSH'' then Some (spec_number (spec_push (\<lambda>l. l @ drop 1 as)))
      else if nm = lit ''LPOP'' then Some (spec_blob spec_lpop)
      else if nm = lit ''RPOP'' then Some (spec_blob spec_rpop)
      else if nm = lit ''LRANGE'' then Some (spec_lrange (int_of (as ! 1)) (int_of (as ! 2)))
      else if nm = lit ''SADD'' then Some (spec_number (spec_sadd (drop 1 as)))
      else if nm = lit ''SREM'' then Some (spec_number (spec_srem (drop 1 as)))
      else if nm = lit ''SMEMBERS'' then Some spec_smembers
      else if nm = lit ''SISMEMBER'' then Some (spec_number (spec_sismember (as ! 1)))
      else if nm = lit ''ZADD'' then Some (spec_number (spec_zadd (drop 1 as)))
      else if nm = lit ''ZREM'' then Some (spec_number (spec_zrem (drop 1 as)))
      else if nm = lit ''ZRANGE'' then Some (spec_zrange (int_of (as ! 1)) (int_of (as ! 2)))
      else if nm = lit ''ZSCORE'' then Some (spec_blob (spec_zscore (as ! 1)))
      else None)"

text \<open>
  The relation between a run of a command and its specification: the reply is the specified one;
  the live view afterwards is the specified one, except that keys may have been evicted when there
  is a memory limit.
\<close>

definition refined ::
  "pyfloat \<Rightarrow> pystr \<Rightarrow> (value_entry option \<Rightarrow> 'r \<times> value_entry option) \<Rightarrow> service
    \<Rightarrow> 'r \<times> service \<Rightarrow> bool" where
  "refined now key f s r \<longleftrightarrow>
     (let view = (live now (repos s))(key := snd (f (live now (repos s) key)))
      in fst r = fst (f (live now (repos s) key)) \<and>
         (\<forall>k. live now (repos (snd r)) k = view k \<or> live now (repos (snd r)) k = None) \<and>
         (max_memory_bytes s = None \<longrightarrow> live now (repos (snd r)) = view))"

lemma refined_command: "key_command op spec now key \<Longrightarrow> wf_service s \<Longrightarrow> refined now key spec s (op s)"
  by (simp add: refined_def Let_def key_command.reply key_command.view)

lemma refined_replies:
  "refined now key f s r \<Longrightarrow> refined now key (spec_number f) s (number_reply r)"
  "refined now key g s q \<Longrightarrow> refined now key (spec_blob g) s (blob_reply q)"
proof -
  have "fst (number_reply r) = rbind (fst r) (\<lambda>n. Inr (RespNumber n))"
    by (cases r; cases "fst r") (auto simp: number_reply_def)
  then show "refined now key f s r \<Longrightarrow> refined now key (spec_number f) s (number_reply r)"
    by (simp add: refined_def Let_def spec_number_def)
  have "fst (blob_reply q) = rbind (fst q) (\<lambda>v. Inr (case v of None \<Rightarrow> RespNull | Some t \<Rightarrow> RespBlobString t))"
    by (cases q; cases "fst q") (auto simp: blob_reply_def)
  then show "refined now key g s q \<Longrightarrow> refined now key (spec_blob g) s (blob_reply q)"
    by (simp add: refined_def Let_def spec_blob_def)
qed

lemma view_ensure:
  assumes "wf_service t"
  shows "live now (repos (ensure_max_memory now ps t)) k = live now (repos t) k \<or>
     live now (repos (ensure_max_memory now ps t)) k = None"
    "max_memory_bytes t = None \<Longrightarrow> ensure_max_memory now ps t = t"
proof -
  show "live now (repos (ensure_max_memory now ps t)) k = live now (repos t) k \<or>
     live now (repos (ensure_max_memory now ps t)) k = None"
  proof (cases "max_memory_bytes t")
    case (Some m)
    let ?p = "purge_all_expired_keys now t" and ?t = "ensure_max_memory now ps t"
    have "shrinks ?p ?t" using ensure_max_memory_shrinks[OF assms Some] by blast
    then have "live now (repos ?t) k = live now (repos ?p) k \<or> live now (repos ?t) k = None"
      unfolding shrinks_def live_def is_expired_def by metis
    then show ?thesis by (simp add: live_purge_all)
  qed (simp add: ensure_max_memory_def)
qed (simp add: ensure_max_memory_def)

lemma refined_limited:
  assumes kc: "key_command op spec now key" and wf: "wf_service s"
  shows "refined now key (spec_number spec) s (limited_reply now key (op s))"
proof (cases "op s")
  case (Pair r t)
  have ref: "refined now key spec s (r, t)" using refined_command[OF assms] Pair by simp
  have wft: "wf_service t" and lim: "max_memory_bytes t = max_memory_bytes s"
    using key_command.wf[OF assms] key_command.limit[OF assms] Pair by simp_all
  show ?thesis
  proof (cases r)
    case (Inl x)
    then have "limited_reply now key (op s) = (Inl x, t)" using Pair by (simp add: limited_reply_def)
    then show ?thesis
      using ref Inl unfolding refined_def Let_def spec_number_def
      by (metis fst_conv snd_conv rbind_simps(1))
  next
    case (Inr n)
    then have "limited_reply now key (op s) = (Inr (RespNumber n), ensure_max_memory now [key] t)"
      using Pair by (simp add: limited_reply_def)
    moreover have "live now (repos (ensure_max_memory now [key] t)) k = live now (repos t) k \<or>
        live now (repos (ensure_max_memory now [key] t)) k = None" for k
      by (rule view_ensure(1)[OF wft])
    ultimately show ?thesis
      using ref Inr view_ensure(2)[OF wft] lim unfolding refined_def Let_def spec_number_def
      by (metis fst_conv snd_conv rbind_simps(2))
  qed
qed

lemma refined_set: "wf_service s \<Longrightarrow> refined now key (spec_set v) s (run_set now key v s)"
proof -
  assume wf: "wf_service s"
  have "live now (repos (after_set key v s)) = (live now (repos s))(key := Some (StringEntry v))"
    by (auto simp: fun_eq_iff live_def is_expired_def)
  then show ?thesis
    using view_ensure(1)[OF wf_after_set[OF wf], of now "[key]" key v]
      view_ensure(2)[OF wf_after_set[OF wf], of key v now "[key]"]
    unfolding refined_def Let_def spec_set_def run_set_eq fst_conv snd_conv after_set_get by metis
qed

lemma key_spec_known: "key_spec nm as = Some f \<Longrightarrow> nm \<in> set command_names"
  by (simp add: key_spec_def command_names_def split: if_splits)

lemma refined_execute:
  assumes "wf_service s" "argument_shape (name c) (arguments c)"
    and "key_spec (name c) (arguments c) = Some f"
  shows "refined now (arguments c ! 0) f s (execute now c s)"
proof -
  have int: "py_int v = Some i \<Longrightarrow> int_of v = i" for v i by (simp add: int_of_def)
  show ?thesis
    by (rule execute_cases[where P = "refined now (arguments c ! 0) f s"])
      (use assms key_spec_known[OF assms(3)] in \<open>auto simp: key_spec_def argument_shape_simps with_arg_first with_range_eq int
        refined_set refined_command refined_limited refined_replies
        hset.key_command_axioms hget.key_command_axioms hdel.key_command_axioms
        hgetall.key_command_axioms lpush.key_command_axioms rpush.key_command_axioms
        lpop.key_command_axioms rpop.key_command_axioms lrange.key_command_axioms
        sadd.key_command_axioms srem.key_command_axioms smembers.key_command_axioms
        sismember.key_command_axioms zadd.key_command_axioms zrem.key_command_axioms
        zrange.key_command_axioms zscore.key_command_axioms get.key_command_axioms
        del.key_command_axioms\<close>)
qed

section \<open>Laws of the commands\<close>

abbreviation cmd :: "string \<Rightarrow> pystr list \<Rightarrow> command" where
  "cmd nm as \<equiv> \<lparr>name = lit nm, arguments = as\<rparr>"

lemma execute_simps:
  "execute now (cmd ''SET'' [k, v]) s = run_set now k v s"
  "execute now (cmd ''GET'' [k]) s = run_get now k s"
  "execute now (cmd ''DEL'' [k]) s = run_del now k s"
  "execute now (cmd ''EXPIRE'' [k, sec]) s = run_expire now k sec s"
  "execute now (cmd ''TTL'' [k]) s = run_ttl now k s"
  "execute now (cmd ''DBSIZE'' []) s = (Inr (RespNumber (fst (execute_dbsize now s))), snd (execute_dbsize now s))"
  "execute now (cmd ''FLUSHDB'' []) s = (Inr (RespSimpleString RESP_OK), execute_flushdb s)"
  "execute now (cmd ''HSET'' [k, f, v]) s = limited_reply now k (execute_hset now k f v s)"
  "execute now (cmd ''HGET'' [k, f]) s = blob_reply (execute_hget now k f s)"
  "execute now (cmd ''RPUSH'' (k # vs)) s = limited_reply now k (execute_rpush now k vs s)"
  "execute now (cmd ''LPUSH'' (k # vs)) s = limited_reply now k (execute_lpush now k vs s)"
  "execute now (cmd ''LPOP'' [k]) s = blob_reply (execute_lpop now k s)"
  "execute now (cmd ''SADD'' (k # vs)) s = limited_reply now k (execute_sadd now k vs s)"
  "execute now (cmd ''SMEMBERS'' [k]) s = execute_smembers now k s"
  by (simp_all add: execute_def case_prod_unfold)

text \<open>What a client sees at a later reading, when the key has no expiration.\<close>

lemma live_no_expiration:
  "get_expiration (snd ks) k = None \<Longrightarrow> live now ks k = store_get (fst ks) k"
  by (simp add: live_def is_expired_def)

text \<open>A written entry that fits the limit is stored after the enforcement, with its expiration.\<close>

lemma ensure_keeps_all:
  assumes "wf_service s" "entry_of s key = Some e" "\<not> is_expired now key (repos s)"
    and "\<And>m. max_memory_bytes s = Some m \<Longrightarrow> int (estimate_entry_bytes key e) \<le> m"
  shows "entry_of (ensure_max_memory now [key] s) key = Some e"
    "get_expiration (snd (repos (ensure_max_memory now [key] s))) key = get_expiration (snd (repos s)) key"
proof -
  show keep: "entry_of (ensure_max_memory now [key] s) key = Some e"
    by (rule ensure_max_memory_keeps) (use assms in auto)
  show "get_expiration (snd (repos (ensure_max_memory now [key] s))) key = get_expiration (snd (repos s)) key"
  proof (cases "max_memory_bytes s")
    case None
    then show ?thesis by (simp add: ensure_max_memory_def)
  next
    case (Some m)
    have "shrinks (purge_all_expired_keys now s) (ensure_max_memory now [key] s)"
      using ensure_max_memory_shrinks[OF assms(1) Some] by blast
    then show ?thesis using shrinks_entry[OF _ keep] assms(3) by (simp add: purge_all_exact)
  qed
qed

text \<open>\<open>SET\<close> with room for the entry, then \<open>GET\<close> at a later reading.\<close>

lemma set_get_reply:
  assumes "wf_service s"
    and "\<And>m. max_memory_bytes s = Some m \<Longrightarrow> int (estimate_entry_bytes k (StringEntry v)) \<le> m"
  shows "fst (execute later (cmd ''GET'' [k]) (snd (execute now (cmd ''SET'' [k, v]) s))) = Inr (RespBlobString v)"
proof -
  let ?t = "after_set k v s"
  have "\<not> is_expired now k (repos ?t)" by (simp add: is_expired_def)
  note keep = ensure_keeps_all[OF wf_after_set[OF assms(1), of k v], where key = k and e = "StringEntry v"
      and now = now]
  have "live later (repos (snd (run_set now k v s))) k = Some (StringEntry v)"
    using keep \<open>\<not> is_expired now k (repos ?t)\<close> assms(2) by (simp add: run_set_eq live_no_expiration)
  then show ?thesis
    using get.reply[OF wf_run_set[OF assms(1)], of later k now k v] by (simp add: execute_simps)
qed

lemma limited_reply_unlimited:
  "max_memory_bytes (snd r) = None \<Longrightarrow> limited_reply now k r = number_reply r"
  by (cases r; cases "fst r") (auto simp: limited_reply_def number_reply_def ensure_max_memory_def)

text \<open>A write without a limit, followed by a read of the same key at a later reading.\<close>

lemma write_then_live:
  assumes kc: "key_command op spec now key" and wf: "wf_service s" and none: "max_memory_bytes s = None"
    and fresh: "get_expiration (snd (repos s)) key = None"
  shows "live later (repos (snd (limited_reply now key (op s)))) key = snd (spec (live now (repos s) key))"
    and "wf_service (snd (limited_reply now key (op s)))"
    and "max_memory_bytes (snd (limited_reply now key (op s))) = None"
    and "get_expiration (snd (repos (snd (limited_reply now key (op s))))) key = None"
proof -
  have eq: "snd (limited_reply now key (op s)) = snd (op s)"
    using limited_reply_unlimited[of "op s" now key] key_command.limit[OF kc wf] none by simp
  have exp: "get_expiration (snd (repos (snd (op s)))) key = None"
    using key_command.expiration[OF kc wf, of key] fresh by simp
  then show "live later (repos (snd (limited_reply now key (op s)))) key = snd (spec (live now (repos s) key))"
    using key_command.entry[OF kc wf, of key] by (simp add: eq live_no_expiration)
  show "wf_service (snd (limited_reply now key (op s)))"
    "max_memory_bytes (snd (limited_reply now key (op s))) = None"
    "get_expiration (snd (repos (snd (limited_reply now key (op s))))) key = None"
    using key_command.wf[OF kc wf] key_command.limit[OF kc wf] none exp by (simp_all add: eq)
qed

lemma reply_fst:
  "fst (blob_reply q) = rbind (fst q) (\<lambda>v. Inr (case v of None \<Rightarrow> RespNull | Some t \<Rightarrow> RespBlobString t))"
  "fst (number_reply r) = rbind (fst r) (\<lambda>n. Inr (RespNumber n))"
  "fst (limited_reply now k r) = rbind (fst r) (\<lambda>n. Inr (RespNumber n))"
  by (cases q; cases "fst q"; auto simp: blob_reply_def)
    (cases r; cases "fst r"; auto simp: number_reply_def limited_reply_def)+

section \<open>Ranges\<close>

text \<open>A bound counted from the end when negative.\<close>

definition from_end :: "nat \<Rightarrow> int \<Rightarrow> int" where
  "from_end n i = (if i < 0 then i + int n else i)"

lemma filter_upt_range:
  "filter (\<lambda>i. a \<le> i \<and> i \<le> b) [0..<n] = [a..<min n (Suc b)]"
proof (induction n)
  case (Suc n)
  then show ?case by (cases "a \<le> n \<and> n \<le> b") (auto simp: min_def le_Suc_eq)
qed simp

lemma take_drop_nth: "take (b - a) (drop a xs) = map ((!) xs) [a..<min (length xs) b]"
proof (rule nth_equalityI)
  show "length (take (b - a) (drop a xs)) = length (map ((!) xs) [a..<min (length xs) b])" by auto
next
  fix i
  assume "i < length (take (b - a) (drop a xs))"
  then have "a + i < min (length xs) b" "i < b - a" "i < length [a..<min (length xs) b]" by auto
  then show "take (b - a) (drop a xs) ! i = map ((!) xs) [a..<min (length xs) b] ! i"
    by (simp del: length_upt)
qed

section \<open>The order of a sorted set\<close>

definition nan_free :: "(pystr, pyfloat) dict \<Rightarrow> bool" where
  "nan_free z \<longleftrightarrow> (\<forall>p \<in> set z. snd p \<noteq> NaN)"

text \<open>The place of a float other than NaN in a linear order, and the key an item is sorted by.\<close>

fun float_rank :: "pyfloat \<Rightarrow> nat \<times> rat" where
  "float_rank NegInf = (0, 0)"
| "float_rank (Finite x) = (1, x)"
| "float_rank NegZero = (1, 0)"
| "float_rank PosInf = (2, 0)"
| "float_rank NaN = (3, 0)"

lemma fle_rank: "x \<noteq> NaN \<Longrightarrow> y \<noteq> NaN \<Longrightarrow> fle x y \<longleftrightarrow> float_rank x \<le> float_rank y"
  by (cases x; cases y) (auto simp: fle_def)

definition item_rank :: "pystr \<times> pyfloat \<Rightarrow> (nat \<times> rat) \<times> pystr" where
  "item_rank p = (float_rank (snd p), fst p)"

lemma item_less_rank:
  "snd x \<noteq> NaN \<Longrightarrow> snd y \<noteq> NaN \<Longrightarrow> item_less x y \<longleftrightarrow> item_rank x < item_rank y"
  by (auto simp: item_less_def feq_def flt_def fle_rank item_rank_def)

lemma item_less_order:
  assumes "snd x \<noteq> NaN" "snd y \<noteq> NaN" "snd z \<noteq> NaN"
  shows "item_less x y \<Longrightarrow> \<not> item_less y x"
    and "\<not> item_less y x \<Longrightarrow> \<not> item_less z y \<Longrightarrow> \<not> item_less z x"
  using assms by (auto simp: item_less_rank)

lemma insert_item_mset: "mset (insert_item x ys) = add_mset x (mset ys)"
  by (induction ys) auto

lemma nan_free_simps [simp]: "nan_free []" "nan_free (x # z) \<longleftrightarrow> snd x \<noteq> NaN \<and> nan_free z"
  by (auto simp: nan_free_def)

lemma nan_free_mset: "mset z = mset z' \<Longrightarrow> nan_free z = nan_free z'"
  unfolding nan_free_def by (metis set_mset_mset)

lemma insert_item_sorted:
  "nan_free (x # ys) \<Longrightarrow> sorted_wrt (\<lambda>a b. \<not> item_less b a) ys \<Longrightarrow>
   sorted_wrt (\<lambda>a b. \<not> item_less b a) (insert_item x ys)"
proof (induction ys)
  case (Cons y ys)
  have nan: "snd x \<noteq> NaN" "snd y \<noteq> NaN" "\<And>z. z \<in> set ys \<Longrightarrow> snd z \<noteq> NaN"
    using Cons.prems(1) by (auto simp: nan_free_def)
  show ?case
  proof (cases "item_less x y")
    case True
    have xy: "\<not> item_less y x" using item_less_order(1)[OF nan(1,2,1) True] .
    have "\<not> item_less z x" if "z \<in> set ys" for z
      using item_less_order(2)[OF nan(1,2) nan(3)[OF that] xy] Cons.prems(2) that by simp
    then show ?thesis using True xy Cons.prems(2) by simp
  next
    case False
    have "set (insert_item x ys) = insert x (set ys)"
      using arg_cong[OF insert_item_mset[of x ys], of set_mset] by simp
    then show ?thesis using False Cons by auto
  qed
qed simp

lemma sort_items_props:
  assumes "nan_free z"
  shows "mset (sort_items z) = mset z" "sorted_wrt (\<lambda>a b. \<not> item_less b a) (sort_items z)"
proof -
  have *: "nan_free (xs @ acc) \<Longrightarrow> sorted_wrt (\<lambda>a b. \<not> item_less b a) acc \<Longrightarrow>
      mset (fold insert_item xs acc) = mset xs + mset acc \<and>
      sorted_wrt (\<lambda>a b. \<not> item_less b a) (fold insert_item xs acc)" for xs acc
  proof (induction xs arbitrary: acc)
    case (Cons x xs)
    have "nan_free (xs @ insert_item x acc)"
      using Cons.prems(1) nan_free_mset[of "xs @ insert_item x acc" "x # xs @ acc"]
      by (simp add: insert_item_mset)
    moreover have "nan_free (x # acc)" using Cons.prems(1) by (simp add: nan_free_def)
    ultimately show ?case
      using Cons.IH[of "insert_item x acc"] insert_item_sorted[of x acc] Cons.prems(2)
      by (simp add: insert_item_mset)
  qed simp
  show "mset (sort_items z) = mset z" "sorted_wrt (\<lambda>a b. \<not> item_less b a) (sort_items z)"
    using *[of z "[]"] assms by (simp_all add: sort_items_def)
qed

end
