(* ===== verification/Session.thy ===== *)
theory Session
  imports ServiceProps
begin

text \<open>
  The server around the command service (\<open>internal/server\<close>, \<open>internal/guard\<close>,
  \<open>internal/observability\<close>, \<open>internal/config\<close>): configuration and limits, metrics, the session
  handler that answers the requests of one connection, the accept loop, and the whole server as a
  step relation whose reachable states keep every invariant of the command service.

  Sockets are not modelled as objects: a session is driven by the list of what its reads and writes
  do, with the reading of the clock at which each request is processed. Requests and sweeps are
  atomic steps.
\<close>

section \<open>Configuration\<close>

record runtime_config =
  host :: pystr
  port :: int
  connect_timeout_seconds :: int
  read_timeout_seconds :: int
  write_timeout_seconds :: int
  idle_timeout_seconds :: int
  max_connections :: int
  max_request_size_bytes :: int
  max_array_items :: int
  max_resp_depth :: int
  max_blob_size_bytes :: int
  config_max_memory_bytes :: int
  expiration_sweep_interval_seconds :: int
  expiration_sweep_batch_size :: int
  expiration_sweep_enabled :: bool
  log_level :: pystr
  graceful_shutdown_seconds :: int

definition default_config :: runtime_config where
  "default_config =
     \<lparr>host = lit ''127.0.0.1'', port = 6379, connect_timeout_seconds = 3, read_timeout_seconds = 5,
      write_timeout_seconds = 5, idle_timeout_seconds = 5, max_connections = 100,
      max_request_size_bytes = 4 * 1024, max_array_items = 64, max_resp_depth = 8,
      max_blob_size_bytes = 4 * 1024, config_max_memory_bytes = 0,
      expiration_sweep_interval_seconds = 10, expiration_sweep_batch_size = 100,
      expiration_sweep_enabled = True, log_level = lit ''INFO'', graceful_shutdown_seconds = 10\<rparr>"

definition with_connection_target :: "pystr \<Rightarrow> int \<Rightarrow> runtime_config \<Rightarrow> runtime_config" where
  "with_connection_target h p cfg = cfg\<lparr>host := h, port := p\<rparr>"

text \<open>
  \<open>cmd/mini_redis_server/main.py\<close>: the configuration from the environment (a lookup of the
  variables). \<open>int\<close> of a text that is no integer raises \<open>ValueError\<close>.
\<close>

definition getenv :: "(pystr \<Rightarrow> pystr option) \<Rightarrow> pystr \<Rightarrow> pystr \<Rightarrow> pystr" where
  "getenv env key fallback = (case env key of None \<Rightarrow> fallback | Some v \<Rightarrow> v)"

definition server_config :: "(pystr \<Rightarrow> pystr option) \<Rightarrow> py_exc + runtime_config" where
  "server_config env =
     rbind (int_arg (getenv env (lit ''MINI_REDIS_SERVER_PORT'')
               (getenv env (lit ''MINI_REDIS_PORT'') (lit ''6379'')))) (\<lambda>p.
       let cfg = with_connection_target
             (getenv env (lit ''MINI_REDIS_SERVER_HOST'')
               (getenv env (lit ''MINI_REDIS_HOST'') (lit ''127.0.0.1''))) p default_config
       in rbind (int_arg (getenv env (lit ''MINI_REDIS_MAX_MEMORY_BYTES'')
                   (getenv env (lit ''MINI_REDIS_MAX_LOGICAL_BYTES'')
                     (show_int (config_max_memory_bytes cfg))))) (\<lambda>m.
            Inr (cfg\<lparr>config_max_memory_bytes := max 0 m\<rparr>)))"

section \<open>Guard and metrics\<close>

record resource_limits =
  limit_connections :: int
  limit_request_size_bytes :: int
  limit_array_items :: int
  limit_resp_depth :: int
  limit_blob_size_bytes :: int

definition resource_limits_of :: "runtime_config \<Rightarrow> resource_limits" where
  "resource_limits_of cfg =
     \<lparr>limit_connections = max_connections cfg, limit_request_size_bytes = max_request_size_bytes cfg,
      limit_array_items = max_array_items cfg, limit_resp_depth = max_resp_depth cfg,
      limit_blob_size_bytes = max_blob_size_bytes cfg\<rparr>"

definition is_request_size_allowed :: "resource_limits \<Rightarrow> int \<Rightarrow> bool" where
  "is_request_size_allowed limits size_bytes = (size_bytes \<le> limit_request_size_bytes limits)"

definition validate_request_size :: "resource_limits \<Rightarrow> int \<Rightarrow> bool" where
  "validate_request_size limits size_bytes = is_request_size_allowed limits size_bytes"

definition is_connection_allowed :: "resource_limits \<Rightarrow> int \<Rightarrow> bool" where
  "is_connection_allowed limits active = (active < limit_connections limits)"

record metrics =
  connections_total :: nat
  active_connections :: nat
  requests_total :: nat
  errors_total :: nat

definition metrics_init :: metrics where
  "metrics_init = \<lparr>connections_total = 0, active_connections = 0, requests_total = 0, errors_total = 0\<rparr>"

definition increment_connections :: "metrics \<Rightarrow> metrics" where
  "increment_connections m = m\<lparr>connections_total := connections_total m + 1\<rparr>"

definition increment_active_connections :: "metrics \<Rightarrow> metrics" where
  "increment_active_connections m = m\<lparr>active_connections := active_connections m + 1\<rparr>"

definition decrement_active_connections :: "metrics \<Rightarrow> metrics" where
  "decrement_active_connections m =
     (if active_connections m > 0 then m\<lparr>active_connections := active_connections m - 1\<rparr> else m)"

definition increment_requests :: "metrics \<Rightarrow> metrics" where
  "increment_requests m = m\<lparr>requests_total := requests_total m + 1\<rparr>"

definition increment_errors :: "metrics \<Rightarrow> metrics" where
  "increment_errors m = m\<lparr>errors_total := errors_total m + 1\<rparr>"

section \<open>Sessions\<close>

record session_context =
  protocol_version :: int
  selected_db :: int
  client_name :: "pystr option"
  client_info :: "(pystr, pystr) dict"

definition session_context_init :: session_context where
  "session_context_init =
     \<lparr>protocol_version = 2, selected_db = 0, client_name = None, client_info = []\<rparr>"

definition apply_session_state :: "command \<Rightarrow> session_context \<Rightarrow> py_exc + session_context" where
  "apply_session_state c ctx =
     (if name c = lit ''SELECT'' then
        rbind (arg (arguments c) 0) (\<lambda>a. rbind (int_arg a) (\<lambda>db. Inr (ctx\<lparr>selected_db := db\<rparr>)))
      else if name c = lit ''CLIENT'' then
        rbind (arg (arguments c) 0) (\<lambda>a0.
          if py_upper a0 = lit ''SETNAME'' then
            rbind (arg (arguments c) 1) (\<lambda>a1. Inr (ctx\<lparr>client_name := Some a1\<rparr>))
          else if py_upper a0 = lit ''SETINFO'' then
            rbind (arg (arguments c) 2) (\<lambda>a2. rbind (arg (arguments c) 1) (\<lambda>a1.
              Inr (ctx\<lparr>client_info := AList.update a1 a2 (client_info ctx)\<rparr>)))
          else Inr ctx)
      else Inr ctx)"

text \<open>
  \<open>_process_request\<close>: the bytes of the reply, or the exception that ends the session, with the
  context and the service it leaves. Of the exceptions of \<open>execute\<close> only command errors are turned
  into a reply.
\<close>

definition process_request ::
  "nat \<Rightarrow> pyfloat \<Rightarrow> bytes \<Rightarrow> session_context \<times> service \<Rightarrow> (py_exc + bytes) \<times> (session_context \<times> service)"
  where
  "process_request stack now data w =
     (case w of (ctx, s) \<Rightarrow>
      sbind (handle_with_error_response stack data, w) (\<lambda>res w.
        case result_response res of
          Some response \<Rightarrow>
            (let ctx1 = (case result_version res of
                           None \<Rightarrow> ctx | Some v \<Rightarrow> ctx\<lparr>protocol_version := v\<rparr>)
             in (Inr (encode (protocol_version ctx1) response), (ctx1, s)))
        | None \<Rightarrow>
            (case result_command res of
               None \<Rightarrow> (Inl ValueError, w)
             | Some c \<Rightarrow>
                 (case execute now c s of (r, s1) \<Rightarrow>
                    sbind (case r of
                             Inl e \<Rightarrow> if is_command_error e
                                      then (Inr (RespSimpleError (exc_message e)), (ctx, s1))
                                      else (Inl e, (ctx, s1))
                           | Inr v \<Rightarrow> (Inr v, (ctx, s1)))
                      (\<lambda>service_result w.
                         sbind (apply_session_state c ctx, w) (\<lambda>ctx1 _.
                           (Inr (encode (protocol_version ctx1) service_result), (ctx1, s1))))))))"

datatype recv_result = Received bytes | RecvTimeout | RecvError
datatype send_result = Sent | SendTimeout | SendError

record session =
  session_ctx :: session_context
  svc :: service
  counters :: metrics
  written :: "bytes list"

definition count_error :: "session \<Rightarrow> session" where
  "count_error w = w\<lparr>counters := increment_errors (counters w)\<rparr>"

text \<open>
  One round of \<open>handle\<close>: whether the loop goes on, and the state of the session.
\<close>

definition handle_round ::
  "resource_limits \<Rightarrow> nat \<Rightarrow> recv_result \<Rightarrow> pyfloat \<Rightarrow> send_result \<Rightarrow> session \<Rightarrow> bool \<times> session" where
  "handle_round limits stack recv now send w =
     (case recv of
        RecvTimeout \<Rightarrow> (False, w)
      | RecvError \<Rightarrow> (False, count_error w)
      | Received data \<Rightarrow>
          if data = [] then (False, w)
          else if \<not> is_request_size_allowed limits (int (length data)) then (False, count_error w)
          else
            let w1 = w\<lparr>counters := increment_requests (counters w)\<rparr>
            in case process_request stack now data (session_ctx w1, svc w1) of (r, (ctx, s)) \<Rightarrow>
                 let w2 = w1\<lparr>session_ctx := ctx, svc := s\<rparr>
                 in case r of
                      Inl e \<Rightarrow> (False, count_error w2)
                    | Inr response \<Rightarrow>
                        (case send of
                           Sent \<Rightarrow> (True, w2\<lparr>written := written w2 @ [response]\<rparr>)
                         | SendTimeout \<Rightarrow> (False, w2)
                         | SendError \<Rightarrow> (False, count_error w2)))"

fun handle ::
  "resource_limits \<Rightarrow> nat \<Rightarrow> (recv_result \<times> pyfloat \<times> send_result) list \<Rightarrow> session \<Rightarrow> session" where
  "handle limits stack [] w = w"
| "handle limits stack ((recv, now, send) # rest) w =
     (case handle_round limits stack recv now send w of
        (False, w1) \<Rightarrow> w1
      | (True, w1) \<Rightarrow> handle limits stack rest w1)"

section \<open>The accept loop\<close>

record server =
  server_service :: service
  server_metrics :: metrics
  shutdown_requested :: bool
  server_sweeper :: sweeper
  listening :: bool

definition request_shutdown :: "server \<Rightarrow> server" where
  "request_shutdown v = v\<lparr>shutdown_requested := True\<rparr>"

definition server_init :: "runtime_config \<Rightarrow> server" where
  "server_init cfg =
     \<lparr>server_service = service_init ([], []) (Some (config_max_memory_bytes cfg)),
      server_metrics = metrics_init, shutdown_requested = False, server_sweeper = sweeper_init,
      listening = False\<rparr>"

text \<open>\<open>stop\<close> closes the listening socket, which makes a pending \<open>accept\<close> raise \<open>OSError\<close>.\<close>

definition stop :: "server \<Rightarrow> server" where
  "stop v =
     (if shutdown_requested v then v else (request_shutdown v)\<lparr>listening := False\<rparr>)"

text \<open>
  What one call of \<open>accept\<close> does. A stop request can arrive from outside while the loop waits in
  \<open>accept\<close> (the flag in front of the result) or while it serves a client.
\<close>

datatype accept_result =
    AcceptTimeout
  | AcceptError
  | AcceptInterrupt
  | Accepted "(recv_result \<times> pyfloat \<times> send_result) list" bool

definition serve_client ::
  "resource_limits \<Rightarrow> nat \<Rightarrow> (recv_result \<times> pyfloat \<times> send_result) list \<Rightarrow> server \<Rightarrow> server" where
  "serve_client limits stack io v =
     (if \<not> is_connection_allowed limits (int (active_connections (server_metrics v)))
      then v\<lparr>server_metrics := increment_errors (server_metrics v)\<rparr>
      else
        let m = increment_active_connections (increment_connections (server_metrics v));
            w = handle limits stack io
                  \<lparr>session_ctx = session_context_init, svc = server_service v, counters = m, written = []\<rparr>
        in v\<lparr>server_service := svc w, server_metrics := decrement_active_connections (counters w)\<rparr>)"

definition finish :: "server \<Rightarrow> server" where
  "finish v = v\<lparr>server_sweeper := sweeper_stop (server_sweeper v), listening := False\<rparr>"

text \<open>\<open>None\<close>: the loop is still running when the events end.\<close>

fun run_loop ::
  "resource_limits \<Rightarrow> nat \<Rightarrow> (bool \<times> accept_result) list \<Rightarrow> server \<Rightarrow> (py_exc + unit) option \<times> server" where
  "run_loop limits stack events v =
     (if shutdown_requested v then (Some (Inr ()), finish v)
      else case events of
        [] \<Rightarrow> (None, v)
      | (stopped, result) # rest \<Rightarrow>
          (let v1 = (if stopped then stop v else v)
           in case result of
                AcceptTimeout \<Rightarrow> run_loop limits stack rest v1
              | AcceptError \<Rightarrow>
                  if shutdown_requested v1 then (Some (Inr ()), finish v1)
                  else (Some (Inl OSError), finish v1)
              | AcceptInterrupt \<Rightarrow> (Some (Inr ()), finish (stop v1))
              | Accepted io stopped2 \<Rightarrow>
                  (let v2 = serve_client limits stack io v1
                   in run_loop limits stack rest (if stopped2 then stop v2 else v2))))"

declare run_loop.simps [simp del]

definition run ::
  "runtime_config \<Rightarrow> nat \<Rightarrow> (bool \<times> accept_result) list \<Rightarrow> server \<Rightarrow> (py_exc + unit) option \<times> server" where
  "run cfg stack events v =
     (let start = (\<lambda>v. if expiration_sweep_enabled cfg
                       then v\<lparr>server_sweeper := sweeper_start (server_sweeper v)\<rparr> else v)
      in run_loop (resource_limits_of cfg) stack events (start (start (v\<lparr>listening := True\<rparr>))))"

section \<open>Requests keep the invariants\<close>

text \<open>A command that reaches the service was validated.\<close>

lemma handled_command:
  assumes "handle_with_error_response stack data = Inr res" "result_response res = None"
  obtains c where "result_command res = Some c" "validate c = Inr ()" "name c \<noteq> lit ''HELLO''"
  using assms
  by (auto simp: handle_with_error_response_def protocol_handle_def split: sum.splits if_splits option.splits)

text \<open>The part of the invariant about the data: sound entries within the memory limit.\<close>

definition good_service :: "service \<Rightarrow> bool" where
  "good_service s \<longleftrightarrow> wf_service s \<and> sound_store s \<and> within_limit s"

lemma good_execute:
  assumes "good_service s" "validate c = Inr ()"
  shows "good_service (snd (execute now c s))"
  using assms validated_args[OF assms(2)]
  by (simp add: good_service_def wf_execute sound_execute within_execute)

lemma good_init: "good_service (service_init ([], []) m)"
  using wf_serviceD(4)[OF wf_service_init[of m]] wf_service_init[of m]
  by (fastforce simp: good_service_def sound_store_def within_limit_def memory_use_def service_init_def
      repo_defs keys_of_def)

lemma good_sweep:
  assumes "good_service s"
  shows "good_service (s\<lparr>repos := snd (sweep_once now n (repos s))\<rparr>)"
proof -
  let ?t = "s\<lparr>repos := snd (sweep_once now n (repos s))\<rparr>"
  have wf: "wf_service s" using assms by (simp add: good_service_def)
  have few: "fewer s ?t"
    using wf_serviceD(1)[OF wf] by (simp add: fewer_def sweep_once_eq fold_delete_key_get)
  have "wf_service ?t"
    by (rule wf_repos_shrink[OF wf])
      (use wf_serviceD(1)[OF wf] in \<open>auto simp: sweep_once_eq fold_delete_key_get wf_fold_delete_key split: if_splits\<close>)
  then show ?thesis
    using assms few fewer_sound[OF few] fewer_within[OF few wf] by (simp add: good_service_def)
qed

lemma process_request_state:
  assumes "process_request stack now data (ctx, s) = (r, (ctx', s'))"
  shows "s' = s \<or> (\<exists>c. validate c = Inr () \<and> s' = snd (execute now c s))"
proof (cases "handle_with_error_response stack data")
  case (Inl e)
  then show ?thesis using assms by (simp add: process_request_def)
next
  case (Inr res)
  show ?thesis
  proof (cases "result_response res")
    case (Some v)
    then show ?thesis using assms Inr by (simp add: process_request_def Let_def)
  next
    case None
    obtain c where c: "result_command res = Some c" "validate c = Inr ()"
      using handled_command[OF Inr None] by blast
    have "s' = snd (execute now c s)"
      using assms Inr None c(1)
      by (auto simp: process_request_def sbind_def split: prod.splits sum.splits if_splits)
    then show ?thesis using c(2) by blast
  qed
qed

lemma good_process_request:
  "good_service s \<Longrightarrow> good_service (snd (snd (process_request stack now data (ctx, s))))"
  using process_request_state[of stack now data ctx s] good_execute
  by (cases "process_request stack now data (ctx, s)") auto

lemma handle_round_svc:
  "svc (snd (handle_round limits stack recv now send w)) = svc w \<or>
   (\<exists>data. svc (snd (handle_round limits stack recv now send w)) =
      snd (snd (process_request stack now data (session_ctx w, svc w))))"
  by (auto simp: handle_round_def count_error_def Let_def case_prod_unfold
      split: recv_result.splits sum.splits send_result.splits)

lemma good_handle: "good_service (svc w) \<Longrightarrow> good_service (svc (handle limits stack io w))"
proof (induction limits stack io w rule: handle.induct)
  case (2 limits stack recv now send rest w)
  have "good_service (svc (snd (handle_round limits stack recv now send w)))"
    using handle_round_svc[of limits stack recv now send w] good_process_request[OF "2.prems"] "2.prems" by auto
  then show ?case using "2.IH" by (auto split: prod.splits bool.splits)
qed simp

section \<open>The server as a step relation\<close>

text \<open>
  A client connects (the session context starts afresh), a request is processed, the sweeper
  deletes a batch of expired keys. Every step carries its own reading of the clock.
\<close>

inductive server_step :: "session_context \<times> service \<Rightarrow> session_context \<times> service \<Rightarrow> bool" where
  connect: "server_step (ctx, s) (session_context_init, s)"
| request: "process_request stack now data w = (r, w') \<Longrightarrow> server_step w w'"
| sweep: "server_step (ctx, s) (ctx, s\<lparr>repos := snd (sweep_once now n (repos s))\<rparr>)"

inductive_cases server_stepE: "server_step w w'"

inductive reachable :: "runtime_config \<Rightarrow> session_context \<times> service \<Rightarrow> bool" for cfg where
  start: "reachable cfg (session_context_init, server_service (server_init cfg))"
| step: "reachable cfg w \<Longrightarrow> server_step w w' \<Longrightarrow> reachable cfg w'"

lemma good_step: "server_step w w' \<Longrightarrow> good_service (snd w) \<Longrightarrow> good_service (snd w')"
proof (induction rule: server_step.induct)
  case (request stack now data w r w')
  then show ?case using good_process_request[of "snd w" stack now data "fst w"] by simp
qed (simp_all add: good_sweep)

lemma reachable_good: "reachable cfg w \<Longrightarrow> good_service (snd w)"
  by (induction rule: reachable.induct) (auto simp: server_init_def good_init intro: good_step)

section \<open>What can end a session\<close>

lemma decode_raises:
  assumes "decode stack data = Inl e"
  shows "is_command_error e \<or> e = RecursionError \<and> stack \<le> length data"
proof (cases "decode_utf8 data")
  case None
  then show ?thesis using assms by (auto simp: decode_def)
next
  case (Some t)
  have "length t \<le> length data"
    using decode_utf8_sound[OF Some] length_encode_utf8[of t] by simp
  moreover have "clean (case v of RespArray items \<Rightarrow> if i \<noteq> length t then protocol_error else Inr v
      | _ \<Rightarrow> protocol_error)" for v i
    by (cases v) simp_all
  then have "is_command_error e \<or> decode_value stack t 0 = Inl e"
    using assms[unfolded decode_def Some option.case]
    unfolding clean_def rbind_eq_Inl case_prod_unfold by blast
  ultimately show ?thesis using decode_errors(1)[of stack t 0 e] by fastforce
qed

lemma protocol_raises:
  assumes "handle_with_error_response stack data = Inl e"
  shows "e = RecursionError \<and> stack \<le> length data"
proof -
  have ph: "protocol_handle stack data = Inl e" and nc: "\<not> is_command_error e"
    using assms by (auto simp: handle_with_error_response_def split: sum.splits if_splits)
  have hello: "validate c = Inr () \<Longrightarrow> name c = lit ''HELLO'' \<Longrightarrow>
      \<exists>a v. arg (arguments c) 0 = Inr a \<and> py_int a = Some v" for c
    by (auto simp: validate_def)
  consider "decode stack data = Inl e" | request where "decode stack data = Inr request"
      "protocol_handle stack data = Inl e"
    using ph by (auto simp: protocol_handle_def rbind_eq_Inl)
  then show ?thesis
  proof cases
    case 1
    then show ?thesis using decode_raises nc by blast
  next
    case 2
    have "clean (case request of RespArray items \<Rightarrow> parse items | _ \<Rightarrow> protocol_error)"
      by (cases request) (simp_all add: clean_parse)
    then have "is_command_error e"
      using 2 hello clean_validate unfolding protocol_handle_def rbind_eq_Inl
      by (auto simp: clean_def rbind_eq_Inl split: if_splits option.splits) fastforce+
    then show ?thesis using nc by blast
  qed
qed

text \<open>A validated command never fails to update the session.\<close>

lemma apply_session_state_total:
  assumes "validate c = Inr ()"
  shows "\<exists>ctx'. apply_session_state c ctx = Inr ctx'"
proof (cases "name c = lit ''CLIENT''")
  case True
  have "1 \<le> length (arguments c)" "validate_client c = Inr ()"
    using True assms validated_args[OF assms]
    by (auto simp: validate_def argument_shape_simps split: if_splits)
  then show ?thesis
    using True by (auto simp: apply_session_state_def validate_client_def arg_def Let_def split: if_splits)
next
  case False
  then show ?thesis
    using validated_args[OF assms]
    by (auto simp: apply_session_state_def argument_shape_simps int_arg_def arg_def)
qed

text \<open>
  The only exceptions that reach the session's loop: the nesting of a request exhausts the stack
  (never with a stack deeper than the request is long), or \<open>TTL\<close> meets an expiration that is not
  finite.
\<close>

lemma process_request_raises:
  assumes "wf_service s" "process_request stack now data (ctx, s) = (Inl e, w')"
  shows "e = RecursionError \<and> stack \<le> length data \<or> (\<exists>key. endless now key (repos s))"
proof (cases "handle_with_error_response stack data")
  case (Inl x)
  then show ?thesis using assms protocol_raises[OF Inl] by (simp add: process_request_def)
next
  case (Inr res)
  show ?thesis
  proof (cases "result_response res")
    case (Some v)
    then show ?thesis using assms Inr by (simp add: process_request_def Let_def)
  next
    case None
    obtain c where c: "result_command res = Some c" "validate c = Inr ()"
      using handled_command[OF Inr None] by blast
    obtain ctx' where "apply_session_state c ctx = Inr ctx'"
      using apply_session_state_total[OF c(2)] by blast
    then have "\<not> clean (fst (execute now c s))"
      using assms(2) Inr None c(1)
      by (auto simp: process_request_def clean_def split: prod.splits sum.splits if_splits)
    then show ?thesis
      using clean_execute[OF assms(1) validated_args[OF c(2)]] by blast
  qed
qed

section \<open>One connection at a time\<close>

lemma handle_round_active:
  "active_connections (counters (snd (handle_round limits stack recv now send w))) =
   active_connections (counters w)"
  by (auto simp: handle_round_def count_error_def increment_errors_def increment_requests_def Let_def
      case_prod_unfold split: recv_result.splits sum.splits send_result.splits)

lemma handle_active:
  "active_connections (counters (handle limits stack io w)) = active_connections (counters w)"
proof (induction limits stack io w rule: handle.induct)
  case (2 limits stack recv now send rest w)
  then show ?case
    using handle_round_active[of limits stack recv now send w]
    by (auto split: prod.splits bool.splits)
qed simp

lemma serve_client_active:
  "active_connections (server_metrics (serve_client limits stack io v)) =
   active_connections (server_metrics v)"
  by (simp add: serve_client_def handle_active increment_errors_def increment_active_connections_def
      increment_connections_def decrement_active_connections_def Let_def)

lemma server_frame [simp]:
  "server_metrics (stop v) = server_metrics v" "server_metrics (finish v) = server_metrics v"
  "server_service (stop v) = server_service v" "server_service (finish v) = server_service v"
  by (simp_all add: stop_def finish_def request_shutdown_def)

lemma run_loop_inv:
  assumes "P (server_service v) (active_connections (server_metrics v))"
    and "\<And>io v. P (server_service v) (active_connections (server_metrics v)) \<Longrightarrow>
       P (server_service (serve_client limits stack io v))
         (active_connections (server_metrics (serve_client limits stack io v)))"
  shows "P (server_service (snd (run_loop limits stack events v)))
    (active_connections (server_metrics (snd (run_loop limits stack events v))))"
  using assms(1)
proof (induction limits\<equiv>limits stack\<equiv>stack events v rule: run_loop.induct)
  case (1 events v)
  then show ?case
    using assms(2)
    by (subst (1 2) run_loop.simps)
      (auto simp: Let_def split: list.splits prod.splits accept_result.splits)
qed

end
