(* ===== verification/Cli.thy ===== *)
theory Cli
  imports Command
begin

text \<open>
  The command line client (\<open>cmd/mini_redis_cli/main.py\<close>): the frames it sends and the reader of the
  server's replies.

  The client reads from a buffered stream: here the bytes still to come. An unexpected end of the
  stream, a line without its terminator and an unknown prefix raise \<open>ConnectionError\<close>; bytes that are
  no text, or a text that is no number, raise \<open>ValueError\<close>. As in the decoder of the server, the
  first argument of the recursive reader is the stack that is left.

  Main results: the server's decoder reads an ASCII frame of the client as the command it was built
  from, and the client reads every \<open>readable\<close> reply of the server, in both protocol versions, as the
  value that was encoded, leaving the rest of the stream untouched. (A simple string with a line
  break in it, or a boolean in protocol version 3, is not readable; the server's commands send
  neither booleans nor simple strings other than constants.)
\<close>

section \<open>Frames\<close>

datatype frame_item = Text pystr | Num int

definition encode_blob_string :: "pystr \<Rightarrow> bytes" where
  "encode_blob_string v =
     (let encoded = encode_utf8 v
      in lit ''$'' @ show_nat (length encoded) @ crlf @ encoded @ crlf)"

definition encode_number :: "int \<Rightarrow> bytes" where
  "encode_number n = lit '':'' @ show_int n @ crlf"

definition encode_array :: "frame_item list \<Rightarrow> bytes" where
  "encode_array items =
     fold (\<lambda>item payload. payload @ (case item of Num n \<Rightarrow> encode_number n | Text t \<Rightarrow> encode_blob_string t))
       items (lit ''*'' @ show_nat (length items) @ crlf)"

definition build_hello_frame :: bytes where
  "build_hello_frame = encode_array [Text (lit ''HELLO''), Num 3]"

definition build_command_frame :: "pystr \<Rightarrow> pystr list \<Rightarrow> bytes" where
  "build_command_frame cmd args = encode_array (Text cmd # map Text args)"

section \<open>Reading replies\<close>

datatype cli_value = VText pystr | VInt int | VNone | VMap "(pystr, cli_value) dict" | VList "cli_value list"

datatype resp_object =
    SimpleString pystr
  | BlobString pystr
  | Number int
  | Null
  | Error pystr
  | Map "(pystr, cli_value) dict"
  | Array "cli_value list"

definition stream_readline :: "bytes \<Rightarrow> bytes \<times> bytes" where
  "stream_readline stream =
     (let line = takeWhile (\<lambda>b. b \<noteq> 10) stream; rest = dropWhile (\<lambda>b. b \<noteq> 10) stream
      in case rest of [] \<Rightarrow> (line, []) | nl # tail \<Rightarrow> (line @ [nl], tail))"

definition ends_with :: "bytes \<Rightarrow> bytes \<Rightarrow> bool" where
  "ends_with suffix line \<longleftrightarrow> length suffix \<le> length line \<and> drop (length line - length suffix) line = suffix"

definition cli_read_line :: "bytes \<Rightarrow> py_exc + (bytes \<times> bytes)" where
  "cli_read_line stream =
     (case stream_readline stream of (line, rest) \<Rightarrow>
        if line = [] then Inl ConnectionError
        else if \<not> ends_with crlf line then Inl ConnectionError
        else Inr (take (length line - 2) line, rest))"

definition read_exact :: "bytes \<Rightarrow> nat \<Rightarrow> py_exc + (bytes \<times> bytes)" where
  "read_exact stream n =
     (if length stream < n then Inl ConnectionError else Inr (take n stream, drop n stream))"

definition read_null :: "bytes \<Rightarrow> py_exc + (resp_object \<times> bytes)" where
  "read_null stream =
     rbind (cli_read_line stream) (\<lambda>(line, rest).
       if line \<noteq> [] then Inl ConnectionError else Inr (Null, rest))"

fun materialize_response_value :: "resp_object \<Rightarrow> cli_value" where
  "materialize_response_value (SimpleString v) = VText v"
| "materialize_response_value (BlobString v) = VText v"
| "materialize_response_value (Number n) = VInt n"
| "materialize_response_value Null = VNone"
| "materialize_response_value (Map m) = VMap m"
| "materialize_response_value (Array vs) = VList vs"
| "materialize_response_value (Error m) = VText m"

text \<open>\<open>read_line(stream).decode("utf-8")\<close> and \<open>int(read_line(stream).decode("ascii"))\<close>.\<close>

definition read_text_line :: "bytes \<Rightarrow> py_exc + (pystr \<times> bytes)" where
  "read_text_line stream =
     rbind (cli_read_line stream) (\<lambda>(line, rest).
       case decode_utf8 line of None \<Rightarrow> Inl ValueError | Some t \<Rightarrow> Inr (t, rest))"

definition read_int_line :: "bytes \<Rightarrow> py_exc + (int \<times> bytes)" where
  "read_int_line stream =
     rbind (cli_read_line stream) (\<lambda>(line, rest).
       if \<not> ascii line then Inl ValueError
       else case py_int line of None \<Rightarrow> Inl ValueError | Some n \<Rightarrow> Inr (n, rest))"

definition strip_err :: "pystr \<Rightarrow> pystr" where
  "strip_err m = (if take 4 m = lit ''ERR '' then drop 4 m else m)"

text \<open>
  \<open>str\<close> of a value used as a key. For a list or a dictionary it is the argument \<open>repr\<close>; no reply of
  the server has such a key.
\<close>

fun key_str :: "(cli_value \<Rightarrow> pystr) \<Rightarrow> cli_value \<Rightarrow> pystr" where
  "key_str repr (VText t) = t"
| "key_str repr (VInt n) = show_int n"
| "key_str repr VNone = lit ''None''"
| "key_str repr v = repr v"

function (sequential) read_response ::
    "(cli_value \<Rightarrow> pystr) \<Rightarrow> nat \<Rightarrow> bytes \<Rightarrow> py_exc + (resp_object \<times> bytes)"
  and read_entries ::
    "(cli_value \<Rightarrow> pystr) \<Rightarrow> nat \<Rightarrow> nat \<Rightarrow> (pystr, cli_value) dict \<Rightarrow> bytes \<Rightarrow> py_exc + ((pystr, cli_value) dict \<times> bytes)"
  and read_values ::
    "(cli_value \<Rightarrow> pystr) \<Rightarrow> nat \<Rightarrow> nat \<Rightarrow> bytes \<Rightarrow> py_exc + (cli_value list \<times> bytes)" where
  "read_response repr 0 stream = Inl RecursionError"
| "read_response repr (Suc stack) [] = Inl ConnectionError"
| "read_response repr (Suc stack) (prefix # stream) =
     (if prefix = of_char CHR ''+'' then
        rbind (read_text_line stream) (\<lambda>(t, rest). Inr (SimpleString t, rest))
      else if prefix = of_char CHR ''-'' then
        rbind (read_text_line stream) (\<lambda>(m, rest). Inr (Error (strip_err m), rest))
      else if prefix = of_char CHR '':'' then
        rbind (read_int_line stream) (\<lambda>(n, rest). Inr (Number n, rest))
      else if prefix = of_char CHR ''_'' then read_null stream
      else if prefix = of_char CHR ''$'' then
        rbind (read_int_line stream) (\<lambda>(sz, rest).
          if sz < 0 then Inr (Null, rest)
          else rbind (read_exact rest (nat sz)) (\<lambda>(payload, rest).
            case decode_utf8 payload of
              None \<Rightarrow> Inl ValueError
            | Some v \<Rightarrow>
                rbind (cli_read_line rest) (\<lambda>(line, rest).
                  if line \<noteq> [] then Inl ConnectionError else Inr (BlobString v, rest))))
      else if prefix = of_char CHR ''%'' then
        rbind (read_int_line stream) (\<lambda>(item_count, rest).
          rbind (read_entries repr stack (nat item_count) [] rest) (\<lambda>(m, rest). Inr (Map m, rest)))
      else if prefix = of_char CHR ''*'' then
        rbind (read_int_line stream) (\<lambda>(item_count, rest).
          if item_count < 0 then Inr (Null, rest)
          else rbind (read_values repr stack (nat item_count) rest) (\<lambda>(vs, rest). Inr (Array vs, rest)))
      else Inl ConnectionError)"
| "read_entries repr stack 0 m stream = Inr (m, stream)"
| "read_entries repr stack (Suc n) m stream =
     rbind (read_response repr stack stream) (\<lambda>(key, rest).
     rbind (read_response repr stack rest) (\<lambda>(item, rest).
       read_entries repr stack n
         (AList.update (key_str repr (materialize_response_value key)) (materialize_response_value item) m)
         rest))"
| "read_values repr stack 0 stream = Inr ([], stream)"
| "read_values repr stack (Suc n) stream =
     rbind (read_response repr stack stream) (\<lambda>(v, rest).
     rbind (read_values repr stack n rest) (\<lambda>(vs, rest).
       Inr (materialize_response_value v # vs, rest)))"
  by pat_completeness auto
termination
  by (relation "measures
        [\<lambda>x. case x of Inl (_, st, _) \<Rightarrow> st | Inr (Inl (_, st, _)) \<Rightarrow> st | Inr (Inr (_, st, _)) \<Rightarrow> st,
         \<lambda>x. case x of Inl _ \<Rightarrow> 0 | Inr _ \<Rightarrow> 1,
         \<lambda>x. case x of Inr (Inl (_, _, n, _)) \<Rightarrow> n | Inr (Inr (_, _, n, _)) \<Rightarrow> n | _ \<Rightarrow> 0]") auto

section \<open>The server reads the client's frames\<close>

fun item_ascii :: "frame_item \<Rightarrow> bool" where
  "item_ascii (Text t) = ascii t"
| "item_ascii (Num n) = True"

fun item_value :: "frame_item \<Rightarrow> resp" where
  "item_value (Text t) = RespBlobString t"
| "item_value (Num n) = RespNumber n"

fun item_text :: "frame_item \<Rightarrow> pystr" where
  "item_text (Text t) = blob_text t"
| "item_text (Num n) = number_text n"

lemma encode_array_eq:
  "encode_array items = lit ''*'' @ show_nat (length items) @ crlf @
     concat (map (\<lambda>item. case item of Num n \<Rightarrow> encode_number n | Text t \<Rightarrow> encode_blob_string t) items)"
proof -
  have "fold (\<lambda>x payload. payload @ f x) xs p = p @ concat (map f xs)" for f :: "frame_item \<Rightarrow> bytes" and xs p
    by (induction xs arbitrary: p) auto
  then show ?thesis by (simp add: encode_array_def)
qed

lemma encode_array_ascii:
  assumes "list_all item_ascii items"
  shows "encode_array items = lit ''*'' @ show_nat (length items) @ crlf @ concat (map item_text items)"
    and "ascii (encode_array items)"
proof -
  have item: "(case item of Num n \<Rightarrow> encode_number n | Text t \<Rightarrow> encode_blob_string t) = item_text item \<and>
      ascii (item_text item)" if "item_ascii item" for item
    using that by (cases item)
      (simp_all add: encode_number_def encode_blob_string_def encode_ascii blob_text_def number_text_def
        lit_def Let_def)
  then show eq: "encode_array items = lit ''*'' @ show_nat (length items) @ crlf @ concat (map item_text items)"
    using assms by (simp add: encode_array_eq list_all_iff cong: map_cong)
  have "ascii (concat (map item_text items))"
    using assms item by (induction items) auto
  then show "ascii (encode_array items)" by (simp add: eq lit_def)
qed

lemma decode_encode_array:
  assumes "list_all item_ascii items" "2 \<le> stack"
  shows "decode stack (encode_array items) = Inr (RespArray (map item_value items))"
proof -
  obtain st where stack: "stack = Suc (Suc st)" using assms(2) by (metis Suc_le_D numeral_2_eq_2 Suc_le_mono)
  have "decode_value (Suc st) (pre @ item_text x @ post) (length pre) =
      Inr (item_value x, length pre + length (item_text x))" for x pre post
    by (cases x) (simp_all add: decode_blob_at decode_number_at del: decode_value.simps)
  then have "decode_value (Suc (Suc st)) (encode_array items) 0 =
      Inr (RespArray (map item_value items), length (encode_array items))"
    using decode_array_at[of items "Suc st" item_text item_value] encode_array_ascii(1)[OF assms(1)] by simp
  then show ?thesis
    by (simp add: decode_def decode_ascii[OF encode_array_ascii(2)[OF assms(1)]] stack
        del: decode_value.simps)
qed

section \<open>The client reads the server's replies\<close>

lemma cli_read_line_at:
  assumes "10 \<notin> set line"
  shows "cli_read_line (line @ crlf @ rest) = Inr (line, rest)"
proof -
  have "takeWhile (\<lambda>b. b \<noteq> 10) (line @ 13 # 10 # rest) = line @ [13]"
    using assms by (subst takeWhile_append2) auto
  moreover have "dropWhile (\<lambda>b. b \<noteq> 10) (line @ 13 # 10 # rest) = 10 # rest"
    using assms by (subst dropWhile_append2) auto
  ultimately have "stream_readline (line @ crlf @ rest) = (line @ crlf, rest)"
    by (simp add: stream_readline_def crlf_def)
  then show ?thesis by (simp add: cli_read_line_def ends_with_def crlf_def)
qed

lemma read_int_line_at [simp]:
  "read_int_line (show_int n @ crlf @ rest) = Inr (n, rest)"
  "read_int_line (show_nat k @ crlf @ rest) = Inr (int k, rest)"
  using cli_read_line_at[of "show_int n" rest] cli_read_line_at[of "show_nat k" rest]
  by (simp_all add: read_int_line_def)

lemma encode_show [simp]: "encode_utf8 (show_nat k) = show_nat k" "encode_utf8 (show_int n) = show_int n"
  by (simp_all add: encode_ascii)

lemma utf8_no_newline: "10 \<in> set (encode_utf8 s) \<Longrightarrow> 10 \<in> set s"
proof (induction s)
  case (Cons c s)
  then show ?case by (cases "c < 0x80") (auto simp: utf8_char_def split: if_splits)
qed simp

lemma read_text_line_at:
  assumes "list_all scalar t" "10 \<notin> set t"
  shows "read_text_line (encode_utf8 t @ crlf @ rest) = Inr (t, rest)"
proof -
  have "cli_read_line (encode_utf8 t @ crlf @ rest) = Inr (encode_utf8 t, rest)"
    using assms(2) by (intro cli_read_line_at) (auto dest: utf8_no_newline)
  then show ?thesis using assms(1) by (simp add: read_text_line_def decode_encode_utf8)
qed

text \<open>
  A reply the client can read: its texts are Unicode scalar values, simple strings and errors stay
  on one line, the keys of a map are strings, and there is no boolean (the client knows no \<open>#\<close>).
\<close>

fun is_text :: "resp \<Rightarrow> bool" where
  "is_text (RespBlobString v) = list_all scalar v"
| "is_text (RespSimpleString v) = (list_all scalar v \<and> 10 \<notin> set v)"
| "is_text _ = False"

fun text_of :: "resp \<Rightarrow> pystr" where
  "text_of (RespBlobString v) = v"
| "text_of (RespSimpleString v) = v"
| "text_of _ = []"

fun readable :: "resp \<Rightarrow> bool" where
  "readable (RespArray items) = list_all readable items"
| "readable (RespMap entries) = list_all (\<lambda>(k, v). is_text k \<and> readable v) entries"
| "readable (RespSimpleError m) = (list_all scalar m \<and> 10 \<notin> set m)"
| "readable (RespBoolean b) = False"
| "readable (RespNumber n) = True"
| "readable RespNull = True"
| "readable v = is_text v"

fun nesting :: "resp \<Rightarrow> nat" where
  "nesting (RespArray items) = Suc (fold max (map nesting items) 0)"
| "nesting (RespMap entries) = Suc (fold max (map (\<lambda>(k, v). max 1 (nesting v)) entries) 0)"
| "nesting _ = 1"

function (sequential) seen :: "int \<Rightarrow> resp \<Rightarrow> resp_object" where
  "seen pv (RespSimpleString v) = SimpleString v"
| "seen pv (RespBlobString v) = BlobString v"
| "seen pv (RespNumber n) = Number n"
| "seen pv (RespSimpleError m) = Error m"
| "seen pv (RespArray items) = Array (map (\<lambda>v. materialize_response_value (seen pv v)) items)"
| "seen pv (RespMap entries) =
     (if pv = 2 then seen 2 (RespArray (flatten_entries entries))
      else Map (fold (\<lambda>(k, v). AList.update (text_of k) (materialize_response_value (seen pv v))) entries []))"
| "seen pv _ = Null"
  by pat_completeness auto
termination
  by (relation "measures [\<lambda>(_, v). size v, \<lambda>(_, v). case v of RespMap _ \<Rightarrow> 1 | _ \<Rightarrow> 0]")
    (auto simp: size_flatten_entries less_Suc_eq_le size_list_estimation'
       dest: size_flatten_member)

lemma fold_max_le: "fold max xs (a :: nat) \<le> n \<longleftrightarrow> a \<le> n \<and> (\<forall>x \<in> set xs. x \<le> n)"
  by (induction xs arbitrary: a) auto

lemma read_values_at:
  assumes "\<And>x rest. x \<in> set xs \<Longrightarrow> read_response repr st (enc x @ rest) = Inr (obj x, rest)"
  shows "read_values repr st (length xs) (concat (map enc xs) @ rest) =
    Inr (map (\<lambda>x. materialize_response_value (obj x)) xs, rest)"
  using assms by (induction xs) auto

lemma read_entries_at:
  assumes "\<And>k v rest. (k, v) \<in> set es \<Longrightarrow>
      (\<exists>ko. read_response repr st (enc k @ rest) = Inr (ko, rest) \<and>
            key_str repr (materialize_response_value ko) = text_of k) \<and>
      read_response repr st (enc v @ rest) = Inr (obj v, rest)"
  shows "read_entries repr st (length es) m (concat (map (\<lambda>(k, v). enc k @ enc v) es) @ rest) =
    Inr (fold (\<lambda>(k, v). AList.update (text_of k) (materialize_response_value (obj v))) es m, rest)"
  using assms
proof (induction es arbitrary: m)
  case (Cons e es)
  obtain k v where e: "e = (k, v)" by (cases e)
  obtain ko where "read_response repr st (enc k @ enc v @ concat (map (\<lambda>(k, v). enc k @ enc v) es) @ rest) =
      Inr (ko, enc v @ concat (map (\<lambda>(k, v). enc k @ enc v) es) @ rest)"
    "key_str repr (materialize_response_value ko) = text_of k"
    using Cons.prems[of k v "enc v @ concat (map (\<lambda>(k, v). enc k @ enc v) es) @ rest"] e by auto
  moreover have "read_response repr st (enc v @ concat (map (\<lambda>(k, v). enc k @ enc v) es) @ rest) =
      Inr (obj v, concat (map (\<lambda>(k, v). enc k @ enc v) es) @ rest)"
    using Cons.prems[of k v] e by auto
  moreover have "read_entries repr st (length es) m' (concat (map (\<lambda>(k, v). enc k @ enc v) es) @ rest) =
      Inr (fold (\<lambda>(k, v). AList.update (text_of k) (materialize_response_value (obj v))) es m', rest)" for m'
    by (rule Cons.IH) (use Cons.prems in auto)
  ultimately show ?case by (simp add: e del: read_response.simps)
qed simp

lemma read_texts:
  assumes "is_text v" "stack = Suc st"
  shows "read_response repr stack (encode pv v @ rest) = Inr (seen pv v, rest)"
    and "key_str repr (materialize_response_value (seen pv v)) = text_of v"
proof -
  show "read_response repr stack (encode pv v @ rest) = Inr (seen pv v, rest)"
  proof (cases v)
    case (RespSimpleString t)
    then show ?thesis
      using assms read_text_line_at[of t rest] by (simp add: lit_def utf8_char_def encode_ascii crlf_def)
  next
    case (RespBlobString t)
    have "read_exact (encode_utf8 t @ crlf @ rest) (length (encode_utf8 t)) = Inr (encode_utf8 t, crlf @ rest)"
      by (simp add: read_exact_def)
    moreover have "cli_read_line (crlf @ rest) = Inr ([], rest)"
      using cli_read_line_at[of "[]" rest] by simp
    ultimately show ?thesis
      using assms RespBlobString by (simp add: lit_def Let_def decode_encode_utf8)
  qed (use assms in simp_all)
  show "key_str repr (materialize_response_value (seen pv v)) = text_of v"
    using assms by (cases v) simp_all
qed

lemma readable_flatten: "readable (RespMap es) \<Longrightarrow> readable (RespArray (flatten_entries es))"
proof (induction es)
  case (Cons e es)
  have "is_text v \<Longrightarrow> readable v" for v by (cases v) simp_all
  then show ?case using Cons by (cases e) (auto simp: flatten_entries_def)
qed (simp add: flatten_entries_def)

lemma nesting_text: "is_text v \<Longrightarrow> nesting v = 1"
  by (cases v) simp_all

lemma nesting_flatten:
  "readable (RespMap es) \<Longrightarrow> nesting (RespArray (flatten_entries es)) \<le> nesting (RespMap es)"
proof -
  assume r: "readable (RespMap es)"
  let ?n = "fold max (map (\<lambda>(k, v). max 1 (nesting v)) es) 0"
  have "\<forall>x \<in> set (map (\<lambda>(k, v). max 1 (nesting v)) es). x \<le> ?n"
    using fold_max_le[of "map (\<lambda>(k, v). max 1 (nesting v)) es" 0 ?n] by simp
  then have "\<forall>x \<in> set (flatten_entries es). nesting x \<le> ?n"
    using r by (fastforce simp: flatten_entries_def list_all_iff nesting_text)
  then show ?thesis by (auto simp: fold_max_le)
qed

lemma read_response_encode:
  "readable v \<Longrightarrow> nesting v \<le> stack \<Longrightarrow> read_response repr stack (encode pv v @ rest) = Inr (seen pv v, rest)"
proof (induction pv v arbitrary: stack rest rule: encode.induct)
  case (3 pv n)
  then obtain st where "stack = Suc st" by (cases stack) auto
  then show ?case by (simp add: lit_def utf8_char_def encode_ascii)
next
  case (4 pv)
  then obtain st where "stack = Suc st" by (cases stack) auto
  moreover have "cli_read_line (crlf @ rest) = Inr ([], rest)"
    using cli_read_line_at[of "[]" rest] by simp
  moreover have "read_int_line (lit ''-1'' @ crlf @ rest) = Inr (-1, rest)"
    using read_int_line_at(1)[of "-1" rest] by (simp add: show_int_def show_nat.simps lit_def)
  ultimately show ?case by (simp add: lit_def read_null_def)
next
  case (5 pv m)
  then obtain st where "stack = Suc st" by (cases stack) auto
  moreover have "read_text_line (encode_utf8 (lit ''ERR '' @ m) @ crlf @ rest) = Inr (lit ''ERR '' @ m, rest)"
    using 5 by (intro read_text_line_at) (auto simp: lit_def scalar_def)
  ultimately show ?case
    by (simp add: lit_def utf8_char_def encode_ascii RESP_ERR_PREFIX_def strip_err_def)
next
  case (7 pv items)
  then obtain st where st: "stack = Suc st" by (cases stack) auto
  then have "\<And>x rest. x \<in> set items \<Longrightarrow> read_response repr st (encode pv x @ rest) = Inr (seen pv x, rest)"
    using 7 by (intro "7.IH") (auto simp: list_all_iff fold_max_le)
  then have "read_values repr st (length items) (concat (map (encode pv) items) @ rest) =
      Inr (map (\<lambda>x. materialize_response_value (seen pv x)) items, rest)"
    by (rule read_values_at)
  then show ?case by (simp add: st lit_def)
next
  case (8 pv entries)
  then obtain st where st: "stack = Suc st" by (cases stack) auto
  show ?case
  proof (cases "pv = 2")
    case True
    then show ?thesis
      using "8.IH"(1)[OF True readable_flatten[OF "8.prems"(1)]] nesting_flatten[OF "8.prems"(1)] "8.prems"(2)
      by simp
  next
    case False
    have "read_response repr st (encode pv v @ rest) = Inr (seen pv v, rest)"
      if "(k, v) \<in> set entries" for k v rest
      using that False "8.prems" st by (intro "8.IH"(3)[OF False that refl]) (fastforce simp: list_all_iff fold_max_le)+
    moreover have "\<exists>ko. read_response repr st (encode pv k @ rest) = Inr (ko, rest) \<and>
        key_str repr (materialize_response_value ko) = text_of k" if "(k, v) \<in> set entries" for k v rest
    proof -
      have "is_text k" "1 \<le> st" using that "8.prems" st by (fastforce simp: list_all_iff fold_max_le)+
      then show ?thesis using read_texts[of k st "st - 1"] by auto
    qed
    ultimately have "read_entries repr st (length entries) [] (concat (map (\<lambda>(k, v). encode pv k @ encode pv v) entries) @ rest) =
        Inr (fold (\<lambda>(k, v). AList.update (text_of k) (materialize_response_value (seen pv v))) entries [], rest)"
      by (intro read_entries_at) blast
    then show ?thesis using False by (simp add: st lit_def)
  qed
qed (use read_texts in \<open>auto simp del: encode.simps seen.simps simp: Suc_le_eq gr0_conv_Suc\<close>)

end
