(* ===== verification/CliMain.thy ===== *)
theory CliMain
  imports Cli Session
begin

text \<open>
  The command line client as a program (\<open>cmd/mini_redis_cli/main.py\<close>): rendering a reply, one
  command over the network, the prompt, and the exit codes.

  The network is an argument: what the server sends back on a connection of its own for one request
  frame, or the exception of the socket, with the server's state threaded through. Output is the list
  of texts written, each to \<open>stdout\<close> or \<open>stderr\<close>. The texts of exceptions (\<open>str(error)\<close>), the
  usage line and the result of \<open>argparse\<close> are arguments. \<open>shlex.split\<close> is modelled in full.

  Main results: words without special characters are split as typed; and, put together with the
  server of \<open>Session\<close>, what one command of the client stores the next one prints.
\<close>

section \<open>Rendering\<close>

text \<open>\<open>str(value)\<close> and \<open>f"{value}"\<close>; for a dictionary or a list this is the argument \<open>repr\<close>.\<close>

definition render_value :: "(cli_value \<Rightarrow> pystr) \<Rightarrow> cli_value \<Rightarrow> pystr" where
  "render_value repr v = (if v = VNone then lit ''(nil)'' else key_str repr v)"

definition join_lines :: "pystr list \<Rightarrow> pystr" where
  "join_lines ls = (case ls of [] \<Rightarrow> [] | l # rest \<Rightarrow> l @ concat (map (\<lambda>x. 10 # x) rest))"

definition render_error :: "pystr \<Rightarrow> pystr" where
  "render_error message = (if take 4 message = lit ''ERR '' then message else lit ''ERR '' @ message)"

fun render_response :: "(cli_value \<Rightarrow> pystr) \<Rightarrow> resp_object \<Rightarrow> pystr" where
  "render_response repr (SimpleString v) = v"
| "render_response repr (BlobString v) = v"
| "render_response repr (Number n) = show_int n"
| "render_response repr Null = lit ''(nil)''"
| "render_response repr (Map m) = join_lines (map (\<lambda>(key, v). key @ lit '': '' @ render_value repr v) m)"
| "render_response repr (Array vs) =
     (if vs = [] then lit ''(empty)''
      else join_lines (map (\<lambda>(i, v). show_nat i @ lit '') '' @ render_value repr v) (zip [1..<length vs + 1] vs)))"
| "render_response repr (Error m) = render_error m"

section \<open>One command\<close>

text \<open>
  A frame goes out on a connection of its own and the reply is read from it. The third argument is
  the client's stack.
\<close>

type_synonym 'w network = "bytes \<Rightarrow> 'w \<Rightarrow> (py_exc + bytes) \<times> 'w"

definition cli_execute_request ::
  "(cli_value \<Rightarrow> pystr) \<Rightarrow> 'w network \<Rightarrow> nat \<Rightarrow> bytes \<Rightarrow> 'w \<Rightarrow> (py_exc + resp_object) \<times> 'w" where
  "cli_execute_request repr net stack frame w =
     sbind (net frame w) (\<lambda>stream w. (rbind (read_response repr stack stream) (\<lambda>(r, _). Inr r), w))"

fun is_error :: "resp_object \<Rightarrow> bool" where
  "is_error (Error _) = True"
| "is_error _ = False"

definition cli_execute_command ::
  "(cli_value \<Rightarrow> pystr) \<Rightarrow> 'w network \<Rightarrow> nat \<Rightarrow> pystr \<Rightarrow> pystr list \<Rightarrow> 'w \<Rightarrow> (py_exc + resp_object) \<times> 'w" where
  "cli_execute_command repr net stack c args w =
     sbind (cli_execute_request repr net stack build_hello_frame w) (\<lambda>hello_response w.
       if is_error hello_response then (Inr hello_response, w)
       else cli_execute_request repr net stack (build_command_frame c args) w)"

section \<open>Splitting a line\<close>

text \<open>
  \<open>shlex.split(line)\<close>: the POSIX rules, words separated by blanks, no comments. The scanner is between
  words, in a word, in a quotation (of that quotation mark), or behind a backslash (with the state to
  return to).
\<close>

datatype shlex_state = Between | Word | Quote nat | Escape "nat option"

definition shlex_space :: "nat \<Rightarrow> bool" where
  "shlex_space c \<longleftrightarrow> c \<in> {32, 9, 13, 10}"

definition shlex_quote :: "nat \<Rightarrow> bool" where
  "shlex_quote c \<longleftrightarrow> c = 39 \<or> c = 34"

definition shlex_emit :: "pystr \<Rightarrow> bool \<Rightarrow> pystr list \<Rightarrow> pystr list" where
  "shlex_emit token quoted rest = (if token \<noteq> [] \<or> quoted then token # rest else rest)"

fun shlex_scan :: "shlex_state \<Rightarrow> pystr \<Rightarrow> bool \<Rightarrow> pystr \<Rightarrow> py_exc + pystr list" where
  "shlex_scan Between token quoted [] = Inr []"
| "shlex_scan Between token quoted (c # cs) =
     (if shlex_space c then shlex_scan Between [] False cs
      else if c = 92 then shlex_scan (Escape None) [] False cs
      else if shlex_quote c then shlex_scan (Quote c) [] False cs
      else shlex_scan Word [c] False cs)"
| "shlex_scan Word token quoted [] = Inr (shlex_emit token quoted [])"
| "shlex_scan Word token quoted (c # cs) =
     (if shlex_space c then rbind (shlex_scan Between [] False cs) (\<lambda>rest. Inr (shlex_emit token quoted rest))
      else if shlex_quote c then shlex_scan (Quote c) token quoted cs
      else if c = 92 then shlex_scan (Escape None) token quoted cs
      else shlex_scan Word (token @ [c]) quoted cs)"
| "shlex_scan (Quote q) token quoted [] = Inl ValueError"
| "shlex_scan (Quote q) token quoted (c # cs) =
     (if c = q then shlex_scan Word token True cs
      else if c = 92 \<and> q = 34 then shlex_scan (Escape (Some q)) token True cs
      else shlex_scan (Quote q) (token @ [c]) True cs)"
| "shlex_scan (Escape back) token quoted [] = Inl ValueError"
| "shlex_scan (Escape back) token quoted (c # cs) =
     (case back of
        None \<Rightarrow> shlex_scan Word (token @ [c]) quoted cs
      | Some q \<Rightarrow> shlex_scan (Quote q) (token @ (if c \<noteq> 92 \<and> c \<noteq> q then [92] else []) @ [c]) quoted cs)"

definition shlex_split :: "pystr \<Rightarrow> py_exc + pystr list" where
  "shlex_split line = shlex_scan Between [] False line"

section \<open>The prompt and the program\<close>

datatype written_text = Stdout pystr | Stderr pystr

definition CLI_EXIT_SUCCESS :: int where "CLI_EXIT_SUCCESS = 0"
definition CLI_EXIT_USAGE_ERROR :: int where "CLI_EXIT_USAGE_ERROR = 2"
definition CLI_EXIT_CONNECTION_ERROR :: int where "CLI_EXIT_CONNECTION_ERROR = 3"
definition CLI_EXIT_SERVER_ERROR :: int where "CLI_EXIT_SERVER_ERROR = 4"

text \<open>The exceptions the client catches around a command.\<close>

fun is_connection_error :: "py_exc \<Rightarrow> bool" where
  "is_connection_error ConnectionError = True"
| "is_connection_error OSError = True"
| "is_connection_error _ = False"

definition prompt :: written_text where "prompt = Stdout (lit ''mini-redis> '')"

text \<open>
  The prompt loop over the lines still to be read (each with its line end; the end of the list is the
  end of the input). \<open>Inl\<close>: an exception nobody catches.
\<close>

fun run_repl ::
  "(py_exc \<Rightarrow> pystr) \<Rightarrow> (cli_value \<Rightarrow> pystr) \<Rightarrow> 'w network \<Rightarrow> nat \<Rightarrow> pystr list \<Rightarrow> 'w \<Rightarrow> (py_exc + int) \<times> written_text list \<times> 'w" where
  "run_repl text repr net stack [] w = (Inr CLI_EXIT_SUCCESS, [prompt], w)"
| "run_repl text repr net stack (line # rest) w =
     (let stripped = py_strip line;
          go_on = (\<lambda>out w. case run_repl text repr net stack rest w of (r, out', w') \<Rightarrow> (r, prompt # out @ out', w'))
      in if stripped = [] then go_on [] w
         else if stripped \<in> {lit ''exit'', lit ''quit''} then (Inr CLI_EXIT_SUCCESS, [prompt], w)
         else case shlex_split line of
             Inl e \<Rightarrow> go_on [Stderr (lit ''error: '' @ text e @ [10])] w
           | Inr [] \<Rightarrow> (Inl ValueError, [prompt], w)
           | Inr (c # args) \<Rightarrow>
               (case cli_execute_command repr net stack c args w of
                  (Inl e, w1) \<Rightarrow>
                    if is_connection_error e then go_on [Stderr (lit ''connection error: '' @ text e @ [10])] w1
                    else (Inl e, [prompt], w1)
                | (Inr (Error m), w1) \<Rightarrow> go_on [Stderr (render_error m @ [10])] w1
                | (Inr r, w1) \<Rightarrow> go_on [Stdout (render_response repr r @ [10])] w1))"

record cli_arguments =
  cli_host :: pystr
  cli_port :: int
  cli_command :: "pystr option"
  cli_command_arguments :: "pystr list"

definition parse_cli_arguments :: "py_exc + cli_arguments \<Rightarrow> py_exc + cli_arguments" where
  "parse_cli_arguments parsed =
     rbind parsed (\<lambda>ns.
       if cli_port ns \<le> 0 \<or> cli_port ns > 65535
       then Inl (CliUsageError (lit ''port must be between 1 and 65535'')) else Inr ns)"

definition build_runtime_config :: "cli_arguments \<Rightarrow> runtime_config" where
  "build_runtime_config args = with_connection_target (cli_host args) (cli_port args) default_config"

definition cli_main ::
  "(py_exc \<Rightarrow> pystr) \<Rightarrow> pystr \<Rightarrow> (cli_value \<Rightarrow> pystr) \<Rightarrow> (runtime_config \<Rightarrow> 'w network) \<Rightarrow> nat \<Rightarrow> py_exc + cli_arguments \<Rightarrow> pystr list \<Rightarrow> 'w
    \<Rightarrow> (py_exc + int) \<times> written_text list \<times> 'w" where
  "cli_main text usage repr net stack parsed lines w =
     (case parse_cli_arguments parsed of
        Inl (CliUsageError m) \<Rightarrow>
          (Inr CLI_EXIT_USAGE_ERROR, [Stderr usage, Stderr (lit ''error: '' @ m @ [10])], w)
      | Inl e \<Rightarrow> (Inl e, [], w)
      | Inr args \<Rightarrow>
          (case cli_command args of
             None \<Rightarrow> run_repl text repr (net (build_runtime_config args)) stack lines w
           | Some c \<Rightarrow>
               (case cli_execute_command repr (net (build_runtime_config args)) stack c (cli_command_arguments args) w of
                  (Inl e, w1) \<Rightarrow>
                    if is_connection_error e
                    then (Inr CLI_EXIT_CONNECTION_ERROR, [Stderr (lit ''connection error: '' @ text e @ [10])], w1)
                    else (Inl e, [], w1)
                | (Inr (Error m), w1) \<Rightarrow> (Inr CLI_EXIT_SERVER_ERROR, [Stderr (render_error m @ [10])], w1)
                | (Inr r, w1) \<Rightarrow> (Inr CLI_EXIT_SUCCESS, [Stdout (render_response repr r @ [10])], w1))))"

section \<open>Splitting what was typed\<close>

definition plain_word :: "pystr \<Rightarrow> bool" where
  "plain_word t \<longleftrightarrow> t \<noteq> [] \<and> (\<forall>c \<in> set t. \<not> shlex_space c \<and> \<not> shlex_quote c \<and> c \<noteq> 92)"

lemma shlex_word:
  assumes "\<forall>c \<in> set t. \<not> shlex_space c \<and> \<not> shlex_quote c \<and> c \<noteq> 92"
  shows "shlex_scan Word token quoted (t @ cs) = shlex_scan Word (token @ t) quoted cs"
  using assms by (induction t arbitrary: token) auto

lemma shlex_between:
  assumes "plain_word t"
  shows "shlex_scan Between [] False (t @ cs) = shlex_scan Word t False cs"
proof (cases t)
  case (Cons c t')
  then show ?thesis using assms shlex_word[of t' "[c]" False cs] by (simp add: plain_word_def)
qed (use assms in \<open>simp add: plain_word_def\<close>)

lemma shlex_words:
  assumes "list_all plain_word ws"
  shows "shlex_split (concat (map (\<lambda>t. t @ [32]) ws)) = Inr ws"
  using assms
proof (induction ws)
  case (Cons t ws)
  then have "shlex_scan Between [] False (t @ 32 # concat (map (\<lambda>t. t @ [32]) ws)) = Inr (t # ws)"
    using shlex_between[of t] by (simp add: shlex_split_def shlex_space_def shlex_emit_def plain_word_def)
  then show ?case by (simp add: shlex_split_def)
qed (simp add: shlex_split_def)

text \<open>A line that is not blank has a word, so the prompt never unpacks an empty list of words.\<close>

lemma shlex_scan_words:
  assumes "shlex_scan st token quoted cs = Inr ws"
    and "case st of Between \<Rightarrow> \<exists>c \<in> set cs. \<not> shlex_space c | Word \<Rightarrow> token \<noteq> [] \<or> quoted | _ \<Rightarrow> True"
  shows "ws \<noteq> []"
  using assms
proof (induction st token quoted cs arbitrary: ws rule: shlex_scan.induct)
  case (2 token quoted c cs)
  then show ?case by (auto split: if_splits)
next
  case (4 token quoted c cs)
  then show ?case by (auto simp: shlex_emit_def rbind_eq_Inr split: if_splits)
next
  case (6 q token quoted c cs)
  then show ?case by (auto split: if_splits)
next
  case (8 b token quoted c cs)
  then show ?case by (auto split: if_splits option.splits)
qed (auto simp: shlex_emit_def)

lemma shlex_split_words:
  assumes "shlex_split line = Inr ws" "py_strip line \<noteq> []"
  shows "ws \<noteq> []"
proof (rule shlex_scan_words[OF assms(1)[unfolded shlex_split_def]])
  have "shlex_space c \<Longrightarrow> is_space c" for c by (auto simp: shlex_space_def is_space_def)
  moreover have "\<exists>c \<in> set line. \<not> is_space c"
    using assms(2) by (auto simp: py_strip_def strip_by_def dropWhile_eq_Nil_conv dest: set_dropWhileD)
  ultimately show "case Between of Between \<Rightarrow> \<exists>c \<in> set line. \<not> shlex_space c | Word \<Rightarrow> [] \<noteq> [] \<or> False | _ \<Rightarrow> True"
    by auto
qed

section \<open>The client and the server\<close>

text \<open>
  The network of a server that answers: the frame arrives in one read of a session of its own, the
  reply is written, and the session ends.
\<close>

definition served :: "resource_limits \<Rightarrow> nat \<Rightarrow> pyfloat \<Rightarrow> service network" where
  "served limits stack now frame s =
     (let w = handle limits stack [(Received frame, now, Sent)]
            \<lparr>session_ctx = session_context_init, svc = s, counters = metrics_init, written = []\<rparr>
      in (Inr (concat (written w)), svc w))"

lemma served_request:
  assumes "frame \<noteq> []" "int (length frame) \<le> limit_request_size_bytes limits"
    and "process_request stack now frame (session_context_init, s) = (Inr response, (ctx, s'))"
  shows "served limits stack now frame s = (Inr response, s')"
  using assms by (simp add: served_def handle_round_def is_request_size_allowed_def Let_def)

lemma encode_array_nonempty [simp]: "encode_array items \<noteq> []"
  by (simp add: encode_array_eq lit_def)

lemma coerce_blobs: "coerce_tokens (map RespBlobString ts) = Inr ts"
  by (induction ts) auto

lemma frame_command:
  assumes "ascii c" "list_all ascii args" "2 \<le> stack" "py_strip c \<noteq> []"
    and "C = \<lparr>name = py_upper (py_strip c), arguments = args\<rparr>" "validate C = Inr ()" "name C \<noteq> lit ''HELLO''"
  shows "handle_with_error_response stack (build_command_frame c args) =
    Inr \<lparr>result_command = Some C, result_response = None, result_version = None\<rparr>"
proof -
  have "list_all item_ascii (Text c # map Text args)" using assms(1,2) by (simp add: list_all_iff)
  from decode_encode_array[OF this assms(3)]
  have "decode stack (build_command_frame c args) = Inr (RespArray (map RespBlobString (c # args)))"
    by (simp add: build_command_frame_def comp_def)
  moreover have "parse (map RespBlobString (c # args)) = Inr C"
    using assms(4) by (simp add: parse_def coerce_blobs Let_def assms(5) del: coerce_tokens.simps list.map
        flip: list.map(2))
  ultimately show ?thesis
    using assms(6,7) by (simp add: handle_with_error_response_def protocol_handle_def)
qed

lemma session_version:
  "apply_session_state C ctx = Inr ctx' \<Longrightarrow> protocol_version ctx' = protocol_version ctx"
  by (auto simp: apply_session_state_def rbind_eq_Inr split: if_splits)

lemma served_command:
  assumes "ascii c" "list_all ascii args" "2 \<le> stack" "py_strip c \<noteq> []"
    and "C = \<lparr>name = py_upper (py_strip c), arguments = args\<rparr>" "validate C = Inr ()" "name C \<noteq> lit ''HELLO''"
    and "int (length (build_command_frame c args)) \<le> limit_request_size_bytes limits"
    and "execute now C s = (Inr v, s')"
  shows "served limits stack now (build_command_frame c args) s = (Inr (encode 2 v), s')"
proof -
  obtain ctx where "apply_session_state C session_context_init = Inr ctx"
    using apply_session_state_total[OF assms(6)] by blast
  then have "process_request stack now (build_command_frame c args) (session_context_init, s) =
      (Inr (encode 2 v), (ctx, s'))"
    using session_version[of C session_context_init ctx]
    by (simp add: process_request_def frame_command[OF assms(1-7)] assms(9) session_context_init_def)
  then show ?thesis
    using assms(8) by (intro served_request[where ctx = ctx]) (simp_all add: build_command_frame_def)
qed

lemma served_hello:
  assumes "2 \<le> stack" "int (length build_hello_frame) \<le> limit_request_size_bytes limits"
  shows "served limits stack now build_hello_frame s = (Inr (encode 3 (hello_handle 3)), s)"
proof -
  have "decode stack build_hello_frame = Inr (RespArray [RespBlobString (lit ''HELLO''), RespNumber 3])"
    using decode_encode_array[of "[Text (lit ''HELLO''), Num 3]" stack] assms(1)
    by (simp add: build_hello_frame_def lit_def)
  moreover have "parse [RespBlobString (lit ''HELLO''), RespNumber 3] = Inr (cmd ''HELLO'' [lit ''3''])"
    by code_simp
  moreover have "validate (cmd ''HELLO'' [lit ''3'']) = Inr ()" "py_int (lit ''3'') = Some 3" by code_simp+
  ultimately have "handle_with_error_response stack build_hello_frame =
      Inr \<lparr>result_command = None, result_response = Some (hello_handle 3), result_version = Some 3\<rparr>"
    by (simp add: handle_with_error_response_def protocol_handle_def)
  then show ?thesis
    using assms(2) by (intro served_request[where ctx = "session_context_init\<lparr>protocol_version := 3\<rparr>"])
      (simp_all add: process_request_def Let_def build_hello_frame_def)
qed

text \<open>
  One command of the client is one command of the service: the client sees the reply in version 2
  (\<open>HELLO\<close> was on a connection of its own).
\<close>

lemma client_command:
  assumes "ascii c" "list_all ascii args" "2 \<le> stack" "py_strip c \<noteq> []"
    and "C = \<lparr>name = py_upper (py_strip c), arguments = args\<rparr>" "validate C = Inr ()" "name C \<noteq> lit ''HELLO''"
    and "int (length (build_command_frame c args)) \<le> limit_request_size_bytes limits"
    and "execute now C s = (Inr v, s')"
    and "int (length build_hello_frame) \<le> limit_request_size_bytes limits"
    and "2 \<le> depth" "readable v" "nesting v \<le> depth"
  shows "cli_execute_command repr (served limits stack now) depth c args s = (Inr (seen 2 v), s')"
proof -
  let ?hello = "hello_handle 3"
  have "readable ?hello" "nesting ?hello \<le> depth" "\<not> is_error (seen 3 ?hello)"
    using assms(11) by (simp_all add: hello_handle_def lit_def scalar_def)
  then have "cli_execute_request repr (served limits stack now) depth build_hello_frame s = (Inr (seen 3 ?hello), s)"
    using read_response_encode[of ?hello depth repr 3 "[]"] served_hello[OF assms(3,10)]
    by (simp add: cli_execute_request_def)
  moreover have "cli_execute_request repr (served limits stack now) depth (build_command_frame c args) s =
      (Inr (seen 2 v), s')"
    using read_response_encode[OF assms(12,13), of repr 2 "[]"] served_command[OF assms(1-9)]
    by (simp add: cli_execute_request_def)
  ultimately show ?thesis using \<open>\<not> is_error (seen 3 ?hello)\<close> by (simp add: cli_execute_command_def)
qed

text \<open>\<open>SET\<close> and \<open>GET\<close> of the client, on the limits of the default configuration.\<close>

abbreviation default_limits :: resource_limits where
  "default_limits \<equiv> resource_limits_of default_config"

lemma default_limit: "limit_request_size_bytes default_limits = 4096"
  by (simp add: resource_limits_of_def default_config_def)

lemma hello_fits: "int (length build_hello_frame) \<le> limit_request_size_bytes default_limits"
  unfolding default_limit by code_simp

lemma client_names:
  "py_strip (lit ''set'') = lit ''set''" "py_upper (lit ''set'') = lit ''SET''"
  "py_strip (lit ''get'') = lit ''get''" "py_upper (lit ''get'') = lit ''GET''"
  "validate (cmd ''SET'' [k, v]) = Inr ()" "validate (cmd ''GET'' [k]) = Inr ()"
  by (code_simp, code_simp, code_simp, code_simp)
    (simp_all add: validate_def validate_arity_def SUPPORTED_ARITY_def)

lemma client_set:
  assumes "ascii k" "ascii v" "2 \<le> stack" "2 \<le> depth"
    and "int (length (build_command_frame (lit ''set'') [k, v])) \<le> 4096"
  shows "cli_execute_command repr (served default_limits stack now) depth (lit ''set'') [k, v] s =
    (Inr (SimpleString RESP_OK), snd (execute now (cmd ''SET'' [k, v]) s))"
proof -
  have ok: "execute now (cmd ''SET'' [k, v]) s =
      (Inr (RespSimpleString RESP_OK), snd (execute now (cmd ''SET'' [k, v]) s))"
    by (simp add: execute_simps run_set_eq)
  have "readable (RespSimpleString RESP_OK)" by (simp add: RESP_OK_def lit_def scalar_def)
  moreover have "ascii (lit ''set'')" "lit ''set'' \<noteq> []" "lit ''SET'' \<noteq> lit ''HELLO''" by (simp_all add: lit_def)
  ultimately show ?thesis
    using client_command[where c = "lit ''set''" and args = "[k, v]" and C = "cmd ''SET'' [k, v]",
        OF _ _ assms(3) _ _ _ _ _ ok hello_fits assms(4)] assms
    by (simp add: client_names default_limit)
qed

lemma client_get:
  assumes "ascii k" "list_all scalar v" "2 \<le> stack" "2 \<le> depth"
    and "int (length (build_command_frame (lit ''get'') [k])) \<le> 4096"
    and "fst (execute now (cmd ''GET'' [k]) s) = Inr (RespBlobString v)"
  shows "cli_execute_command repr (served default_limits stack now) depth (lit ''get'') [k] s =
    (Inr (BlobString v), snd (execute now (cmd ''GET'' [k]) s))"
proof -
  have get: "execute now (cmd ''GET'' [k]) s = (Inr (RespBlobString v), snd (execute now (cmd ''GET'' [k]) s))"
    using assms(6) by (simp add: prod_eq_iff)
  have "ascii (lit ''get'')" "lit ''get'' \<noteq> []" "lit ''GET'' \<noteq> lit ''HELLO''" by (simp_all add: lit_def)
  then show ?thesis
    using client_command[where c = "lit ''get''" and args = "[k]" and C = "cmd ''GET'' [k]",
        OF _ _ assms(3) _ _ _ _ _ get hello_fits assms(4)] assms
    by (simp add: client_names default_limit)
qed

lemma client_limits:
  "resource_limits_of (build_runtime_config args) = default_limits"
  by (simp add: build_runtime_config_def with_connection_target_def resource_limits_of_def)

end
