(* ===== verification/MongoRepo.thy ===== *)
theory MongoRepo
  imports PyText
begin

text \<open>
  The document store of the arena (\<open>internal/arena/mongo/repository.py\<close>): \<open>InMemoryMongoRepository\<close>,
  a dictionary of string and hash documents. A document's kind decides which of its two fields is in
  use, so it is a datatype with one constructor per kind. \<open>PyMongoArenaRepository\<close> calls a MongoDB
  server and is not modelled.
\<close>

definition WRONG_TYPE_MESSAGE :: pystr where
  "WRONG_TYPE_MESSAGE = lit ''WRONGTYPE Operation against a key holding the wrong kind of value''"

datatype arena_document = StringDoc pystr | HashDoc "(pystr, pystr) dict"

type_synonym documents = "(pystr, arena_document) dict"

abbreviation type_error :: "py_exc + 'a" where
  "type_error \<equiv> Inl (TypeError WRONG_TYPE_MESSAGE)"

definition created_or_updated :: "bool \<Rightarrow> pystr" where
  "created_or_updated created = (if created then lit ''created'' else lit ''updated'')"

definition mongo_write :: "pystr \<Rightarrow> pystr \<Rightarrow> documents \<Rightarrow> pystr \<times> documents" where
  "mongo_write key v docs =
     (let created = key \<notin> set (keys_of docs)
      in (created_or_updated created, AList.update key (StringDoc v) docs))"

definition mongo_read :: "pystr \<Rightarrow> documents \<Rightarrow> py_exc + pystr option" where
  "mongo_read key docs =
     (case map_of docs key of
        None \<Rightarrow> Inr None
      | Some (StringDoc v) \<Rightarrow> Inr (Some v)
      | Some (HashDoc _) \<Rightarrow> type_error)"

definition mongo_hset :: "pystr \<Rightarrow> pystr \<Rightarrow> pystr \<Rightarrow> documents \<Rightarrow> (py_exc + pystr) \<times> documents" where
  "mongo_hset key field_name v docs =
     (case map_of docs key of
        None \<Rightarrow> (Inr (lit ''created''), AList.update key (HashDoc [(field_name, v)]) docs)
      | Some (StringDoc _) \<Rightarrow> (type_error, docs)
      | Some (HashDoc fields) \<Rightarrow>
          (let field_created = field_name \<notin> set (keys_of fields)
           in (Inr (created_or_updated field_created),
               AList.update key (HashDoc (AList.update field_name v fields)) docs)))"

definition mongo_hget :: "pystr \<Rightarrow> pystr \<Rightarrow> documents \<Rightarrow> py_exc + pystr option" where
  "mongo_hget key field_name docs =
     (case map_of docs key of
        None \<Rightarrow> Inr None
      | Some (StringDoc _) \<Rightarrow> type_error
      | Some (HashDoc fields) \<Rightarrow> Inr (map_of fields field_name))"

definition mongo_hgetall :: "pystr \<Rightarrow> documents \<Rightarrow> py_exc + (pystr, pystr) dict option" where
  "mongo_hgetall key docs =
     (case map_of docs key of
        None \<Rightarrow> Inr None
      | Some (StringDoc _) \<Rightarrow> type_error
      | Some (HashDoc fields) \<Rightarrow> Inr (Some fields))"

definition mongo_delete :: "pystr \<Rightarrow> documents \<Rightarrow> bool \<times> documents" where
  "mongo_delete key docs =
     (if key \<notin> set (keys_of docs) then (False, docs) else (True, AList.delete key docs))"

definition mongo_delete_many :: "pystr list \<Rightarrow> documents \<Rightarrow> documents" where
  "mongo_delete_many keys docs = fold (\<lambda>key docs. snd (mongo_delete key docs)) keys docs"

definition mongo_clear :: "documents \<Rightarrow> documents" where
  "mongo_clear docs = []"

definition mongo_seed :: "(pystr, pystr) dict \<Rightarrow> documents \<Rightarrow> documents" where
  "mongo_seed new docs = fold (\<lambda>(key, v). AList.update key (StringDoc v)) new docs"

text \<open>The size of the text's UTF-8 form, and of a document with its key.\<close>

definition utf8_len :: "pystr \<Rightarrow> nat" where
  "utf8_len s = length (encode_utf8 s)"

fun document_bytes :: "pystr \<Rightarrow> arena_document \<Rightarrow> nat" where
  "document_bytes key (StringDoc v) = utf8_len key + utf8_len v"
| "document_bytes key (HashDoc fields) =
     utf8_len key + sum_list (map (\<lambda>(f, v). utf8_len f + utf8_len v) fields)"

definition mongo_stats :: "documents \<Rightarrow> nat \<times> nat" where
  "mongo_stats docs = (fold (\<lambda>(key, doc) n. n + document_bytes key doc) docs 0, length docs)"

section \<open>A keyed store\<close>

abbreviation mongo_put :: "pystr \<Rightarrow> arena_document \<Rightarrow> documents \<Rightarrow> documents" where
  "mongo_put \<equiv> AList.update"

abbreviation mongo_remove :: "pystr \<Rightarrow> documents \<Rightarrow> documents" where
  "mongo_remove key docs \<equiv> snd (mongo_delete key docs)"

lemma mongo_remove_eq: "mongo_remove key docs = AList.delete key docs"
  using delete_absent[of docs key] by (auto simp: mongo_delete_def keys_of_iff)

interpretation mongo: keyed_store keys_of map_of mongo_put mongo_remove wf_dict
  by unfold_locales
    (auto simp: mongo_remove_eq dict_simps keys_of_iff wf_dict_def distinct_removeAll)

lemma mongo_delete_many_get:
  "map_of (mongo_delete_many ks docs) k = (if k \<in> set ks then None else map_of docs k)"
  unfolding mongo_delete_many_def by (rule mongo.get_remove_all)

lemma wf_mongo_delete_many: "wf_dict docs \<Longrightarrow> wf_dict (mongo_delete_many ks docs)"
  unfolding mongo_delete_many_def by (rule mongo.ok_remove_all)

lemma mongo_seed_get:
  "map_of (mongo_seed new docs) k =
     (case map_of (rev new) k of None \<Rightarrow> map_of docs k | Some v \<Rightarrow> Some (StringDoc v))"
  by (induction new arbitrary: docs)
    (auto simp: mongo_seed_def dict_simps map_add_def split: option.splits)

lemma wf_mongo_seed: "wf_dict docs \<Longrightarrow> wf_dict (mongo_seed new docs)"
  by (induction new arbitrary: docs) (auto simp: mongo_seed_def)

lemma mongo_stats_eq:
  "mongo_stats docs = (dict_sum document_bytes docs, length docs)"
proof -
  have "fold (\<lambda>(key, doc) n. n + document_bytes key doc) docs n = n + dict_sum document_bytes docs" for n
    by (induction docs arbitrary: n) (auto simp: dict_sum_def)
  then show ?thesis by (simp add: mongo_stats_def)
qed

text \<open>Every write keeps one document per key.\<close>

lemma wf_mongo_writes:
  "wf_dict docs \<Longrightarrow> wf_dict (snd (mongo_write key v docs))"
  "wf_dict docs \<Longrightarrow> wf_dict (snd (mongo_hset key f v docs))"
  "wf_dict docs \<Longrightarrow> wf_dict (mongo_remove key docs)"
  by (auto simp: mongo_write_def mongo_hset_def mongo_remove_eq Let_def
      split: option.splits arena_document.splits)

end
