(* ===== verification/RedisClient.thy ===== *)
theory RedisClient
  imports MongoRepo PyFloat Eviction
begin

text \<open>
  The cache of the arena (\<open>internal/arena/lane/redis_client.py\<close>): \<open>InMemoryMiniRedisClient\<close>, a small
  Redis with string and hash entries, expirations, and a memory limit enforced by dropping the least
  recently used keys. It is the second instance of the eviction interface. \<open>RedisPyMiniRedisClient\<close>
  talks to a server through a third-party package and is not modelled.

  As in the server, an operation runs at one reading \<open>now\<close> of the monotonic clock.
\<close>

datatype redis_value = RString pystr | RHash "(pystr, pystr) dict"

record redis_entry =
  entry_value :: redis_value
  expires_at :: "pyfloat option"

record redis_client =
  entries :: "(pystr, redis_entry) dict"
  client_max_memory :: "int option"
  client_evicted :: nat
  client_clock :: nat
  client_order :: "(pystr, nat) dict"

definition client_init :: redis_client where
  "client_init = \<lparr>entries = [], client_max_memory = None, client_evicted = 0, client_clock = 0,
     client_order = []\<rparr>"

definition entry_expired :: "pyfloat \<Rightarrow> redis_entry \<Rightarrow> bool" where
  "entry_expired now e = (case expires_at e of None \<Rightarrow> False | Some t \<Rightarrow> fle t now)"

definition client_delete :: "pystr \<Rightarrow> redis_client \<Rightarrow> bool \<times> redis_client" where
  "client_delete key c =
     (if key \<notin> set (keys_of (entries c)) then (False, c)
      else (True, c\<lparr>entries := AList.delete key (entries c),
                    client_order := AList.delete key (client_order c)\<rparr>))"

definition purge_expired :: "pyfloat \<Rightarrow> redis_client \<Rightarrow> redis_client" where
  "purge_expired now c =
     fold (\<lambda>(key, e) c. if entry_expired now e then snd (client_delete key c) else c) (entries c) c"

definition client_touch :: "pystr \<Rightarrow> redis_client \<Rightarrow> redis_client" where
  "client_touch key c =
     (if key \<notin> set (keys_of (entries c))
      then c\<lparr>client_order := AList.delete key (client_order c)\<rparr>
      else c\<lparr>client_clock := client_clock c + 1,
             client_order := AList.update key (client_clock c + 1) (client_order c)\<rparr>)"

fun value_bytes :: "redis_value \<Rightarrow> nat" where
  "value_bytes (RString v) = utf8_len v"
| "value_bytes (RHash fs) = sum_list (map (\<lambda>(f, v). utf8_len f + utf8_len v) fs)"

definition entry_size_bytes :: "pystr \<Rightarrow> redis_entry \<Rightarrow> nat" where
  "entry_size_bytes key e = utf8_len key + value_bytes (entry_value e)"

definition used_memory_bytes :: "redis_client \<Rightarrow> nat" where
  "used_memory_bytes c = sum_list (map (\<lambda>(key, e). entry_size_bytes key e) (entries c))"

definition client_access :: "redis_client \<Rightarrow> pystr \<Rightarrow> nat" where
  "client_access c key = (case map_of (client_order c) key of None \<Rightarrow> 0 | Some a \<Rightarrow> a)"

definition client_eviction_candidate :: "pystr list \<Rightarrow> redis_client \<Rightarrow> pystr option" where
  "client_eviction_candidate protected c =
     map_option fst (pick_oldest (client_access c) protected (keys_of (entries c)) None)"

definition client_evict :: "pystr \<Rightarrow> redis_client \<Rightarrow> redis_client" where
  "client_evict key c =
     (let c1 = snd (client_delete key c) in c1\<lparr>client_evicted := client_evicted c1 + 1\<rparr>)"

lemma client_delete_entries [simp]:
  "entries (snd (client_delete key c)) = AList.delete key (entries c)"
  using delete_absent[of "entries c" key] by (auto simp: client_delete_def keys_of_iff)

lemma client_evict_entries [simp]: "entries (client_evict key c) = AList.delete key (entries c)"
  by (simp add: client_evict_def Let_def)

lemma client_candidate_member:
  "client_eviction_candidate ps c = Some k \<Longrightarrow> k \<in> set (keys_of (entries c)) - set ps"
  by (auto simp: client_eviction_candidate_def dest: pick_oldest_member)

lemma length_delete_less: "k \<in> set (keys_of d) \<Longrightarrow> length (AList.delete k d) < length d"
proof -
  assume "k \<in> set (keys_of d)"
  then have "length (removeAll k (keys_of d)) < length (keys_of d)" by (rule length_removeAll_less)
  then have "length (keys_of (AList.delete k d)) < length (keys_of d)" by (simp add: dict_simps)
  then show ?thesis by (simp add: keys_of_def)
qed

function client_evict_loop :: "pystr list \<Rightarrow> int \<Rightarrow> redis_client \<Rightarrow> redis_client" where
  "client_evict_loop protected m c =
     (if int (used_memory_bytes c) > m then
        (case client_eviction_candidate protected c of
           None \<Rightarrow> c
         | Some key \<Rightarrow> client_evict_loop protected m (client_evict key c))
      else c)"
  by pat_completeness auto
termination
  by (relation "measure (\<lambda>(_, _, c). length (entries c))")
    (auto intro!: length_delete_less dest: client_candidate_member)

declare client_evict_loop.simps [simp del]

fun client_evict_protected :: "pystr list \<Rightarrow> int \<Rightarrow> redis_client \<Rightarrow> redis_client" where
  "client_evict_protected [] m c = c"
| "client_evict_protected (key # rest) m c =
     (if int (used_memory_bytes c) \<le> m then c
      else case client_delete key c of (deleted, c1) \<Rightarrow>
        client_evict_protected rest m
          (if deleted then c1\<lparr>client_evicted := client_evicted c1 + 1\<rparr> else c1))"

definition enforce_max_memory :: "pyfloat \<Rightarrow> pystr list \<Rightarrow> redis_client \<Rightarrow> redis_client" where
  "enforce_max_memory now protected c =
     (case client_max_memory c of
        None \<Rightarrow> c
      | Some m \<Rightarrow>
          (let c1 = client_evict_loop protected m (purge_expired now c)
           in if int (used_memory_bytes c1) \<le> m then c1 else client_evict_protected protected m c1))"

section \<open>Operations\<close>

definition client_set :: "pyfloat \<Rightarrow> pystr \<Rightarrow> pystr \<Rightarrow> redis_client \<Rightarrow> redis_client" where
  "client_set now key v c =
     (let c1 = purge_expired now c;
          c2 = c1\<lparr>entries := AList.update key \<lparr>entry_value = RString v, expires_at = None\<rparr> (entries c1)\<rparr>
      in enforce_max_memory now [key] (client_touch key c2))"

definition client_get :: "pyfloat \<Rightarrow> pystr \<Rightarrow> redis_client \<Rightarrow> (py_exc + pystr option) \<times> redis_client" where
  "client_get now key c =
     (case map_of (entries c) key of
        None \<Rightarrow> (Inr None, c)
      | Some e \<Rightarrow>
          if entry_expired now e then (Inr None, snd (client_delete key c))
          else case entry_value e of
                 RHash _ \<Rightarrow> (type_error, c)
               | RString v \<Rightarrow> (Inr (Some v), client_touch key c))"

definition client_hset ::
  "pyfloat \<Rightarrow> pystr \<Rightarrow> pystr \<Rightarrow> pystr \<Rightarrow> redis_client \<Rightarrow> (py_exc + unit) \<times> redis_client" where
  "client_hset now key field_name v c =
     (let c1 = purge_expired now c
      in case map_of (entries c1) key of
           None \<Rightarrow>
             (let c2 = c1\<lparr>entries := AList.update key
                        \<lparr>entry_value = RHash [(field_name, v)], expires_at = None\<rparr> (entries c1)\<rparr>
              in (Inr (), enforce_max_memory now [key] (client_touch key c2)))
         | Some e \<Rightarrow>
             (case entry_value e of
                RString _ \<Rightarrow> (type_error, c1)
              | RHash fs \<Rightarrow>
                  (let c2 = c1\<lparr>entries := AList.update key
                             (e\<lparr>entry_value := RHash (AList.update field_name v fs)\<rparr>) (entries c1)\<rparr>
                   in (Inr (), enforce_max_memory now [key] (client_touch key c2)))))"

definition client_hget ::
  "pyfloat \<Rightarrow> pystr \<Rightarrow> pystr \<Rightarrow> redis_client \<Rightarrow> (py_exc + pystr option) \<times> redis_client" where
  "client_hget now key field_name c =
     (case map_of (entries c) key of
        None \<Rightarrow> (Inr None, c)
      | Some e \<Rightarrow>
          if entry_expired now e then (Inr None, snd (client_delete key c))
          else case entry_value e of
                 RString _ \<Rightarrow> (type_error, c)
               | RHash fs \<Rightarrow> (Inr (map_of fs field_name), client_touch key c))"

definition client_hgetall ::
  "pyfloat \<Rightarrow> pystr \<Rightarrow> redis_client \<Rightarrow> (py_exc + (pystr, pystr) dict option) \<times> redis_client" where
  "client_hgetall now key c =
     (case map_of (entries c) key of
        None \<Rightarrow> (Inr None, c)
      | Some e \<Rightarrow>
          if entry_expired now e then (Inr None, snd (client_delete key c))
          else case entry_value e of
                 RString _ \<Rightarrow> (type_error, c)
               | RHash fs \<Rightarrow> (Inr (Some fs), client_touch key c))"

definition client_expire :: "pyfloat \<Rightarrow> pystr \<Rightarrow> pyfloat \<Rightarrow> redis_client \<Rightarrow> bool \<times> redis_client" where
  "client_expire now key ttl_seconds c =
     (case map_of (entries c) key of
        None \<Rightarrow> (False, c)
      | Some e \<Rightarrow>
          (True, client_touch key
             (c\<lparr>entries := AList.update key (e\<lparr>expires_at := Some (fadd now ttl_seconds)\<rparr>) (entries c)\<rparr>)))"

definition client_ttl :: "pyfloat \<Rightarrow> pystr \<Rightarrow> redis_client \<Rightarrow> (py_exc + int option) \<times> redis_client" where
  "client_ttl now key c =
     (case map_of (entries c) key of
        None \<Rightarrow> (Inr None, c)
      | Some e \<Rightarrow>
          (case expires_at e of
             None \<Rightarrow> (Inr None, c)
           | Some t \<Rightarrow>
               sbind (fceil (fsub t now), c) (\<lambda>remaining_seconds c.
                 if remaining_seconds \<le> 0 then (Inr None, snd (client_delete key c))
                 else (Inr (Some remaining_seconds), c))))"

definition client_ping :: "redis_client \<Rightarrow> bool" where
  "client_ping c = True"

definition client_flushdb :: "redis_client \<Rightarrow> redis_client" where
  "client_flushdb c = c\<lparr>entries := [], client_order := [], client_evicted := 0\<rparr>"

definition client_dbsize :: "pyfloat \<Rightarrow> redis_client \<Rightarrow> nat \<times> redis_client" where
  "client_dbsize now c = (let c1 = purge_expired now c in (length (entries c1), c1))"

record memory_info =
  used_memory :: nat
  maxmemory :: int
  info_keys :: nat
  info_evicted_keys :: nat

definition client_config_get_maxmemory :: "redis_client \<Rightarrow> int" where
  "client_config_get_maxmemory c = (case client_max_memory c of None \<Rightarrow> 0 | Some m \<Rightarrow> m)"

definition client_info_memory :: "pyfloat \<Rightarrow> redis_client \<Rightarrow> memory_info \<times> redis_client" where
  "client_info_memory now c =
     (let c1 = purge_expired now c
      in (\<lparr>used_memory = used_memory_bytes c1, maxmemory = client_config_get_maxmemory c1,
           info_keys = length (entries c1), info_evicted_keys = client_evicted c1\<rparr>, c1))"

definition client_config_set_maxmemory :: "pyfloat \<Rightarrow> int \<Rightarrow> redis_client \<Rightarrow> redis_client" where
  "client_config_set_maxmemory now m c =
     enforce_max_memory now [] (c\<lparr>client_max_memory := (if m > 0 then Some m else None)\<rparr>)"

section \<open>The eviction loop is an LRU store\<close>

lemma used_memory_eq: "used_memory_bytes c = dict_sum entry_size_bytes (entries c)"
  by (simp add: used_memory_bytes_def dict_sum_def)

lemma client_delete_frame [simp]:
  "client_max_memory (snd (client_delete key c)) = client_max_memory c"
  "client_evicted (snd (client_delete key c)) = client_evicted c"
  "client_clock (snd (client_delete key c)) = client_clock c"
  by (simp_all add: client_delete_def)

lemma client_access_delete: "j \<noteq> k \<Longrightarrow> client_access (snd (client_delete k c)) j = client_access c j"
  by (simp add: client_access_def client_delete_def dict_simps)

interpretation client_lru: lru_store "\<lambda>c. keys_of (entries c)" used_memory_bytes client_access
  client_eviction_candidate client_evict client_evict_loop "\<lambda>c. wf_dict (entries c)"
proof (unfold_locales, goal_cases)
  case (1 c ps)
  then show ?case by (simp add: client_eviction_candidate_def pick_oldest_None)
next
  case (2 c ps k)
  then show ?case by (intro client_candidate_member)
next
  case (3 c ps k j)
  then obtain a where p: "pick_oldest (client_access c) ps (keys_of (entries c)) None = Some (k, a)"
    by (auto simp: client_eviction_candidate_def)
  have "a = client_access c k" using pick_oldest_member[OF p] by simp
  then show ?case using pick_oldest_least[OF p] 3(3) by auto
next
  case (4 c k)
  then show ?case by (simp add: dict_simps)
next
  case (5 c j k)
  then show ?case
    using client_access_delete[of j k c] by (simp add: client_evict_def Let_def client_access_def)
next
  case (6 c k)
  then show ?case by (simp add: used_memory_eq dict_sum_delete_le)
next
  case (8 c ps m)
  show ?case by (rule client_evict_loop.simps)
qed simp

section \<open>The limit\<close>

text \<open>What a client sees of an entry at a reading of the clock.\<close>

definition client_live :: "pyfloat \<Rightarrow> redis_client \<Rightarrow> pystr \<Rightarrow> redis_entry option" where
  "client_live now c key =
     (case map_of (entries c) key of
        None \<Rightarrow> None
      | Some e \<Rightarrow> if entry_expired now e then None else Some e)"

lemma purge_expired_entries:
  assumes "wf_dict (entries c)"
  shows "entries (purge_expired now c) = filter (\<lambda>(k, e). \<not> entry_expired now e) (entries c)"
proof -
  have "entries (fold (\<lambda>(key, e) c. if entry_expired now e then snd (client_delete key c) else c) es c) =
      filter (\<lambda>(k, e). \<nexists>x. (k, x) \<in> set es \<and> entry_expired now x) (entries c)" for es c
  proof (induction es arbitrary: c)
    case (Cons p es)
    have "AList.delete k d = filter (\<lambda>(j, e). j \<noteq> k) d" for k and d :: "(pystr, redis_entry) dict"
      by (induction d) auto
    then show ?case
      using Cons.IH by (cases p) (auto simp: case_prod_unfold intro!: filter_cong)
  qed simp
  moreover have "filter (\<lambda>(k, e). \<nexists>x. (k, x) \<in> set (entries c) \<and> entry_expired now x) (entries c) =
      filter (\<lambda>(k, e). \<not> entry_expired now e) (entries c)"
  proof (rule filter_cong[OF refl], clarify)
    fix k e
    assume "(k, e) \<in> set (entries c)"
    moreover have "e' = e" if "(k, e) \<in> set (entries c)" "(k, e') \<in> set (entries c)" for e'
      using that assms by (simp add: wf_dict_map_of[OF assms, symmetric])
    ultimately show "(\<nexists>x. (k, x) \<in> set (entries c) \<and> entry_expired now x) = (\<not> entry_expired now e)"
      by blast
  qed
  ultimately show ?thesis by (simp add: purge_expired_def)
qed

lemma wf_purge_expired [simp]: "wf_dict (entries c) \<Longrightarrow> wf_dict (entries (purge_expired now c))"
  by (simp add: purge_expired_entries wf_dict_def keys_of_def distinct_map_filter)

lemma purge_expired_get:
  assumes "wf_dict (entries c)"
  shows "map_of (entries (purge_expired now c)) k = client_live now c k"
proof -
  have "map_of (filter (\<lambda>(k, e). P e) d) k = (case map_of d k of None \<Rightarrow> None | Some e \<Rightarrow> if P e then Some e else None)"
    if "wf_dict d" for P and d :: "(pystr, redis_entry) dict"
    using that by (induction d) (auto simp: wf_dict_def keys_of_def map_of_eq_None_iff split: option.splits)
  then show ?thesis using assms by (auto simp: purge_expired_entries client_live_def split: option.splits)
qed

lemma purge_expired_frame [simp]: "client_max_memory (purge_expired now c) = client_max_memory c"
proof -
  have "client_max_memory (fold (\<lambda>(key, e) c. if entry_expired now e then snd (client_delete key c) else c) es c) =
      client_max_memory c" for es c
    by (induction es arbitrary: c) (auto simp: case_prod_unfold)
  then show ?thesis by (simp add: purge_expired_def)
qed

lemma client_evict_frame [simp]: "client_max_memory (client_evict key c) = client_max_memory c"
  by (simp add: client_evict_def Let_def)

lemma client_loop_frame:
  "wf_dict (entries c) \<Longrightarrow> client_max_memory (client_evict_loop ps m c) = client_max_memory c"
  by (rule client_lru.loop_inv[where P = "\<lambda>d. client_max_memory d = client_max_memory c"]) auto

lemma client_protected_bound:
  "wf_dict (entries c) \<Longrightarrow> 0 \<le> m \<Longrightarrow> set (keys_of (entries c)) \<subseteq> set ps \<Longrightarrow>
   int (used_memory_bytes (client_evict_protected ps m c)) \<le> m"
proof (induction ps m c rule: client_evict_protected.induct)
  case (1 m c)
  then have "entries c = []" by (cases "entries c") (auto simp: keys_of_def)
  then show ?case using 1 by (simp add: used_memory_eq)
next
  case (2 key rest m c)
  show ?case
  proof (cases "int (used_memory_bytes c) \<le> m")
    case False
    obtain deleted c1 where del: "client_delete key c = (deleted, c1)" by force
    have "entries c1 = AList.delete key (entries c)" using client_delete_entries[of key c] del by simp
    then have "wf_dict (entries c1)" "set (keys_of (entries c1)) \<subseteq> set rest"
      using "2.prems" by (auto simp: dict_simps)
    then show ?thesis using 2 del False by (auto simp: used_memory_eq)
  qed simp
qed

lemma client_protected_keeps:
  "wf_dict (entries c) \<Longrightarrow> wf_dict (entries (client_evict_protected ps m c)) \<and>
     client_max_memory (client_evict_protected ps m c) = client_max_memory c"
proof (induction ps m c rule: client_evict_protected.induct)
  case (2 key rest m c)
  obtain deleted c1 where del: "client_delete key c = (deleted, c1)" by force
  have "entries c1 = AList.delete key (entries c)" "client_max_memory c1 = client_max_memory c"
    using client_delete_entries[of key c] client_delete_frame(1)[of key c] del by simp_all
  then show ?case using 2 del by auto
qed simp

text \<open>After the enforcement the bytes in use are within the limit, whatever was protected.\<close>

lemma enforce_bound:
  assumes "wf_dict (entries c)" "client_max_memory c = Some m" "0 \<le> m"
  shows "int (used_memory_bytes (enforce_max_memory now ps c)) \<le> m"
proof -
  let ?c1 = "client_evict_loop ps m (purge_expired now c)"
  have wf: "wf_dict (entries (purge_expired now c))" using assms(1) by simp
  have "int (used_memory_bytes ?c1) \<le> m \<or> set (keys_of (entries ?c1)) \<subseteq> set ps"
    by (rule client_lru.loop_bounded[OF wf])
  then show ?thesis
    using assms client_protected_bound[OF client_lru.loop_ok[OF wf], of m ps]
    by (auto simp: enforce_max_memory_def Let_def)
qed

lemma wf_enforce [simp]:
  assumes "wf_dict (entries c)"
  shows "wf_dict (entries (enforce_max_memory now ps c))"
    "client_max_memory (enforce_max_memory now ps c) = client_max_memory c"
  using assms client_protected_keeps[OF client_lru.loop_ok[OF wf_purge_expired[OF assms, of now]]]
    client_lru.loop_ok[OF wf_purge_expired[OF assms, of now]]
    client_loop_frame[OF wf_purge_expired[OF assms, of now]]
  by (auto simp: enforce_max_memory_def Let_def split: option.split)

end
