(* ===== verification/Json.thy ===== *)
theory Json
  imports PyFloat
begin

text \<open>
  The values \<open>json.loads\<close> returns, which are also those of the documents in the database, and what Python's
  \<open>int\<close>, \<open>bool\<close> and iteration make of them. An object is a dictionary: an association list, each key once.
  Also the splitting of a text at a separator.
\<close>

datatype json =
    JNull | JBool bool | JInt int | JFloat pyfloat | JText pystr | JList "json list" | JObject "(pystr \<times> json) list"

type_synonym json_object = "(pystr, json) dict"

text \<open>\<open>int(v)\<close>, \<open>bool(v)\<close> and \<open>iter(v)\<close>.\<close>

fun int_of_float :: "pyfloat \<Rightarrow> py_exc + int" where
  "int_of_float (Finite x) = Inr (if x < 0 then \<lceil>x\<rceil> else \<lfloor>x\<rfloor>)"
| "int_of_float NegZero = Inr 0"
| "int_of_float NaN = Inl ValueError"
| "int_of_float _ = Inl OverflowError"

fun json_int :: "json \<Rightarrow> py_exc + int" where
  "json_int (JInt n) = Inr n"
| "json_int (JBool b) = Inr (if b then 1 else 0)"
| "json_int (JFloat x) = int_of_float x"
| "json_int (JText t) = (case py_int t of None \<Rightarrow> Inl ValueError | Some n \<Rightarrow> Inr n)"
| "json_int _ = Inl (TypeError [])"

fun json_bool :: "json \<Rightarrow> bool" where
  "json_bool JNull = False"
| "json_bool (JBool b) = b"
| "json_bool (JInt n) = (n \<noteq> 0)"
| "json_bool (JFloat x) = (x \<noteq> Finite 0 \<and> x \<noteq> NegZero)"
| "json_bool (JText t) = (t \<noteq> [])"
| "json_bool (JList l) = (l \<noteq> [])"
| "json_bool (JObject d) = (d \<noteq> [])"

fun json_iter :: "json \<Rightarrow> py_exc + json list" where
  "json_iter (JList l) = Inr l"
| "json_iter (JText t) = Inr (map (\<lambda>c. JText [c]) t)"
| "json_iter (JObject d) = Inr (map (JText \<circ> fst) d)"
| "json_iter _ = Inl (TypeError [])"

definition json_get :: "json_object \<Rightarrow> string \<Rightarrow> json \<Rightarrow> json" where
  "json_get d key fallback = (case map_of d (lit key) of None \<Rightarrow> fallback | Some v \<Rightarrow> v)"

text \<open>\<open>text.split(c)\<close> for a separator of one character.\<close>

fun split_on :: "nat \<Rightarrow> pystr \<Rightarrow> pystr list" where
  "split_on c [] = [[]]"
| "split_on c (x # xs) =
     (if x = c then [] # split_on c xs
      else (case split_on c xs of [] \<Rightarrow> [[x]] | y # ys \<Rightarrow> (x # y) # ys))"

lemma split_on_simps:
  "c \<notin> set xs \<Longrightarrow> split_on c xs = [xs]"
  "c \<notin> set xs \<Longrightarrow> split_on c (xs @ c # ys) = xs # split_on c ys"
  by (induction xs) auto

end
