(* ===== verification/FloatText.thy ===== *)
theory FloatText
  imports PyFloat
begin

text \<open>
  \<open>repr\<close> (and \<open>str\<close>) of a float: the shortest decimal that reads back as the float, the closest one if there
  are several, with an exponent from \<open>1e16\<close> on and below \<open>1e-4\<close>.

  The search tries one digit, two digits and so on; it ends because enough digits write a float exactly.

  Main result: every float is read back from its text.
\<close>

section \<open>Shortest digits\<close>

text \<open>
  The decimals with \<open>n\<close> digits next to \<open>a\<close>, below and above: the closest one that rounds to \<open>a\<close>, as a number
  and the exponent of its last digit.
\<close>

definition digits_at :: "rat \<Rightarrow> nat \<Rightarrow> (nat \<times> int) option" where
  "digits_at a n =
     (let k = ilog10 a - int n + 1; q = a / pow10 k; lo = \<lfloor>q\<rfloor>;
          ok = (\<lambda>m. 0 < m \<and> round64 (of_int m * pow10 k) = Finite a)
      in if ok lo \<and> ok (lo + 1) then Some (nat (round_half_even q), k)
         else if ok lo then Some (nat lo, k)
         else if ok (lo + 1) then Some (nat (lo + 1), k)
         else None)"

fun shortest :: "nat \<Rightarrow> nat \<Rightarrow> rat \<Rightarrow> nat \<times> int" where
  "shortest 0 n a = (0, 0)"
| "shortest (Suc fuel) n a = (case digits_at a n of Some r \<Rightarrow> r | None \<Rightarrow> shortest fuel (Suc n) a)"

definition repr_digits :: "rat \<Rightarrow> nat \<times> int" where
  "repr_digits a = shortest (nat (ilog10 a) + 1076) 1 a"

text \<open>The digits after the point, with the point \<open>decpt\<close> places to the right.\<close>

definition layout :: "pystr \<Rightarrow> int \<Rightarrow> pystr" where
  "layout ds decpt =
     (if decpt \<le> -4 \<or> 16 < decpt
      then take 1 ds @ (if length ds = 1 then [] else 46 # drop 1 ds) @ 101 # show_exponent (decpt - 1)
      else if decpt \<le> 0 then [48] @ 46 # replicate (nat (- decpt)) 48 @ ds
      else if nat decpt < length ds then take (nat decpt) ds @ 46 # drop (nat decpt) ds
      else ds @ replicate (nat decpt - length ds) 48 @ [46, 48])"

definition repr_positive :: "rat \<Rightarrow> pystr" where
  "repr_positive a =
     (case repr_digits a of (m, k) \<Rightarrow> layout (strip_zeros (show_nat m)) (k + int (length (show_nat m))))"

fun float_repr :: "pyfloat \<Rightarrow> pystr" where
  "float_repr (Finite x) =
     (if x = 0 then lit ''0.0'' else if x < 0 then 45 # repr_positive (- x) else repr_positive x)"
| "float_repr NegZero = lit ''-0.0''"
| "float_repr PosInf = lit ''inf''"
| "float_repr NegInf = lit ''-inf''"
| "float_repr NaN = lit ''nan''"

section \<open>The digits round to the number\<close>

text \<open>The values a float can have.\<close>

definition float64 :: "pyfloat \<Rightarrow> bool" where
  "float64 x \<longleftrightarrow> (\<forall>a. x = Finite a \<longrightarrow> round64 a = Finite a)"

lemma pow10_powi: "pow10 e = 10 powi e"
  by (simp add: pow10_def power_int_def power_one_over inverse_eq_divide)

lemma pow10_pos [simp]: "0 < pow10 e" and pow10_nonzero [simp]: "pow10 e \<noteq> 0"
  by (simp_all add: pow10_def)

lemma pow10_add: "pow10 (a + b) = pow10 a * pow10 b"
  by (simp add: pow10_powi power_int_add)

lemma pow10_nat: "pow10 (int n) = 10 ^ n"
  by (simp add: pow10_def)

lemma digits_at_sound:
  assumes "digits_at a n = Some (m, k)"
  shows "0 < m \<and> round64 (of_nat m * pow10 k) = Finite a"
proof -
  let ?q = "a / pow10 k"
  have "round_half_even ?q = \<lfloor>?q\<rfloor> \<or> round_half_even ?q = \<lfloor>?q\<rfloor> + 1" by (simp add: round_half_even_def Let_def)
  then have "\<exists>i. m = nat i \<and> 0 < i \<and> round64 (of_int i * pow10 k) = Finite a"
    using assms by (auto simp: digits_at_def Let_def simp del: of_int_add split: if_splits)
  then obtain i where "m = nat i" "0 < i" "round64 (of_int i * pow10 k) = Finite a" by blast
  moreover from this(2) have "of_nat (nat i) = (of_int i :: rat)" by (simp add: of_nat_nat)
  ultimately show ?thesis by simp
qed

lemma shortest_sound: "shortest fuel n a = (m, k) \<Longrightarrow> 0 < m \<Longrightarrow> round64 (of_nat m * pow10 k) = Finite a"
  by (induction fuel n a rule: shortest.induct) (auto dest: digits_at_sound split: option.splits)

lemma pow2_pow10: "pow2 (- int n) = of_int (5 ^ n) * pow10 (- int n)"
proof -
  have "(10 :: rat) ^ n = 5 ^ n * 2 ^ n" by (simp flip: power_mult_distrib)
  then show ?thesis by (cases "n = 0") (simp_all add: pow2_def pow10_def field_simps)
qed

text \<open>A float is a multiple of \<open>2 ^ -1074\<close>, so that 1074 digits after the point are exact.\<close>

lemma float64_integral:
  assumes "round64 a = Finite a" "k \<le> - 1074"
  shows "\<exists>i. a = of_int i * pow10 k"
proof (cases "a = 0")
  case False
  let ?d = "1074 + (max (ilog2 \<bar>a\<bar>) (- 1022) - 52)"
  obtain r where r: "a = of_int r * pow2 (max (ilog2 \<bar>a\<bar>) (- 1022) - 52)"
    using assms(1) False by (auto simp: round64_def Let_def split: if_splits dest: sym)
  have "pow2 (max (ilog2 \<bar>a\<bar>) (- 1022) - 52) = pow2 ?d * pow2 (- 1074)" by (simp flip: pow2_add)
  moreover have "pow2 ?d = of_int (2 ^ nat ?d)" by (simp add: pow2_def)
  ultimately have "a = of_int (r * 2 ^ nat ?d) * pow2 (- 1074)" using r by simp
  moreover obtain j where "pow2 (- 1074) = of_int j * pow10 (- 1074)" using pow2_pow10[of 1074] by (simp only: of_nat_numeral)
  moreover have "pow10 (- 1074) = of_int (10 ^ nat (- 1074 - k)) * pow10 k"
    using assms(2) pow10_add[of "- 1074 - k" k] by (simp add: pow10_def[of "- 1074 - k"])
  ultimately have "a = of_int (r * 2 ^ nat ?d * j * 10 ^ nat (- 1074 - k)) * pow10 k" by (simp only: of_int_mult mult.assoc)
  then show ?thesis by blast
qed (auto intro!: exI[of _ 0])

lemma exact_digits:
  assumes "round64 a = Finite a" "0 < a" "ilog10 a - int n + 1 \<le> - 1074"
  shows "digits_at a n \<noteq> None"
proof -
  define k where "k = ilog10 a - int n + 1"
  obtain i where i: "a = of_int i * pow10 k" using float64_integral[OF assms(1), of k] assms(3) by (auto simp: k_def)
  then have lo: "\<lfloor>a / pow10 k\<rfloor> = i" by simp
  have "0 < i" using i assms(2) pow10_pos[of k] by (simp add: zero_less_mult_iff)
  moreover have "round64 (of_int i * pow10 k) = Finite a" using assms(1) i by simp
  ultimately show ?thesis unfolding digits_at_def k_def[symmetric] Let_def lo by simp
qed

lemma shortest_found:
  assumes "round64 a = Finite a" "0 < a" "ilog10 a - int (n + fuel) + 2 \<le> - 1074" "0 < fuel"
  shows "0 < fst (shortest fuel n a)"
  using assms(3,4)
proof (induction fuel arbitrary: n)
  case (Suc fuel)
  show ?case
  proof (cases "digits_at a n")
    case None
    then have "fuel \<noteq> 0" using exact_digits[OF assms(1,2), of n] Suc.prems(1) by (cases fuel) auto
    then show ?thesis using Suc.IH[of "Suc n"] Suc.prems(1) None by simp
  qed (use digits_at_sound in force)
qed simp

lemma repr_digits_sound:
  assumes "round64 a = Finite a" "0 < a" "repr_digits a = (m, k)"
  shows "0 < m" "round64 (of_nat m * pow10 k) = Finite a"
proof -
  have "0 < fst (shortest (nat (ilog10 a) + 1076) 1 a)" by (rule shortest_found[OF assms(1,2)]) auto
  then show "0 < m" using assms(3) by (simp add: repr_digits_def)
  then show "round64 (of_nat m * pow10 k) = Finite a" using assms(3) shortest_sound by (simp add: repr_digits_def)
qed

section \<open>Reading the text\<close>

lemma digits_value_append: "digits_value (xs @ ys) = digits_value xs * 10 ^ length ys + digits_value ys"
proof -
  have "foldl (\<lambda>a c. 10 * a + (c - 48)) m ys = m * 10 ^ length ys + digits_value ys" for m
  proof (induction ys rule: rev_induct)
    case (snoc y ys)
    have "digits_value (ys @ [y]) = 10 * digits_value ys + (y - 48)" by (simp add: digits_value_def)
    then show ?case using snoc by (simp add: algebra_simps)
  qed (simp add: digits_value_def)
  from this[of "digits_value xs"] show ?thesis by (simp add: digits_value_def)
qed

lemma digits_value_zeros [simp]: "digits_value (replicate n 48) = 0"
  by (induction n) (simp_all add: digits_value_def)

lemma digits_value_show [simp]: "digits_value (show_nat n) = n"
  by (simp add: digits_value_def foldl_show_nat)

definition digit_text :: "pystr \<Rightarrow> bool" where
  "digit_text t \<longleftrightarrow> list_all is_digit t"

lemma digit_text_simps [simp]:
  "digit_text []" "digit_text (c # t) \<longleftrightarrow> is_digit c \<and> digit_text t" "digit_text (s @ t) \<longleftrightarrow> digit_text s \<and> digit_text t"
  "digit_text (replicate n 48)" "digit_text (show_nat m)"
  "digit_text t \<Longrightarrow> digit_text (take n t)" "digit_text t \<Longrightarrow> digit_text (drop n t)"
  using show_nat_digits by (auto simp: digit_text_def list_all_iff is_digit_def dest: in_set_takeD in_set_dropD)

lemma takeWhile_digits:
  assumes "digit_text s" "t = [] \<or> \<not> is_digit (hd t)"
  shows "takeWhile is_digit (s @ t) = s" "dropWhile is_digit (s @ t) = t"
  using assms by (induction s; cases t; simp)+

lemma strip_zeros_split: "\<exists>z. ds = strip_zeros ds @ replicate z 48"
proof -
  have "rev ds = takeWhile ((=) 48) (rev ds) @ dropWhile ((=) 48) (rev ds)" by simp
  moreover have "takeWhile ((=) 48) (rev ds) = replicate (length (takeWhile ((=) 48) (rev ds))) 48"
    by (intro replicate_eqI) (auto dest: set_takeWhileD)
  ultimately have "rev ds = replicate (length (takeWhile ((=) 48) (rev ds))) 48 @ rev (strip_zeros ds)"
    by (simp add: strip_zeros_def)
  from arg_cong[OF this, of rev] show ?thesis by auto
qed

text \<open>The texts of \<open>layout\<close>: digits, a fraction, an exponent.\<close>

definition decimal_text :: "pystr \<Rightarrow> pystr \<Rightarrow> int option \<Rightarrow> pystr" where
  "decimal_text ip fp e =
     ip @ (if fp = [] then [] else 46 # fp) @ (case e of None \<Rightarrow> [] | Some n \<Rightarrow> 101 # show_exponent n)"

lemma read_show_exponent: "read_exponent (show_exponent n) = Some n"
proof -
  have "list_all is_digit (show_nat m)" "digits_value (48 # show_nat m) = m" for m
    using show_nat_digits[of _ m] by (auto simp: list_all_iff digits_value_def foldl_show_nat)
  then show ?thesis by (auto simp: show_exponent_def read_exponent_def Let_def lit_def is_digit_def)
qed

lemma read_decimal_text:
  assumes "digit_text ip" "digit_text fp" "ip \<noteq> []"
  shows "read_decimal neg (decimal_text ip fp e) =
    Some (decimal_float neg (digits_value (ip @ fp)) ((case e of None \<Rightarrow> 0 | Some n \<Rightarrow> n) - int (length fp)))"
proof -
  define ex where "ex = (case e of None \<Rightarrow> [] | Some n \<Rightarrow> 101 # show_exponent n)"
  have ex: "ex = [] \<or> \<not> is_digit (hd ex)" by (auto simp: ex_def is_digit_def split: option.splits)
  have d: "\<forall>x\<in>set ip. is_digit x" "\<forall>x\<in>set fp. is_digit x" "\<not> is_digit 46" "\<not> is_digit 101"
    using assms by (auto simp: digit_text_def list_all_iff is_digit_def)
  have w: "takeWhile is_digit ip = ip" "dropWhile is_digit ip = []" "takeWhile is_digit fp = fp" "dropWhile is_digit fp = []"
    using d by (auto simp: takeWhile_eq_all_conv)
  have x: "takeWhile is_digit ex = []" "dropWhile is_digit ex = ex" "ex = [] \<or> hd ex = 101"
    using d by (auto simp: ex_def split: option.splits)
  have "read_decimal neg (ip @ (if fp = [] then [] else 46 # fp) @ ex) =
    (case ex of [] \<Rightarrow> Some (decimal_float neg (digits_value (ip @ fp)) (- int (length fp)))
     | c # cs \<Rightarrow> if c = 101 \<or> c = 69
         then map_option (\<lambda>e. decimal_float neg (digits_value (ip @ fp)) (e - int (length fp))) (read_exponent cs) else None)"
    using d assms(3) x(3) by (cases ex; cases "fp = []") (simp_all add: read_decimal_def Let_def w x(1,2))
  then show ?thesis by (cases e) (simp_all add: decimal_text_def ex_def read_show_exponent)
qed

lemma decimal_text_chars:
  assumes "digit_text ip" "digit_text fp" "c \<in> set (decimal_text ip fp e)"
  shows "is_digit c \<or> c \<in> {46, 101, 45, 43}"
  using assms show_nat_digits
  by (auto simp: decimal_text_def show_exponent_def Let_def lit_def digit_text_def list_all_iff is_digit_def split: if_splits option.splits)

lemma numeric_chars:
  assumes "\<And>c. c \<in> set s \<Longrightarrow> is_digit c \<or> c \<in> {46, 101, 45, 43}"
  shows "numeric_text s = s" "p \<noteq> 95 \<Longrightarrow> drop_underscores p s = Some s"
proof -
  have "map numeric_char s = s" using assms by (intro map_idI) (fastforce simp: numeric_char_def is_digit_def)
  moreover have "strip_by is_ascii_space s = s"
    using assms by (intro strip_by_id) (fastforce simp: is_ascii_space_def is_digit_def)
  ultimately show "numeric_text s = s" by (simp add: numeric_text_def)
  have "95 \<notin> set s" using assms[of 95] by (auto simp: is_digit_def)
  then show "p \<noteq> 95 \<Longrightarrow> drop_underscores p s = Some s" by (induction s arbitrary: p) auto
qed

lemma py_float_decimal_text:
  assumes "digit_text ip" "digit_text fp" "ip \<noteq> []"
  shows "py_float (decimal_text ip fp e) = read_decimal False (decimal_text ip fp e)"
    and "py_float (45 # decimal_text ip fp e) = read_decimal True (decimal_text ip fp e)"
proof -
  let ?t = "decimal_text ip fp e"
  note chars = decimal_text_chars[OF assms(1,2), of _ e]
  obtain c cs where t: "?t = c # cs" and c: "is_digit c" using assms by (cases ip) (auto simp: decimal_text_def)
  have "lower_char x = [x]" if "x \<in> set ?t" for x using chars[OF that] by (auto simp: lower_char_def is_digit_def)
  then have "py_lower ?t = concat (map (\<lambda>x. [x]) ?t)" by (simp add: py_lower_def cong: map_cong)
  then have "py_lower ?t = ?t" by simp
  then have "read_unsigned neg ?t = read_decimal neg ?t" for neg
    using c t by (auto simp: read_unsigned_def lit_def is_digit_def)
  moreover have "numeric_text ?t = ?t" "numeric_text (45 # ?t) = 45 # ?t" "drop_underscores 0 ?t = Some ?t" "drop_underscores 45 ?t = Some ?t"
    using chars by (intro numeric_chars; auto)+
  ultimately show "py_float ?t = read_decimal False ?t" "py_float (45 # ?t) = read_decimal True ?t"
    using c t by (auto simp: py_float_def is_digit_def)
qed

text \<open>What a text of \<open>layout\<close> is: its parts, their value, and that they are a number of JSON.\<close>

definition float_text :: "pystr \<Rightarrow> nat \<Rightarrow> int \<Rightarrow> bool" where
  "float_text t v k \<longleftrightarrow> (\<exists>ip fp e. t = decimal_text ip fp e \<and> digit_text ip \<and> digit_text fp \<and> ip \<noteq> [] \<and>
     (ip = [48] \<or> hd ip \<noteq> 48) \<and> (fp \<noteq> [] \<or> e \<noteq> None) \<and> (digits_value (ip @ fp) = 0 \<longleftrightarrow> v = 0) \<and>
     of_nat (digits_value (ip @ fp)) * pow10 ((case e of None \<Rightarrow> 0 | Some n \<Rightarrow> n) - int (length fp)) = of_nat v * pow10 k)"

lemma float_textI:
  assumes "digit_text ip" "digit_text fp" "ip \<noteq> []" "ip = [48] \<or> hd ip \<noteq> 48" "fp \<noteq> [] \<or> e \<noteq> None"
    and "digits_value (ip @ fp) = v * 10 ^ n" "(case e of None \<Rightarrow> 0 | Some n \<Rightarrow> n) - int (length fp) = k - int n"
  shows "float_text (decimal_text ip fp e) v k"
proof -
  have "pow10 k = pow10 (k - int n) * 10 ^ n" using pow10_add[of "k - int n" "int n"] by (simp add: pow10_nat)
  then show ?thesis unfolding float_text_def using assms
    by (intro exI[of _ ip] exI[of _ fp] exI[of _ e] conjI) simp_all
qed

lemma float_text_layout:
  assumes "digit_text ds" "ds \<noteq> []" "hd ds \<noteq> 48"
  shows "float_text (layout ds d) (digits_value ds) (d - int (length ds))"
proof -
  let ?r = "float_text (layout ds d) (digits_value ds) (d - int (length ds))"
  note split = digits_value_append[of "take n ds" "drop n ds" for n, simplified]
  consider "d \<le> -4 \<or> 16 < d" | "-4 < d" "d \<le> 0" | "0 < d" "d \<le> 16" "nat d < length ds" | "0 < d" "d \<le> 16" "length ds \<le> nat d"
    by linarith
  then show ?thesis
  proof cases
    case 1
    obtain c cs where ds: "ds = c # cs" using assms(2) by (cases ds) auto
    have "layout ds d = decimal_text [c] cs (Some (d - 1))" using 1 ds by (auto simp: layout_def decimal_text_def)
    moreover have "float_text (decimal_text [c] cs (Some (d - 1))) (digits_value ds) (d - int (length ds))"
      using assms ds by (intro float_textI[where n = 0]) auto
    ultimately show ?thesis by simp
  next
    case 2
    let ?z = "replicate (nat (- d)) 48 @ ds"
    have "layout ds d = decimal_text [48] ?z None" using 2 assms(2) by (auto simp: layout_def decimal_text_def)
    moreover have "digits_value ([48] @ ?z) = digits_value ds"
      using digits_value_append[of "replicate (Suc (nat (- d))) 48" ds] digits_value_zeros[of "Suc (nat (- d))"] by simp
    then have "float_text (decimal_text [48] ?z None) (digits_value ds) (d - int (length ds))"
      using assms 2 by (intro float_textI[where n = 0]) (auto simp: is_digit_def)
    ultimately show ?thesis by simp
  next
    case 3
    have "layout ds d = decimal_text (take (nat d) ds) (drop (nat d) ds) None"
      using 3 by (auto simp: layout_def decimal_text_def)
    moreover have "float_text (decimal_text (take (nat d) ds) (drop (nat d) ds) None) (digits_value ds) (d - int (length ds))"
      using assms 3 by (intro float_textI[where n = 0]) (auto simp: hd_take)
    ultimately show ?thesis by simp
  next
    case 4
    let ?z = "ds @ replicate (nat d - length ds) 48"
    have "layout ds d = decimal_text ?z [48] None" using 4 by (auto simp: layout_def decimal_text_def)
    moreover have "digits_value (?z @ [48]) = digits_value ds * 10 ^ (nat d - length ds + 1)"
      by (simp add: digits_value_append) (simp add: digits_value_def)
    then have "float_text (decimal_text ?z [48] None) (digits_value ds) (d - int (length ds))"
      using assms 4 by (intro float_textI[where n = "nat d - length ds + 1"]) (auto simp: is_digit_def)
    ultimately show ?thesis by simp
  qed
qed

lemma hd_show_nat: "0 < n \<Longrightarrow> hd (show_nat n) \<noteq> 48"
proof (induction n rule: show_nat.induct)
  case (1 n)
  then show ?case by (cases "n < 10") (auto simp: show_nat.simps[of n] hd_append)
qed

lemma float_text_repr:
  assumes "round64 a = Finite a" "0 < a"
  shows "\<exists>v k. float_text (repr_positive a) v k \<and> 0 < v \<and> round64 (of_nat v * pow10 k) = Finite a"
proof -
  obtain m k where mk: "repr_digits a = (m, k)" by fastforce
  note m = repr_digits_sound[OF assms mk]
  let ?ds = "strip_zeros (show_nat m)"
  obtain z where z: "show_nat m = ?ds @ replicate z 48" using strip_zeros_split by blast
  have v: "m = digits_value ?ds * 10 ^ z" using arg_cong[OF z, of digits_value] by (simp add: digits_value_append)
  then have ds: "?ds \<noteq> []" using m(1) by (auto simp: digits_value_def)
  then have "hd ?ds \<noteq> 48" using hd_show_nat[OF m(1)] by (subst (asm) z) simp
  moreover have "digit_text ?ds" using digit_text_simps(5)[of m] by (subst (asm) z) simp
  ultimately have t: "float_text (repr_positive a) (digits_value ?ds) (k + int (length (show_nat m)) - int (length ?ds))"
    using float_text_layout ds by (simp add: repr_positive_def mk)
  have "k + int (length (show_nat m)) - int (length ?ds) = k + int z" using arg_cong[OF z, of length] by simp
  then have "float_text (repr_positive a) (digits_value ?ds) (k + int z)" using t by (simp only:)
  moreover have "of_nat m * pow10 k = of_nat (digits_value ?ds) * pow10 (k + int z)"
    using arg_cong[OF v, of "of_nat :: nat \<Rightarrow> rat"] by (simp add: pow10_add pow10_nat)
  then have "round64 (of_nat (digits_value ?ds) * pow10 (k + int z)) = Finite a" using m(2) by (simp only:)
  moreover have "0 < digits_value ?ds" by (rule ccontr) (use m(1) v in simp)
  ultimately show ?thesis by blast
qed

lemma float_text_read:
  assumes "float_text t v k" "0 < v"
  shows "py_float t = Some (round64 (of_nat v * pow10 k))" "py_float (45 # t) = Some (round64 (- (of_nat v * pow10 k)))"
  using assms
  by (auto simp: float_text_def py_float_decimal_text read_decimal_text decimal_float_def simp flip: minus_mult_left)

text \<open>Rounding is symmetric.\<close>

lemma round_half_even_minus: "round_half_even (- x) = - round_half_even x"
proof (cases "x = of_int \<lfloor>x\<rfloor>")
  case True
  then obtain n where "x = of_int n" by blast
  then show ?thesis using floor_of_int[of "- n", where ?'a = rat] by (simp add: round_half_even_def Let_def)
next
  case False
  define d where "d = x - of_int \<lfloor>x\<rfloor>"
  have d: "0 < d" "d < 1" using False floor_correct[of x] by (auto simp: d_def less_le)
  have "\<lfloor>- x\<rfloor> = - \<lfloor>x\<rfloor> - 1" using d by (intro floor_unique) (auto simp: d_def)
  moreover have "- x - of_int (- \<lfloor>x\<rfloor> - 1) = 1 - d" by (simp add: d_def)
  ultimately have "round_half_even (- x) = (if 1 - d < 1 / 2 then - \<lfloor>x\<rfloor> - 1 else if 1 / 2 < 1 - d then - \<lfloor>x\<rfloor>
      else if even (- \<lfloor>x\<rfloor> - 1) then - \<lfloor>x\<rfloor> - 1 else - \<lfloor>x\<rfloor>)" by (simp add: round_half_even_def Let_def)
  moreover have "round_half_even x = (if d < 1 / 2 then \<lfloor>x\<rfloor> else if 1 / 2 < d then \<lfloor>x\<rfloor> + 1 else if even \<lfloor>x\<rfloor> then \<lfloor>x\<rfloor> else \<lfloor>x\<rfloor> + 1)"
    by (simp add: round_half_even_def Let_def d_def)
  ultimately show ?thesis by auto
qed

lemma round64_minus: "a \<noteq> 0 \<Longrightarrow> round64 (- a) = fneg (round64 a)"
  by (auto simp: round64_def Let_def round_half_even_minus)

theorem float_repr_round:
  assumes "float64 x"
  shows "py_float (float_repr x) = Some x"
proof (cases x)
  case (Finite a)
  have a: "round64 a = Finite a" using assms Finite by (simp add: float64_def)
  consider "a = 0" | "0 < a" | "a < 0" by linarith
  then show ?thesis
  proof cases
    case 1
    have "py_float (lit ''0.0'') = Some (Finite 0)" by code_simp
    then show ?thesis using Finite 1 by simp
  next
    case 2
    from float_text_repr[OF a this] show ?thesis using Finite 2 float_text_read(1) by auto
  next
    case 3
    then have "round64 (- a) = Finite (- a)" using round64_minus[of a] a by simp
    then obtain v k where t: "float_text (repr_positive (- a)) v k" "0 < v" "round64 (of_nat v * pow10 k) = Finite (- a)"
      using float_text_repr[of "- a"] 3 by auto
    moreover have "round64 (- (of_nat v * pow10 k)) = Finite a" using round64_minus[of "of_nat v * pow10 k"] t(2,3) 3 by simp
    ultimately show ?thesis using float_text_read(2)[OF t(1,2)] Finite 3 by simp
  qed
next
  case NegZero
  have "py_float (lit ''-0.0'') = Some NegZero" by code_simp
  then show ?thesis using NegZero by simp
next
  case PosInf
  have "py_float (lit ''inf'') = Some PosInf" by code_simp
  then show ?thesis using PosInf by simp
next
  case NegInf
  have "py_float (lit ''-inf'') = Some NegInf" by code_simp
  then show ?thesis using NegInf by simp
next
  case NaN
  have "py_float (lit ''nan'') = Some NaN" by code_simp
  then show ?thesis using NaN by simp
qed

end
