(* ===== verification/JsonText.thy ===== *)
theory JsonText
  imports Json FloatText
begin

text \<open>
  \<open>json.dumps\<close> and \<open>json.loads\<close>. Writing is in ASCII (the default), on one line or with an indentation; reading
  is what the decoder of the standard library accepts, \<open>NaN\<close> and \<open>Infinity\<close> included, with the last value of a
  repeated key. \<open>loads\<close> has the depth of the interpreter stack left to it as an argument and raises
  \<open>RecursionError\<close> for values that are nested deeper; \<open>JSONDecodeError\<close> is \<open>ValueError\<close> here.

  Main result: a value is read back from its text, in either style.
\<close>

section \<open>Writing\<close>

text \<open>
  A text in ASCII, with the short escapes, a \<open>u\<close> escape with four hexadecimal digits for every other character
  outside the printable range, a surrogate pair beyond the basic plane.
\<close>

definition hex_digit :: "nat \<Rightarrow> nat" where
  "hex_digit d = (if d < 10 then 48 + d else 87 + d)"

definition json_u :: "nat \<Rightarrow> pystr" where
  "json_u n = [92, 117, hex_digit (n div 4096 mod 16), hex_digit (n div 256 mod 16),
               hex_digit (n div 16 mod 16), hex_digit (n mod 16)]"

definition json_char :: "nat \<Rightarrow> pystr" where
  "json_char c =
     (if c = 34 then [92, 34] else if c = 92 then [92, 92]
      else if c = 10 then [92, 110] else if c = 13 then [92, 114] else if c = 9 then [92, 116]
      else if c = 12 then [92, 102] else if c = 8 then [92, 98]
      else if 32 \<le> c \<and> c \<le> 126 then [c]
      else if c < 65536 then json_u c
      else json_u (0xD800 + (c - 65536) div 1024) @ json_u (0xDC00 + (c - 65536) mod 1024))"

definition json_string :: "pystr \<Rightarrow> pystr" where
  "json_string s = [34] @ concat (map json_char s) @ [34]"

fun json_number :: "pyfloat \<Rightarrow> pystr" where
  "json_number NaN = lit ''NaN''"
| "json_number PosInf = lit ''Infinity''"
| "json_number NegInf = lit ''-Infinity''"
| "json_number x = float_repr x"

text \<open>The white space after an opening and before a closing bracket, and the one after a comma.\<close>

record json_style =
  pad :: "nat \<Rightarrow> pystr"
  gap :: "nat \<Rightarrow> pystr"

definition one_line :: json_style where
  "one_line = \<lparr>pad = (\<lambda>_. []), gap = (\<lambda>_. [32])\<rparr>"

definition indented :: json_style where
  "indented = \<lparr>pad = (\<lambda>level. 10 # replicate (2 * level) 32), gap = (\<lambda>level. 10 # replicate (2 * level) 32)\<rparr>"

fun dumps_at :: "json_style \<Rightarrow> nat \<Rightarrow> json \<Rightarrow> pystr"
  and dumps_items :: "json_style \<Rightarrow> nat \<Rightarrow> json list \<Rightarrow> pystr"
  and dumps_members :: "json_style \<Rightarrow> nat \<Rightarrow> (pystr \<times> json) list \<Rightarrow> pystr" where
  "dumps_at st level JNull = lit ''null''"
| "dumps_at st level (JBool b) = (if b then lit ''true'' else lit ''false'')"
| "dumps_at st level (JInt n) = show_int n"
| "dumps_at st level (JFloat x) = json_number x"
| "dumps_at st level (JText t) = json_string t"
| "dumps_at st level (JList vs) =
     (if vs = [] then lit ''[]'' else [91] @ pad st (level + 1) @ dumps_items st (level + 1) vs @ pad st level @ [93])"
| "dumps_at st level (JObject ms) =
     (if ms = [] then lit ''{}'' else [123] @ pad st (level + 1) @ dumps_members st (level + 1) ms @ pad st level @ [125])"
| "dumps_items st level [] = []"
| "dumps_items st level (v # vs) =
     dumps_at st level v @ (if vs = [] then [] else [44] @ gap st level @ dumps_items st level vs)"
| "dumps_members st level [] = []"
| "dumps_members st level ((k, v) # ms) =
     json_string k @ lit '': '' @ dumps_at st level v @ (if ms = [] then [] else [44] @ gap st level @ dumps_members st level ms)"

definition dumps :: "json \<Rightarrow> pystr" where
  "dumps v = dumps_at one_line 0 v"

definition dumps_indent :: "json \<Rightarrow> pystr" where
  "dumps_indent v = dumps_at indented 0 v"

section \<open>Reading\<close>

definition json_space :: "nat \<Rightarrow> bool" where
  "json_space c \<longleftrightarrow> c = 32 \<or> c = 9 \<or> c = 10 \<or> c = 13"

definition skip_space :: "pystr \<Rightarrow> pystr" where
  "skip_space s = dropWhile json_space s"

definition hex_value :: "nat \<Rightarrow> nat option" where
  "hex_value c =
     (if 48 \<le> c \<and> c \<le> 57 then Some (c - 48)
      else if 97 \<le> c \<and> c \<le> 102 then Some (c - 87)
      else if 65 \<le> c \<and> c \<le> 70 then Some (c - 55) else None)"

fun read_hex4 :: "pystr \<Rightarrow> (nat \<times> pystr) option" where
  "read_hex4 (a # b # c # d # rest) =
     (case (hex_value a, hex_value b, hex_value c, hex_value d) of
        (Some p, Some q, Some r, Some s) \<Rightarrow> Some (4096 * p + 256 * q + 16 * r + s, rest)
      | _ \<Rightarrow> None)"
| "read_hex4 _ = None"

text \<open>Behind \<open>u\<close>: four digits, and the second half when they are the first half of a pair.\<close>

definition read_u :: "pystr \<Rightarrow> (nat \<times> pystr) option" where
  "read_u s =
     (case read_hex4 s of
        None \<Rightarrow> None
      | Some (u, rest) \<Rightarrow>
          if 0xD800 \<le> u \<and> u \<le> 0xDBFF \<and> take 2 rest = [92, 117]
          then (case read_hex4 (drop 2 rest) of
                  None \<Rightarrow> None
                | Some (u2, rest2) \<Rightarrow>
                    if 0xDC00 \<le> u2 \<and> u2 \<le> 0xDFFF
                    then Some (65536 + (u - 0xD800) * 1024 + (u2 - 0xDC00), rest2) else Some (u, rest))
          else Some (u, rest))"

definition short_escape :: "nat \<Rightarrow> nat option" where
  "short_escape c = map_of [(34, 34), (92, 92), (47, 47), (98, 8), (102, 12), (110, 10), (114, 13), (116, 9)] c"

lemma read_hex4_length: "read_hex4 s = Some (u, rest) \<Longrightarrow> length rest < length s"
  by (induction s rule: read_hex4.induct) (auto split: option.splits)

lemma read_u_length: "read_u s = Some (u, rest) \<Longrightarrow> length rest < length s"
  by (auto simp: read_u_def dest!: read_hex4_length split: option.splits if_splits)

text \<open>Behind the opening quote: the text and what follows the closing quote. Control characters are refused.\<close>

function read_string :: "pystr \<Rightarrow> (pystr \<times> pystr) option" where
  "read_string [] = None"
| "read_string (c # cs) =
     (if c = 34 then Some ([], cs)
      else if c < 32 then None
      else if c \<noteq> 92 then map_option (map_prod ((#) c) id) (read_string cs)
      else (case cs of
              [] \<Rightarrow> None
            | d # ds \<Rightarrow>
                if d = 117
                then (case read_u ds of
                        None \<Rightarrow> None
                      | Some (u, rest) \<Rightarrow> map_option (map_prod ((#) u) id) (read_string rest))
                else (case short_escape d of
                        None \<Rightarrow> None
                      | Some x \<Rightarrow> map_option (map_prod ((#) x) id) (read_string ds))))"
  by pat_completeness auto
termination
  by (relation "measure length") (auto dest: read_u_length)

text \<open>
  The longest \<open>-?(0|[1-9][0-9]*)\<close>, then \<open>\.[0-9]+\<close> and \<open>[eE][-+]?[0-9]+\<close> when they follow: the integer, the
  fraction, the exponent and the rest.
\<close>

definition scan_fraction :: "pystr \<Rightarrow> pystr \<times> pystr" where
  "scan_fraction s =
     (case s of
        c # cs \<Rightarrow> if c = 46 \<and> takeWhile is_digit cs \<noteq> [] then (c # takeWhile is_digit cs, dropWhile is_digit cs) else ([], s)
      | [] \<Rightarrow> ([], s))"

definition scan_exponent :: "pystr \<Rightarrow> pystr \<times> pystr" where
  "scan_exponent s =
     (case s of
        c # cs \<Rightarrow>
          let sign = (if cs \<noteq> [] \<and> (hd cs = 43 \<or> hd cs = 45) then [hd cs] else []); ds = drop (length sign) cs
          in if (c = 101 \<or> c = 69) \<and> takeWhile is_digit ds \<noteq> []
             then (c # sign @ takeWhile is_digit ds, dropWhile is_digit ds) else ([], s)
      | [] \<Rightarrow> ([], s))"

definition scan_integer :: "pystr \<Rightarrow> (pystr \<times> pystr) option" where
  "scan_integer s =
     (let sign = (if s \<noteq> [] \<and> hd s = 45 then [45] else []); t = drop (length sign) s
      in if t = [] \<or> \<not> is_digit (hd t) then None
         else if hd t = 48 then Some (sign @ [48], tl t)
         else Some (sign @ takeWhile is_digit t, dropWhile is_digit t))"

definition read_number :: "pystr \<Rightarrow> (json \<times> pystr) option" where
  "read_number s =
     (case scan_integer s of
        None \<Rightarrow> None
      | Some (ip, r1) \<Rightarrow>
          (case scan_fraction r1 of (fp, r2) \<Rightarrow>
             (case scan_exponent r2 of (e, r3) \<Rightarrow>
                if fp = [] \<and> e = [] then map_option (\<lambda>n. (JInt n, r3)) (py_int ip)
                else map_option (\<lambda>x. (JFloat x, r3)) (py_float (ip @ fp @ e)))))"

definition literals :: "(pystr \<times> json) list" where
  "literals =
     [(lit ''null'', JNull), (lit ''true'', JBool True), (lit ''false'', JBool False), (lit ''NaN'', JFloat NaN),
      (lit ''Infinity'', JFloat PosInf), (lit ''-Infinity'', JFloat NegInf)]"

text \<open>A value that is not nested: a number, or one of the literals.\<close>

definition read_plain :: "pystr \<Rightarrow> py_exc + json \<times> pystr" where
  "read_plain s =
     (case read_number s of
        Some r \<Rightarrow> Inr r
      | None \<Rightarrow>
          (case List.find (\<lambda>(t, v). take (length t) s = t) literals of
             Some (t, v) \<Rightarrow> Inr (v, drop (length t) s)
           | None \<Rightarrow> Inl ValueError))"

text \<open>
  The number of items and members in front of a text is bounded by its length \<open>n\<close>, for each has a character
  at least; \<open>depth\<close> is the stack.
\<close>

function read_value :: "nat \<Rightarrow> pystr \<Rightarrow> py_exc + json \<times> pystr"
  and read_array :: "nat \<Rightarrow> nat \<Rightarrow> pystr \<Rightarrow> py_exc + json list \<times> pystr"
  and read_object :: "nat \<Rightarrow> nat \<Rightarrow> json_object \<Rightarrow> pystr \<Rightarrow> py_exc + json_object \<times> pystr" where
  "read_value depth s =
     (case s of
        [] \<Rightarrow> Inl ValueError
      | c # cs \<Rightarrow>
          if c = 34 then (case read_string cs of None \<Rightarrow> Inl ValueError | Some (t, rest) \<Rightarrow> Inr (JText t, rest))
          else if c = 91 then
            (case depth of
               0 \<Rightarrow> Inl RecursionError
             | Suc d \<Rightarrow>
                 (let r = skip_space cs
                  in if r \<noteq> [] \<and> hd r = 93 then Inr (JList [], tl r)
                     else rbind (read_array d (length r) r) (\<lambda>(vs, rest). Inr (JList vs, rest))))
          else if c = 123 then
            (case depth of
               0 \<Rightarrow> Inl RecursionError
             | Suc d \<Rightarrow>
                 (let r = skip_space cs
                  in if r \<noteq> [] \<and> hd r = 125 then Inr (JObject [], tl r)
                     else rbind (read_object d (length r) [] r) (\<lambda>(ms, rest). Inr (JObject ms, rest))))
          else read_plain s)"
| "read_array depth 0 s = Inl ValueError"
| "read_array depth (Suc n) s =
     rbind (read_value depth s) (\<lambda>(v, r).
       case skip_space r of
         [] \<Rightarrow> Inl ValueError
       | c # cs \<Rightarrow>
           if c = 44 then rbind (read_array depth n (skip_space cs)) (\<lambda>(vs, rest). Inr (v # vs, rest))
           else if c = 93 then Inr ([v], cs) else Inl ValueError)"
| "read_object depth 0 acc s = Inl ValueError"
| "read_object depth (Suc n) acc s =
     (case s of
        [] \<Rightarrow> Inl ValueError
      | q # qs \<Rightarrow>
          if q \<noteq> 34 then Inl ValueError
          else (case read_string qs of
                  None \<Rightarrow> Inl ValueError
                | Some (key, r) \<Rightarrow>
                    (case skip_space r of
                       [] \<Rightarrow> Inl ValueError
                     | c # cs \<Rightarrow>
                         if c \<noteq> 58 then Inl ValueError
                         else rbind (read_value depth (skip_space cs)) (\<lambda>(v, r).
                           case skip_space r of
                             [] \<Rightarrow> Inl ValueError
                           | c # cs \<Rightarrow>
                               if c = 44 then read_object depth n (AList.update key v acc) (skip_space cs)
                               else if c = 125 then Inr (AList.update key v acc, cs) else Inl ValueError))))"
  by pat_completeness auto
termination
  by (relation "measures [case_sum (\<lambda>(d, s). d) (case_sum (\<lambda>(d, n, s). d) (\<lambda>(d, n, acc, s). d)),
      case_sum (\<lambda>_. 0) (case_sum (\<lambda>(d, n, s). Suc n) (\<lambda>(d, n, acc, s). Suc n))]") auto

text \<open>\<open>json.loads(text)\<close>; a text that starts with a byte order mark is refused.\<close>

definition json_loads :: "nat \<Rightarrow> pystr \<Rightarrow> py_exc + json" where
  "json_loads depth s =
     (if s \<noteq> [] \<and> hd s = 0xFEFF then Inl ValueError
      else rbind (read_value depth (skip_space s)) (\<lambda>(v, rest). if skip_space rest = [] then Inr v else Inl ValueError))"

section \<open>Texts are read back\<close>

text \<open>A text that can be encoded: code points of Unicode, without the halves of pairs.\<close>

definition json_text :: "pystr \<Rightarrow> bool" where
  "json_text t \<longleftrightarrow> list_all (\<lambda>c. c < 0x110000 \<and> \<not> (0xD800 \<le> c \<and> c \<le> 0xDFFF)) t"

lemma hex_round: "d < 16 \<Longrightarrow> hex_value (hex_digit d) = Some d"
  by (simp add: hex_value_def hex_digit_def)

lemma read_hex4_u: "n < 65536 \<Longrightarrow> read_hex4 (drop 2 (json_u n) @ rest) = Some (n, rest)"
proof -
  assume "n < 65536"
  then have "n div 4096 < 16" by (simp add: less_mult_imp_div_less)
  moreover have "4096 * (n div 4096) + 256 * (n div 256 mod 16) + 16 * (n div 16 mod 16) + n mod 16 = n"
  proof -
    have "n div 16 div 16 = n div 256" "n div 256 div 16 = n div 4096" by (simp_all add: div_mult2_eq[symmetric])
    then show ?thesis using div_mult_mod_eq[of n 16] div_mult_mod_eq[of "n div 16" 16] div_mult_mod_eq[of "n div 256" 16] by linarith
  qed
  ultimately show ?thesis by (simp add: json_u_def hex_round)
qed

lemma json_u_front: "json_u n = 92 # 117 # drop 2 (json_u n)"
  by (simp add: json_u_def)

lemma read_u_plain:
  assumes "n < 65536" "\<not> (0xD800 \<le> n \<and> n \<le> 0xDBFF)"
  shows "read_u (drop 2 (json_u n) @ rest) = Some (n, rest)"
  using assms by (auto simp: read_u_def read_hex4_u)

lemma read_u_pair:
  assumes "h < 1024" "l < 1024"
  shows "read_u (drop 2 (json_u (0xD800 + h)) @ json_u (0xDC00 + l) @ rest) = Some (65536 + h * 1024 + l, rest)"
proof -
  define t where "t = drop 2 (json_u (0xDC00 + l))"
  have l: "json_u (0xDC00 + l) @ rest = 92 # 117 # t @ rest" using json_u_front[of "0xDC00 + l"] by (simp add: t_def)
  have "read_hex4 (t @ rest) = Some (0xDC00 + l, rest)" unfolding t_def using assms by (intro read_hex4_u) simp
  moreover have "read_hex4 (drop 2 (json_u (0xD800 + h)) @ 92 # 117 # t @ rest) = Some (0xD800 + h, 92 # 117 # t @ rest)"
    using assms by (intro read_hex4_u) simp
  ultimately show ?thesis unfolding l using assms by (simp add: read_u_def)
qed

lemma read_string_char:
  assumes "c < 0x110000" "\<not> (0xD800 \<le> c \<and> c \<le> 0xDFFF)"
  shows "read_string (json_char c @ rest) = map_option (map_prod ((#) c) id) (read_string rest)"
proof -
  consider "c \<in> {34, 92, 10, 13, 9, 12, 8}" | "32 \<le> c" "c \<le> 126" "c \<noteq> 34" "c \<noteq> 92"
    | "c < 65536" "c \<notin> {34, 92, 10, 13, 9, 12, 8}" "\<not> (32 \<le> c \<and> c \<le> 126)" | "65536 \<le> c" by fastforce
  then show ?thesis
  proof cases
    case 1
    then show ?thesis by (auto simp: json_char_def short_escape_def)
  next
    case 3
    then have "json_char c @ rest = 92 # 117 # drop 2 (json_u c) @ rest" by (auto simp: json_char_def json_u_def)
    then show ?thesis using 3 assms read_u_plain[of c rest] by auto
  next
    case 4
    then have "json_char c @ rest = 92 # 117 # drop 2 (json_u (0xD800 + (c - 65536) div 1024)) @ json_u (0xDC00 + (c - 65536) mod 1024) @ rest"
      by (auto simp: json_char_def json_u_def)
    moreover have "(c - 65536) div 1024 < 1024" using assms(1) by (simp add: less_mult_imp_div_less)
    then have "read_u (drop 2 (json_u (0xD800 + (c - 65536) div 1024)) @ json_u (0xDC00 + (c - 65536) mod 1024) @ rest) = Some (c, rest)"
      using read_u_pair[of "(c - 65536) div 1024" "(c - 65536) mod 1024" rest] 4 by (simp add: add.assoc)
    ultimately show ?thesis by simp
  qed (auto simp: json_char_def)
qed

lemma read_json_string: "json_text t \<Longrightarrow> read_string (tl (json_string t) @ rest) = Some (t, rest)"
proof (induction t)
  case (Cons c t)
  have "tl (json_string (c # t)) @ rest = json_char c @ tl (json_string t) @ rest" by (simp add: json_string_def)
  moreover have "read_string (json_char c @ tl (json_string t) @ rest) = Some (c # t, rest)"
    using Cons by (simp add: read_string_char json_text_def)
  ultimately show ?case by simp
qed (simp add: json_string_def)

section \<open>Numbers are read back\<close>

definition number_end :: "pystr \<Rightarrow> bool" where
  "number_end s \<longleftrightarrow> s = [] \<or> (\<not> is_digit (hd s) \<and> hd s \<notin> {46, 69, 101})"

lemma scan_integer_text:
  assumes "digit_text ip" "ip \<noteq> []" "ip = [48] \<or> hd ip \<noteq> 48" "rest = [] \<or> \<not> is_digit (hd rest)"
  shows "scan_integer (ip @ rest) = Some (ip, rest)" "scan_integer (45 # ip @ rest) = Some (45 # ip, rest)"
proof -
  obtain c cs where ip: "ip = c # cs" and c: "is_digit c" "c \<noteq> 45" using assms(1,2) by (cases ip) (auto simp: is_digit_def)
  note w = takeWhile_digits[OF assms(1,4), unfolded ip]
  show "scan_integer (ip @ rest) = Some (ip, rest)" "scan_integer (45 # ip @ rest) = Some (45 # ip, rest)"
    using assms(3) c w by (auto simp: scan_integer_def Let_def ip)
qed

lemma scan_fraction_text:
  "digit_text fp \<Longrightarrow> fp \<noteq> [] \<Longrightarrow> rest = [] \<or> \<not> is_digit (hd rest) \<Longrightarrow> scan_fraction (46 # fp @ rest) = (46 # fp, rest)"
  "rest = [] \<or> hd rest \<noteq> 46 \<Longrightarrow> scan_fraction rest = ([], rest)"
  using takeWhile_digits[of fp rest] by (auto simp: scan_fraction_def split: list.splits)

lemma scan_exponent_text:
  "rest = [] \<or> \<not> is_digit (hd rest) \<Longrightarrow> scan_exponent (101 # show_exponent n @ rest) = (101 # show_exponent n, rest)"
  "rest = [] \<or> hd rest \<notin> {69, 101} \<Longrightarrow> scan_exponent rest = ([], rest)"
proof -
  assume rest: "rest = [] \<or> \<not> is_digit (hd rest)"
  obtain sg ds where n: "show_exponent n = sg # ds" "sg = 43 \<or> sg = 45" "digit_text ds" "ds \<noteq> []"
  proof
    show "show_exponent n = (if n < 0 then 45 else 43) #
      ((if length (show_nat (nat \<bar>n\<bar>)) < 2 then lit ''0'' else []) @ show_nat (nat \<bar>n\<bar>))"
      by (simp add: show_exponent_def Let_def lit_def)
  qed (auto simp: lit_def is_digit_def)
  show "scan_exponent (101 # show_exponent n @ rest) = (101 # show_exponent n, rest)"
    using n takeWhile_digits[OF n(3) rest] by (auto simp: scan_exponent_def Let_def)
qed (auto simp: scan_exponent_def Let_def split: list.splits)

lemma read_number_int:
  assumes "number_end rest"
  shows "read_number (show_int n @ rest) = Some (JInt n, rest)"
proof -
  have "m = 0 \<Longrightarrow> show_nat m = [48]" for m by (simp add: show_nat.simps)
  then have "show_nat m = [48] \<or> hd (show_nat m) \<noteq> 48" for m using hd_show_nat[of m] by (cases "m = 0") auto
  then have "scan_integer (show_int n @ rest) = Some (show_int n, rest)"
    using scan_integer_text[of "show_nat (nat \<bar>n\<bar>)" rest] assms by (auto simp: show_int_def number_end_def)
  moreover have "scan_fraction rest = ([], rest)" "scan_exponent rest = ([], rest)"
    using scan_fraction_text(2)[of rest] scan_exponent_text(2)[of rest] assms by (auto simp: number_end_def)
  ultimately show ?thesis by (simp add: read_number_def)
qed

lemma read_number_float:
  assumes "float_text t v k" "number_end rest" "py_float (sg @ t) = Some x" "sg = [] \<or> sg = [45]"
  shows "read_number (sg @ t @ rest) = Some (JFloat x, rest)"
proof -
  obtain ip fp e where t: "t = decimal_text ip fp e" "digit_text ip" "digit_text fp" "ip \<noteq> []" "ip = [48] \<or> hd ip \<noteq> 48" "fp \<noteq> [] \<or> e \<noteq> None"
    using assms(1) by (auto simp: float_text_def)
  define ft where "ft = (if fp = [] then [] else 46 # fp)"
  define et where "et = (case e of None \<Rightarrow> [] | Some n \<Rightarrow> 101 # show_exponent n)"
  have d: "\<not> is_digit 46" "\<not> is_digit 101" by (simp_all add: is_digit_def)
  have e_end: "et @ rest = [] \<or> \<not> is_digit (hd (et @ rest)) \<and> hd (et @ rest) \<noteq> 46"
    using assms(2) d by (auto simp: et_def number_end_def split: option.splits)
  have "ft @ et @ rest = [] \<or> \<not> is_digit (hd (ft @ et @ rest))" using e_end d by (auto simp: ft_def)
  then have "scan_integer (sg @ ip @ ft @ et @ rest) = Some (sg @ ip, ft @ et @ rest)"
    using scan_integer_text[OF t(2,4,5), of "ft @ et @ rest"] assms(4) by auto
  moreover have "scan_fraction (ft @ et @ rest) = (ft, et @ rest)"
    using scan_fraction_text(1)[OF t(3), of "et @ rest"] scan_fraction_text(2)[of "et @ rest"] e_end by (auto simp: ft_def)
  moreover have "scan_exponent (et @ rest) = (et, rest)"
    using scan_exponent_text[of rest] assms(2) by (auto simp: et_def number_end_def split: option.splits)
  moreover have "ft \<noteq> [] \<or> et \<noteq> []" using t(6) by (auto simp: ft_def et_def)
  moreover have "t = ip @ ft @ et" by (simp add: t(1) decimal_text_def ft_def et_def)
  ultimately show ?thesis using assms(3) by (simp add: read_number_def)
qed

lemma read_plain_float:
  assumes "float64 x" "number_end rest"
  shows "read_plain (json_number x @ rest) = Inr (JFloat x, rest)"
proof -
  have zero: "float_text (lit ''0.0'') 0 0" unfolding float_text_def
    by (rule exI[of _ "[48]"], rule exI[of _ "[48]"], rule exI[of _ None]) (simp add: decimal_text_def digits_value_def is_digit_def lit_def)
  have number: "read_plain s = Inr r" if "read_number s = Some r" for s r using that by (simp add: read_plain_def)
  show ?thesis
  proof (cases x)
    case (Finite a)
    then have a: "round64 a = Finite a" "py_float (float_repr x) = Some x"
      using assms(1) float_repr_round[OF assms(1)] by (simp_all add: float64_def)
    consider "a = 0" | "0 < a" | "a < 0" by linarith
    then show ?thesis
    proof cases
      case 1
      then show ?thesis using number read_number_float[OF zero assms(2), of "[]" x] a(2) Finite by simp
    next
      case 2
      then show ?thesis using number read_number_float[OF _ assms(2), of "repr_positive a" _ _ "[]" x] float_text_repr[OF a(1)] a(2) Finite by auto
    next
      case 3
      then have "round64 (- a) = Finite (- a)" using round64_minus[of a] a(1) by simp
      then show ?thesis
        using number read_number_float[OF _ assms(2), of "repr_positive (- a)" _ _ "[45]" x] float_text_repr[of "- a"] a(2) Finite 3 by auto
    qed
  next
    case NegZero
    moreover have "py_float (lit ''-0.0'') = Some NegZero" "lit ''-0.0'' = 45 # lit ''0.0''" by code_simp+
    ultimately show ?thesis using number read_number_float[OF zero assms(2), of "[45]" NegZero] by simp
  qed (simp_all add: read_plain_def read_number_def scan_integer_def literals_def lit_def is_digit_def)
qed

lemma read_plain_int: "number_end rest \<Longrightarrow> read_plain (show_int n @ rest) = Inr (JInt n, rest)"
  by (simp add: read_plain_def read_number_int)

lemma read_plain_literal:
  "read_plain (lit ''null'' @ rest) = Inr (JNull, rest)" "read_plain (lit ''true'' @ rest) = Inr (JBool True, rest)"
  "read_plain (lit ''false'' @ rest) = Inr (JBool False, rest)"
  by (simp_all add: read_plain_def read_number_def scan_integer_def literals_def lit_def is_digit_def)

section \<open>Values are read back\<close>

text \<open>The values that are read back: texts that can be encoded, floats of 64 bits, dictionaries without repeated keys.\<close>

fun wf_json :: "json \<Rightarrow> bool" and wf_items :: "json list \<Rightarrow> bool" and wf_members :: "(pystr \<times> json) list \<Rightarrow> bool" where
  "wf_json (JFloat x) = float64 x"
| "wf_json (JText t) = json_text t"
| "wf_json (JList vs) = wf_items vs"
| "wf_json (JObject ms) = (distinct (map fst ms) \<and> wf_members ms)"
| "wf_json _ = True"
| "wf_items [] = True"
| "wf_items (v # vs) = (wf_json v \<and> wf_items vs)"
| "wf_members [] = True"
| "wf_members ((k, v) # ms) = (json_text k \<and> wf_json v \<and> wf_members ms)"

fun json_depth :: "json \<Rightarrow> nat" and items_depth :: "json list \<Rightarrow> nat" and members_depth :: "(pystr \<times> json) list \<Rightarrow> nat" where
  "json_depth (JList vs) = Suc (items_depth vs)"
| "json_depth (JObject ms) = Suc (members_depth ms)"
| "json_depth _ = 0"
| "items_depth [] = 0"
| "items_depth (v # vs) = max (json_depth v) (items_depth vs)"
| "members_depth [] = 0"
| "members_depth ((k, v) # ms) = max (json_depth v) (members_depth ms)"

definition blank :: "pystr \<Rightarrow> bool" where
  "blank t \<longleftrightarrow> list_all json_space t"

definition spaced :: "json_style \<Rightarrow> bool" where
  "spaced st \<longleftrightarrow> (\<forall>n. blank (pad st n) \<and> blank (gap st n))"

lemma spaced_styles: "spaced one_line" "spaced indented"
  by (auto simp: spaced_def one_line_def indented_def blank_def json_space_def list_all_iff)

lemma skip_blank: "blank t \<Longrightarrow> skip_space (t @ s) = skip_space s"
  by (auto simp: skip_space_def blank_def list_all_iff)

lemma skip_none: "s = [] \<or> \<not> json_space (hd s) \<Longrightarrow> skip_space s = s"
  by (cases s) (auto simp: skip_space_def)

text \<open>The first character of a value is no white space, closes nothing and is no byte order mark.\<close>

definition starts :: "pystr \<Rightarrow> bool" where
  "starts t \<longleftrightarrow> t \<noteq> [] \<and> \<not> json_space (hd t) \<and> hd t \<notin> {93, 125, 0xFEFF}"

text \<open>Numbers start with a digit, a sign or the letter of a literal.\<close>

definition number_start :: "pystr \<Rightarrow> bool" where
  "number_start t \<longleftrightarrow> t \<noteq> [] \<and> (is_digit (hd t) \<or> hd t \<in> {45, 73, 78})"

lemma number_start_digits: "digit_text t \<Longrightarrow> t \<noteq> [] \<Longrightarrow> number_start (t @ s)"
  by (cases t) (auto simp: number_start_def)

lemma number_start_int: "number_start (show_int n)"
  using number_start_digits[of "show_nat (nat n)" "[]"] by (auto simp: show_int_def number_start_def)

lemma number_start_float:
  assumes "float64 x"
  shows "number_start (json_number x)"
proof (cases x)
  case (Finite a)
  then have a: "round64 a = Finite a" using assms by (simp add: float64_def)
  have pos: "number_start (repr_positive b)" if b: "round64 b = Finite b" "0 < b" for b
  proof -
    obtain ip s where "repr_positive b = ip @ s" "digit_text ip" "ip \<noteq> []"
      using float_text_repr[OF b] by (auto simp: float_text_def decimal_text_def)
    then show ?thesis using number_start_digits by simp
  qed
  then show ?thesis using Finite a by (auto simp: number_start_def lit_def is_digit_def)
qed (auto simp: number_start_def lit_def)

lemma starts_dumps: "wf_json v \<Longrightarrow> starts (dumps_at st level v)"
proof -
  have "starts t" if "number_start t" for t using that by (auto simp: number_start_def starts_def is_digit_def json_space_def)
  then show "wf_json v \<Longrightarrow> ?thesis"
    using number_start_int number_start_float by (cases v) (auto simp: starts_def json_space_def lit_def json_string_def)
qed

lemma starts_append: "starts t \<Longrightarrow> starts (t @ s)"
  by (cases t) (auto simp: starts_def)

lemma starts_items: "wf_items vs \<Longrightarrow> vs \<noteq> [] \<Longrightarrow> starts (dumps_items st level vs)"
  by (cases vs) (auto simp: starts_dumps intro: starts_append)

lemma starts_members: "ms \<noteq> [] \<Longrightarrow> starts (dumps_members st level ms)"
  by (cases ms) (auto simp: starts_def json_string_def json_space_def)

lemma items_length: "wf_items vs \<Longrightarrow> length vs \<le> length (dumps_items st level vs)"
proof (induction vs)
  case (Cons v vs)
  then show ?case using starts_dumps[of v st level] by (cases "dumps_at st level v") (auto simp: starts_def)
qed simp

lemma members_length: "length ms \<le> length (dumps_members st level ms)"
  by (induction ms) (auto simp: json_string_def)

lemma skip_starts: "blank t \<Longrightarrow> starts s \<Longrightarrow> skip_space (t @ s) = s"
  by (simp add: skip_blank skip_none starts_def)

lemma skip_close: "blank t \<Longrightarrow> c \<in> {44, 58, 93, 125} \<Longrightarrow> skip_space (t @ c # s) = c # s"
  by (auto simp: skip_blank skip_none json_space_def)

lemma blank_end: "blank t \<Longrightarrow> c \<in> {44, 93, 125} \<Longrightarrow> number_end (t @ c # s)"
  by (cases t) (auto simp: number_end_def blank_def json_space_def is_digit_def)

lemma read_value_plain:
  assumes "read_plain s = Inr r" "s \<noteq> []" "hd s \<notin> {34, 91, 123}"
  shows "read_value depth s = Inr r"
  using assms by (cases s) auto

lemma read_value_number:
  assumes "read_plain (t @ rest) = Inr r" "number_start t"
  shows "read_value depth (t @ rest) = Inr r"
  using assms by (intro read_value_plain) (auto simp: number_start_def is_digit_def)

declare read_value.simps [simp del] read_string.simps [simp del]

text \<open>The items and the members, when their values are read back.\<close>

lemma read_array_step:
  assumes "read_value d (x @ rest) = Inr (v, rest)" "rest = (if vs = [] then p @ 93 # s else 44 # g @ y)"
    and "blank p" "blank g" "vs \<noteq> [] \<Longrightarrow> starts y \<and> read_array d n y = Inr (vs, s)"
  shows "read_array d (Suc n) (x @ rest) = Inr (v # vs, s)"
proof (cases "vs = []")
  case True
  then show ?thesis using assms(1,2) skip_close[OF assms(3), of 93 s] by simp
next
  case False
  then have "skip_space rest = 44 # g @ y" "skip_space (g @ y) = y"
    using assms(2,5) skip_close[of "[]" 44 "g @ y"] skip_starts[OF assms(4), of y] by (auto simp: blank_def)
  then show ?thesis using assms(1,5) False by simp
qed

lemma read_object_step:
  assumes "json_text k" "read_value d (x @ rest) = Inr (v, rest)" "starts x" "rest = (if ms = [] then p @ 125 # s else 44 # g @ y)"
    and "blank p" "blank g" "k \<notin> fst ` set acc" "ms \<noteq> [] \<Longrightarrow> starts y \<and> read_object d n (acc @ [(k, v)]) y = Inr (acc @ (k, v) # ms, s)"
  shows "read_object d (Suc n) acc (json_string k @ lit '': '' @ x @ rest) = Inr (acc @ (k, v) # ms, s)"
proof -
  have key: "json_string k @ lit '': '' @ x @ rest = 34 # tl (json_string k) @ 58 # 32 # x @ rest" by (simp add: json_string_def lit_def)
  have upd: "AList.update k v acc = acc @ [(k, v)]" using assms(7) by (induction acc) auto
  have colon: "skip_space (58 # 32 # x @ rest) = 58 # 32 # x @ rest" "skip_space (32 # x @ rest) = x @ rest"
    using skip_close[of "[]" 58] skip_starts[of "[32]" "x @ rest"] starts_append[OF assms(3)] by (auto simp: blank_def json_space_def)
  show ?thesis
  proof (cases "ms = []")
    case True
    then have "skip_space rest = 125 # s" using assms(4) skip_close[OF assms(5), of 125 s] by simp
    then show ?thesis using assms(2) True unfolding key by (simp add: read_json_string[OF assms(1)] colon upd)
  next
    case False
    then have "skip_space rest = 44 # g @ y" "skip_space (g @ y) = y"
      using assms(4,8) skip_close[of "[]" 44 "g @ y"] skip_starts[OF assms(6), of y] by (auto simp: blank_def)
    then show ?thesis using assms(2,8) False unfolding key by (simp add: read_json_string[OF assms(1)] colon upd)
  qed
qed

lemma read_dumps:
  "spaced st \<Longrightarrow> wf_json v \<Longrightarrow> json_depth v \<le> d \<Longrightarrow> number_end rest \<Longrightarrow> read_value d (dumps_at st level v @ rest) = Inr (v, rest)"
  "spaced st \<Longrightarrow> wf_items vs \<Longrightarrow> items_depth vs \<le> d \<Longrightarrow> vs \<noteq> [] \<Longrightarrow> length vs \<le> n \<Longrightarrow> blank p \<Longrightarrow>
    read_array d n (dumps_items st level vs @ p @ 93 # rest) = Inr (vs, rest)"
  "spaced st \<Longrightarrow> wf_members ms \<Longrightarrow> members_depth ms \<le> d \<Longrightarrow> ms \<noteq> [] \<Longrightarrow> length ms \<le> n \<Longrightarrow> blank p \<Longrightarrow>
    distinct (map fst (acc @ ms)) \<Longrightarrow> read_object d n acc (dumps_members st level ms @ p @ 125 # rest) = Inr (acc @ ms, rest)"
proof (induction st level v and st level vs and st level ms arbitrary: d rest and d n p rest and d n p acc rest
    rule: dumps_at_dumps_items_dumps_members.induct)
  case (1 st level)
  then show ?case using read_plain_literal(1)[of rest] by (intro read_value_plain) (auto simp: lit_def)
next
  case (2 st level b)
  then show ?case using read_plain_literal(2,3)[of rest] by (intro read_value_plain) (auto simp: lit_def)
next
  case (3 st level n)
  then show ?case using read_value_number[OF read_plain_int number_start_int] by simp
next
  case (4 st level x)
  then show ?case using read_value_number[OF read_plain_float number_start_float] by simp
next
  case (5 st level t)
  have "dumps_at st level (JText t) @ rest = 34 # tl (json_string t) @ rest" by (simp add: json_string_def)
  moreover have "read_value d (34 # tl (json_string t) @ rest) = Inr (JText t, rest)"
    using 5 by (simp add: read_value.simps read_json_string)
  ultimately show ?case by (simp only:)
next
  case (6 st level vs)
  then obtain e where d: "d = Suc e" "items_depth vs \<le> e" by (cases d) auto
  show ?case
  proof (cases "vs = []")
    case True
    then show ?thesis using d by (simp add: lit_def read_value.simps skip_none json_space_def)
  next
    case False
    let ?r = "dumps_items st (level + 1) vs @ pad st level @ 93 # rest"
    have b: "blank (pad st (level + 1))" "blank (pad st level)" using 6 by (auto simp: spaced_def)
    have r: "starts ?r" using starts_items[of vs st "level + 1"] 6 False by (auto intro: starts_append)
    have "length vs \<le> length ?r" using items_length[of vs st "level + 1"] 6 by simp
    then have "read_array e (length ?r) ?r = Inr (vs, rest)"
      using 6(1)[OF False, of e "length ?r" "pad st level" rest] 6 False d(2) b(2) by simp
    then show ?thesis using False d(1) r skip_starts[OF b(1) r] by (auto simp: read_value.simps starts_def)
  qed
next
  case (7 st level ms)
  then obtain e where d: "d = Suc e" "members_depth ms \<le> e" by (cases d) auto
  show ?case
  proof (cases "ms = []")
    case True
    then show ?thesis using d by (simp add: lit_def read_value.simps skip_none json_space_def)
  next
    case False
    let ?r = "dumps_members st (level + 1) ms @ pad st level @ 125 # rest"
    have b: "blank (pad st (level + 1))" "blank (pad st level)" using 7 by (auto simp: spaced_def)
    have r: "starts ?r" using starts_members[OF False, of st "level + 1"] by (rule starts_append)
    have "length ms \<le> length ?r" using members_length[of ms st "level + 1"] by simp
    then have "read_object e (length ?r) [] ?r = Inr (ms, rest)"
      using 7(1)[OF False, of e "length ?r" "pad st level" "[]" rest] 7 False d(2) b(2) by simp
    then show ?thesis using False d(1) r skip_starts[OF b(1) r] by (auto simp: read_value.simps starts_def)
  qed
next
  case (9 st level v vs)
  obtain m where n: "n = Suc m" "length vs \<le> m" using 9 by (cases n) auto
  let ?rest = "if vs = [] then p @ 93 # rest else 44 # gap st level @ dumps_items st level vs @ p @ 93 # rest"
  have g: "blank (gap st level)" using 9 by (simp add: spaced_def)
  have "number_end ?rest" using blank_end[of p 93 rest] blank_end[of "[]" 44] 9 by (auto simp: blank_def)
  then have "read_value d (dumps_at st level v @ ?rest) = Inr (v, ?rest)" using 9 by simp
  moreover have "starts (dumps_items st level vs @ p @ 93 # rest) \<and> read_array d m (dumps_items st level vs @ p @ 93 # rest) = Inr (vs, rest)"
    if "vs \<noteq> []" using that 9 n(2) starts_items[of vs st level] by (auto intro: starts_append)
  ultimately show ?case using read_array_step[OF _ refl, of d "dumps_at st level v" vs p rest "gap st level" "dumps_items st level vs @ p @ 93 # rest" v m] 9 g n(1)
    by (auto split: if_splits)
next
  case (11 st level k v ms)
  obtain m where n: "n = Suc m" "length ms \<le> m" using 11 by (cases n) auto
  let ?y = "dumps_members st level ms @ p @ 125 # rest"
  let ?rest = "if ms = [] then p @ 125 # rest else 44 # gap st level @ ?y"
  have g: "blank (gap st level)" using 11 by (simp add: spaced_def)
  have "number_end ?rest" using blank_end[of p 125 rest] blank_end[of "[]" 44] 11 by (auto simp: blank_def)
  then have "read_value d (dumps_at st level v @ ?rest) = Inr (v, ?rest)" using 11 by simp
  moreover have "starts ?y \<and> read_object d m (acc @ [(k, v)]) ?y = Inr (acc @ (k, v) # ms, rest)"
    if "ms \<noteq> []" using that 11(2)[of d m p "acc @ [(k, v)]" rest] 11 n(2) starts_members[OF that, of st level] by (auto intro: starts_append)
  moreover have "k \<notin> fst ` set acc" "json_text k" "starts (dumps_at st level v)" "blank p" using 11 starts_dumps[of v st level] by auto
  ultimately show ?case
    using read_object_step[OF _ _ _ refl, of k d "dumps_at st level v" ms p rest "gap st level" ?y v acc m] g n(1)
    by (auto split: if_splits)
qed simp_all

lemma loads_dumps_at:
  assumes "wf_json v" "json_depth v \<le> depth" "spaced st" "blank tail"
  shows "json_loads depth (dumps_at st level v @ tail) = Inr v"
proof -
  have v: "starts (dumps_at st level v)" by (rule starts_dumps[OF assms(1)])
  then have "skip_space (dumps_at st level v @ tail) = dumps_at st level v @ tail"
    using starts_append skip_none by (simp add: starts_def)
  moreover have "dumps_at st level v @ tail \<noteq> [] \<and> hd (dumps_at st level v @ tail) \<noteq> 0xFEFF" using v by (simp add: starts_def)
  moreover have "number_end tail" using assms(4) by (cases tail) (auto simp: blank_def number_end_def json_space_def is_digit_def)
  moreover have "skip_space tail = []" using skip_blank[OF assms(4), of "[]"] by (simp add: skip_space_def)
  ultimately show ?thesis using read_dumps(1)[OF assms(3,1,2)] by (simp add: json_loads_def)
qed

text \<open>
  What \<open>json.dumps\<close> writes, on one line or indented, is read back by \<open>json.loads\<close> as the same value, floats to the
  last bit and the order of the keys included, when the value is not nested deeper than the stack allows.
\<close>

theorem json_round_trip:
  assumes "wf_json v" "json_depth v \<le> depth"
  shows "json_loads depth (dumps v) = Inr v" "json_loads depth (dumps_indent v) = Inr v"
  using loads_dumps_at[OF assms spaced_styles(1), of "[]" 0] loads_dumps_at[OF assms spaced_styles(2), of "[]" 0]
  by (simp_all add: dumps_def dumps_indent_def blank_def)

section \<open>One line\<close>

text \<open>On one line, the text has printable characters only.\<close>

definition printable :: "pystr \<Rightarrow> bool" where
  "printable t \<longleftrightarrow> list_all (\<lambda>c. 32 \<le> c \<and> c \<le> 126) t"

lemma printable_simps [simp]:
  "printable []" "printable (c # t) \<longleftrightarrow> 32 \<le> c \<and> c \<le> 126 \<and> printable t"
  "printable (s @ t) \<longleftrightarrow> printable s \<and> printable t" "printable (concat ts) \<longleftrightarrow> list_all printable ts"
  by (auto simp: printable_def list_all_iff)

lemma printable_json_string [simp]: "printable (json_string t)"
proof -
  have hex: "32 \<le> hex_digit (d mod 16) \<and> hex_digit (d mod 16) \<le> 126" for d
    using mod_less_divisor[of 16 d] by (auto simp: hex_digit_def)
  then have "printable (json_u n)" for n by (simp add: json_u_def)
  then have "printable (json_char c)" for c by (simp add: json_char_def)
  then show ?thesis by (simp add: json_string_def list_all_iff)
qed

lemma printable_digits: "digit_text t \<Longrightarrow> printable t"
  by (auto simp: digit_text_def printable_def is_digit_def list_all_iff)

lemma printable_show_int [simp]: "printable (show_int i)"
  by (simp add: show_int_def printable_digits)

lemma printable_layout: "digit_text ds \<Longrightarrow> printable (layout ds n)"
  by (auto simp: layout_def show_exponent_def Let_def lit_def intro!: printable_digits)

lemma printable_number: "printable (json_number x)"
proof -
  have "digit_text (strip_zeros (show_nat m))" for m
    using strip_zeros_split[of "show_nat m"] digit_text_simps(3,5) by metis
  then have "printable (repr_positive a)" for a by (auto simp: repr_positive_def printable_layout split: prod.splits)
  then show ?thesis by (cases x) (auto simp: lit_def)
qed

lemma printable_dumps_at:
  "st = one_line \<Longrightarrow> printable (dumps_at st level v)" "st = one_line \<Longrightarrow> printable (dumps_items st level vs)"
  "st = one_line \<Longrightarrow> printable (dumps_members st level ms)"
  by (induction st level v and st level vs and st level ms rule: dumps_at_dumps_items_dumps_members.induct)
    (auto simp: lit_def one_line_def printable_number)

lemma dumps_object [simp]: "dumps (JObject d) \<noteq> []"
  by (auto simp: dumps_def lit_def)

lemma printable_dumps [simp]: "printable (dumps v)"
  by (simp add: dumps_def printable_dumps_at)

end
