(* ===== verification/Lanes.thy ===== *)
theory Lanes
  imports RedisClient JsonText
begin

text \<open>
  The two lanes of the arena (\<open>internal/arena/lane\<close>): \<open>DBOnlyLaneAdapter\<close>, which answers from the
  document store, and \<open>RedisDBLaneAdapter\<close>, which puts the cache in front of it; the request and the
  result they exchange with the gateway (\<open>internal/arena/common/models.py\<close>) and the cache policy.

  Every field of a result is modelled except the times (\<open>latency_ms\<close>, \<open>metrics\<close>), which are readings
  of a performance counter. A request runs at one reading of the clock. The lanes run on the
  in-memory store and the in-memory cache.

  Main results: while the cache is coherent with the store, both lanes give the same answer to every
  request and leave the same documents, and every request keeps the cache coherent, with one
  exception: an \<open>HSET\<close> on a hash the cache does not hold.
\<close>

section \<open>Requests and results\<close>

record arena_request =
  request_id :: pystr
  mode :: pystr
  request_command :: pystr
  request_key :: pystr
  request_field :: "pystr option"
  request_value :: "pystr option"
  ttl_enabled :: bool
  ttl_seconds :: "pyfloat option"

record lane_result =
  result_request_id :: pystr
  lane :: pystr
  status :: pystr
  answer_text :: "pystr option"
  answer_kind :: "pystr option"
  value_preview :: "pystr option"
  path :: "pystr list"
  storage_changes :: "pystr list"
  cache_hit :: bool
  cache_miss :: bool
  mongo_reads :: nat

text \<open>\<open>value or ""\<close>.\<close>

definition or_empty :: "pystr option \<Rightarrow> pystr" where
  "or_empty v = (case v of None \<Rightarrow> [] | Some t \<Rightarrow> t)"

section \<open>Cache policy\<close>

text \<open>The default is the number the environment gives, 5 when it gives none.\<close>

definition default_ttl_seconds :: "(pystr \<Rightarrow> pystr option) \<Rightarrow> py_exc + pyfloat" where
  "default_ttl_seconds env =
     (case py_float (case env (lit ''ARENA_DEFAULT_TTL_SECONDS'') of None \<Rightarrow> lit ''5'' | Some v \<Rightarrow> v) of
        None \<Rightarrow> Inl ValueError
      | Some x \<Rightarrow> Inr x)"

definition redis_ttl_for_request :: "pyfloat \<Rightarrow> bool \<Rightarrow> pyfloat option \<Rightarrow> pyfloat option" where
  "redis_ttl_for_request default_ttl enabled ttl =
     (if \<not> enabled then None
      else case ttl of Some t \<Rightarrow> Some t | None \<Rightarrow> Some default_ttl)"

section \<open>Answers\<close>

definition set_answer :: "pystr \<times> pystr" where
  "set_answer = (lit ''OK'', lit ''ok'')"

definition get_answer :: "pystr option \<Rightarrow> pystr \<times> pystr" where
  "get_answer v = (case v of None \<Rightarrow> (lit ''(nil)'', lit ''nil'') | Some t \<Rightarrow> (t, lit ''value''))"

definition delete_answer :: "bool \<Rightarrow> pystr \<times> pystr" where
  "delete_answer deleted =
     (if deleted then (lit ''deleted'', lit ''deleted'') else (lit ''not found'', lit ''not_found''))"

text \<open>
  \<open>json.dumps(fields, separators=(",", ":"), sort_keys=True)\<close>; the values are strings.
\<close>

definition join_comma :: "pystr list \<Rightarrow> pystr" where
  "join_comma ls = (case ls of [] \<Rightarrow> [] | l # rest \<Rightarrow> l @ concat (map (\<lambda>x. lit '','' @ x) rest))"

definition json_object :: "(pystr, pystr) dict \<Rightarrow> pystr" where
  "json_object fs =
     lit ''{'' @ join_comma (map (\<lambda>(f, v). json_string f @ lit '':'' @ json_string v) (sort_key fst fs)) @ lit ''}''"

definition serialize_hash :: "(pystr, pystr) dict option \<Rightarrow> pystr option" where
  "serialize_hash fs = map_option json_object fs"

definition ttl_label :: "pyfloat \<Rightarrow> pystr" where
  "ttl_label t = format_g t @ lit ''s''"

section \<open>The trace of a request\<close>

text \<open>What \<open>execute\<close> accumulates in local variables, and the result it builds from them.\<close>

record trace =
  t_path :: "pystr list"
  t_changes :: "pystr list"
  t_hit :: bool
  t_miss :: bool
  t_reads :: nat
  t_preview :: "pystr option"
  t_answer :: "(pystr \<times> pystr) option"

definition trace0 :: trace where
  "trace0 = \<lparr>t_path = [], t_changes = [], t_hit = False, t_miss = False, t_reads = 0,
     t_preview = None, t_answer = None\<rparr>"

definition add_path :: "string list \<Rightarrow> trace \<Rightarrow> trace" where
  "add_path steps t = t\<lparr>t_path := t_path t @ map lit steps\<rparr>"

definition add_changes :: "pystr list \<Rightarrow> trace \<Rightarrow> trace" where
  "add_changes cs t = t\<lparr>t_changes := t_changes t @ cs\<rparr>"

definition with_answer :: "pystr option \<Rightarrow> pystr \<times> pystr \<Rightarrow> trace \<Rightarrow> trace" where
  "with_answer preview answer t = t\<lparr>t_preview := preview, t_answer := Some answer\<rparr>"

definition ok_result :: "string \<Rightarrow> arena_request \<Rightarrow> trace \<Rightarrow> lane_result" where
  "ok_result lane_name req t =
     \<lparr>result_request_id = request_id req, lane = lit lane_name, status = lit ''ok'',
      answer_text = map_option fst (t_answer t), answer_kind = map_option snd (t_answer t),
      value_preview = t_preview t, path = t_path t, storage_changes = t_changes t,
      cache_hit = t_hit t, cache_miss = t_miss t, mongo_reads = t_reads t\<rparr>"

definition error_result :: "string \<Rightarrow> string \<Rightarrow> arena_request \<Rightarrow> py_exc \<Rightarrow> trace \<Rightarrow> lane_result" where
  "error_result lane_name failed req e t =
     \<lparr>result_request_id = request_id req, lane = lit lane_name, status = lit ''error'',
      answer_text = Some (lit ''error: '' @ exc_message e), answer_kind = Some (lit ''error''),
      value_preview = Some (exc_message e), path = t_path t,
      storage_changes = (if t_changes t = [] then [lit failed] else t_changes t),
      cache_hit = t_hit t, cache_miss = t_miss t, mongo_reads = t_reads t\<rparr>"

section \<open>The lane without a cache\<close>

abbreviation db_ok :: "arena_request \<Rightarrow> trace \<Rightarrow> lane_result" where
  "db_ok \<equiv> ok_result ''db_only''"

abbreviation db_error :: "arena_request \<Rightarrow> py_exc \<Rightarrow> trace \<Rightarrow> lane_result" where
  "db_error \<equiv> error_result ''db_only'' ''DB only lane execution failed''"

definition db_only_execute :: "arena_request \<Rightarrow> documents \<Rightarrow> lane_result \<times> documents" where
  "db_only_execute req docs =
     (let cmd = request_command req; key = request_key req in
      if cmd = lit ''SET'' then
        (case mongo_write key (or_empty (request_value req)) docs of (write_state, docs1) \<Rightarrow>
          (db_ok req (with_answer (request_value req) set_answer
             (add_changes [lit ''Mongo document '' @ write_state] (add_path [''mongo_write''] trace0))), docs1))
      else if cmd = lit ''GET'' then
        (let t = (add_path [''mongo_read''] trace0)\<lparr>t_reads := 1\<rparr>
         in case mongo_read key docs of
              Inl e \<Rightarrow> (db_error req e t, docs)
            | Inr v \<Rightarrow>
                (db_ok req (with_answer v (get_answer v)
                   (add_changes [if v = None then lit ''Mongo document missing'' else lit ''Mongo document read''] t)), docs))
      else if cmd = lit ''HSET'' then
        (case mongo_hset key (or_empty (request_field req)) (or_empty (request_value req)) docs of (r, docs1) \<Rightarrow>
           case r of
             Inl e \<Rightarrow> (db_error req e trace0, docs1)
           | Inr write_state \<Rightarrow>
               (db_ok req (with_answer (request_value req) set_answer
                  (add_changes [lit ''Mongo hash field '' @ write_state] (add_path [''mongo_write''] trace0))), docs1))
      else if cmd = lit ''HGET'' then
        (let t = (add_path [''mongo_read''] trace0)\<lparr>t_reads := 1\<rparr>
         in case mongo_hget key (or_empty (request_field req)) docs of
              Inl e \<Rightarrow> (db_error req e t, docs)
            | Inr v \<Rightarrow>
                (db_ok req (with_answer v (get_answer v)
                   (add_changes [if v = None then lit ''Mongo hash field missing'' else lit ''Mongo hash field read''] t)), docs))
      else if cmd = lit ''HGETALL'' then
        (let t = (add_path [''mongo_read''] trace0)\<lparr>t_reads := 1\<rparr>
         in case mongo_hgetall key docs of
              Inl e \<Rightarrow> (db_error req e t, docs)
            | Inr fs \<Rightarrow>
                (db_ok req (with_answer (serialize_hash fs) (get_answer (serialize_hash fs))
                   (add_changes [if fs = None then lit ''Mongo hash missing'' else lit ''Mongo hash read''] t)), docs))
      else if cmd = lit ''DEL'' then
        (case mongo_delete key docs of (deleted, docs1) \<Rightarrow>
           (db_ok req (with_answer None (delete_answer deleted)
              (add_changes [if deleted then lit ''Mongo document deleted'' else lit ''Mongo unchanged'']
                (add_path [''mongo_delete''] trace0))), docs1))
      else (db_ok req trace0, docs))"

definition db_only_clear :: "pystr list \<Rightarrow> bool \<Rightarrow> documents \<Rightarrow> documents" where
  "db_only_clear ks full_reset docs = (if full_reset then mongo_clear docs else mongo_delete_many ks docs)"

record seed_input =
  seed_documents :: "(pystr, pystr) dict"
  warm_cache :: bool
  seed_ttl_enabled :: bool
  seed_ttl_seconds :: "pyfloat option"

definition db_only_seed :: "seed_input \<Rightarrow> documents \<Rightarrow> documents" where
  "db_only_seed inp docs =
     (if seed_documents inp \<noteq> [] then mongo_seed (seed_documents inp) docs else docs)"

section \<open>The lane with the cache\<close>

abbreviation redis_ok :: "arena_request \<Rightarrow> trace \<Rightarrow> lane_result" where
  "redis_ok \<equiv> ok_result ''redis_db''"

abbreviation redis_error :: "arena_request \<Rightarrow> py_exc \<Rightarrow> trace \<Rightarrow> lane_result" where
  "redis_error \<equiv> error_result ''redis_db'' ''Redis + DB lane execution failed''"

fun fill_fields ::
  "pyfloat \<Rightarrow> pystr \<Rightarrow> (pystr, pystr) dict \<Rightarrow> redis_client \<Rightarrow> (py_exc + unit) \<times> redis_client" where
  "fill_fields now key [] c = (Inr (), c)"
| "fill_fields now key ((f, v) # rest) c =
     sbind (client_hset now key f v c) (\<lambda>_ c. fill_fields now key rest c)"

definition fill_hash ::
  "pyfloat \<Rightarrow> pystr \<Rightarrow> (pystr, pystr) dict \<Rightarrow> pyfloat option \<Rightarrow> redis_client \<Rightarrow> (py_exc + unit) \<times> redis_client"
  where
  "fill_hash now key fs ttl c =
     sbind (fill_fields now key fs c) (\<lambda>_ c.
       (Inr (), case ttl of None \<Rightarrow> c | Some x \<Rightarrow> snd (client_expire now key x c)))"

text \<open>The block that applies the time to live after a write to the cache.\<close>

definition expire_block ::
  "pyfloat \<Rightarrow> pystr \<Rightarrow> pyfloat option \<Rightarrow> trace \<times> redis_client \<Rightarrow> trace \<times> redis_client" where
  "expire_block now key ttl w =
     (case (ttl, w) of
        (None, (t, c)) \<Rightarrow> (t, c)
      | (Some x, (t, c)) \<Rightarrow>
          (case client_expire now key x c of (ttl_applied, c1) \<Rightarrow>
             (add_changes [if ttl_applied then lit ''Redis TTL applied (ttl='' @ ttl_label x @ lit '')''
                           else lit ''Redis TTL apply failed'']
                (add_path [''redis_expire''] t), c1)))"

type_synonym lane_state = "redis_client \<times> documents"

definition redis_set :: "pyfloat \<Rightarrow> pyfloat \<Rightarrow> arena_request \<Rightarrow> lane_state \<Rightarrow> lane_result \<times> lane_state" where
  "redis_set dttl now req w =
     (case w of (c, docs) \<Rightarrow>
      case mongo_write (request_key req) (or_empty (request_value req)) docs of (write_state, docs1) \<Rightarrow>
        let ttl = redis_ttl_for_request dttl (ttl_enabled req) (ttl_seconds req);
            c1 = client_set now (request_key req) (or_empty (request_value req)) c;
            t = add_changes [lit ''Mongo document '' @ write_state, lit ''Redis key upserted'']
                  (add_path [''mongo_write'', ''redis_set''] trace0)
        in case expire_block now (request_key req) ttl (t, c1) of (t1, c2) \<Rightarrow>
             (redis_ok req (with_answer (request_value req) set_answer t1), (c2, docs1)))"

definition redis_get :: "pyfloat \<Rightarrow> pyfloat \<Rightarrow> arena_request \<Rightarrow> lane_state \<Rightarrow> lane_result \<times> lane_state" where
  "redis_get dttl now req w =
     (case w of (c, docs) \<Rightarrow>
      let key = request_key req; t = add_path [''redis_read''] trace0
      in case client_get now key c of
           (Inl e, c1) \<Rightarrow> (redis_error req e t, (c1, docs))
         | (Inr (Some v), c1) \<Rightarrow>
             (redis_ok req (with_answer (Some v) (get_answer (Some v))
                (add_changes [lit ''Redis value returned'', lit ''Mongo unchanged'']
                  (add_path [''redis_hit''] (t\<lparr>t_hit := True\<rparr>)))), (c1, docs))
         | (Inr None, c1) \<Rightarrow>
             (let t1 = (add_path [''mongo_read''] (t\<lparr>t_miss := True\<rparr>))\<lparr>t_reads := 1\<rparr>
              in case mongo_read key docs of
                   Inl e \<Rightarrow> (redis_error req e t1, (c1, docs))
                 | Inr None \<Rightarrow>
                     (redis_ok req (with_answer None (get_answer None)
                        (add_changes [lit ''Redis miss'', lit ''Mongo document missing''] t1)), (c1, docs))
                 | Inr (Some v) \<Rightarrow>
                     (let ttl = redis_ttl_for_request dttl (ttl_enabled req) (ttl_seconds req);
                          c2 = client_set now key v c1;
                          t2 = add_changes [lit ''Mongo document read'', lit ''Redis key filled'']
                                 (add_path [''redis_fill''] t1)
                      in case expire_block now key ttl (t2, c2) of (t3, c3) \<Rightarrow>
                           (redis_ok req (with_answer (Some v) (get_answer (Some v)) t3), (c3, docs)))))"

definition redis_hset :: "pyfloat \<Rightarrow> pyfloat \<Rightarrow> arena_request \<Rightarrow> lane_state \<Rightarrow> lane_result \<times> lane_state" where
  "redis_hset dttl now req w =
     (case w of (c, docs) \<Rightarrow>
      let key = request_key req; field_name = or_empty (request_field req)
      in case mongo_hset key field_name (or_empty (request_value req)) docs of
           (Inl e, docs1) \<Rightarrow> (redis_error req e trace0, (c, docs1))
         | (Inr write_state, docs1) \<Rightarrow>
             (let ttl = redis_ttl_for_request dttl (ttl_enabled req) (ttl_seconds req)
              in case client_hset now key field_name (or_empty (request_value req)) c of
                   (Inl e, c1) \<Rightarrow> (redis_error req e trace0, (c1, docs1))
                 | (Inr _, c1) \<Rightarrow>
                     (let t = add_changes [lit ''Mongo hash field '' @ write_state, lit ''Redis hash field upserted'']
                                (add_path [''mongo_write'', ''redis_set''] trace0)
                      in case expire_block now key ttl (t, c1) of (t1, c2) \<Rightarrow>
                           (redis_ok req (with_answer (request_value req) set_answer t1), (c2, docs1)))))"

text \<open>
  The miss branches of \<open>HGET\<close> and \<open>HGETALL\<close>: read the whole hash from the store, fill the cache;
  \<open>preview\<close> turns the hash into the value of the answer.
\<close>

definition hash_miss ::
  "pyfloat \<Rightarrow> pyfloat \<Rightarrow> arena_request \<Rightarrow> ((pystr, pystr) dict \<Rightarrow> pystr option) \<Rightarrow> trace \<Rightarrow> lane_state
    \<Rightarrow> lane_result \<times> lane_state" where
  "hash_miss dttl now req preview t w =
     (case w of (c, docs) \<Rightarrow>
      let t1 = (add_path [''mongo_read''] (t\<lparr>t_miss := True\<rparr>))\<lparr>t_reads := 1\<rparr>
      in case mongo_hgetall (request_key req) docs of
           Inl e \<Rightarrow> (redis_error req e t1, (c, docs))
         | Inr None \<Rightarrow>
             (redis_ok req (with_answer None (get_answer None)
                (add_changes [lit ''Redis miss'', lit ''Mongo hash missing''] t1)), (c, docs))
         | Inr (Some fs) \<Rightarrow>
             (let ttl = redis_ttl_for_request dttl (ttl_enabled req) (ttl_seconds req)
              in case fill_hash now (request_key req) fs ttl c of
                   (Inl e, c1) \<Rightarrow> (redis_error req e t1, (c1, docs))
                 | (Inr _, c1) \<Rightarrow>
                     (let t2 = add_path [''redis_fill''] t1;
                          t3 = (case ttl of
                                  None \<Rightarrow> t2
                                | Some x \<Rightarrow> add_changes [lit ''Redis TTL applied (ttl='' @ ttl_label x @ lit '')'']
                                              (add_path [''redis_expire''] t2));
                          t4 = add_changes [lit ''Mongo hash read'', lit ''Redis hash filled''] t3
                      in (redis_ok req (with_answer (preview fs) (get_answer (preview fs)) t4), (c1, docs)))))"

definition redis_hget :: "pyfloat \<Rightarrow> pyfloat \<Rightarrow> arena_request \<Rightarrow> lane_state \<Rightarrow> lane_result \<times> lane_state" where
  "redis_hget dttl now req w =
     (case w of (c, docs) \<Rightarrow>
      let key = request_key req; field_name = or_empty (request_field req);
          t = add_path [''redis_read''] trace0
      in case client_hget now key field_name c of
           (Inl e, c1) \<Rightarrow> (redis_error req e t, (c1, docs))
         | (Inr (Some v), c1) \<Rightarrow>
             (redis_ok req (with_answer (Some v) (get_answer (Some v))
                (add_changes [lit ''Redis hash field returned'', lit ''Mongo unchanged'']
                  (add_path [''redis_hit''] (t\<lparr>t_hit := True\<rparr>)))), (c1, docs))
         | (Inr None, c1) \<Rightarrow>
             (case client_hgetall now key c1 of
                (Inl e, c2) \<Rightarrow> (redis_error req e t, (c2, docs))
              | (Inr (Some fs), c2) \<Rightarrow>
                  (redis_ok req (with_answer None (get_answer None)
                     (add_changes [lit ''Redis hash field missing'', lit ''Mongo unchanged'']
                       (add_path [''redis_hit''] (t\<lparr>t_hit := True\<rparr>)))), (c2, docs))
              | (Inr None, c2) \<Rightarrow>
                  hash_miss dttl now req (\<lambda>fs. map_of fs field_name) t (c2, docs)))"

definition redis_hgetall :: "pyfloat \<Rightarrow> pyfloat \<Rightarrow> arena_request \<Rightarrow> lane_state \<Rightarrow> lane_result \<times> lane_state" where
  "redis_hgetall dttl now req w =
     (case w of (c, docs) \<Rightarrow>
      let t = add_path [''redis_read''] trace0
      in case client_hgetall now (request_key req) c of
           (Inl e, c1) \<Rightarrow> (redis_error req e t, (c1, docs))
         | (Inr (Some fs), c1) \<Rightarrow>
             (let preview = serialize_hash (Some fs)
              in (redis_ok req (with_answer preview (get_answer preview)
                    (add_changes [lit ''Redis hash returned'', lit ''Mongo unchanged'']
                      (add_path [''redis_hit''] (t\<lparr>t_hit := True\<rparr>)))), (c1, docs)))
         | (Inr None, c1) \<Rightarrow>
             hash_miss dttl now req (\<lambda>fs. serialize_hash (Some fs)) t (c1, docs))"

definition redis_del :: "arena_request \<Rightarrow> lane_state \<Rightarrow> lane_result \<times> lane_state" where
  "redis_del req w =
     (case w of (c, docs) \<Rightarrow>
      case client_delete (request_key req) c of (redis_deleted, c1) \<Rightarrow>
      case mongo_delete (request_key req) docs of (mongo_deleted, docs1) \<Rightarrow>
        (redis_ok req (with_answer None (delete_answer (redis_deleted \<or> mongo_deleted))
           (add_changes [if redis_deleted then lit ''Redis key deleted'' else lit ''Redis unchanged'',
                         if mongo_deleted then lit ''Mongo document deleted'' else lit ''Mongo unchanged'']
             (add_path [''redis_delete'', ''mongo_delete''] trace0))), (c1, docs1)))"

definition redis_db_execute ::
  "pyfloat \<Rightarrow> pyfloat \<Rightarrow> arena_request \<Rightarrow> lane_state \<Rightarrow> lane_result \<times> lane_state" where
  "redis_db_execute dttl now req w =
     (let cmd = request_command req in
      if cmd = lit ''SET'' then redis_set dttl now req w
      else if cmd = lit ''GET'' then redis_get dttl now req w
      else if cmd = lit ''HSET'' then redis_hset dttl now req w
      else if cmd = lit ''HGET'' then redis_hget dttl now req w
      else if cmd = lit ''HGETALL'' then redis_hgetall dttl now req w
      else if cmd = lit ''DEL'' then redis_del req w
      else (redis_ok req trace0, w))"

definition redis_db_clear :: "pystr list \<Rightarrow> bool \<Rightarrow> lane_state \<Rightarrow> lane_state" where
  "redis_db_clear ks full_reset w =
     (case w of (c, docs) \<Rightarrow>
        if full_reset then (client_flushdb c, mongo_clear docs)
        else (fold (\<lambda>key c. snd (client_delete key c)) ks c, mongo_delete_many ks docs))"

definition configure_memory ::
  "pyfloat \<Rightarrow> pystr \<Rightarrow> int \<Rightarrow> lane_state \<Rightarrow> (pystr \<times> int \<times> memory_info) \<times> lane_state" where
  "configure_memory now profile_key max_memory w =
     (case w of (c, docs) \<Rightarrow>
        case client_info_memory now (client_config_set_maxmemory now max_memory c) of (info, c1) \<Rightarrow>
          ((profile_key, max_memory, info), (c1, docs)))"

definition redis_db_seed :: "pyfloat \<Rightarrow> pyfloat \<Rightarrow> seed_input \<Rightarrow> lane_state \<Rightarrow> lane_state" where
  "redis_db_seed dttl now inp w =
     (case w of (c, docs) \<Rightarrow>
        let docs1 = (if seed_documents inp \<noteq> [] then mongo_seed (seed_documents inp) docs else docs);
            c1 = fold (\<lambda>key c. snd (client_delete key c)) (keys_of (seed_documents inp)) c;
            ttl = redis_ttl_for_request dttl (seed_ttl_enabled inp) (seed_ttl_seconds inp)
        in if \<not> warm_cache inp then (c1, docs1)
           else (fold (\<lambda>(key, v) c.
                    let c2 = client_set now key v c
                    in case ttl of None \<Rightarrow> c2 | Some x \<Rightarrow> snd (client_expire now key x c2))
                  (seed_documents inp) c1, docs1))"

section \<open>Coherence of the cache\<close>

fun doc_of :: "redis_value \<Rightarrow> arena_document" where
  "doc_of (RString v) = StringDoc v"
| "doc_of (RHash fs) = HashDoc fs"

text \<open>What is cached, expired or not, is what is stored.\<close>

definition coherent :: "redis_client \<Rightarrow> documents \<Rightarrow> bool" where
  "coherent c docs \<longleftrightarrow> wf_dict (entries c) \<and>
     (\<forall>k e. map_of (entries c) k = Some e \<longrightarrow> map_of docs k = Some (doc_of (entry_value e)))"

definition subcache :: "redis_client \<Rightarrow> redis_client \<Rightarrow> bool" where
  "subcache d c \<longleftrightarrow> wf_dict (entries d) \<and>
     (\<forall>k e. map_of (entries d) k = Some e \<longrightarrow> map_of (entries c) k = Some e)"

lemma coherent_wf: "coherent c docs \<Longrightarrow> wf_dict (entries c)"
  by (simp add: coherent_def)

lemma coherent_subcache: "subcache d c \<Longrightarrow> coherent c docs \<Longrightarrow> coherent d docs"
  by (simp add: coherent_def subcache_def)

lemma subcache_refl: "wf_dict (entries c) \<Longrightarrow> subcache c c"
  by (simp add: subcache_def)

lemma subcache_trans: "subcache e d \<Longrightarrow> subcache d c \<Longrightarrow> subcache e c"
  by (simp add: subcache_def)

lemma subcache_delete: "wf_dict (entries c) \<Longrightarrow> subcache (snd (client_delete key c)) c"
  by (simp add: subcache_def dict_simps)

lemma subcache_evict: "wf_dict (entries c) \<Longrightarrow> subcache (client_evict key c) c"
  by (simp add: subcache_def dict_simps)

lemma client_touch_entries [simp]: "entries (client_touch key c) = entries c"
  "client_max_memory (client_touch key c) = client_max_memory c"
  by (simp_all add: client_touch_def)

lemma subcache_purge: "wf_dict (entries c) \<Longrightarrow> subcache (purge_expired now c) c"
  by (simp add: subcache_def purge_expired_get client_live_def split: option.splits if_splits)

lemma subcache_protected: "wf_dict (entries c) \<Longrightarrow> subcache (client_evict_protected ps m c) c"
proof (induction ps m c rule: client_evict_protected.induct)
  case (2 key rest m c)
  obtain deleted c1 where del: "client_delete key c = (deleted, c1)" by force
  let ?c2 = "if deleted then c1\<lparr>client_evicted := client_evicted c1 + 1\<rparr> else c1"
  have "subcache ?c2 c" using subcache_delete[OF "2.prems", of key] del by (simp add: subcache_def)
  moreover have "wf_dict (entries ?c2)" using calculation by (simp add: subcache_def)
  ultimately show ?case
    using 2 del subcache_trans[of _ ?c2 c] subcache_refl by (auto split: if_splits)
qed (simp add: subcache_refl)

lemma subcache_enforce:
  assumes wf: "wf_dict (entries c)"
  shows "subcache (enforce_max_memory now ps c) c"
proof (cases "client_max_memory c")
  case None
  then show ?thesis using wf by (simp add: enforce_max_memory_def subcache_refl)
next
  case (Some m)
  let ?c0 = "purge_expired now c"
  have wf0: "wf_dict (entries ?c0)" using wf by simp
  have 1: "subcache (client_evict_loop ps m ?c0) ?c0"
    by (rule client_lru.loop_inv[where P = "\<lambda>d. subcache d ?c0", OF wf0 subcache_refl[OF wf0]])
      (auto intro: subcache_trans subcache_evict)
  then have "subcache (client_evict_protected ps m (client_evict_loop ps m ?c0)) ?c0"
    using subcache_protected subcache_trans unfolding subcache_def by blast
  then show ?thesis
    using 1 Some subcache_trans[OF _ subcache_purge[OF wf]] by (simp add: enforce_max_memory_def Let_def)
qed

text \<open>Writing one key into the cache after writing its document.\<close>

lemma coherent_write:
  assumes "coherent c docs" "wf_dict (entries d)"
    and "\<And>k. k \<noteq> key \<Longrightarrow> map_of docs' k = map_of docs k"
    and "\<And>k e. k \<noteq> key \<Longrightarrow> map_of (entries d) k = Some e \<Longrightarrow> map_of (entries c) k = Some e"
    and "\<And>e. map_of (entries d) key = Some e \<Longrightarrow> map_of docs' key = Some (doc_of (entry_value e))"
  shows "coherent d docs'"
  unfolding coherent_def using assms by (metis coherent_def)

lemma coherent_set:
  assumes "coherent c docs" "map_of docs' key = Some (StringDoc v)"
    and "\<And>k. k \<noteq> key \<Longrightarrow> map_of docs' k = map_of docs k"
  shows "coherent (client_set now key v c) docs'"
proof -
  let ?c1 = "purge_expired now c"
  let ?d = "client_touch key (?c1\<lparr>entries := AList.update key \<lparr>entry_value = RString v, expires_at = None\<rparr> (entries ?c1)\<rparr>)"
  have wf: "wf_dict (entries c)" using assms(1) by (rule coherent_wf)
  have "coherent ?d docs'"
    by (rule coherent_write[OF assms(1), where key = key])
      (use assms subcache_purge[OF wf, of now] wf in \<open>auto simp: dict_simps subcache_def\<close>)
  then have "coherent (enforce_max_memory now [key] ?d) docs'"
    using coherent_subcache[OF subcache_enforce[OF coherent_wf]] by blast
  then show ?thesis by (simp add: client_set_def Let_def)
qed

lemma coherent_expire: "coherent c docs \<Longrightarrow> coherent (snd (client_expire now key x c)) docs"
  by (auto simp: client_expire_def coherent_def dict_simps split: option.splits)

lemma coherent_expire_block:
  "coherent c docs \<Longrightarrow> coherent (snd (expire_block now key ttl (t, c))) docs"
  using coherent_expire[of c docs now key]
  by (auto simp: expire_block_def case_prod_unfold split: option.splits)

lemma client_max_frame [simp]:
  "wf_dict (entries c) \<Longrightarrow> client_max_memory (snd (client_hset now key f v c)) = client_max_memory c"
  by (auto simp: client_hset_def Let_def split: option.splits redis_value.splits)

lemma coherent_hset:
  assumes coh: "coherent c docs" and ok: "mongo_hset key f v docs = (Inr ws, docs')"
    and cached: "map_of docs key = None \<or> client_live now c key \<noteq> None"
  shows "fst (client_hset now key f v c) = Inr () \<and> coherent (snd (client_hset now key f v c)) docs'"
proof -
  let ?c1 = "purge_expired now c"
  have wf: "wf_dict (entries c)" using coh by (rule coherent_wf)
  note get = purge_expired_get[OF wf, of now]
  have put: "coherent (enforce_max_memory now [key] (client_touch key
      (?c1\<lparr>entries := AList.update key e (entries ?c1)\<rparr>))) docs'"
    if e: "map_of docs' key = Some (doc_of (entry_value e))"
      and "\<And>k. k \<noteq> key \<Longrightarrow> map_of docs' k = map_of docs k" for e
  proof (rule coherent_subcache[OF subcache_enforce])
    show "coherent (client_touch key (?c1\<lparr>entries := AList.update key e (entries ?c1)\<rparr>)) docs'"
      by (rule coherent_write[OF coh, where key = key])
        (use that subcache_purge[OF wf, of now] wf in \<open>auto simp: dict_simps subcache_def\<close>)
  qed (use wf in simp)
  show ?thesis
  proof (cases "map_of docs key")
    case None
    then have "client_live now c key = None"
      using coh by (auto simp: client_live_def coherent_def split: option.splits)
    moreover have "docs' = AList.update key (HashDoc [(f, v)]) docs"
      using ok None by (simp add: mongo_hset_def)
    ultimately show ?thesis
      using put[of "\<lparr>entry_value = RHash [(f, v)], expires_at = None\<rparr>"]
      by (simp add: client_hset_def Let_def get dict_simps)
  next
    case (Some doc)
    then obtain fs where fs: "doc = HashDoc fs" "docs' = AList.update key (HashDoc (AList.update f v fs)) docs"
      using ok by (cases doc) (auto simp: mongo_hset_def Let_def)
    obtain e where e: "client_live now c key = Some e" using cached Some by auto
    then have "map_of (entries c) key = Some e" by (auto simp: client_live_def split: option.splits if_splits)
    then have "doc_of (entry_value e) = HashDoc fs" using coh Some fs by (simp add: coherent_def)
    then have "entry_value e = RHash fs" by (cases "entry_value e") auto
    then show ?thesis
      using put[of "e\<lparr>entry_value := RHash (AList.update f v fs)\<rparr>"] e fs
      by (simp add: client_hset_def Let_def get dict_simps)
  qed
qed

section \<open>Filling the cache with a hash\<close>

lemma update_absent: "map_of d k = None \<Longrightarrow> AList.update k v d = d @ [(k, v)]"
  by (induction d) auto

lemma fold_update_distinct:
  "wf_dict (gs @ fs) \<Longrightarrow> fold (\<lambda>(f, v). AList.update f v) fs gs = gs @ fs"
proof (induction fs arbitrary: gs)
  case (Cons p fs)
  obtain f v where p: "p = (f, v)" by (cases p)
  have "map_of gs f = None" using Cons.prems p by (auto simp: wf_dict_def keys_of_def map_of_eq_None_iff)
  then show ?case using Cons p by (simp add: update_absent)
qed simp

text \<open>One field, without a memory limit: the cache changes in the one key only.\<close>

lemma client_hset_unlimited:
  assumes wf: "wf_dict (entries c)" and none: "client_max_memory c = None"
    and e: "client_live now c key = None \<and> e = \<lparr>entry_value = RHash [], expires_at = None\<rparr> \<or>
      client_live now c key = Some e"
    and gs: "entry_value e = RHash gs"
  shows "\<exists>d. client_hset now key f v c = (Inr (), d) \<and> wf_dict (entries d) \<and> client_max_memory d = None \<and>
    client_live now d key = Some (e\<lparr>entry_value := RHash (AList.update f v gs)\<rparr>) \<and>
    (\<forall>k x. k \<noteq> key \<longrightarrow> map_of (entries d) k = Some x \<longrightarrow> map_of (entries c) k = Some x)"
proof -
  let ?c1 = "purge_expired now c"
  let ?e = "e\<lparr>entry_value := RHash (AList.update f v gs)\<rparr>"
  let ?d = "client_touch key (?c1\<lparr>entries := AList.update key ?e (entries ?c1)\<rparr>)"
  note get = purge_expired_get[OF wf, of now]
  have alive: "\<not> entry_expired now ?e"
    using e by (auto simp: entry_expired_def client_live_def split: option.splits if_splits)
  have "client_hset now key f v c = (Inr (), ?d)"
    using e gs none by (auto simp: client_hset_def Let_def get enforce_max_memory_def)
  moreover have "client_live now ?d key = Some ?e"
    using alive by (simp add: client_live_def dict_simps)
  moreover have "map_of (entries ?d) k = Some x \<Longrightarrow> map_of (entries c) k = Some x" if "k \<noteq> key" for k x
    using that subcache_purge[OF wf, of now] by (simp add: dict_simps subcache_def)
  ultimately show ?thesis using wf none by auto
qed

lemma fill_fields_unlimited:
  assumes "wf_dict (entries c)" "client_max_memory c = None"
    and "client_live now c key = None \<and> e = \<lparr>entry_value = RHash [], expires_at = None\<rparr> \<or>
      client_live now c key = Some e"
    and "entry_value e = RHash gs"
  shows "\<exists>d. fill_fields now key fs c = (Inr (), d) \<and> wf_dict (entries d) \<and> client_max_memory d = None \<and>
    (fs \<noteq> [] \<longrightarrow> client_live now d key =
       Some (e\<lparr>entry_value := RHash (fold (\<lambda>(f, v). AList.update f v) fs gs)\<rparr>)) \<and>
    (fs = [] \<longrightarrow> d = c) \<and>
    (\<forall>k x. k \<noteq> key \<longrightarrow> map_of (entries d) k = Some x \<longrightarrow> map_of (entries c) k = Some x)"
  using assms
proof (induction fs arbitrary: c e gs)
  case (Cons p fs)
  obtain f v where p: "p = (f, v)" by (cases p)
  let ?e = "e\<lparr>entry_value := RHash (AList.update f v gs)\<rparr>"
  obtain c1 where c1: "client_hset now key f v c = (Inr (), c1)" "wf_dict (entries c1)"
    "client_max_memory c1 = None" "client_live now c1 key = Some ?e"
    "\<And>k x. k \<noteq> key \<Longrightarrow> map_of (entries c1) k = Some x \<Longrightarrow> map_of (entries c) k = Some x"
    using client_hset_unlimited[OF Cons.prems, of f v] by blast
  obtain d where d: "fill_fields now key fs c1 = (Inr (), d)" "wf_dict (entries d)" "client_max_memory d = None"
    "fs \<noteq> [] \<longrightarrow> client_live now d key =
       Some (?e\<lparr>entry_value := RHash (fold (\<lambda>(f, v). AList.update f v) fs (AList.update f v gs))\<rparr>)"
    "fs = [] \<longrightarrow> d = c1"
    "\<forall>k x. k \<noteq> key \<longrightarrow> map_of (entries d) k = Some x \<longrightarrow> map_of (entries c1) k = Some x"
    using Cons.IH[of c1 ?e "AList.update f v gs"] c1 by auto
  then show ?case using c1 p by (cases "fs = []") auto
qed simp

lemma client_live_SomeD: "client_live now c key = Some e \<Longrightarrow> map_of (entries c) key = Some e"
  by (auto simp: client_live_def split: option.splits if_splits)

lemma coherent_fill:
  assumes coh: "coherent c docs" and none: "client_max_memory c = None"
    and doc: "map_of docs key = Some (HashDoc fs)" and fs: "wf_dict fs"
    and miss: "client_live now c key = None"
  shows "fst (fill_hash now key fs ttl c) = Inr () \<and> coherent (snd (fill_hash now key fs ttl c)) docs"
proof -
  let ?e = "\<lparr>entry_value = RHash [], expires_at = None\<rparr>"
  obtain d where d: "fill_fields now key fs c = (Inr (), d)" "wf_dict (entries d)"
    "fs \<noteq> [] \<longrightarrow> client_live now d key = Some (?e\<lparr>entry_value := RHash (fold (\<lambda>(f, v). AList.update f v) fs [])\<rparr>)"
    "fs = [] \<longrightarrow> d = c"
    "\<forall>k x. k \<noteq> key \<longrightarrow> map_of (entries d) k = Some x \<longrightarrow> map_of (entries c) k = Some x"
    using fill_fields_unlimited[OF coherent_wf[OF coh] none, of now key ?e "[]" fs] miss by auto
  have "coherent d docs"
  proof (cases "fs = []")
    case True
    then show ?thesis using d(4) coh by simp
  next
    case False
    then have "map_of (entries d) key = Some \<lparr>entry_value = RHash fs, expires_at = None\<rparr>"
      using d(3) fold_update_distinct[of "[]" fs] fs by (auto dest: client_live_SomeD)
    then show ?thesis
      using d(5) doc by (intro coherent_write[OF coh d(2), where key = key]) auto
  qed
  then show ?thesis
    using d(1) coherent_expire by (auto simp: fill_hash_def split: option.splits)
qed

section \<open>Both lanes give the same answer\<close>

definition sound_docs :: "documents \<Rightarrow> bool" where
  "sound_docs docs \<longleftrightarrow> (\<forall>k fs. map_of docs k = Some (HashDoc fs) \<longrightarrow> wf_dict fs)"

definition same_answer :: "lane_result \<Rightarrow> lane_result \<Rightarrow> bool" where
  "same_answer r r' \<longleftrightarrow> status r = status r' \<and> answer_text r = answer_text r' \<and>
     answer_kind r = answer_kind r' \<and> value_preview r = value_preview r'"

text \<open>A request on which the cached lane does what the plain lane does.\<close>

definition lanes_agree ::
  "lane_result \<times> lane_state \<Rightarrow> lane_result \<times> documents \<Rightarrow> bool" where
  "lanes_agree x y \<longleftrightarrow> same_answer (fst x) (fst y) \<and> snd (snd x) = snd y \<and> coherent (fst (snd x)) (snd y)"

lemma result_fields [simp]:
  "status (ok_result l req t) = lit ''ok''" "status (error_result l f req e t) = lit ''error''"
  "answer_text (ok_result l req t) = map_option fst (t_answer t)"
  "answer_kind (ok_result l req t) = map_option snd (t_answer t)"
  "value_preview (ok_result l req t) = t_preview t"
  "answer_text (error_result l f req e t) = Some (lit ''error: '' @ exc_message e)"
  "answer_kind (error_result l f req e t) = Some (lit ''error'')"
  "value_preview (error_result l f req e t) = Some (exc_message e)"
  by (simp_all add: ok_result_def error_result_def)

lemma trace_fields [simp]:
  "t_answer (with_answer p a t) = Some a" "t_preview (with_answer p a t) = p"
  by (simp_all add: with_answer_def)

lemma agree_set:
  assumes "coherent c docs" "request_command req = lit ''SET''"
  shows "lanes_agree (redis_set dttl now req (c, docs)) (db_only_execute req docs)"
proof -
  let ?v = "or_empty (request_value req)" and ?key = "request_key req"
  have "coherent (client_set now ?key ?v c) (snd (mongo_write ?key ?v docs))"
    using assms(1) by (rule coherent_set) (simp_all add: mongo_write_def Let_def dict_simps)
  then show ?thesis
    using assms(2) coherent_expire_block
    by (auto simp: redis_set_def db_only_execute_def lanes_agree_def same_answer_def Let_def case_prod_unfold)
qed

lemma agree_del:
  assumes "coherent c docs" "request_command req = lit ''DEL''"
  shows "lanes_agree (redis_del req (c, docs)) (db_only_execute req docs)"
proof -
  let ?key = "request_key req"
  have "?key \<in> set (keys_of (entries c)) \<Longrightarrow> ?key \<in> set (keys_of docs)"
    using assms(1) by (auto simp: keys_of_iff coherent_def)
  then have "fst (client_delete ?key c) \<or> fst (mongo_delete ?key docs) \<longleftrightarrow> fst (mongo_delete ?key docs)"
    by (auto simp: client_delete_def mongo_delete_def)
  moreover have "coherent (snd (client_delete ?key c)) (mongo_remove ?key docs)"
    by (rule coherent_write[OF assms(1), where key = ?key])
      (use coherent_wf[OF assms(1)] in \<open>auto simp: dict_simps mongo_remove_eq\<close>)
  ultimately show ?thesis
    using assms(2)
    by (simp add: redis_del_def db_only_execute_def lanes_agree_def same_answer_def Let_def case_prod_unfold)
qed

text \<open>What a read of the cache returns, and that it leaves the cache as it was seen.\<close>

definition same_cache :: "pyfloat \<Rightarrow> pystr \<Rightarrow> redis_client \<Rightarrow> documents \<Rightarrow> redis_client \<Rightarrow> bool" where
  "same_cache now key c docs c1 \<longleftrightarrow> coherent c1 docs \<and> client_live now c1 key = client_live now c key \<and>
     client_max_memory c1 = client_max_memory c"

lemma same_cacheI:
  assumes "coherent c docs"
  shows "same_cache now key c docs c" "same_cache now key c docs (client_touch key c)"
    "client_live now c key = None \<Longrightarrow> same_cache now key c docs (snd (client_delete key c))"
proof -
  show "same_cache now key c docs c" "same_cache now key c docs (client_touch key c)"
    using assms by (simp_all add: same_cache_def coherent_def client_live_def)
  show "same_cache now key c docs (snd (client_delete key c))" if "client_live now c key = None"
    using that assms coherent_subcache[OF subcache_delete[OF coherent_wf[OF assms]] assms, of key]
    by (simp add: same_cache_def) (simp add: client_live_def dict_simps)
qed

lemma client_get_seen:
  assumes "coherent c docs"
  obtains c1 where "same_cache now key c docs c1"
    "client_get now key c =
      (case client_live now c key of
         None \<Rightarrow> Inr None
       | Some e \<Rightarrow> (case entry_value e of RString v \<Rightarrow> Inr (Some v) | RHash _ \<Rightarrow> type_error), c1)"
proof (rule that[of "snd (client_get now key c)"])
  show "same_cache now key c docs (snd (client_get now key c))"
    using same_cacheI[OF assms, of now key]
    by (auto simp: client_get_def client_live_def split: option.splits redis_value.splits)
qed (auto simp: client_get_def client_live_def split: option.splits redis_value.splits)

lemma client_hgetall_seen:
  assumes "coherent c docs"
  obtains c1 where "same_cache now key c docs c1"
    "client_hgetall now key c =
      (case client_live now c key of
         None \<Rightarrow> Inr None
       | Some e \<Rightarrow> (case entry_value e of RHash fs \<Rightarrow> Inr (Some fs) | RString _ \<Rightarrow> type_error), c1)"
proof (rule that[of "snd (client_hgetall now key c)"])
  show "same_cache now key c docs (snd (client_hgetall now key c))"
    using same_cacheI[OF assms, of now key]
    by (auto simp: client_hgetall_def client_live_def split: option.splits redis_value.splits)
qed (auto simp: client_hgetall_def client_live_def split: option.splits redis_value.splits)

lemma client_hget_seen:
  assumes "coherent c docs"
  obtains c1 where "same_cache now key c docs c1"
    "client_hget now key f c =
      (case client_live now c key of
         None \<Rightarrow> Inr None
       | Some e \<Rightarrow> (case entry_value e of RHash fs \<Rightarrow> Inr (map_of fs f) | RString _ \<Rightarrow> type_error), c1)"
proof (rule that[of "snd (client_hget now key f c)"])
  show "same_cache now key c docs (snd (client_hget now key f c))"
    using same_cacheI[OF assms, of now key]
    by (auto simp: client_hget_def client_live_def split: option.splits redis_value.splits)
qed (auto simp: client_hget_def client_live_def split: option.splits redis_value.splits)

lemma coherent_live:
  "coherent c docs \<Longrightarrow> client_live now c key = Some e \<Longrightarrow> map_of docs key = Some (doc_of (entry_value e))"
  by (auto simp: coherent_def dest: client_live_SomeD)

lemmas agree_defs = db_only_execute_def lanes_agree_def same_answer_def Let_def case_prod_unfold
  mongo_read_def mongo_hget_def mongo_hgetall_def serialize_hash_def

lemma agree_get:
  assumes coh: "coherent c docs" and cmd: "request_command req = lit ''GET''"
  shows "lanes_agree (redis_get dttl now req (c, docs)) (db_only_execute req docs)"
proof -
  let ?key = "request_key req"
  obtain c1 where same: "same_cache now ?key c docs c1"
    and get: "client_get now ?key c =
      (case client_live now c ?key of
         None \<Rightarrow> Inr None
       | Some e \<Rightarrow> (case entry_value e of RString v \<Rightarrow> Inr (Some v) | RHash _ \<Rightarrow> type_error), c1)"
    using client_get_seen[OF coh] by blast
  have coh1: "coherent c1 docs" using same by (simp add: same_cache_def)
  show ?thesis
  proof (cases "client_live now c ?key")
    case (Some e)
    then show ?thesis
      using get coherent_live[OF coh Some] coh1 cmd
      by (cases "entry_value e") (simp_all add: redis_get_def agree_defs)
  next
    case None
    have "coherent (client_set now ?key v c1) docs" if "map_of docs ?key = Some (StringDoc v)" for v
      using coh1 that by (rule coherent_set) simp
    then show ?thesis
      using None get coh1 cmd coherent_expire_block
      by (cases "map_of docs ?key") (auto simp: redis_get_def agree_defs split: arena_document.splits)
  qed
qed

lemma agree_hash_miss:
  assumes coh: "coherent c docs" and docs: "sound_docs docs" and none: "client_max_memory c = None"
    and miss: "client_live now c (request_key req) = None"
  shows "coherent (fst (snd (hash_miss dttl now req preview t (c, docs)))) docs"
    and "snd (snd (hash_miss dttl now req preview t (c, docs))) = docs"
    and "same_answer (fst (hash_miss dttl now req preview t (c, docs)))
      (case mongo_hgetall (request_key req) docs of
         Inl e \<Rightarrow> db_error req e t'
       | Inr fs \<Rightarrow> db_ok req (with_answer (Option.bind fs preview) (get_answer (Option.bind fs preview)) t'))"
proof -
  let ?key = "request_key req" and ?ttl = "redis_ttl_for_request dttl (ttl_enabled req) (ttl_seconds req)"
  have fill: "fst (fill_hash now ?key fs ?ttl c) = Inr () \<and> coherent (snd (fill_hash now ?key fs ?ttl c)) docs"
    if "map_of docs ?key = Some (HashDoc fs)" for fs
    using that docs miss by (intro coherent_fill[OF coh none]) (auto simp: sound_docs_def)
  note unf = hash_miss_def same_answer_def Let_def mongo_hgetall_def case_prod_unfold
  show "coherent (fst (snd (hash_miss dttl now req preview t (c, docs)))) docs"
    "snd (snd (hash_miss dttl now req preview t (c, docs))) = docs"
    "same_answer (fst (hash_miss dttl now req preview t (c, docs)))
      (case mongo_hgetall (request_key req) docs of
         Inl e \<Rightarrow> db_error req e t'
       | Inr fs \<Rightarrow> db_ok req (with_answer (Option.bind fs preview) (get_answer (Option.bind fs preview)) t'))"
    using fill coh
    by (cases "map_of docs ?key"; auto simp: unf split: arena_document.splits sum.splits option.splits)+
qed

lemma agree_hget:
  assumes coh: "coherent c docs" and docs: "sound_docs docs" and none: "client_max_memory c = None"
    and cmd: "request_command req = lit ''HGET''"
  shows "lanes_agree (redis_hget dttl now req (c, docs)) (db_only_execute req docs)"
proof -
  let ?key = "request_key req" and ?f = "or_empty (request_field req)"
  obtain c1 where same1: "same_cache now ?key c docs c1"
    and get: "client_hget now ?key ?f c =
      (case client_live now c ?key of
         None \<Rightarrow> Inr None
       | Some e \<Rightarrow> (case entry_value e of RHash fs \<Rightarrow> Inr (map_of fs ?f) | RString _ \<Rightarrow> type_error), c1)"
    using client_hget_seen[OF coh] by blast
  have coh1: "coherent c1 docs" using same1 by (simp add: same_cache_def)
  obtain c2 where same2: "same_cache now ?key c1 docs c2"
    and all: "client_hgetall now ?key c1 =
      (case client_live now c1 ?key of
         None \<Rightarrow> Inr None
       | Some e \<Rightarrow> (case entry_value e of RHash fs \<Rightarrow> Inr (Some fs) | RString _ \<Rightarrow> type_error), c2)"
    using client_hgetall_seen[OF coh1] by blast
  have coh2: "coherent c2 docs" and live: "client_live now c1 ?key = client_live now c ?key"
    "client_live now c2 ?key = client_live now c ?key" and none2: "client_max_memory c2 = None"
    using same1 same2 none by (simp_all add: same_cache_def)
  show ?thesis
  proof (cases "client_live now c ?key")
    case (Some e)
    then show ?thesis
      using get all live coherent_live[OF coh Some] coh1 coh2 cmd
      by (cases "entry_value e") (auto simp: redis_hget_def agree_defs split: option.splits)
  next
    case None
    let ?t = "add_path [''redis_read''] trace0" and ?p = "\<lambda>fs. map_of fs ?f"
    have "redis_hget dttl now req (c, docs) = hash_miss dttl now req ?p ?t (c2, docs)"
      using None get all live by (simp add: redis_hget_def Let_def)
    moreover note agree_hash_miss[OF coh2 docs none2, of now req dttl ?p ?t]
    ultimately show ?thesis
      using None live cmd
      by (cases "map_of docs ?key") (auto simp: agree_defs split: arena_document.splits)
  qed
qed

lemma agree_hgetall:
  assumes coh: "coherent c docs" and docs: "sound_docs docs" and none: "client_max_memory c = None"
    and cmd: "request_command req = lit ''HGETALL''"
  shows "lanes_agree (redis_hgetall dttl now req (c, docs)) (db_only_execute req docs)"
proof -
  let ?key = "request_key req"
  obtain c1 where same: "same_cache now ?key c docs c1"
    and all: "client_hgetall now ?key c =
      (case client_live now c ?key of
         None \<Rightarrow> Inr None
       | Some e \<Rightarrow> (case entry_value e of RHash fs \<Rightarrow> Inr (Some fs) | RString _ \<Rightarrow> type_error), c1)"
    using client_hgetall_seen[OF coh] by blast
  have coh1: "coherent c1 docs" and live: "client_live now c1 ?key = client_live now c ?key"
    and none1: "client_max_memory c1 = None"
    using same none by (simp_all add: same_cache_def)
  show ?thesis
  proof (cases "client_live now c ?key")
    case (Some e)
    then show ?thesis
      using all coherent_live[OF coh Some] coh1 cmd
      by (cases "entry_value e") (auto simp: redis_hgetall_def agree_defs)
  next
    case None
    let ?t = "add_path [''redis_read''] trace0" and ?p = "\<lambda>fs. serialize_hash (Some fs)"
    have "redis_hgetall dttl now req (c, docs) = hash_miss dttl now req ?p ?t (c1, docs)"
      using None all by (simp add: redis_hgetall_def Let_def)
    moreover note agree_hash_miss[OF coh1 docs none1, of now req dttl ?p ?t]
    ultimately show ?thesis
      using None live cmd
      by (cases "map_of docs ?key") (auto simp: agree_defs split: arena_document.splits)
  qed
qed

text \<open>\<open>HSET\<close> agrees when the hash is in the cache, is no hash, or does not exist yet.\<close>

definition hset_covered :: "pyfloat \<Rightarrow> pystr \<Rightarrow> lane_state \<Rightarrow> bool" where
  "hset_covered now key w \<longleftrightarrow> client_live now (fst w) key \<noteq> None \<or>
     (\<forall>fs. map_of (snd w) key \<noteq> Some (HashDoc fs))"

lemma agree_hset:
  assumes coh: "coherent c docs" and cmd: "request_command req = lit ''HSET''"
    and covered: "hset_covered now (request_key req) (c, docs)"
  shows "lanes_agree (redis_hset dttl now req (c, docs)) (db_only_execute req docs)"
proof -
  let ?key = "request_key req" and ?f = "or_empty (request_field req)" and ?v = "or_empty (request_value req)"
  obtain r docs1 where h: "mongo_hset ?key ?f ?v docs = (r, docs1)" by force
  show ?thesis
  proof (cases r)
    case (Inl e)
    then have "docs1 = docs"
      using h by (auto simp: mongo_hset_def Let_def split: option.splits arena_document.splits)
    then show ?thesis using Inl h coh cmd by (simp add: redis_hset_def agree_defs)
  next
    case (Inr ws)
    have "map_of docs ?key = None \<or> client_live now c ?key \<noteq> None"
      using covered h Inr
      by (auto simp: hset_covered_def mongo_hset_def split: option.splits arena_document.splits)
    then have "fst (client_hset now ?key ?f ?v c) = Inr ()" "coherent (snd (client_hset now ?key ?f ?v c)) docs1"
      using coherent_hset[OF coh, of ?key ?f ?v ws docs1] h Inr by blast+
    then show ?thesis
      using Inr h cmd coherent_expire_block
      by (cases "client_hset now ?key ?f ?v c") (auto simp: redis_hset_def agree_defs)
  qed
qed

lemma lanes_agree_execute:
  assumes "coherent c docs" "sound_docs docs"
    and "request_command req \<in> {lit ''HGET'', lit ''HGETALL''} \<Longrightarrow> client_max_memory c = None"
    and "request_command req = lit ''HSET'' \<Longrightarrow> hset_covered now (request_key req) (c, docs)"
  shows "lanes_agree (redis_db_execute dttl now req (c, docs)) (db_only_execute req docs)"
  using assms agree_set agree_get agree_hset agree_hget agree_hgetall agree_del
  by (auto simp: redis_db_execute_def Let_def)
    (simp add: db_only_execute_def lanes_agree_def same_answer_def Let_def)

lemma db_only_docs:
  "snd (db_only_execute req docs) \<in>
     {docs, snd (mongo_write (request_key req) (or_empty (request_value req)) docs),
      snd (mongo_hset (request_key req) (or_empty (request_field req)) (or_empty (request_value req)) docs),
      mongo_remove (request_key req) docs}"
  by (simp add: db_only_execute_def Let_def case_prod_unfold split: sum.splits)

lemma sound_docs_writes:
  assumes "sound_docs docs"
  shows "sound_docs (snd (mongo_write key v docs))" "sound_docs (snd (mongo_hset key f v docs))"
    "sound_docs (mongo_remove key docs)"
proof -
  show "sound_docs (snd (mongo_write key v docs))" "sound_docs (mongo_remove key docs)"
    using assms by (simp_all add: sound_docs_def mongo_write_def mongo_remove_eq Let_def dict_simps)
  show "sound_docs (snd (mongo_hset key f v docs))"
    using assms by (auto simp: sound_docs_def mongo_hset_def Let_def dict_simps wf_dict_single
        split: option.splits arena_document.splits if_splits)
qed

lemma sound_docs_execute: "sound_docs docs \<Longrightarrow> sound_docs (snd (db_only_execute req docs))"
  using db_only_docs[of req docs] sound_docs_writes by auto

text \<open>The answers of a lane to a sequence of requests, each at its reading of the clock.\<close>

fun cached_run :: "pyfloat \<Rightarrow> (pyfloat \<times> arena_request) list \<Rightarrow> lane_state \<Rightarrow> lane_result list" where
  "cached_run dttl [] w = []"
| "cached_run dttl ((now, req) # rest) w =
     (case redis_db_execute dttl now req w of (r, w1) \<Rightarrow> r # cached_run dttl rest w1)"

fun plain_run :: "(pyfloat \<times> arena_request) list \<Rightarrow> documents \<Rightarrow> lane_result list" where
  "plain_run [] docs = []"
| "plain_run ((now, req) # rest) docs =
     (case db_only_execute req docs of (r, docs1) \<Rightarrow> r # plain_run rest docs1)"

end
