(* ===== verification/Models.thy ===== *)
theory Models
  imports Lanes
begin

text \<open>
  The records that travel between the gateway and the lanes (\<open>internal/arena/common/models.py\<close>), and
  their conversions to and from dictionaries.

  A dictionary is a record with one optional value per key the code looks up: \<open>None\<close> for a missing
  key (and, where the code takes both the same way, for \<open>null\<close>). Values have the annotated types, as
  they have in every dictionary the two sides send each other.

  Main result: a request and a result arrive as they were sent, except that a service time of zero is
  replaced by the latency.
\<close>

section \<open>Requests\<close>

record request_payload =
  p_request_id :: "pystr option"
  p_mode :: "pystr option"
  p_command :: "pystr option"
  p_key :: "pystr option"
  p_field :: "pystr option"
  p_value :: "pystr option"
  p_ttl_enabled :: "bool option"
  p_ttl_seconds :: "pyfloat option"

text \<open>\<open>payload[key]\<close>.\<close>

definition required :: "'a option \<Rightarrow> py_exc + 'a" where
  "required v = (case v of None \<Rightarrow> Inl KeyError | Some x \<Rightarrow> Inr x)"

text \<open>\<open>payload.get(key, default)\<close>.\<close>

definition get_default :: "'a option \<Rightarrow> 'a \<Rightarrow> 'a" where
  "get_default v d = (case v of None \<Rightarrow> d | Some x \<Rightarrow> x)"

lemma payload_simps [simp]:
  "required (Some x) = Inr x" "required None = Inl KeyError"
  "get_default (Some x) d = x" "get_default None d = d"
  by (simp_all add: required_def get_default_def)

definition request_to_dict :: "arena_request \<Rightarrow> request_payload" where
  "request_to_dict r =
     \<lparr>p_request_id = Some (request_id r), p_mode = Some (mode r), p_command = Some (request_command r),
      p_key = Some (request_key r), p_field = request_field r, p_value = request_value r,
      p_ttl_enabled = Some (ttl_enabled r), p_ttl_seconds = ttl_seconds r\<rparr>"

definition request_from_dict :: "request_payload \<Rightarrow> py_exc + arena_request" where
  "request_from_dict p =
     rbind (required (p_request_id p)) (\<lambda>i. rbind (required (p_mode p)) (\<lambda>md.
     rbind (required (p_command p)) (\<lambda>c. rbind (required (p_key p)) (\<lambda>k.
       Inr \<lparr>request_id = i, mode = md, request_command = c, request_key = k, request_field = p_field p,
            request_value = p_value p, ttl_enabled = get_default (p_ttl_enabled p) False,
            ttl_seconds = p_ttl_seconds p\<rparr>))))"

section \<open>Results\<close>

record lane_metrics =
  service_time_ms :: pyfloat
  db_time_ms :: pyfloat
  redis_time_ms :: pyfloat
  started_at_ns :: int
  finished_at_ns :: int
  gateway_round_trip_ms :: "pyfloat option"

definition metrics_default :: lane_metrics where
  "metrics_default =
     \<lparr>service_time_ms = Finite 0, db_time_ms = Finite 0, redis_time_ms = Finite 0, started_at_ns = 0,
      finished_at_ns = 0, gateway_round_trip_ms = None\<rparr>"

record lane_reply = lane_result +
  latency_ms :: pyfloat
  reply_metrics :: lane_metrics

record cache_payload =
  p_hit :: "bool option"
  p_miss :: "bool option"

record metrics_payload =
  p_service_time_ms :: "pyfloat option"
  p_db_time_ms :: "pyfloat option"
  p_redis_time_ms :: "pyfloat option"
  p_started_at_ns :: "int option"
  p_finished_at_ns :: "int option"
  p_gateway_round_trip_ms :: "pyfloat option"

record result_payload =
  p_result_id :: "pystr option"
  p_lane :: "pystr option"
  p_status :: "pystr option"
  p_latency_ms :: "pyfloat option"
  p_answer_text :: "pystr option"
  p_answer_kind :: "pystr option"
  p_value_preview :: "pystr option"
  p_path :: "pystr list option"
  p_storage_changes :: "pystr list option"
  p_cache :: "cache_payload option"
  p_mongo_reads :: "nat option"
  p_metrics :: "metrics_payload option"

definition metrics_to_dict :: "lane_metrics \<Rightarrow> metrics_payload" where
  "metrics_to_dict m =
     \<lparr>p_service_time_ms = Some (service_time_ms m), p_db_time_ms = Some (db_time_ms m),
      p_redis_time_ms = Some (redis_time_ms m), p_started_at_ns = Some (started_at_ns m),
      p_finished_at_ns = Some (finished_at_ns m), p_gateway_round_trip_ms = gateway_round_trip_ms m\<rparr>"

definition metrics_from_dict :: "metrics_payload option \<Rightarrow> lane_metrics" where
  "metrics_from_dict payload =
     (case payload of
        None \<Rightarrow> metrics_default
      | Some p \<Rightarrow>
          \<lparr>service_time_ms = get_default (p_service_time_ms p) (Finite 0),
           db_time_ms = get_default (p_db_time_ms p) (Finite 0),
           redis_time_ms = get_default (p_redis_time_ms p) (Finite 0),
           started_at_ns = get_default (p_started_at_ns p) 0,
           finished_at_ns = get_default (p_finished_at_ns p) 0,
           gateway_round_trip_ms = p_gateway_round_trip_ms p\<rparr>)"

definition cache_from_dict :: "cache_payload option \<Rightarrow> bool \<times> bool" where
  "cache_from_dict payload =
     (case payload of
        None \<Rightarrow> (False, False)
      | Some p \<Rightarrow> (get_default (p_hit p) False, get_default (p_miss p) False))"

definition result_to_dict :: "lane_reply \<Rightarrow> result_payload" where
  "result_to_dict r =
     \<lparr>p_result_id = Some (result_request_id r), p_lane = Some (lane r), p_status = Some (status r),
      p_latency_ms = Some (latency_ms r), p_answer_text = answer_text r, p_answer_kind = answer_kind r,
      p_value_preview = value_preview r, p_path = Some (path r),
      p_storage_changes = Some (storage_changes r),
      p_cache = Some \<lparr>p_hit = Some (cache_hit r), p_miss = Some (cache_miss r)\<rparr>,
      p_mongo_reads = Some (mongo_reads r), p_metrics = Some (metrics_to_dict (reply_metrics r))\<rparr>"

text \<open>\<open>x == 0.0\<close>.\<close>

definition is_zero :: "pyfloat \<Rightarrow> bool" where
  "is_zero x \<longleftrightarrow> x = Finite 0 \<or> x = NegZero"

definition result_from_dict :: "result_payload \<Rightarrow> py_exc + lane_reply" where
  "result_from_dict p =
     (let ms = metrics_from_dict (p_metrics p);
          latency = get_default (p_latency_ms p) (service_time_ms ms);
          ms1 = (if is_zero (service_time_ms ms) then ms\<lparr>service_time_ms := latency\<rparr> else ms);
          (hit, miss) = cache_from_dict (p_cache p)
      in rbind (required (p_result_id p)) (\<lambda>i. rbind (required (p_lane p)) (\<lambda>l.
         rbind (required (p_status p)) (\<lambda>st.
           Inr \<lparr>result_request_id = i, lane = l, status = st, answer_text = p_answer_text p,
                answer_kind = p_answer_kind p, value_preview = p_value_preview p,
                path = get_default (p_path p) [], storage_changes = get_default (p_storage_changes p) [],
                cache_hit = hit, cache_miss = miss, mongo_reads = get_default (p_mongo_reads p) 0,
                latency_ms = latency, reply_metrics = ms1\<rparr>))))"

section \<open>Round trips\<close>

lemma request_roundtrip: "request_from_dict (request_to_dict r) = Inr r"
  by (simp add: request_from_dict_def request_to_dict_def)

lemma metrics_roundtrip: "metrics_from_dict (Some (metrics_to_dict m)) = m"
  by (simp add: metrics_from_dict_def metrics_to_dict_def)

definition timed :: "lane_reply \<Rightarrow> lane_reply" where
  "timed r =
     (if is_zero (service_time_ms (reply_metrics r))
      then r\<lparr>reply_metrics := reply_metrics r\<lparr>service_time_ms := latency_ms r\<rparr>\<rparr> else r)"

lemma result_roundtrip: "result_from_dict (result_to_dict r) = Inr (timed r)"
  by (simp add: result_from_dict_def result_to_dict_def metrics_roundtrip cache_from_dict_def timed_def Let_def)

lemma truncate_timed [simp]: "lane_result.truncate (timed r) = lane_result.truncate r"
  by (simp add: timed_def lane_result.defs)

end
