(* ===== verification/Events.thy ===== *)
theory Events
  imports Prelude
begin

text \<open>
  The events of the arena (\<open>internal/arena/events\<close>): \<open>ArenaEventBus\<close>, which hands every published
  event to each subscriber's queue, and \<open>EventHistory\<close>, the bounded list a new client is shown first.

  A queue is an object; here it is a number that is never used twice, and the bus maps the number of
  each subscribed queue to the events waiting in it. \<open>queue_get\<close> is what a subscriber does with its
  queue (\<open>queue.get()\<close>, with \<open>None\<close> for nothing waiting).

  Main results: a subscriber receives the events published after its subscription, all of them, once
  and in order; the history holds the last events and never more than its bound.
\<close>

section \<open>The bus\<close>

record 'e event_bus =
  subscribers :: "(nat, 'e list) dict"
  next_queue :: nat

definition bus_init :: "'e event_bus" where
  "bus_init = \<lparr>subscribers = [], next_queue = 0\<rparr>"

definition bus_publish :: "'e \<Rightarrow> 'e event_bus \<Rightarrow> 'e event_bus" where
  "bus_publish envelope b =
     b\<lparr>subscribers := map (\<lambda>(q, waiting). (q, waiting @ [envelope])) (subscribers b)\<rparr>"

definition bus_subscribe :: "'e event_bus \<Rightarrow> nat \<times> 'e event_bus" where
  "bus_subscribe b =
     (next_queue b,
      b\<lparr>subscribers := AList.update (next_queue b) [] (subscribers b), next_queue := next_queue b + 1\<rparr>)"

definition bus_unsubscribe :: "nat \<Rightarrow> 'e event_bus \<Rightarrow> 'e event_bus" where
  "bus_unsubscribe q b = b\<lparr>subscribers := AList.delete q (subscribers b)\<rparr>"

definition queue_get :: "nat \<Rightarrow> 'e event_bus \<Rightarrow> 'e option \<times> 'e event_bus" where
  "queue_get q b =
     (case map_of (subscribers b) q of
        Some (e # rest) \<Rightarrow> (Some e, b\<lparr>subscribers := AList.update q rest (subscribers b)\<rparr>)
      | _ \<Rightarrow> (None, b))"

section \<open>The history\<close>

text \<open>\<open>events[-n:]\<close>: the last \<open>n\<close> for a positive \<open>n\<close>, everything for zero.\<close>

definition tail_slice :: "int \<Rightarrow> 'e list \<Rightarrow> 'e list" where
  "tail_slice n xs = (if 0 < n then drop (length xs - nat n) xs else drop (nat (- n)) xs)"

record 'e event_history =
  max_events :: int
  events :: "'e list"

definition history_init :: "'e event_history" where
  "history_init = \<lparr>max_events = 200, events = []\<rparr>"

definition history_append :: "'e \<Rightarrow> 'e event_history \<Rightarrow> 'e event_history" where
  "history_append envelope h = h\<lparr>events := tail_slice (max_events h) (events h @ [envelope])\<rparr>"

definition history_snapshot :: "'e event_history \<Rightarrow> 'e list" where
  "history_snapshot h = events h"

definition history_clear :: "'e event_history \<Rightarrow> 'e event_history" where
  "history_clear h = h\<lparr>events := []\<rparr>"

lemma tail_slice_snoc:
  "0 < n \<Longrightarrow> tail_slice n (tail_slice n xs @ [x]) = tail_slice n (xs @ [x])"
  by (cases "nat n \<le> length xs") (auto simp: tail_slice_def Suc_diff_le)

lemma history_append_max [simp]: "max_events (history_append e h) = max_events h"
  by (simp add: history_append_def)

lemma history_append_last: "0 < max_events h \<Longrightarrow> last (events (history_append e h)) = e"
  by (simp add: history_append_def tail_slice_def)

text \<open>After any number of appends the history is the end of everything that was appended.\<close>

lemma history_fold:
  assumes "0 < max_events h" "events h = tail_slice (max_events h) es"
  shows "events (fold history_append xs h) = tail_slice (max_events h) (es @ xs)"
  using assms
proof (induction xs arbitrary: h es)
  case (Cons x xs)
  have "events (history_append x h) = tail_slice (max_events h) (es @ [x])"
    using Cons.prems by (simp add: history_append_def tail_slice_snoc)
  then show ?case using Cons.IH[of "history_append x h" "es @ [x]"] Cons.prems(1) by simp
qed simp

section \<open>Delivery\<close>

datatype 'e bus_event = Publish 'e | Subscribe | Unsubscribe nat | Get nat

fun bus_step :: "'e bus_event \<Rightarrow> 'e event_bus \<Rightarrow> 'e event_bus" where
  "bus_step (Publish e) b = bus_publish e b"
| "bus_step Subscribe b = snd (bus_subscribe b)"
| "bus_step (Unsubscribe q) b = bus_unsubscribe q b"
| "bus_step (Get q) b = snd (queue_get q b)"

text \<open>What the owner of queue \<open>q\<close> receives, and what is published, in a sequence of bus operations.\<close>

fun received :: "nat \<Rightarrow> 'e bus_event list \<Rightarrow> 'e event_bus \<Rightarrow> 'e list" where
  "received q [] b = []"
| "received q (op # rest) b =
     (case op of
        Get p \<Rightarrow> if p = q then (case fst (queue_get q b) of None \<Rightarrow> [] | Some e \<Rightarrow> [e]) else []
      | _ \<Rightarrow> []) @ received q rest (bus_step op b)"

fun published :: "'e bus_event list \<Rightarrow> 'e list" where
  "published [] = []"
| "published (op # rest) = (case op of Publish e \<Rightarrow> [e] | _ \<Rightarrow> []) @ published rest"

definition wf_bus :: "'e event_bus \<Rightarrow> bool" where
  "wf_bus b \<longleftrightarrow> (\<forall>q \<in> set (keys_of (subscribers b)). q < next_queue b)"

lemma map_of_map_snd:
  "map_of (map (\<lambda>(q, w). (q, f w)) d) k = map_option f (map_of d k)"
  by (induction d) auto

lemma keys_of_map_snd: "keys_of (map (\<lambda>(q, w). (q, f w)) d) = keys_of d"
  by (induction d) (auto simp: keys_of_def)

lemma queue_get_cases:
  assumes "map_of (subscribers b) q = Some w"
  shows "map_of (subscribers (snd (queue_get p b))) q = Some (if p = q then tl w else w)"
    "fst (queue_get q b) = (case w of [] \<Rightarrow> None | e # _ \<Rightarrow> Some e)"
    "next_queue (snd (queue_get p b)) = next_queue b"
  using assms by (auto simp: queue_get_def dict_simps split: option.splits list.splits)

lemma wf_bus_step: "wf_bus b \<Longrightarrow> wf_bus (bus_step op b)"
proof (cases op)
  case (Publish e)
  then show "wf_bus b \<Longrightarrow> ?thesis" by (simp add: wf_bus_def bus_publish_def keys_of_map_snd)
next
  case (Get q)
  then show "wf_bus b \<Longrightarrow> ?thesis"
    by (auto simp: wf_bus_def queue_get_def dict_simps keys_of_iff split: option.splits list.splits if_splits)
qed (auto simp: wf_bus_def bus_subscribe_def bus_unsubscribe_def dict_simps less_Suc_eq split: if_splits)

text \<open>The step of a queue that stays subscribed: received and waiting events are what was published.\<close>

lemma delivery:
  assumes "wf_bus b" "map_of (subscribers b) q = Some w" "Unsubscribe q \<notin> set ops"
  shows "\<exists>w'. map_of (subscribers (fold bus_step ops b)) q = Some w' \<and>
    received q ops b @ w' = w @ published ops"
  using assms
proof (induction ops arbitrary: b w)
  case (Cons op ops)
  have q: "q < next_queue b" using Cons.prems(1,2) by (auto simp: wf_bus_def keys_of_iff)
  have wf: "wf_bus (bus_step op b)" using Cons.prems(1) by (rule wf_bus_step)
  have rest: "Unsubscribe q \<notin> set ops" using Cons.prems(3) by simp
  note ih = Cons.IH[OF wf _ rest]
  show ?case
  proof (cases op)
    case (Publish e)
    then have "map_of (subscribers (bus_step op b)) q = Some (w @ [e])"
      using Cons.prems(2) by (simp add: bus_publish_def map_of_map_snd)
    from ih[OF this] show ?thesis using Publish by simp
  next
    case Subscribe
    then have "map_of (subscribers (bus_step op b)) q = Some w"
      using Cons.prems(2) q by (simp add: bus_subscribe_def dict_simps)
    from ih[OF this] show ?thesis using Subscribe by simp
  next
    case (Unsubscribe p)
    then have "map_of (subscribers (bus_step op b)) q = Some w"
      using Cons.prems(2,3) by (simp add: bus_unsubscribe_def dict_simps)
    from ih[OF this] show ?thesis using Unsubscribe by simp
  next
    case (Get p)
    note get = queue_get_cases(1)[OF Cons.prems(2), of p] queue_get_cases(2)[OF Cons.prems(2)]
    from ih[of "if p = q then tl w else w"] show ?thesis
      using get Get by (cases w) (auto split: if_splits)
  qed
qed simp

end
