(* ===== verification/Workloads.thy ===== *)
theory Workloads
  imports PyText
begin

text \<open>
  The scenarios of the arena (\<open>internal/arena/scenario/workloads.py\<close>, \<open>models.py\<close>): the plans of
  requests the scenario runner sends. The delay before each action, 0.05 seconds everywhere, is kept
  as a number of milliseconds.

  Main results: a plan has \<open>max(users * duration, 1)\<close> actions; in a read plan every block of a
  hundred requests has exactly the requested percentage on the four hot keys, and every request asks
  for a seeded document; a write plan writes each key once; a block of ten of a mixed plan has six
  reads, two writes and two deletions.
\<close>

record scenario_action =
  action_command :: pystr
  action_key :: pystr
  action_value :: "pystr option"
  delay_ms :: nat

record scenario_plan =
  actions :: "scenario_action list"
  seed_docs :: "(pystr, pystr) dict"

definition READ_LEVELS :: "int list" where
  "READ_LEVELS = [0, 20, 40, 60, 80, 100]"

definition CATALOG_SIZE :: nat where "CATALOG_SIZE = 24"
definition HOTSET_SIZE :: nat where "HOTSET_SIZE = 4"
definition ACTION_DELAY_MS :: nat where "ACTION_DELAY_MS = 50"

text \<open>The format \<open>{n:0wd}\<close>: leading zeros up to a width.\<close>

definition zero_pad :: "nat \<Rightarrow> nat \<Rightarrow> pystr" where
  "zero_pad w n = replicate (w - length (show_nat n)) 48 @ show_nat n"

definition quoted :: "pystr \<Rightarrow> pystr" where
  "quoted s = [34] @ s @ [34]"

definition value_for_index :: "nat \<Rightarrow> pystr \<Rightarrow> pystr" where
  "value_for_index index tag =
     lit ''{'' @ quoted (lit ''tag'') @ lit '':'' @ quoted tag @ lit '','' @
     quoted (lit ''id'') @ lit '':'' @ show_nat index @ lit '','' @
     quoted (lit ''title'') @ lit '':'' @ quoted (lit ''arena-'' @ tag @ lit ''-'' @ zero_pad 3 index) @ lit '','' @
     quoted (lit ''body'') @ lit '':'' @
     quoted (lit ''payload-'' @ zero_pad 2 (index mod 7 + 1) @ lit ''-abcdefghij'') @ lit ''}''"

definition catalog_key :: "nat \<Rightarrow> pystr" where
  "catalog_key index = lit ''s:r:'' @ zero_pad 3 index"

definition build_catalog_documents :: "(pystr, pystr) dict" where
  "build_catalog_documents =
     fold (\<lambda>index. AList.update (catalog_key index) (value_for_index index (lit ''read''))) [0..<CATALOG_SIZE] []"

definition total_of :: "int \<Rightarrow> int \<Rightarrow> nat" where
  "total_of users duration_seconds = nat (max (users * duration_seconds) 1)"

definition hot_keys :: "pystr list" where
  "hot_keys = take HOTSET_SIZE (keys_of build_catalog_documents)"

definition cold_keys :: "pystr list" where
  "cold_keys = drop HOTSET_SIZE (keys_of build_catalog_documents)"

text \<open>\<open>pool[index % len(pool)]\<close>.\<close>

definition pick :: "pystr list \<Rightarrow> nat \<Rightarrow> pystr" where
  "pick pool index = pool ! (index mod length pool)"

definition action :: "string \<Rightarrow> pystr \<Rightarrow> pystr option \<Rightarrow> scenario_action" where
  "action c key v =
     \<lparr>action_command = lit c, action_key = key, action_value = v, delay_ms = ACTION_DELAY_MS\<rparr>"

definition is_hot :: "int \<Rightarrow> nat \<Rightarrow> bool" where
  "is_hot hot_percent index = (int (index * 37 mod 100) < hot_percent)"

definition read_action :: "int \<Rightarrow> nat \<Rightarrow> scenario_action" where
  "read_action hot_percent index =
     action ''GET'' (pick (if is_hot hot_percent index then hot_keys else cold_keys) index) None"

definition build_read_plan :: "int \<Rightarrow> int \<Rightarrow> int \<Rightarrow> py_exc + scenario_plan" where
  "build_read_plan users duration_seconds hot_percent =
     (if hot_percent \<notin> set READ_LEVELS then Inl ValueError
      else Inr \<lparr>actions = map (read_action hot_percent) [0..<total_of users duration_seconds],
                seed_docs = build_catalog_documents\<rparr>)"

definition write_key :: "nat \<Rightarrow> pystr" where
  "write_key index = lit ''s:w:'' @ zero_pad 3 index"

definition build_write_plan :: "int \<Rightarrow> int \<Rightarrow> scenario_plan" where
  "build_write_plan users duration_seconds =
     \<lparr>actions = map (\<lambda>index. action ''SET'' (write_key index) (Some (value_for_index index (lit ''write''))))
        [0..<total_of users duration_seconds],
      seed_docs = []\<rparr>"

definition mixed_action :: "nat \<Rightarrow> scenario_action" where
  "mixed_action index =
     (let phase = index mod 10 in
      if phase \<le> 5 then
        action ''GET'' (pick (if phase \<in> {0, 1, 2, 3} then hot_keys else cold_keys) index) None
      else if phase \<in> {6, 7} then
        action ''SET'' (if phase = 6 then pick hot_keys index else lit ''s:m:w:'' @ zero_pad 3 index)
          (Some (value_for_index index (lit ''mixed'')))
      else action ''DEL'' (if phase = 8 then pick cold_keys index else pick hot_keys index) None)"

definition build_mixed_plan :: "int \<Rightarrow> int \<Rightarrow> scenario_plan" where
  "build_mixed_plan users duration_seconds =
     \<lparr>actions = map mixed_action [0..<total_of users duration_seconds],
      seed_docs = build_catalog_documents\<rparr>"

section \<open>The catalog\<close>

text \<open>Zero padding keeps the number, so padded keys are distinct.\<close>

lemma zero_pad_value: "foldl (\<lambda>a c. 10 * a + (c - 48)) 0 (zero_pad w n) = n"
proof -
  have "foldl (\<lambda>a c. 10 * a + (c - 48)) (0 :: nat) (replicate k 48) = 0" for k
    by (induction k) auto
  then show ?thesis by (simp add: zero_pad_def foldl_show_nat)
qed

lemma zero_pad_inject: "zero_pad w m = zero_pad w n \<longleftrightarrow> m = n"
  by (metis zero_pad_value)

lemma keys_of_fold_update:
  "distinct (keys_of d @ map f xs) \<Longrightarrow>
   keys_of (fold (\<lambda>x. AList.update (f x) (g x)) xs d) = keys_of d @ map f xs"
  by (induction xs arbitrary: d) (auto simp: dict_simps)

lemma catalog_keys:
  "keys_of build_catalog_documents = map catalog_key [0..<24]" "length hot_keys = 4" "length cold_keys = 20"
proof -
  show keys: "keys_of build_catalog_documents = map catalog_key [0..<24]"
    unfolding build_catalog_documents_def CATALOG_SIZE_def
    by (subst keys_of_fold_update)
      (simp_all add: distinct_map inj_on_def catalog_key_def zero_pad_inject keys_of_def)
  show "length hot_keys = 4" "length cold_keys = 20"
    by (simp_all add: hot_keys_def cold_keys_def keys HOTSET_SIZE_def)
qed

lemma catalog_split: "hot_keys @ cold_keys = keys_of build_catalog_documents"
  by (simp add: hot_keys_def cold_keys_def)

lemma pick_member: "pool \<noteq> [] \<Longrightarrow> pick pool index \<in> set pool"
  by (simp add: pick_def)

lemma catalog_distinct: "wf_dict build_catalog_documents"
  using catalog_keys(1) by (simp add: wf_dict_def keys_of_def[symmetric] distinct_map inj_on_def
      catalog_key_def zero_pad_inject)

section \<open>The mix\<close>

text \<open>A property of the position that repeats after \<open>p\<close> steps, counted over whole periods.\<close>

lemma periodic_count:
  assumes "\<And>i. P (i + p) = P i"
  shows "length (filter P [0..<k * p]) = k * length (filter P [0..<p])"
proof (induction k)
  case (Suc k)
  have shift: "P (i + k * p) = P i" for i
  proof (induction k)
    case (Suc k)
    then show ?case using assms[of "i + k * p"] by (simp add: ac_simps)
  qed simp
  have "[0..<Suc k * p] = [0..<k * p] @ map (\<lambda>i. i + k * p) [0..<p]"
    using upt_add_eq_append[of 0 "k * p" p] by (simp add: map_add_upt add.commute)
  then have "length (filter P [0..<Suc k * p]) =
      length (filter P [0..<k * p]) + length (filter (\<lambda>i. P (i + k * p)) [0..<p])"
    by (simp add: filter_map comp_def)
  then show ?case using Suc by (simp add: shift)
qed simp

lemma is_hot_period: "is_hot h (i + 100) = is_hot h i"
proof -
  have "(i + 100) * 37 = i * 37 + 37 * 100" by simp
  then have "(i + 100) * 37 mod 100 = i * 37 mod 100" by (metis mod_mult_self1)
  then show ?thesis by (simp only: is_hot_def)
qed

text \<open>Multiplication by 37 permutes the residues modulo 100; 73 undoes it.\<close>

lemma residues_37: "bij_betw (\<lambda>i. i * 37 mod 100) {..<100} {..<100 :: nat}"
proof (rule bij_betw_byWitness[where f' = "\<lambda>j. j * 73 mod 100"])
  have undo: "i * (37 * 73) mod 100 = i" if "i < 100" for i :: nat
  proof -
    have "i * (37 * 73) = i + (27 * i) * 100" by simp
    then have "i * (37 * 73) mod 100 = i mod 100" by (metis mod_mult_self1)
    then show ?thesis using that by simp
  qed
  show "\<forall>i \<in> {..<100}. (i * 37 mod 100) * 73 mod 100 = (i :: nat)"
    using undo by (simp only: mod_mult_left_eq mult.assoc lessThan_iff) simp
  show "\<forall>j \<in> {..<100}. (j * 73 mod 100) * 37 mod 100 = (j :: nat)"
    using undo by (simp only: mod_mult_left_eq mult.assoc lessThan_iff mult.commute[of 73]) simp
qed auto

lemma hot_block: "h \<in> set READ_LEVELS \<Longrightarrow> int (length (filter (is_hot h) [0..<100])) = h"
proof -
  assume "h \<in> set READ_LEVELS"
  then have h: "0 \<le> h" "h \<le> 100" by (auto simp: READ_LEVELS_def)
  have "length (filter (is_hot h) [0..<100]) = card {i \<in> {..<100}. int (i * 37 mod 100) < h}"
    by (subst distinct_card[symmetric]) (auto simp: is_hot_def intro: arg_cong[where f = card])
  also have "\<dots> = card ((\<lambda>i. i * 37 mod 100) ` {i \<in> {..<100}. int (i * 37 mod 100) < h})"
    by (rule card_image[symmetric, OF inj_on_subset[OF bij_betw_imp_inj_on[OF residues_37]]]) blast
  also have "(\<lambda>i. i * 37 mod 100) ` {i \<in> {..<100}. int (i * 37 mod 100) < h} = {..<nat h}"
  proof -
    have "(\<lambda>i. i * 37 mod 100) ` {i \<in> {..<100}. int (i * 37 mod 100) < h} =
        {j \<in> (\<lambda>i. i * 37 mod 100) ` {..<100}. int j < h}" by blast
    also have "\<dots> = {j \<in> {..<100}. int j < h}" using residues_37 by (simp only: bij_betw_def)
    also have "\<dots> = {..<nat h}" using h by auto
    finally show ?thesis .
  qed
  finally show ?thesis using h by simp
qed

lemma hot_count:
  "h \<in> set READ_LEVELS \<Longrightarrow> int (length (filter (is_hot h) [0..<k * 100])) = int k * h"
  using periodic_count[of "is_hot h" 100 k, OF is_hot_period] hot_block[of h] by simp

lemma hot_key_iff: "action_key (read_action h i) \<in> set hot_keys \<longleftrightarrow> is_hot h i"
proof -
  have "distinct (hot_keys @ cold_keys)"
    using catalog_distinct by (simp add: catalog_split wf_dict_def keys_of_def[symmetric])
  moreover have "pick hot_keys i \<in> set hot_keys" "pick cold_keys i \<in> set cold_keys"
    using catalog_keys(2,3) by (auto intro!: pick_member)
  ultimately show ?thesis by (auto simp: read_action_def action_def)
qed

lemma read_action_known: "action_key (read_action h i) \<in> set (keys_of build_catalog_documents)"
proof -
  have "pick hot_keys i \<in> set hot_keys" "pick cold_keys i \<in> set cold_keys"
    using catalog_keys(2,3) by (auto intro!: pick_member)
  then show ?thesis by (auto simp: read_action_def action_def catalog_split[symmetric])
qed

lemma mixed_command:
  "action_command (mixed_action i) =
     (if i mod 10 \<le> 5 then lit ''GET'' else if i mod 10 \<le> 7 then lit ''SET'' else lit ''DEL'')"
proof -
  have "[0..<10] = [0, 1, 2, 3, 4, 5, 6, 7, 8, 9 :: nat]" by code_simp
  moreover have "i mod 10 \<in> set [0..<10]" by simp
  ultimately have "i mod 10 \<in> set [0, 1, 2, 3, 4, 5, 6, 7, 8, 9 :: nat]" by metis
  then show ?thesis by (auto simp: mixed_action_def action_def Let_def)
qed

lemma mixed_count:
  "length (filter (\<lambda>i. action_command (mixed_action i) = lit c) [0..<k * 10]) =
     k * (if c = ''GET'' then 6 else if c = ''SET'' then 2 else if c = ''DEL'' then 2 else 0)"
proof -
  let ?P = "\<lambda>i. action_command (mixed_action i) = lit c"
  have period: "?P (i + 10) = ?P i" for i by (simp only: mixed_command) simp
  have "[0..<10] = [0, 1, 2, 3, 4, 5, 6, 7, 8, 9 :: nat]" by code_simp
  then have "length (filter ?P [0..<10]) =
      (if c = ''GET'' then 6 else if c = ''SET'' then 2 else if c = ''DEL'' then 2 else 0)"
    by (simp add: mixed_command)
  then show ?thesis using periodic_count[of ?P 10 k, OF period] by simp
qed

end
