(* ===== verification/Gateway.thy ===== *)
theory Gateway
  imports Models Events
begin

text \<open>
  The gateway of the arena (\<open>internal/arena/gateway\<close>, \<open>control_profiles.py\<close>): it sends every request
  to both lanes, compares their results, publishes the comparison, and holds the controls (memory and
  time-to-live profile, the lock on the memory profile, the keys it has seen).

  A lane is whatever implements \<open>ArenaLaneExecutor\<close>: a record of its operations on its own state. The
  two lanes share nothing, so the concurrent calls of \<open>asyncio.gather\<close> are independent; both always
  run, and the exception of the call is that of the first lane that raised (here the cached lane when
  both do). The identifier of a request (a random number) is an argument.

  The contract of a lane is the locale \<open>lane\<close>: which requests and seedings it accepts, that it answers
  those, and what it may store (\<open>cached_lane\<close> adds the memory limit). The adapters are interpretations of it (\<open>Arena\<close>), and so are the lane
  servers behind their HTTP clients (\<open>LaneServer\<close>).
\<close>

section \<open>Control profiles\<close>

record memory_profile =
  memory_key :: pystr
  memory_label :: pystr
  profile_max_memory_bytes :: int

record ttl_profile =
  ttl_key :: pystr
  ttl_profile_label :: pystr
  profile_ttl_seconds :: pyfloat

definition MEMORY_PROFILES :: "(pystr, memory_profile) dict" where
  "MEMORY_PROFILES = map (\<lambda>(k, l, n). (lit k, \<lparr>memory_key = lit k, memory_label = lit l, profile_max_memory_bytes = n\<rparr>))
     [(''small'', ''256B'', 256), (''medium'', ''512B'', 512), (''large'', ''1024B'', 1024), (''xlarge'', ''2048B'', 2048)]"

definition TTL_PROFILES :: "(pystr, ttl_profile) dict" where
  "TTL_PROFILES = map (\<lambda>(k, l, x). (lit k, \<lparr>ttl_key = lit k, ttl_profile_label = lit l, profile_ttl_seconds = Finite x\<rparr>))
     [(''shortest'', ''0.5s'', 1 / 2), (''short'', ''1s'', 1), (''medium'', ''2s'', 2), (''steady'', ''3s'', 3),
      (''long'', ''5s'', 5), (''xlong'', ''10s'', 10)]"

definition DEFAULT_MEMORY_PROFILE :: pystr where "DEFAULT_MEMORY_PROFILE = lit ''medium''"
definition DEFAULT_TTL_PROFILE :: pystr where "DEFAULT_TTL_PROFILE = lit ''medium''"

section \<open>Results\<close>

record execution_summary =
  faster_lane :: "pystr option"
  latency_gap_ms :: pyfloat
  fewer_mongo_reads_lane :: "pystr option"
  mongo_read_gap :: nat

record execution_result =
  exec_request :: arena_request
  exec_redis_db :: lane_reply
  exec_db_only :: lane_reply
  exec_summary :: execution_summary

fun float_abs :: "pyfloat \<Rightarrow> pyfloat" where
  "float_abs (Finite x) = Finite \<bar>x\<bar>"
| "float_abs NegZero = Finite 0"
| "float_abs PosInf = PosInf"
| "float_abs NegInf = PosInf"
| "float_abs NaN = NaN"

text \<open>\<open>round(x, 3)\<close>: to the nearest multiple of a thousandth, ties to even, then to the nearest float.\<close>

fun round3 :: "pyfloat \<Rightarrow> pyfloat" where
  "round3 (Finite x) =
     (case round64 (of_int (round_half_even (x * 1000)) / 1000) of
        Finite y \<Rightarrow> if y = 0 \<and> x < 0 then NegZero else Finite y
      | y \<Rightarrow> y)"
| "round3 x = x"

text \<open>\<open>x or y\<close> on floats.\<close>

definition float_or :: "pyfloat \<Rightarrow> pyfloat \<Rightarrow> pyfloat" where
  "float_or x y = (if is_zero x then y else x)"

definition build_summary :: "lane_reply \<Rightarrow> lane_reply \<Rightarrow> execution_summary" where
  "build_summary redis_result db_only_result =
     (let redis_latency_ms = float_or (service_time_ms (reply_metrics redis_result)) (latency_ms redis_result);
          db_only_latency_ms = float_or (service_time_ms (reply_metrics db_only_result)) (latency_ms db_only_result)
      in \<lparr>faster_lane =
            (if flt redis_latency_ms db_only_latency_ms then Some (lit ''redis_db'')
             else if flt db_only_latency_ms redis_latency_ms then Some (lit ''db_only'') else None),
          latency_gap_ms = round3 (float_abs (fsub redis_latency_ms db_only_latency_ms)),
          fewer_mongo_reads_lane =
            (if mongo_reads redis_result < mongo_reads db_only_result then Some (lit ''redis_db'')
             else if mongo_reads db_only_result < mongo_reads redis_result then Some (lit ''db_only'') else None),
          mongo_read_gap =
            nat \<bar>int (mongo_reads redis_result) - int (mongo_reads db_only_result)\<bar>\<rparr>)"

definition build_execution :: "arena_request \<Rightarrow> lane_reply \<Rightarrow> lane_reply \<Rightarrow> execution_result" where
  "build_execution req redis_result db_only_result =
     \<lparr>exec_request = req, exec_redis_db = redis_result, exec_db_only = db_only_result,
      exec_summary = build_summary redis_result db_only_result\<rparr>"

section \<open>The lanes as the gateway sees them\<close>

text \<open>What \<open>configure_memory\<close> reports; only the lane server adds a message.\<close>

record memory_report =
  report_message :: "pystr option"
  report_profile_key :: pystr
  report_max_memory_bytes :: int
  report_redis :: memory_info

text \<open>
  What a lane reports of its health, without the connection settings it echoes: what it stores is
  missing when the report was made by the gateway.
\<close>

record storage_report =
  redis_available :: bool
  redis_logical_bytes :: int
  redis_key_count :: int
  redis_max_memory_bytes :: int
  redis_evicted_keys :: int
  mongo_logical_bytes :: int
  mongo_document_count :: int

record lane_health_report =
  health_lane :: pystr
  health_status :: pystr
  health_error :: "pystr option"
  health_storage :: "storage_report option"

record 's lane_executor =
  lane_execute :: "arena_request \<Rightarrow> 's \<Rightarrow> (py_exc + lane_reply) \<times> 's"
  lane_clear :: "pystr list \<Rightarrow> bool \<Rightarrow> 's \<Rightarrow> (py_exc + unit) \<times> 's"
  lane_seed :: "seed_input \<Rightarrow> 's \<Rightarrow> (py_exc + unit) \<times> 's"
  lane_configure_memory :: "(pystr \<Rightarrow> int \<Rightarrow> 's \<Rightarrow> (py_exc + memory_report) \<times> 's) option"
  lane_health :: "('s \<Rightarrow> (py_exc + lane_health_report) \<times> 's) option"

text \<open>\<open>asyncio.gather\<close> of one call on each lane.\<close>

definition gather :: "(py_exc + 'a) \<times> 'r \<Rightarrow> (py_exc + 'b) \<times> 'd \<Rightarrow> (py_exc + 'a \<times> 'b) \<times> 'r \<times> 'd" where
  "gather x y =
     (rbind (fst x) (\<lambda>a. rbind (fst y) (\<lambda>b. Inr (a, b))), snd x, snd y)"

section \<open>State\<close>

datatype envelope = Executed pystr execution_result | Message pystr pystr

record ('r, 'd) gateway =
  redis_lane :: 'r
  db_only_lane :: 'd
  event_bus :: "envelope event_bus"
  history :: "envelope event_history"
  known_keys :: "pystr list"
  selected_memory_profile :: pystr
  selected_ttl_profile :: "pystr option"
  memory_locked :: bool

definition gateway_init :: "'r \<Rightarrow> 'd \<Rightarrow> ('r, 'd) gateway" where
  "gateway_init r d =
     \<lparr>redis_lane = r, db_only_lane = d, event_bus = bus_init, history = history_init, known_keys = [],
      selected_memory_profile = DEFAULT_MEMORY_PROFILE, selected_ttl_profile = Some DEFAULT_TTL_PROFILE,
      memory_locked = False\<rparr>"

record command_input =
  input_command :: pystr
  input_key :: pystr
  input_field :: "pystr option"
  input_value :: "pystr option"
  input_ttl_enabled :: bool
  input_ttl_seconds :: "pyfloat option"

section \<open>Operations\<close>

definition publish :: "envelope \<Rightarrow> ('r, 'd) gateway \<Rightarrow> ('r, 'd) gateway" where
  "publish envelope g =
     g\<lparr>history := history_append envelope (history g), event_bus := bus_publish envelope (event_bus g)\<rparr>"

definition publish_message :: "pystr \<Rightarrow> pystr \<Rightarrow> ('r, 'd) gateway \<Rightarrow> pystr \<times> ('r, 'd) gateway" where
  "publish_message event_type message g = (message, publish (Message event_type message) g)"

definition selected_ttl_seconds :: "('r, 'd) gateway \<Rightarrow> py_exc + pyfloat option" where
  "selected_ttl_seconds g =
     (case selected_ttl_profile g of
        None \<Rightarrow> Inr None
      | Some key \<Rightarrow>
          (case map_of TTL_PROFILES key of
             None \<Rightarrow> Inl KeyError
           | Some profile \<Rightarrow> Inr (Some (profile_ttl_seconds profile))))"

definition build_request ::
  "pystr \<Rightarrow> pystr \<Rightarrow> command_input \<Rightarrow> ('r, 'd) gateway \<Rightarrow> py_exc + arena_request" where
  "build_request rid request_mode inp g =
     rbind (if input_ttl_enabled inp \<and> input_ttl_seconds inp = None
            then rbind (selected_ttl_seconds g) (\<lambda>ttl. Inr (ttl \<noteq> None, ttl))
            else Inr (input_ttl_enabled inp, input_ttl_seconds inp)) (\<lambda>(enabled, ttl).
       Inr \<lparr>request_id = lit ''req-'' @ rid, mode = request_mode, request_command = input_command inp,
            request_key = input_key inp, request_field = input_field inp, request_value = input_value inp,
            ttl_enabled = enabled, ttl_seconds = ttl\<rparr>)"

definition lock_memory_profile :: "('r, 'd) gateway \<Rightarrow> ('r, 'd) gateway" where
  "lock_memory_profile g = g\<lparr>memory_locked := True\<rparr>"

definition execute_request ::
  "'r lane_executor \<Rightarrow> 'd lane_executor \<Rightarrow> pystr \<Rightarrow> arena_request \<Rightarrow> ('r, 'd) gateway
    \<Rightarrow> (py_exc + execution_result) \<times> ('r, 'd) gateway" where
  "execute_request R D event_type req g =
     (case gather (lane_execute R req (redis_lane g)) (lane_execute D req (db_only_lane g)) of (res, r, d) \<Rightarrow>
        sbind (res, g\<lparr>known_keys := List.insert (request_key req) (known_keys g), redis_lane := r, db_only_lane := d\<rparr>)
          (\<lambda>(redis_result, db_only_result) g1.
             let execution = build_execution req redis_result db_only_result
             in (Inr execution, publish (Executed event_type execution) g1)))"

definition execute_command ::
  "string \<Rightarrow> string \<Rightarrow> 'r lane_executor \<Rightarrow> 'd lane_executor \<Rightarrow> pystr \<Rightarrow> command_input \<Rightarrow> ('r, 'd) gateway
    \<Rightarrow> (py_exc + execution_result) \<times> ('r, 'd) gateway" where
  "execute_command request_mode event_type R D rid inp g =
     (let g1 = lock_memory_profile g
      in sbind (build_request rid (lit request_mode) inp g1, g1) (execute_request R D (lit event_type)))"

definition execute_manual_command ::
  "'r lane_executor \<Rightarrow> 'd lane_executor \<Rightarrow> pystr \<Rightarrow> command_input \<Rightarrow> ('r, 'd) gateway
    \<Rightarrow> (py_exc + execution_result) \<times> ('r, 'd) gateway" where
  "execute_manual_command = execute_command ''manual'' ''manual_command_completed''"

definition execute_scenario_command ::
  "'r lane_executor \<Rightarrow> 'd lane_executor \<Rightarrow> pystr \<Rightarrow> command_input \<Rightarrow> ('r, 'd) gateway
    \<Rightarrow> (py_exc + execution_result) \<times> ('r, 'd) gateway" where
  "execute_scenario_command = execute_command ''scenario'' ''scenario_execution_completed''"

definition apply_selected_memory_profile ::
  "'r lane_executor \<Rightarrow> ('r, 'd) gateway \<Rightarrow> (py_exc + memory_report option) \<times> ('r, 'd) gateway" where
  "apply_selected_memory_profile R g =
     (case lane_configure_memory R of
        None \<Rightarrow> (Inr None, g)
      | Some configure \<Rightarrow>
          (case map_of MEMORY_PROFILES (selected_memory_profile g) of
             None \<Rightarrow> (Inl KeyError, g)
           | Some profile \<Rightarrow>
               (case configure (memory_key profile) (profile_max_memory_bytes profile) (redis_lane g) of (res, r) \<Rightarrow>
                  (rbind res (\<lambda>info. Inr (Some info)), g\<lparr>redis_lane := r\<rparr>))))"

definition initialize ::
  "'r lane_executor \<Rightarrow> ('r, 'd) gateway \<Rightarrow> (py_exc + unit) \<times> ('r, 'd) gateway" where
  "initialize R g = sbind (apply_selected_memory_profile R g) (\<lambda>_ g. (Inr (), g))"

definition reset_state ::
  "'r lane_executor \<Rightarrow> 'd lane_executor \<Rightarrow> ('r, 'd) gateway \<Rightarrow> (py_exc + unit) \<times> ('r, 'd) gateway" where
  "reset_state R D g =
     (case gather (lane_clear R [] True (redis_lane g)) (lane_clear D [] True (db_only_lane g)) of (res, r, d) \<Rightarrow>
        sbind (res, g\<lparr>redis_lane := r, db_only_lane := d\<rparr>) (\<lambda>_ g1.
          initialize R (g1\<lparr>known_keys := [], memory_locked := False\<rparr>)))"

definition seed_state ::
  "'r lane_executor \<Rightarrow> 'd lane_executor \<Rightarrow> seed_input \<Rightarrow> ('r, 'd) gateway
    \<Rightarrow> (py_exc + unit) \<times> ('r, 'd) gateway" where
  "seed_state R D inp g =
     (case gather (lane_seed R inp (redis_lane g)) (lane_seed D inp (db_only_lane g)) of (res, r, d) \<Rightarrow>
        sbind (res, g\<lparr>redis_lane := r, db_only_lane := d\<rparr>) (\<lambda>_ g1.
          (Inr (), g1\<lparr>known_keys := fold List.insert (keys_of (seed_documents inp)) (known_keys g1)\<rparr>)))"

definition LOCKED_MESSAGE :: pystr where
  "LOCKED_MESSAGE = lit ''Memory profile is locked until the next reset.''"

record memory_choice =
  choice_selected :: pystr
  choice_locked :: bool
  choice_profile :: memory_profile
  choice_lane :: "memory_report option"

definition set_memory_profile ::
  "'r lane_executor \<Rightarrow> pystr \<Rightarrow> ('r, 'd) gateway \<Rightarrow> (py_exc + memory_choice) \<times> ('r, 'd) gateway" where
  "set_memory_profile R profile_key g =
     (if profile_key \<notin> set (keys_of MEMORY_PROFILES) then (Inl ValueError, g)
      else if memory_locked g then (Inl (RuntimeError LOCKED_MESSAGE), g)
      else
        sbind (apply_selected_memory_profile R (g\<lparr>selected_memory_profile := profile_key\<rparr>)) (\<lambda>lane_response g1.
          (case map_of MEMORY_PROFILES (selected_memory_profile g1) of
             None \<Rightarrow> Inl KeyError
           | Some profile \<Rightarrow>
               Inr \<lparr>choice_selected = selected_memory_profile g1, choice_locked = memory_locked g1,
                    choice_profile = profile, choice_lane = lane_response\<rparr>, g1)))"

record ttl_choice =
  ttl_selected :: "pystr option"
  ttl_choice_seconds :: "pyfloat option"
  ttl_choice_profile :: "ttl_profile option"

definition set_ttl_profile ::
  "pystr option \<Rightarrow> ('r, 'd) gateway \<Rightarrow> (py_exc + ttl_choice) \<times> ('r, 'd) gateway" where
  "set_ttl_profile profile_key g =
     (case profile_key of
        None \<Rightarrow>
          (Inr \<lparr>ttl_selected = None, ttl_choice_seconds = None, ttl_choice_profile = None\<rparr>,
           g\<lparr>selected_ttl_profile := None\<rparr>)
      | Some key \<Rightarrow>
          (case map_of TTL_PROFILES key of
             None \<Rightarrow> (Inl ValueError, g)
           | Some profile \<Rightarrow>
               (Inr \<lparr>ttl_selected = Some key, ttl_choice_seconds = Some (profile_ttl_seconds profile),
                     ttl_choice_profile = Some profile\<rparr>,
                g\<lparr>selected_ttl_profile := Some key\<rparr>)))"

text \<open>\<open>_lane_health\<close> turns every exception into a report; \<open>text\<close> is \<open>str(exc)\<close>.\<close>

definition lane_health_of ::
  "(py_exc \<Rightarrow> pystr) \<Rightarrow> 's lane_executor \<Rightarrow> string \<Rightarrow> 's \<Rightarrow> lane_health_report \<times> 's" where
  "lane_health_of text ex lane_name s =
     (case lane_health ex of
        None \<Rightarrow> (\<lparr>health_lane = lit lane_name, health_status = lit ''unknown'', health_error = None, health_storage = None\<rparr>, s)
      | Some health \<Rightarrow>
          (case health s of
             (Inr report, s1) \<Rightarrow> (report, s1)
           | (Inl e, s1) \<Rightarrow>
               (\<lparr>health_lane = lit lane_name, health_status = lit ''error'', health_error = Some (text e),
                 health_storage = None\<rparr>, s1)))"

record gateway_health =
  overall_status :: pystr
  tracked_keys :: nat
  retained_events :: nat
  memory_selected :: pystr
  memory_is_locked :: bool
  memory_choices :: "memory_profile list"
  ttl_is_selected :: "pystr option"
  ttl_selected_seconds :: "pyfloat option"
  ttl_choices :: "ttl_profile list"
  redis_lane_health :: lane_health_report
  db_only_lane_health :: lane_health_report

definition healthcheck ::
  "(py_exc \<Rightarrow> pystr) \<Rightarrow> 'r lane_executor \<Rightarrow> 'd lane_executor \<Rightarrow> ('r, 'd) gateway
    \<Rightarrow> (py_exc + gateway_health) \<times> ('r, 'd) gateway" where
  "healthcheck text R D g =
     (case lane_health_of text R ''redis_db'' (redis_lane g) of (rh, r) \<Rightarrow>
      case lane_health_of text D ''db_only'' (db_only_lane g) of (dh, d) \<Rightarrow>
        let g1 = g\<lparr>redis_lane := r, db_only_lane := d\<rparr>
        in (rbind (selected_ttl_seconds g1) (\<lambda>ttl.
              Inr \<lparr>overall_status =
                     (if health_status rh = lit ''ok'' \<and> health_status dh = lit ''ok'' then lit ''ok''
                      else lit ''degraded''),
                   tracked_keys = length (known_keys g1), retained_events = length (history_snapshot (history g1)),
                   memory_selected = selected_memory_profile g1, memory_is_locked = memory_locked g1,
                   memory_choices = map snd MEMORY_PROFILES, ttl_is_selected = selected_ttl_profile g1,
                   ttl_selected_seconds = ttl, ttl_choices = map snd TTL_PROFILES,
                   redis_lane_health = rh, db_only_lane_health = dh\<rparr>), g1))"

section \<open>What a lane has to promise\<close>

locale lane =
  fixes ex :: "'s lane_executor"
    and stored :: "'s \<Rightarrow> pystr set"
    and accepts :: "arena_request \<Rightarrow> bool"
    and accepts_seed :: "seed_input \<Rightarrow> bool"
  assumes execute_stored: "stored (snd (lane_execute ex req s)) \<subseteq> insert (request_key req) (stored s)"
    and execute_returns: "accepts req \<Longrightarrow> \<exists>r. fst (lane_execute ex req s) = Inr r"
    and clear_stored: "stored (snd (lane_clear ex ks True s)) = {}"
    and clear_returns: "fst (lane_clear ex ks full s) = Inr ()"
    and seed_stored: "stored (snd (lane_seed ex inp s)) \<subseteq> set (keys_of (seed_documents inp)) \<union> stored s"
    and seed_returns: "accepts_seed inp \<Longrightarrow> fst (lane_seed ex inp s) = Inr ()"
    and configure_stored: "lane_configure_memory ex = Some conf \<Longrightarrow> stored (snd (conf k m s)) \<subseteq> stored s"
    and health_stored: "lane_health ex = Some hl \<Longrightarrow> stored (snd (hl s)) \<subseteq> stored s"

text \<open>The lane with the cache also takes every sensible memory limit.\<close>

locale cached_lane = lane +
  assumes configure_returns:
      "lane_configure_memory ex = Some conf \<Longrightarrow> k \<noteq> [] \<Longrightarrow> 0 \<le> m \<Longrightarrow> \<exists>i. fst (conf k m s) = Inr i"

text \<open>The controls are always profiles that exist, and the gateway knows every key a lane stores.\<close>

definition valid_controls :: "('r, 'd) gateway \<Rightarrow> bool" where
  "valid_controls g \<longleftrightarrow> map_of MEMORY_PROFILES (selected_memory_profile g) \<noteq> None \<and>
     (\<forall>k. selected_ttl_profile g = Some k \<longrightarrow> map_of TTL_PROFILES k \<noteq> None)"

definition tracked :: "('r \<Rightarrow> pystr set) \<Rightarrow> ('d \<Rightarrow> pystr set) \<Rightarrow> ('r, 'd) gateway \<Rightarrow> bool" where
  "tracked sr sd g \<longleftrightarrow> sr (redis_lane g) \<union> sd (db_only_lane g) \<subseteq> set (known_keys g)"

lemma publish_frame [simp]:
  "redis_lane (publish e g) = redis_lane g" "db_only_lane (publish e g) = db_only_lane g"
  "known_keys (publish e g) = known_keys g" "memory_locked (publish e g) = memory_locked g"
  "selected_memory_profile (publish e g) = selected_memory_profile g"
  "selected_ttl_profile (publish e g) = selected_ttl_profile g"
  "history (publish e g) = history_append e (history g)"
  by (simp_all add: publish_def)

lemma set_fold_insert: "set (fold List.insert xs ys) = set xs \<union> set ys"
  by (induction xs arbitrary: ys) auto

lemma selected_ttl_valid: "valid_controls g \<Longrightarrow> \<exists>t. selected_ttl_seconds g = Inr t"
  by (auto simp: valid_controls_def selected_ttl_seconds_def split: option.splits)

text \<open>A request leaves the gateway with its time to live resolved.\<close>

lemma build_request_valid:
  assumes "valid_controls g"
  shows "\<exists>req. build_request rid md inp g = Inr req \<and> request_command req = input_command inp \<and>
    request_key req = input_key inp \<and> request_field req = input_field inp \<and>
    request_value req = input_value inp \<and> (ttl_enabled req \<longrightarrow> ttl_seconds req \<noteq> None)"
  using selected_ttl_valid[OF assms] by (auto simp: build_request_def)

text \<open>The profiles are acceptable to every lane.\<close>

lemma memory_profiles_valid:
  assumes "map_of MEMORY_PROFILES key = Some p"
  shows "memory_key p \<noteq> []" "0 \<le> profile_max_memory_bytes p"
  using map_of_SomeD[OF assms] by (auto simp: MEMORY_PROFILES_def lit_def)

lemma ttl_profiles_positive:
  assumes "map_of TTL_PROFILES key = Some p"
  shows "flt (Finite 0) (profile_ttl_seconds p)"
  using map_of_SomeD[OF assms] by (auto simp: TTL_PROFILES_def flt_def fle_def)

lemma health_stored_of:
  assumes "\<And>hl s. lane_health ex = Some hl \<Longrightarrow> stored (snd (hl s)) \<subseteq> stored s"
  shows "stored (snd (lane_health_of text ex nm s)) \<subseteq> stored s"
proof (cases "lane_health ex")
  case (Some hl)
  then show ?thesis
    using assms[OF Some, of s] by (cases "hl s"; cases "fst (hl s)") (simp_all add: lane_health_of_def)
qed (simp add: lane_health_of_def)

locale lane_pair = r: cached_lane R sr ar asr + d: lane D sd ad asd
  for R :: "'r lane_executor" and sr :: "'r \<Rightarrow> pystr set" and ar asr
    and D :: "'d lane_executor" and sd :: "'d \<Rightarrow> pystr set" and ad asd
begin

lemma execute_request_returns:
  assumes "ar req" "ad req"
  obtains a b r' d' where "lane_execute R req (redis_lane g) = (Inr a, r')"
    "lane_execute D req (db_only_lane g) = (Inr b, d')"
    "execute_request R D et req g =
       (Inr (build_execution req a b),
        publish (Executed et (build_execution req a b))
          (g\<lparr>known_keys := List.insert (request_key req) (known_keys g), redis_lane := r', db_only_lane := d'\<rparr>))"
proof -
  obtain a r' where a: "lane_execute R req (redis_lane g) = (Inr a, r')"
    using r.execute_returns[OF assms(1), of "redis_lane g"] by (metis surj_pair fst_conv)
  obtain b d' where b: "lane_execute D req (db_only_lane g) = (Inr b, d')"
    using d.execute_returns[OF assms(2), of "db_only_lane g"] by (metis surj_pair fst_conv)
  show ?thesis by (rule that[OF a b]) (simp add: execute_request_def gather_def a b Let_def)
qed

lemma tracked_execute:
  assumes "tracked sr sd g"
  shows "tracked sr sd (snd (execute_request R D et req g))"
  using assms r.execute_stored[of req "redis_lane g"] d.execute_stored[of req "db_only_lane g"]
  by (auto simp: tracked_def execute_request_def gather_def sbind_def Let_def split: sum.split prod.split)

text \<open>A command is answered, recorded as the last event, and locks the memory profile.\<close>

lemma command_answered:
  assumes "valid_controls g"
    and accepted: "\<And>req. build_request rid (lit md) inp (lock_memory_profile g) = Inr req \<Longrightarrow> ar req \<and> ad req"
  obtains req x where "build_request rid (lit md) inp (lock_memory_profile g) = Inr req"
    "execute_command md et R D rid inp g =
       (Inr x, snd (execute_request R D (lit et) req (lock_memory_profile g)))"
    "exec_request x = req" "memory_locked (snd (execute_command md et R D rid inp g))"
    "history (snd (execute_command md et R D rid inp g)) = history_append (Executed (lit et) x) (history g)"
    "valid_controls (snd (execute_command md et R D rid inp g))"
proof -
  have v: "valid_controls (lock_memory_profile g)"
    using assms(1) by (simp add: valid_controls_def lock_memory_profile_def)
  obtain req where req: "build_request rid (lit md) inp (lock_memory_profile g) = Inr req"
    using build_request_valid[OF v] by blast
  have acc: "ar req" "ad req" using accepted[OF req] by simp_all
  obtain a b r' d' where e: "execute_request R D (lit et) req (lock_memory_profile g) =
     (Inr (build_execution req a b), publish (Executed (lit et) (build_execution req a b))
       (lock_memory_profile g\<lparr>known_keys := List.insert (request_key req) (known_keys (lock_memory_profile g)),
          redis_lane := r', db_only_lane := d'\<rparr>))"
    by (rule execute_request_returns[OF acc])
  show ?thesis
    by (rule that[of req "build_execution req a b"])
      (use req e v in \<open>simp_all add: execute_command_def Let_def build_execution_def valid_controls_def
        lock_memory_profile_def\<close>)
qed

lemma tracked_command:
  assumes "tracked sr sd g"
  shows "tracked sr sd (snd (execute_command md et R D rid inp g))"
proof -
  have "tracked sr sd (lock_memory_profile g)"
    using assms by (simp add: tracked_def lock_memory_profile_def)
  then show ?thesis
    using tracked_execute by (auto simp: execute_command_def Let_def sbind_def split: sum.split)
qed

lemma controls_command:
  assumes "valid_controls g"
  shows "valid_controls (snd (execute_command md et R D rid inp g))"
proof -
  have "valid_controls (snd (execute_request R D et req g'))" if "valid_controls g'" for et req g'
    using that by (simp add: execute_request_def gather_def sbind_def valid_controls_def Let_def split: sum.split)
  moreover have "valid_controls (lock_memory_profile g)"
    using assms by (simp add: valid_controls_def lock_memory_profile_def)
  ultimately show ?thesis by (auto simp: execute_command_def Let_def sbind_def split: sum.split)
qed

lemma apply_profile:
  assumes "valid_controls g"
  shows "\<exists>i. fst (apply_selected_memory_profile R g) = Inr i"
    "snd (apply_selected_memory_profile R g) = g\<lparr>redis_lane := redis_lane (snd (apply_selected_memory_profile R g))\<rparr>"
    "sr (redis_lane (snd (apply_selected_memory_profile R g))) \<subseteq> sr (redis_lane g)"
proof -
  obtain p where p: "map_of MEMORY_PROFILES (selected_memory_profile g) = Some p"
    using assms by (auto simp: valid_controls_def)
  note unf = apply_selected_memory_profile_def p case_prod_unfold
  show "\<exists>i. fst (apply_selected_memory_profile R g) = Inr i"
    using r.configure_returns memory_profiles_valid[OF p] by (fastforce simp: unf split: option.splits)
  show "snd (apply_selected_memory_profile R g) = g\<lparr>redis_lane := redis_lane (snd (apply_selected_memory_profile R g))\<rparr>"
    by (simp add: unf split: option.splits)
  show "sr (redis_lane (snd (apply_selected_memory_profile R g))) \<subseteq> sr (redis_lane g)"
    using r.configure_stored by (auto simp: unf split: option.splits)
qed

lemma controls_frame:
  "valid_controls (g\<lparr>redis_lane := x\<rparr>) = valid_controls g"
  by (simp add: valid_controls_def)

lemma reset_effect:
  assumes "valid_controls g" "g' = snd (reset_state R D g)"
  shows "fst (reset_state R D g) = Inr ()" "sr (redis_lane g') = {}" "sd (db_only_lane g') = {}"
    "known_keys g' = []" "\<not> memory_locked g'" "history g' = history g" "valid_controls g'"
proof -
  let ?g = "g\<lparr>redis_lane := snd (lane_clear R [] True (redis_lane g)),
      db_only_lane := snd (lane_clear D [] True (db_only_lane g)), known_keys := [], memory_locked := False\<rparr>"
  have eq: "reset_state R D g = initialize R ?g"
    by (simp add: reset_state_def gather_def r.clear_returns d.clear_returns)
  have v: "valid_controls ?g" using assms(1) by (simp add: valid_controls_def)
  note ap = apply_profile[OF v]
  obtain i x where i: "apply_selected_memory_profile R ?g = (Inr i, ?g\<lparr>redis_lane := x\<rparr>)"
    using ap(1,2) by (metis prod.collapse)
  then show "fst (reset_state R D g) = Inr ()" by (simp add: eq initialize_def)
  have g': "g' = ?g\<lparr>redis_lane := x\<rparr>" using i assms(2) by (simp add: eq initialize_def)
  show "sr (redis_lane g') = {}" using ap(3) i r.clear_stored by (simp add: g')
  show "sd (db_only_lane g') = {}" "known_keys g' = []" "\<not> memory_locked g'" "history g' = history g"
    "valid_controls g'"
    using assms(1) by (simp_all add: g' d.clear_stored valid_controls_def)
qed

lemma seed_effect:
  "asr inp \<Longrightarrow> asd inp \<Longrightarrow> seed_state R D inp g = (Inr (), g\<lparr>redis_lane := snd (lane_seed R inp (redis_lane g)),
     db_only_lane := snd (lane_seed D inp (db_only_lane g)),
     known_keys := fold List.insert (keys_of (seed_documents inp)) (known_keys g)\<rparr>)"
  by (simp add: seed_state_def gather_def r.seed_returns d.seed_returns)

lemma tracked_seed: "asr inp \<Longrightarrow> asd inp \<Longrightarrow> tracked sr sd g \<Longrightarrow> tracked sr sd (snd (seed_state R D inp g))"
  using r.seed_stored[of inp "redis_lane g"] d.seed_stored[of inp "db_only_lane g"]
  by (auto simp: seed_effect tracked_def set_fold_insert)

text \<open>Choosing a memory profile succeeds exactly for a known profile while it is not locked.\<close>

lemma memory_profile_effect:
  assumes "valid_controls g" "x = set_memory_profile R key g"
  shows "(map_of MEMORY_PROFILES key = None \<longrightarrow> x = (Inl ValueError, g)) \<and>
    (map_of MEMORY_PROFILES key \<noteq> None \<and> memory_locked g \<longrightarrow> x = (Inl (RuntimeError LOCKED_MESSAGE), g)) \<and>
    (map_of MEMORY_PROFILES key \<noteq> None \<and> \<not> memory_locked g \<longrightarrow>
       (\<exists>i. fst x = Inr i) \<and> selected_memory_profile (snd x) = key \<and> \<not> memory_locked (snd x))"
    "valid_controls (snd x)" "tracked sr sd g \<Longrightarrow> tracked sr sd (snd x)" "history (snd x) = history g"
proof -
  let ?g = "g\<lparr>selected_memory_profile := key\<rparr>"
  note key = keys_of_iff[of key MEMORY_PROFILES]
  have v: "map_of MEMORY_PROFILES key \<noteq> None \<Longrightarrow> valid_controls ?g"
    using assms(1) by (simp add: valid_controls_def)
  have eq: "snd (apply_selected_memory_profile R ?g) =
      ?g\<lparr>redis_lane := redis_lane (snd (apply_selected_memory_profile R ?g))\<rparr>"
    if "map_of MEMORY_PROFILES key \<noteq> None"
    by (rule apply_profile(2)[OF v[OF that]])
  have fields: "selected_memory_profile (snd (apply_selected_memory_profile R ?g)) = key"
    "memory_locked (snd (apply_selected_memory_profile R ?g)) = memory_locked g"
    "history (snd (apply_selected_memory_profile R ?g)) = history g"
    "known_keys (snd (apply_selected_memory_profile R ?g)) = known_keys g"
    "db_only_lane (snd (apply_selected_memory_profile R ?g)) = db_only_lane g"
    "valid_controls (snd (apply_selected_memory_profile R ?g))"
    if "map_of MEMORY_PROFILES key \<noteq> None"
    by (subst eq[OF that], simp)+ (subst eq[OF that], simp add: controls_frame v[OF that])
  have ret: "\<exists>c. set_memory_profile R key g = (Inr c, snd (apply_selected_memory_profile R ?g))"
    if a: "map_of MEMORY_PROFILES key \<noteq> None" "\<not> memory_locked g"
  proof -
    obtain i g1 where i: "apply_selected_memory_profile R ?g = (Inr i, g1)"
      using apply_profile(1)[OF v[OF a(1)]] by (metis prod.collapse)
    then have "selected_memory_profile g1 = key" using fields(1)[OF a(1)] by simp
    then show ?thesis using a i by (auto simp: set_memory_profile_def key)
  qed
  have snd_x: "snd x = (if map_of MEMORY_PROFILES key \<noteq> None \<and> \<not> memory_locked g
      then snd (apply_selected_memory_profile R ?g) else g)"
    using ret by (auto simp: assms(2) set_memory_profile_def key)
  show "(map_of MEMORY_PROFILES key = None \<longrightarrow> x = (Inl ValueError, g)) \<and>
    (map_of MEMORY_PROFILES key \<noteq> None \<and> memory_locked g \<longrightarrow> x = (Inl (RuntimeError LOCKED_MESSAGE), g)) \<and>
    (map_of MEMORY_PROFILES key \<noteq> None \<and> \<not> memory_locked g \<longrightarrow>
       (\<exists>i. fst x = Inr i) \<and> selected_memory_profile (snd x) = key \<and> \<not> memory_locked (snd x))"
    using ret fields(1,2) by (auto simp: assms(2) set_memory_profile_def key)
  show "valid_controls (snd x)" "history (snd x) = history g"
    using assms(1) fields by (simp_all add: snd_x)
  show "tracked sr sd g \<Longrightarrow> tracked sr sd (snd x)"
    using fields apply_profile(3)[OF v] by (auto simp: snd_x tracked_def)
qed

text \<open>The health report is always made, and leaves everything but the lanes' own bookkeeping.\<close>

lemma health_effect:
  assumes "valid_controls g"
  shows "\<exists>h. fst (healthcheck text R D g) = Inr h \<and> tracked_keys h = length (known_keys g) \<and>
      memory_is_locked h = memory_locked g \<and>
      (overall_status h = lit ''ok'' \<longleftrightarrow>
         health_status (redis_lane_health h) = lit ''ok'' \<and> health_status (db_only_lane_health h) = lit ''ok'')"
    "valid_controls (snd (healthcheck text R D g))"
    "tracked sr sd g \<Longrightarrow> tracked sr sd (snd (healthcheck text R D g))"
    "history (snd (healthcheck text R D g)) = history g"
proof -
  have "sr (snd (lane_health_of text R nm s)) \<subseteq> sr s" for nm s
    using r.health_stored health_stored_of[of R sr] by blast
  moreover have "sd (snd (lane_health_of text D nm s)) \<subseteq> sd s" for nm s
    using d.health_stored health_stored_of[of D sd] by blast
  ultimately show "tracked sr sd g \<Longrightarrow> tracked sr sd (snd (healthcheck text R D g))"
    by (fastforce simp: healthcheck_def tracked_def Let_def case_prod_unfold)
  show "valid_controls (snd (healthcheck text R D g))" "history (snd (healthcheck text R D g)) = history g"
    using assms by (simp_all add: healthcheck_def valid_controls_def Let_def case_prod_unfold)
  let ?g = "g\<lparr>redis_lane := snd (lane_health_of text R ''redis_db'' (redis_lane g)),
      db_only_lane := snd (lane_health_of text D ''db_only'' (db_only_lane g))\<rparr>"
  obtain t where "selected_ttl_seconds ?g = Inr t"
    using selected_ttl_valid[of ?g] assms by (auto simp: valid_controls_def)
  then show "\<exists>h. fst (healthcheck text R D g) = Inr h \<and> tracked_keys h = length (known_keys g) \<and>
      memory_is_locked h = memory_locked g \<and>
      (overall_status h = lit ''ok'' \<longleftrightarrow>
         health_status (redis_lane_health h) = lit ''ok'' \<and> health_status (db_only_lane_health h) = lit ''ok'')"
    by (simp add: healthcheck_def Let_def case_prod_unfold lit_def)
qed

end

end
