(* ===== verification/Arena.thy ===== *)
theory Arena
  imports Gateway Workloads
begin

text \<open>
  The arena put together: the two adapters behind the gateway, and the scenario runner
  (\<open>internal/arena/scenario/runner.py\<close>) that drives it.

  The adapters meet the gateway's contract for a lane (the interpretations \<open>cached\<close> and \<open>plain\<close>), so
  the facts proved for any two lanes hold for them. The whole gateway is a step relation; its
  reachable states know every stored key, have valid controls and a bounded history.

  A scenario is a background task that sleeps before each request. \<open>run_plan\<close> is given one entry per
  sleep that ends (the lanes at that moment and the random part of the request's identifier); when
  they run out, the task was cancelled in its sleep. While it sleeps other requests may run; the step
  relation covers every interleaving of whole requests.

  Main results: from a state in which the lanes are in step, any scenario, any seeding, any change of
  the memory profile and any reset keeps them in step, and every result a scenario publishes has the
  same answer on both lanes.
\<close>

section \<open>The adapters as lanes\<close>

text \<open>A result of an adapter with the latency and the metrics it measured.\<close>

definition with_times :: "pyfloat \<times> lane_metrics \<Rightarrow> lane_result \<Rightarrow> lane_reply" where
  "with_times t r = lane_result.extend r (lane_reply.fields (fst t) (snd t))"

definition redis_executor :: "pyfloat \<Rightarrow> pyfloat \<Rightarrow> pyfloat \<times> lane_metrics \<Rightarrow> lane_state lane_executor" where
  "redis_executor dttl now t =
     \<lparr>lane_execute = (\<lambda>req w. map_prod (Inr \<circ> with_times t) id (redis_db_execute dttl now req w)),
      lane_clear = (\<lambda>ks full w. (Inr (), redis_db_clear ks full w)),
      lane_seed = (\<lambda>inp w. (Inr (), redis_db_seed dttl now inp w)),
      lane_configure_memory = Some (\<lambda>k m w.
        map_prod (\<lambda>(key, bytes, info). Inr \<lparr>report_message = None, report_profile_key = key,
            report_max_memory_bytes = bytes, report_redis = info\<rparr>) id (configure_memory now k m w)),
      lane_health = None\<rparr>"

definition db_executor :: "pyfloat \<times> lane_metrics \<Rightarrow> documents lane_executor" where
  "db_executor t =
     \<lparr>lane_execute = (\<lambda>req docs. map_prod (Inr \<circ> with_times t) id (db_only_execute req docs)),
      lane_clear = (\<lambda>ks full docs. (Inr (), db_only_clear ks full docs)),
      lane_seed = (\<lambda>inp docs. (Inr (), db_only_seed inp docs)),
      lane_configure_memory = None, lane_health = None\<rparr>"

abbreviation cached_keys :: "lane_state \<Rightarrow> pystr set" where
  "cached_keys w \<equiv> set (keys_of (snd w))"

abbreviation plain_keys :: "documents \<Rightarrow> pystr set" where
  "plain_keys docs \<equiv> set (keys_of docs)"

type_synonym arena = "(lane_state, documents) gateway"

section \<open>The scenario runner\<close>

record scenario_input =
  scenario_id :: pystr
  users :: int
  duration_seconds :: int
  read_hot_percent :: "int option"
  scenario_ttl_enabled :: bool
  scenario_ttl_seconds :: "pyfloat option"

text \<open>\<open>value or fallback\<close> on an optional integer: zero counts as missing.\<close>

definition int_or :: "int option \<Rightarrow> int \<Rightarrow> int" where
  "int_or v fallback = (case v of None \<Rightarrow> fallback | Some n \<Rightarrow> if n = 0 then fallback else n)"

definition scenario_label :: "scenario_input \<Rightarrow> pystr" where
  "scenario_label inp =
     (if scenario_id inp = lit ''read'' then lit ''read '' @ show_int (int_or (read_hot_percent inp) 60) @ lit ''%''
      else scenario_id inp)"

definition build_plan :: "scenario_input \<Rightarrow> py_exc + scenario_plan" where
  "build_plan inp =
     (if scenario_id inp = lit ''read'' then
        build_read_plan (users inp) (duration_seconds inp) (int_or (read_hot_percent inp) 60)
      else if scenario_id inp = lit ''write'' then Inr (build_write_plan (users inp) (duration_seconds inp))
      else Inr (build_mixed_plan (users inp) (duration_seconds inp)))"

definition action_input :: "scenario_input \<Rightarrow> scenario_action \<Rightarrow> command_input" where
  "action_input inp a =
     \<lparr>input_command = action_command a, input_key = action_key a, input_field = None,
      input_value = action_value a, input_ttl_enabled = scenario_ttl_enabled inp,
      input_ttl_seconds = scenario_ttl_seconds inp\<rparr>"

datatype plan_outcome = Finished | Cancelled | Raised py_exc

type_synonym ('r, 'd) tick = "'r lane_executor \<times> 'd lane_executor \<times> pystr"

fun run_actions ::
  "scenario_input \<Rightarrow> scenario_action list \<Rightarrow> ('r, 'd) tick list \<Rightarrow> ('r, 'd) gateway
    \<Rightarrow> plan_outcome \<times> ('r, 'd) gateway" where
  "run_actions inp [] ticks g = (Finished, g)"
| "run_actions inp (a # rest) [] g = (Cancelled, g)"
| "run_actions inp (a # rest) ((R, D, rid) # ticks) g =
     (case execute_scenario_command R D rid (action_input inp a) g of
        (Inl e, g1) \<Rightarrow> (Raised e, g1)
      | (Inr _, g1) \<Rightarrow> run_actions inp rest ticks g1)"

record ('r, 'd) runner =
  arena_gateway :: "('r, 'd) gateway"
  active_labels :: "pystr list"

definition plan_seed :: "scenario_plan \<Rightarrow> seed_input" where
  "plan_seed plan =
     \<lparr>seed_documents = seed_docs plan, warm_cache = False, seed_ttl_enabled = False, seed_ttl_seconds = None\<rparr>"

text \<open>\<open>run\<close>, up to the start of the task.\<close>

definition accept_scenario :: "scenario_input \<Rightarrow> ('r, 'd) runner \<Rightarrow> pystr \<times> ('r, 'd) runner" where
  "accept_scenario inp rn =
     (let label = scenario_label inp
      in case publish_message (lit ''scenario_accepted'') (lit ''Scenario accepted: '' @ label) (arena_gateway rn) of
           (m, g) \<Rightarrow> (m, rn\<lparr>arena_gateway := g, active_labels := List.insert label (active_labels rn)\<rparr>))"

text \<open>\<open>_run_plan\<close>: the body of the task, and its \<open>finally\<close> that takes the label out again.\<close>

definition plan_body ::
  "'r lane_executor \<Rightarrow> 'd lane_executor \<Rightarrow> scenario_input \<Rightarrow> ('r, 'd) tick list \<Rightarrow> ('r, 'd) gateway
    \<Rightarrow> plan_outcome \<times> ('r, 'd) gateway" where
  "plan_body R D inp ticks g =
     (case build_plan inp of
        Inl e \<Rightarrow> (Raised e, g)
      | Inr plan \<Rightarrow>
          (case (if seed_docs plan \<noteq> [] then seed_state R D (plan_seed plan) g else (Inr (), g)) of
             (Inl e, g1) \<Rightarrow> (Raised e, g1)
           | (Inr _, g1) \<Rightarrow>
               (case run_actions inp (actions plan) ticks g1 of (outcome, g2) \<Rightarrow>
                  (outcome,
                   if outcome = Finished
                   then snd (publish_message (lit ''scenario_finished'')
                               (lit ''Scenario finished: '' @ scenario_label inp) g2)
                   else g2))))"

definition run_plan ::
  "'r lane_executor \<Rightarrow> 'd lane_executor \<Rightarrow> scenario_input \<Rightarrow> ('r, 'd) tick list \<Rightarrow> ('r, 'd) runner
    \<Rightarrow> plan_outcome \<times> ('r, 'd) runner" where
  "run_plan R D inp ticks rn =
     (case plan_body R D inp ticks (arena_gateway rn) of (outcome, g) \<Rightarrow>
        (outcome,
         rn\<lparr>arena_gateway := g, active_labels := removeAll (scenario_label inp) (active_labels rn)\<rparr>))"

definition RESET_MESSAGE :: pystr where "RESET_MESSAGE = lit ''Arena state reset.''"

text \<open>\<open>reset\<close>, after the running tasks were cancelled.\<close>

definition runner_reset ::
  "'r lane_executor \<Rightarrow> 'd lane_executor \<Rightarrow> ('r, 'd) runner \<Rightarrow> (py_exc + pystr) \<times> ('r, 'd) runner" where
  "runner_reset R D rn =
     (case reset_state R D (arena_gateway rn) of (res, g) \<Rightarrow>
        sbind (res, rn\<lparr>arena_gateway := g, active_labels := []\<rparr>) (\<lambda>_ rn1.
          let g1 = arena_gateway rn1;
              (m, g2) = publish_message (lit ''scenario_reset'') RESET_MESSAGE (g1\<lparr>history := history_clear (history g1)\<rparr>)
          in (Inr m, rn1\<lparr>arena_gateway := g2\<rparr>)))"

definition runner_status :: "('r, 'd) runner \<Rightarrow> bool \<times> pystr option \<times> nat" where
  "runner_status rn =
     (active_labels rn \<noteq> [],
      (case sort (active_labels rn) of [] \<Rightarrow> None | l # _ \<Rightarrow> Some l),
      length (active_labels rn))"

section \<open>The adapters meet the contract of a lane\<close>

lemma redis_docs:
  "snd (snd (redis_set dttl now req (c, docs))) = snd (mongo_write (request_key req) (or_empty (request_value req)) docs)"
  "snd (snd (redis_get dttl now req (c, docs))) = docs"
  "snd (snd (redis_hset dttl now req (c, docs))) =
     snd (mongo_hset (request_key req) (or_empty (request_field req)) (or_empty (request_value req)) docs)"
  "snd (snd (redis_del req (c, docs))) = mongo_remove (request_key req) docs"
  by (simp_all add: redis_set_def redis_get_def redis_hset_def redis_del_def Let_def
      split: prod.split sum.split option.split)

lemma hash_miss_docs: "snd (snd (hash_miss dttl now req preview t (c, docs))) = docs"
  by (simp add: hash_miss_def Let_def split: prod.split sum.split option.split)

lemma redis_hash_docs:
  "snd (snd (redis_hget dttl now req (c, docs))) = docs"
  "snd (snd (redis_hgetall dttl now req (c, docs))) = docs"
  by (simp_all add: redis_hget_def redis_hgetall_def Let_def hash_miss_docs split: prod.split sum.split option.split)

lemma redis_db_docs:
  "snd (snd (redis_db_execute dttl now req (c, docs))) \<in>
     {docs, snd (mongo_write (request_key req) (or_empty (request_value req)) docs),
      snd (mongo_hset (request_key req) (or_empty (request_field req)) (or_empty (request_value req)) docs),
      mongo_remove (request_key req) docs}"
  by (simp add: redis_db_execute_def Let_def redis_docs redis_hash_docs)

lemma mongo_keys:
  "set (keys_of (snd (mongo_write key v docs))) \<subseteq> insert key (set (keys_of docs))"
  "set (keys_of (snd (mongo_hset key f v docs))) \<subseteq> insert key (set (keys_of docs))"
  "set (keys_of (mongo_remove key docs)) \<subseteq> set (keys_of docs)"
  "set (keys_of (mongo_seed new docs)) \<subseteq> set (keys_of new) \<union> set (keys_of docs)"
proof -
  show "set (keys_of (snd (mongo_write key v docs))) \<subseteq> insert key (set (keys_of docs))"
    "set (keys_of (mongo_remove key docs)) \<subseteq> set (keys_of docs)"
    by (auto simp: mongo_write_def mongo_remove_eq Let_def dict_simps split: if_splits)
  show "set (keys_of (snd (mongo_hset key f v docs))) \<subseteq> insert key (set (keys_of docs))"
    by (auto simp: mongo_hset_def Let_def dict_simps split: option.splits arena_document.splits if_splits)
  show "set (keys_of (mongo_seed new docs)) \<subseteq> set (keys_of new) \<union> set (keys_of docs)"
  proof (induction new arbitrary: docs)
    case (Cons p new)
    obtain k v where p: "p = (k, v)" by (cases p)
    from Cons[of "AList.update k (StringDoc v) docs"] show ?case
      by (auto simp: mongo_seed_def dict_simps p keys_of_def[of "_ # _"] split: if_splits)
        (auto simp: keys_of_def)
  qed (simp add: mongo_seed_def)
qed

interpretation cached: cached_lane "redis_executor dttl now t" cached_keys "\<lambda>_. True" "\<lambda>_. True" for dttl now t
proof (unfold_locales, goal_cases)
  case (1 req s)
  then show ?case
    using redis_db_docs[of dttl now req "fst s" "snd s"] mongo_keys(1-3)
    by (fastforce simp: redis_executor_def case_prod_unfold)
qed (use mongo_keys(4) in \<open>auto simp: redis_executor_def redis_db_clear_def redis_db_seed_def configure_memory_def
    mongo_clear_def keys_of_def Let_def case_prod_unfold split: if_splits\<close>)

interpretation plain: lane "db_executor t" plain_keys "\<lambda>_. True" "\<lambda>_. True" for t
proof (unfold_locales, goal_cases)
  case (1 req s)
  then show ?case
    using db_only_docs[of req s] mongo_keys(1-3) by (fastforce simp: db_executor_def case_prod_unfold)
qed (use mongo_keys(4) in \<open>auto simp: db_executor_def db_only_clear_def db_only_seed_def mongo_clear_def
    keys_of_def case_prod_unfold split: if_splits\<close>)

interpretation lanes: lane_pair
  "redis_executor dttl now t" cached_keys "\<lambda>_. True" "\<lambda>_. True" "db_executor u" plain_keys "\<lambda>_. True" "\<lambda>_. True"
  for dttl now t u
  by unfold_locales

lemmas answered = lanes.command_answered[OF _ conjI[OF TrueI TrueI]]

section \<open>The gateway as a step relation\<close>

inductive gateway_step :: "arena \<Rightarrow> arena \<Rightarrow> bool" where
  manual: "execute_manual_command (redis_executor dttl now t) (db_executor u) rid inp g = (res, g') \<Longrightarrow> gateway_step g g'"
| scenario: "execute_scenario_command (redis_executor dttl now t) (db_executor u) rid inp g = (res, g') \<Longrightarrow> gateway_step g g'"
| seed: "seed_state (redis_executor dttl now t) (db_executor u) si g = (res', g') \<Longrightarrow> gateway_step g g'"
| reset: "reset_state (redis_executor dttl now t) (db_executor u) g = (res', g') \<Longrightarrow> gateway_step g g'"
| memory: "set_memory_profile (redis_executor dttl now t) key g = (info, g') \<Longrightarrow> gateway_step g g'"
| ttl: "set_ttl_profile choice g = (secs, g') \<Longrightarrow> gateway_step g g'"
| message: "publish_message et m g = (m', g') \<Longrightarrow> gateway_step g g'"
| health: "healthcheck str_of (redis_executor dttl now t) (db_executor u) g = (report, g') \<Longrightarrow> gateway_step g g'"
| forget: "gateway_step g (g\<lparr>history := history_clear (history g)\<rparr>)"

inductive_cases gateway_stepE: "gateway_step g g'"

inductive gateway_reachable :: "arena \<Rightarrow> bool" where
  start: "gateway_reachable (gateway_init (client_init, []) [])"
| step: "gateway_reachable g \<Longrightarrow> gateway_step g g' \<Longrightarrow> gateway_reachable g'"

definition good_gateway :: "arena \<Rightarrow> bool" where
  "good_gateway g \<longleftrightarrow> valid_controls g \<and> tracked cached_keys plain_keys g \<and>
     max_events (history g) = 200 \<and> length (events (history g)) \<le> 200"

definition good_history :: "envelope event_history \<Rightarrow> bool" where
  "good_history h \<longleftrightarrow> max_events h = 200 \<and> length (events h) \<le> 200"

lemma good_history_append: "good_history h \<Longrightarrow> good_history (history_append e h)"
  by (simp add: good_history_def history_append_def tail_slice_def)

lemma good_gateway_iff:
  "good_gateway g \<longleftrightarrow> valid_controls g \<and> tracked cached_keys plain_keys g \<and> good_history (history g)"
  by (simp add: good_gateway_def good_history_def)

lemma good_command:
  assumes "good_gateway g"
  shows "good_gateway (snd (execute_command md et (redis_executor dttl now t) (db_executor u) rid inp g))"
proof -
  have v: "valid_controls g" using assms by (simp add: good_gateway_def)
  let ?g = "snd (execute_command md et (redis_executor dttl now t) (db_executor u) rid inp g)"
  obtain x where "history ?g = history_append (Executed (lit et) x) (history g)" "valid_controls ?g"
    by (rule answered[OF v])
  moreover have "tracked cached_keys plain_keys ?g"
    using assms lanes.tracked_command by (simp add: good_gateway_def)
  ultimately show ?thesis using assms good_history_append by (simp add: good_gateway_iff)
qed

lemma good_gateway_step: "gateway_step g g' \<Longrightarrow> good_gateway g \<Longrightarrow> good_gateway g'"
proof (induction rule: gateway_step.induct)
  case (manual dttl now t u rid inp g res g')
  then show ?case using good_command by (metis execute_manual_command_def snd_conv)
next
  case (scenario dttl now t u rid inp g res g')
  then show ?case using good_command by (metis execute_scenario_command_def snd_conv)
next
  case (seed dttl now t u si g res' g')
  then show ?case
    using lanes.tracked_seed[of g dttl now t u si] lanes.seed_effect[of dttl now t u si g]
    by (auto simp: good_gateway_iff valid_controls_def)
next
  case (reset dttl now t u g res' g')
  then have "valid_controls g" "g' = snd (reset_state (redis_executor dttl now t) (db_executor u) g)"
    by (simp_all add: good_gateway_def)
  from lanes.reset_effect[OF this] reset show ?case by (simp add: good_gateway_iff tracked_def)
next
  case (memory dttl now t key g info g')
  then have v: "valid_controls g" "(info, g') = set_memory_profile (redis_executor dttl now t) key g"
    by (simp_all add: good_gateway_def)
  from lanes.memory_profile_effect(2-4)[OF v] memory show ?case by (simp add: good_gateway_iff)
next
  case (ttl choice g secs g')
  then show ?case
    by (auto simp: set_ttl_profile_def good_gateway_iff valid_controls_def tracked_def split: option.splits)
next
  case (message et m g m' g')
  then show ?case
    using good_history_append
    by (auto simp: publish_message_def good_gateway_iff valid_controls_def tracked_def)
next
  case (health str_of dttl now t u g report g')
  then have "valid_controls g" by (simp add: good_gateway_def)
  from lanes.health_effect(2-4)[OF this, of str_of dttl now t u] health show ?case by (simp add: good_gateway_iff)
next
  case (forget g)
  then show ?case
    by (simp add: good_gateway_def valid_controls_def tracked_def history_clear_def)
qed

lemma good_gateway_init: "good_gateway (gateway_init (client_init, []) [])"
proof -
  have "map_of MEMORY_PROFILES DEFAULT_MEMORY_PROFILE \<noteq> None" "map_of TTL_PROFILES DEFAULT_TTL_PROFILE \<noteq> None"
    by code_simp+
  then show ?thesis
    by (simp add: good_gateway_def gateway_init_def valid_controls_def tracked_def history_init_def keys_of_def)
qed

lemma gateway_reachable_good: "gateway_reachable g \<Longrightarrow> good_gateway g"
  by (induction rule: gateway_reachable.induct) (auto intro: good_gateway_init good_gateway_step)

section \<open>Lanes in step\<close>

text \<open>Both lanes have the same documents, and the cache is coherent with them.\<close>

definition in_step :: "arena \<Rightarrow> bool" where
  "in_step g \<longleftrightarrow> coherent (fst (redis_lane g)) (db_only_lane g) \<and> snd (redis_lane g) = db_only_lane g \<and>
     sound_docs (db_only_lane g)"

definition agreed :: "execution_result \<Rightarrow> bool" where
  "agreed x \<longleftrightarrow> same_answer (lane_result.truncate (exec_redis_db x)) (lane_result.truncate (exec_db_only x))"

lemma truncate_with_times [simp]: "lane_result.truncate (with_times t r) = r"
  by (cases r) (simp add: with_times_def lane_result.defs lane_reply.defs)

lemma in_step_command:
  assumes "in_step g" "valid_controls g" "input_command inp \<in> {lit ''SET'', lit ''GET'', lit ''DEL''}"
    and "r = execute_command md et (redis_executor dttl now t) (db_executor u) rid inp g"
  shows "in_step (snd r) \<and> (\<exists>x. fst r = Inr x \<and> agreed x)"
proof -
  let ?g = "lock_memory_profile g"
  have g: "redis_lane ?g = (fst (redis_lane g), db_only_lane g)" "db_only_lane ?g = db_only_lane g"
    using assms(1) by (simp_all add: in_step_def lock_memory_profile_def prod_eq_iff)
  have "valid_controls ?g" using assms(2) by (simp add: valid_controls_def lock_memory_profile_def)
  then obtain req where req: "build_request rid (lit md) inp ?g = Inr req" "request_command req = input_command inp"
    using build_request_valid by blast
  let ?a = "redis_db_execute dttl now req (fst (redis_lane g), db_only_lane g)"
    and ?b = "db_only_execute req (db_only_lane g)"
  have "lanes_agree ?a ?b"
    using assms(1,3) req(2) by (intro lanes_agree_execute) (auto simp: in_step_def)
  moreover have "sound_docs (snd ?b)" using assms(1) by (simp add: in_step_def sound_docs_execute)
  moreover have "r = (Inr (build_execution req (with_times t (fst ?a)) (with_times u (fst ?b))),
      publish (Executed (lit et) (build_execution req (with_times t (fst ?a)) (with_times u (fst ?b))))
        (?g\<lparr>known_keys := List.insert (request_key req) (known_keys ?g), redis_lane := snd ?a, db_only_lane := snd ?b\<rparr>))"
    using assms(4) req g
    by (simp add: execute_command_def execute_request_def gather_def redis_executor_def db_executor_def Let_def)
  ultimately show ?thesis
    by (simp add: in_step_def lanes_agree_def agreed_def build_execution_def prod_eq_iff)
qed

lemma coherent_delete_all:
  "coherent c docs \<Longrightarrow> coherent (fold (\<lambda>k c. snd (client_delete k c)) ks c) docs"
proof (induction ks arbitrary: c)
  case (Cons k ks)
  then show ?case using coherent_subcache[OF subcache_delete[OF coherent_wf]] by simp
qed simp

lemma deleted_entries:
  "map_of (entries (fold (\<lambda>k c. snd (client_delete k c)) ks c)) k =
     (if k \<in> set ks then None else map_of (entries c) k)"
  by (induction ks arbitrary: c) (auto simp: dict_simps)

lemma map_of_seed:
  assumes "wf_dict new"
  shows "map_of (mongo_seed new docs) k =
    (case map_of new k of None \<Rightarrow> map_of docs k | Some v \<Rightarrow> Some (StringDoc v))"
proof -
  have "map_of (rev new) = map_of new"
    using assms by (subst map_of_inject_set) (simp_all add: wf_dict_def keys_of_def rev_map[symmetric])
  then show ?thesis by (simp add: mongo_seed_get)
qed

lemma coherent_warm:
  assumes "coherent c docs" "\<And>k v. (k, v) \<in> set new \<Longrightarrow> map_of docs k = Some (StringDoc v)"
  shows "coherent (fold (\<lambda>(key, v) c. let c2 = client_set now key v c
      in case ttl of None \<Rightarrow> c2 | Some x \<Rightarrow> snd (client_expire now key x c2)) new c) docs"
  using assms
proof (induction new arbitrary: c)
  case (Cons p new)
  obtain k v where p: "p = (k, v)" by (cases p)
  have "coherent (client_set now k v c) docs"
    using Cons.prems p by (intro coherent_set[where docs = docs]) auto
  then show ?case
    using Cons coherent_expire p by (cases ttl) (auto simp: Let_def)
qed simp

lemma in_step_seed:
  assumes "in_step g" "wf_dict (seed_documents inp)"
  shows "in_step (snd (seed_state (redis_executor dttl now t) (db_executor u) inp g))"
proof -
  let ?docs = "mongo_seed (seed_documents inp) (db_only_lane g)" and ?c = "fst (redis_lane g)"
  let ?d = "fold (\<lambda>k c. snd (client_delete k c)) (keys_of (seed_documents inp)) ?c"
  have coh: "coherent ?c (db_only_lane g)" and sound: "sound_docs (db_only_lane g)"
    and lane: "redis_lane g = (?c, db_only_lane g)"
    using assms(1) by (simp_all add: in_step_def prod_eq_iff)
  have d: "coherent ?d ?docs"
    using coherent_delete_all[OF coh, of "keys_of (seed_documents inp)"]
    by (auto simp: coherent_def deleted_entries map_of_seed[OF assms(2)] keys_of_iff split: option.splits if_splits)
  have "(k, v) \<in> set (seed_documents inp) \<Longrightarrow> map_of ?docs k = Some (StringDoc v)" for k v
    using assms(2) by (simp add: map_of_seed wf_dict_map_of[symmetric])
  note warm = coherent_warm[OF d this]
  have "sound_docs ?docs"
    using sound by (auto simp: sound_docs_def map_of_seed[OF assms(2)] split: option.splits)
  moreover have docs: "(if seed_documents inp \<noteq> [] then ?docs else db_only_lane g) = ?docs"
    by (simp add: mongo_seed_def)
  have "coherent (fst (redis_db_seed dttl now inp (redis_lane g))) ?docs \<and>
      snd (redis_db_seed dttl now inp (redis_lane g)) = ?docs"
    by (subst (1 2) lane) (use d warm docs in \<open>simp add: redis_db_seed_def Let_def\<close>)
  moreover have "lane_seed (redis_executor dttl now t) inp w = (Inr (), redis_db_seed dttl now inp w)"
    "lane_seed (db_executor u) inp ds = (Inr (), if seed_documents inp \<noteq> [] then mongo_seed (seed_documents inp) ds else ds)"
    for w ds by (simp_all add: redis_executor_def db_executor_def db_only_seed_def)
  ultimately show ?thesis using docs by (simp add: lanes.seed_effect in_step_def)
qed

lemma in_step_configure:
  assumes "in_step g"
  shows "in_step (snd (apply_selected_memory_profile (redis_executor dttl now t) g))"
proof -
  have coh: "coherent (fst (redis_lane g)) (db_only_lane g)" using assms by (simp add: in_step_def)
  have "coherent (snd (client_info_memory now (client_config_set_maxmemory now m (fst (redis_lane g))))) (db_only_lane g)" for m
  proof -
    let ?c = "(fst (redis_lane g))\<lparr>client_max_memory := if m > 0 then Some m else None\<rparr>"
    have "coherent ?c (db_only_lane g)" using coh by (simp add: coherent_def)
    then have "coherent (enforce_max_memory now [] ?c) (db_only_lane g)"
      using coherent_subcache[OF subcache_enforce[OF coherent_wf]] by blast
    then have "coherent (purge_expired now (enforce_max_memory now [] ?c)) (db_only_lane g)"
      using coherent_subcache[OF subcache_purge[OF coherent_wf]] by blast
    then show ?thesis by (simp add: client_info_memory_def client_config_set_maxmemory_def Let_def)
  qed
  then show ?thesis
    using assms by (auto simp: apply_selected_memory_profile_def in_step_def redis_executor_def configure_memory_def
        case_prod_unfold split: option.splits)
qed

lemma in_step_reset:
  "in_step (snd (reset_state (redis_executor dttl now t) (db_executor u) g))"
proof -
  let ?g = "g\<lparr>redis_lane := (client_flushdb (fst (redis_lane g)), []), db_only_lane := [], known_keys := [],
    memory_locked := False\<rparr>"
  have "in_step ?g" by (simp add: in_step_def coherent_def client_flushdb_def sound_docs_def)
  moreover have "reset_state (redis_executor dttl now t) (db_executor u) g = initialize (redis_executor dttl now t) ?g"
    by (simp add: reset_state_def gather_def redis_executor_def db_executor_def redis_db_clear_def db_only_clear_def
        mongo_clear_def case_prod_unfold)
  ultimately show ?thesis
    using in_step_configure[of ?g dttl now t]
    by (cases "apply_selected_memory_profile (redis_executor dttl now t) ?g")
      (auto simp: initialize_def sbind_def split: sum.splits)
qed

section \<open>Scenarios\<close>

text \<open>The actions of a plan are reads, writes and deletions of strings.\<close>

lemma plan_commands:
  assumes "build_plan inp = Inr plan" "a \<in> set (actions plan)"
  shows "action_command a \<in> {lit ''SET'', lit ''GET'', lit ''DEL''}"
  using assms
  by (auto simp: build_plan_def build_read_plan_def build_write_plan_def build_mixed_plan_def read_action_def
      action_def mixed_command split: if_splits)

lemma plan_documents: "build_plan inp = Inr plan \<Longrightarrow> wf_dict (seed_docs plan)"
  using catalog_distinct
  by (auto simp: build_plan_def build_read_plan_def build_write_plan_def build_mixed_plan_def split: if_splits)

text \<open>The recorded results agree.\<close>

definition history_agreed :: "arena \<Rightarrow> bool" where
  "history_agreed g \<longleftrightarrow> (\<forall>et x. Executed et x \<in> set (events (history g)) \<longrightarrow> agreed x)"

lemma tail_slice_subset: "set (tail_slice n xs) \<subseteq> set xs"
  by (simp add: tail_slice_def set_drop_subset)

lemma history_append_events: "set (events (history_append e h)) \<subseteq> insert e (set (events h))"
  using tail_slice_subset[of "max_events h" "events h @ [e]"] by (auto simp: history_append_def)

lemma history_agreed_same: "history g' = history g \<Longrightarrow> history_agreed g \<Longrightarrow> history_agreed g'"
  by (simp add: history_agreed_def)

lemma history_agreed_append:
  assumes "history g' = history_append e (history g)" "history_agreed g" "\<And>et x. e = Executed et x \<Longrightarrow> agreed x"
  shows "history_agreed g'"
  unfolding history_agreed_def assms(1)
proof (intro allI impI)
  fix et x
  assume "Executed et x \<in> set (events (history_append e (history g)))"
  then have "Executed et x \<in> insert e (set (events (history g)))"
    by (rule subsetD[OF history_append_events])
  then show "agreed x" using assms(2,3) by (auto simp: history_agreed_def)
qed

definition arena_ticks :: "(lane_state, documents) tick list \<Rightarrow> bool" where
  "arena_ticks ticks \<longleftrightarrow>
     (\<forall>(R, D, rid) \<in> set ticks. \<exists>dttl now t u. R = redis_executor dttl now t \<and> D = db_executor u)"

lemma run_actions_agree:
  assumes "in_step g" "valid_controls g" "history_agreed g" "arena_ticks ticks"
    and "\<And>a. a \<in> set as \<Longrightarrow> action_command a \<in> {lit ''SET'', lit ''GET'', lit ''DEL''}"
  shows "in_step (snd (run_actions inp as ticks g)) \<and> history_agreed (snd (run_actions inp as ticks g)) \<and>
    (length as \<le> length ticks \<longrightarrow> fst (run_actions inp as ticks g) = Finished)"
  using assms
proof (induction inp as ticks g rule: run_actions.induct)
  case (3 inp a rest R D rid ticks g)
  obtain dttl now t u where RD: "R = redis_executor dttl now t" "D = db_executor u"
    using "3.prems"(4) by (auto simp: arena_ticks_def)
  let ?r = "execute_scenario_command R D rid (action_input inp a) g"
  note unf = execute_scenario_command_def RD
  have "in_step (snd ?r) \<and> (\<exists>x. fst ?r = Inr x \<and> agreed x)"
    using "3.prems"(1,2) "3.prems"(5)[of a] unfolding unf
    by (intro in_step_command[OF _ _ _ refl]) (simp_all add: action_input_def)
  then obtain x where x: "in_step (snd ?r)" "fst ?r = Inr x" "agreed x" by blast
  obtain req y where e: "?r = (Inr y, snd (execute_request R D (lit ''scenario_execution_completed'') req (lock_memory_profile g)))"
    and y: "valid_controls (snd ?r)"
      "history (snd ?r) = history_append (Executed (lit ''scenario_execution_completed'') y) (history g)"
    unfolding unf by (rule answered[OF "3.prems"(2)])
  have r: "?r = (Inr y, snd ?r)" using e by simp
  have "y = x" using x(2) r by (metis fst_conv sum.inject(2))
  then have "history_agreed (snd ?r)"
    using x(3) by (intro history_agreed_append[OF y(2) "3.prems"(3)]) simp
  moreover have "arena_ticks ticks" using "3.prems"(4) by (simp add: arena_ticks_def)
  ultimately have ih: "in_step (snd (run_actions inp rest ticks (snd ?r))) \<and>
      history_agreed (snd (run_actions inp rest ticks (snd ?r))) \<and>
      (length rest \<le> length ticks \<longrightarrow> fst (run_actions inp rest ticks (snd ?r)) = Finished)"
    using "3.IH"[OF r[symmetric] refl] x(1) y(1) "3.prems"(5) by simp
  have "run_actions inp (a # rest) ((R, D, rid) # ticks) g = run_actions inp rest ticks (snd ?r)"
    by (subst run_actions.simps, subst r) simp
  then show ?case using ih by simp
qed simp_all

lemma history_agreed_publish: "history_agreed g \<Longrightarrow> history_agreed (publish (Message et m) g)"
  by (rule history_agreed_append[where e = "Message et m"]) simp_all

lemma in_step_publish [simp]: "in_step (publish e g) = in_step g"
  by (simp add: in_step_def)

lemma plan_body_agrees:
  assumes "in_step g" "valid_controls g" "history_agreed g" "arena_ticks ticks" "build_plan inp = Inr plan"
    and "x = plan_body (redis_executor dttl now t) (db_executor u) inp ticks g"
  shows "in_step (snd x) \<and> history_agreed (snd x) \<and>
    (length (actions plan) \<le> length ticks \<longrightarrow> fst x = Finished)"
proof -
  let ?R = "redis_executor dttl now t" and ?D = "db_executor u"
  let ?s = "if seed_docs plan \<noteq> [] then seed_state ?R ?D (plan_seed plan) g else (Inr (), g)"
  have wf: "wf_dict (seed_documents (plan_seed plan))" using plan_documents[OF assms(5)] by (simp add: plan_seed_def)
  obtain g1 where s: "?s = (Inr (), g1)" by (cases "seed_docs plan = []") (simp_all add: lanes.seed_effect)
  have g1: "in_step g1" "valid_controls g1" "history_agreed g1"
    using s in_step_seed[OF assms(1) wf, of dttl now t u] assms(1-3) history_agreed_same[OF _ assms(3)]
    by (auto simp: lanes.seed_effect valid_controls_def split: if_splits)
  obtain out g2 where a: "run_actions inp (actions plan) ticks g1 = (out, g2)" by fastforce
  have run: "in_step g2" "history_agreed g2" "length (actions plan) \<le> length ticks \<longrightarrow> out = Finished"
    using run_actions_agree[OF g1 assms(4), of "actions plan" inp] plan_commands[OF assms(5)] a by auto
  have "x = (out, if out = Finished
      then publish (Message (lit ''scenario_finished'') (lit ''Scenario finished: '' @ scenario_label inp)) g2 else g2)"
    unfolding assms(6) plan_body_def assms(5) sum.case s prod.case a by (simp add: publish_message_def)
  then show ?thesis using run history_agreed_publish by simp
qed

end
