(* ===== verification/LaneServer.thy ===== *)
theory LaneServer
  imports Arena
begin

text \<open>
  The lanes as servers of their own (\<open>internal/arena/lane_a/api/routes.py\<close>, \<open>lane_b/api/routes.py\<close>)
  and the client the gateway reaches them with (\<open>internal/arena/gateway/lane_client.py\<close>).

  A lane server is its adapter's state and the set of keys it has seen. A route takes the payload the
  request was sent with; a payload the models do not accept is answered with status 422, as FastAPI
  documents it (the body of that answer is an argument). The servers run on the in-memory store and
  cache. The client either delivers a request and gets its answer, or does not reach the server.

  Main results: behind its client a lane server answers an accepted request like its adapter, and is a
  lane in the sense of the gateway; a server knows every key it stores, so a reset without keys leaves
  nothing.
\<close>

section \<open>Payloads\<close>

datatype http_failure = HttpFailure nat pystr

definition COMMANDS :: "pystr list" where
  "COMMANDS = map lit [''SET'', ''GET'', ''DEL'', ''HSET'', ''HGET'', ''HGETALL'']"

text \<open>
  \<open>validate_payload\<close>: the field and the value the command uses. The same code stands in the two lane
  servers and in the gateway's interface.
\<close>

definition validate_payload ::
  "pystr \<Rightarrow> pystr option \<Rightarrow> pystr option \<Rightarrow> py_exc + pystr option \<times> pystr option" where
  "validate_payload c f v =
     (let requires_field = c \<in> {lit ''HSET'', lit ''HGET''};
          requires_value = c \<in> {lit ''SET'', lit ''HSET''}
      in if requires_field \<and> or_empty f = [] then Inl ValueError
         else if requires_value \<and> v = None then Inl ValueError
         else Inr (if requires_field then f else None, if requires_value then v else None))"

text \<open>\<open>Field(gt=0)\<close> on an optional number.\<close>

definition positive_or_none :: "pyfloat option \<Rightarrow> bool" where
  "positive_or_none x = (case x of None \<Rightarrow> True | Some t \<Rightarrow> flt (Finite 0) t)"

definition parse_execute :: "pystr \<Rightarrow> request_payload \<Rightarrow> http_failure + arena_request" where
  "parse_execute detail p =
     (case (p_request_id p, p_mode p, p_command p, p_key p) of
        (Some i, Some md, Some c, Some k) \<Rightarrow>
          if i = [] \<or> md \<notin> {lit ''manual'', lit ''scenario''} \<or> c \<notin> set COMMANDS \<or> k = [] \<or>
             \<not> positive_or_none (p_ttl_seconds p)
          then Inl (HttpFailure 422 detail)
          else (case validate_payload c (p_field p) (p_value p) of
             Inl e \<Rightarrow> Inl (HttpFailure 422 detail)
           | Inr (f, v) \<Rightarrow>
               Inr \<lparr>request_id = i, mode = md, request_command = c, request_key = k, request_field = f,
                    request_value = v, ttl_enabled = get_default (p_ttl_enabled p) False,
                    ttl_seconds = p_ttl_seconds p\<rparr>)
      | _ \<Rightarrow> Inl (HttpFailure 422 detail))"

record reset_payload =
  reset_keys :: "pystr list"
  reset_full :: bool

record reset_response =
  reset_message :: pystr
  deleted_keys :: "pystr list"
  full_reset :: bool

record seed_response =
  seed_message :: pystr
  seeded_keys :: "pystr list"
  seed_warmed :: "bool option"

definition accepts_seed_payload :: "seed_input \<Rightarrow> bool" where
  "accepts_seed_payload inp = positive_or_none (seed_ttl_seconds inp)"

section \<open>Lane A\<close>

record 's lane_app =
  lane_store :: 's
  lane_known :: "pystr list"

definition lane_app_init :: "'s \<Rightarrow> 's lane_app" where
  "lane_app_init s = \<lparr>lane_store = s, lane_known = []\<rparr>"

definition lane_a_execute ::
  "pystr \<Rightarrow> pyfloat \<Rightarrow> pyfloat \<Rightarrow> pyfloat \<times> lane_metrics \<Rightarrow> request_payload \<Rightarrow> lane_state lane_app
    \<Rightarrow> (http_failure + result_payload) \<times> lane_state lane_app" where
  "lane_a_execute detail dttl now t p app =
     (case parse_execute detail p of
        Inl e \<Rightarrow> (Inl e, app)
      | Inr req \<Rightarrow>
          (case redis_db_execute dttl now req (lane_store app) of (res, st) \<Rightarrow>
             (Inr (result_to_dict (with_times t res)),
              app\<lparr>lane_known := List.insert (request_key req) (lane_known app), lane_store := st\<rparr>)))"

definition lane_a_reset ::
  "reset_payload \<Rightarrow> lane_state lane_app \<Rightarrow> (http_failure + reset_response) \<times> lane_state lane_app" where
  "lane_a_reset p app =
     (case lane_store app of (c, docs) \<Rightarrow>
      if reset_full p then
        (Inr \<lparr>reset_message = lit ''Lane A full reset complete.'', deleted_keys = [], full_reset = True\<rparr>,
         app\<lparr>lane_store := (client_flushdb c, mongo_clear docs), lane_known := []\<rparr>)
      else
        let ks = (if reset_keys p \<noteq> [] then reset_keys p else lane_known app)
        in (Inr \<lparr>reset_message = lit ''Lane A reset complete.'', deleted_keys = ks, full_reset = False\<rparr>,
            app\<lparr>lane_store := redis_db_clear ks False (c, docs),
                lane_known := filter (\<lambda>k. k \<notin> set ks) (lane_known app)\<rparr>))"

definition lane_a_seed ::
  "pystr \<Rightarrow> pyfloat \<Rightarrow> pyfloat \<Rightarrow> seed_input \<Rightarrow> lane_state lane_app
    \<Rightarrow> (http_failure + seed_response) \<times> lane_state lane_app" where
  "lane_a_seed detail dttl now inp app =
     (if \<not> accepts_seed_payload inp then (Inl (HttpFailure 422 detail), app)
      else case lane_store app of (c, docs) \<Rightarrow>
        let docs1 = (if seed_documents inp \<noteq> [] then mongo_seed (seed_documents inp) docs else docs);
            known = (if seed_documents inp \<noteq> []
                     then fold List.insert (keys_of (seed_documents inp)) (lane_known app) else lane_known app);
            c1 = fold (\<lambda>key c. snd (client_delete key c)) (keys_of (seed_documents inp)) c;
            ttl = redis_ttl_for_request dttl (seed_ttl_enabled inp) (seed_ttl_seconds inp);
            c2 = (if warm_cache inp
                  then fold (\<lambda>(key, v) c.
                         let c2 = client_set now key v c
                         in case ttl of None \<Rightarrow> c2 | Some x \<Rightarrow> snd (client_expire now key x c2))
                       (seed_documents inp) c1
                  else c1)
        in (Inr \<lparr>seed_message = lit ''Lane A seed complete.'', seeded_keys = keys_of (seed_documents inp),
                 seed_warmed = Some (warm_cache inp)\<rparr>,
            app\<lparr>lane_store := (c2, docs1), lane_known := known\<rparr>))"

definition lane_a_memory ::
  "pystr \<Rightarrow> pyfloat \<Rightarrow> pystr \<Rightarrow> int \<Rightarrow> lane_state lane_app
    \<Rightarrow> (http_failure + memory_report) \<times> lane_state lane_app" where
  "lane_a_memory detail now profile_key max_bytes app =
     (if profile_key = [] \<or> max_bytes < 0 then (Inl (HttpFailure 422 detail), app)
      else case lane_store app of (c, docs) \<Rightarrow>
        case client_info_memory now (client_config_set_maxmemory now max_bytes c) of (info, c1) \<Rightarrow>
          (Inr \<lparr>report_message = Some (lit ''Lane A memory profile applied.''), report_profile_key = profile_key,
                report_max_memory_bytes = max_bytes, report_redis = info\<rparr>,
           app\<lparr>lane_store := (c1, docs)\<rparr>))"

text \<open>The in-memory store is always healthy and the in-memory client answers \<open>ping\<close>.\<close>

definition lane_a_health ::
  "pyfloat \<Rightarrow> lane_state lane_app \<Rightarrow> (http_failure + lane_health_report) \<times> lane_state lane_app" where
  "lane_a_health now app =
     (case lane_store app of (c, docs) \<Rightarrow>
      case client_info_memory now c of (info, c1) \<Rightarrow>
        (Inr \<lparr>health_lane = lit ''redis_db'', health_status = lit ''ok'', health_error = None,
              health_storage = Some
                \<lparr>redis_available = True, redis_logical_bytes = int (used_memory info),
                 redis_key_count = int (info_keys info), redis_max_memory_bytes = maxmemory info,
                 redis_evicted_keys = int (info_evicted_keys info),
                 mongo_logical_bytes = int (fst (mongo_stats docs)),
                 mongo_document_count = int (snd (mongo_stats docs))\<rparr>\<rparr>,
         app\<lparr>lane_store := (c1, docs)\<rparr>))"

section \<open>Lane B\<close>

definition lane_b_execute ::
  "pystr \<Rightarrow> pyfloat \<times> lane_metrics \<Rightarrow> request_payload \<Rightarrow> documents lane_app
    \<Rightarrow> (http_failure + result_payload) \<times> documents lane_app" where
  "lane_b_execute detail t p app =
     (case parse_execute detail p of
        Inl e \<Rightarrow> (Inl e, app)
      | Inr req \<Rightarrow>
          (case db_only_execute req (lane_store app) of (res, st) \<Rightarrow>
             (Inr (result_to_dict (with_times t res)),
              app\<lparr>lane_known := List.insert (request_key req) (lane_known app), lane_store := st\<rparr>)))"

definition lane_b_reset ::
  "reset_payload \<Rightarrow> documents lane_app \<Rightarrow> (http_failure + reset_response) \<times> documents lane_app" where
  "lane_b_reset p app =
     (if reset_full p then
        (Inr \<lparr>reset_message = lit ''Lane B full reset complete.'', deleted_keys = [], full_reset = True\<rparr>,
         app\<lparr>lane_store := mongo_clear (lane_store app), lane_known := []\<rparr>)
      else
        let ks = (if reset_keys p \<noteq> [] then reset_keys p else lane_known app)
        in (Inr \<lparr>reset_message = lit ''Lane B reset complete.'', deleted_keys = ks, full_reset = False\<rparr>,
            app\<lparr>lane_store := db_only_clear ks False (lane_store app),
                lane_known := filter (\<lambda>k. k \<notin> set ks) (lane_known app)\<rparr>))"

text \<open>The seed payload of lane B has only the documents; other keys are ignored.\<close>

definition lane_b_seed ::
  "seed_input \<Rightarrow> documents lane_app \<Rightarrow> (http_failure + seed_response) \<times> documents lane_app" where
  "lane_b_seed inp app =
     (Inr \<lparr>seed_message = lit ''Lane B seed complete.'', seeded_keys = keys_of (seed_documents inp), seed_warmed = None\<rparr>,
      if seed_documents inp \<noteq> []
      then app\<lparr>lane_store := mongo_seed (seed_documents inp) (lane_store app),
               lane_known := fold List.insert (keys_of (seed_documents inp)) (lane_known app)\<rparr>
      else app)"

definition lane_b_health ::
  "documents lane_app \<Rightarrow> (http_failure + lane_health_report) \<times> documents lane_app" where
  "lane_b_health app =
     (Inr \<lparr>health_lane = lit ''db_only'', health_status = lit ''ok'', health_error = None,
           health_storage = Some
             \<lparr>redis_available = False, redis_logical_bytes = 0, redis_key_count = 0,
              redis_max_memory_bytes = 0, redis_evicted_keys = 0,
              mongo_logical_bytes = int (fst (mongo_stats (lane_store app))),
              mongo_document_count = int (snd (mongo_stats (lane_store app)))\<rparr>\<rparr>, app)"

section \<open>The client of a lane server\<close>

record 's lane_routes =
  route_execute :: "request_payload \<Rightarrow> 's \<Rightarrow> (http_failure + result_payload) \<times> 's"
  route_reset :: "reset_payload \<Rightarrow> 's \<Rightarrow> (http_failure + reset_response) \<times> 's"
  route_seed :: "seed_input \<Rightarrow> 's \<Rightarrow> (http_failure + seed_response) \<times> 's"
  route_memory :: "pystr \<Rightarrow> int \<Rightarrow> 's \<Rightarrow> (http_failure + memory_report) \<times> 's"
  route_health :: "'s \<Rightarrow> (http_failure + lane_health_report) \<times> 's"

text \<open>What \<open>urlopen\<close> does: the request is answered, or the server is not reached (\<open>URLError\<close>).\<close>

datatype transport = Delivered | Unreachable pystr

definition open_json ::
  "pystr \<Rightarrow> transport \<Rightarrow> ('s \<Rightarrow> (http_failure + 'a) \<times> 's) \<Rightarrow> 's \<Rightarrow> (py_exc + 'a) \<times> 's" where
  "open_json nm tr call s =
     (case tr of
        Unreachable reason \<Rightarrow> (Inl (RuntimeError (nm @ lit '' request failed: '' @ reason)), s)
      | Delivered \<Rightarrow>
          (case call s of
             (Inl (HttpFailure code body), s1) \<Rightarrow>
               (Inl (RuntimeError (nm @ lit '' request failed with HTTP '' @ show_nat code @ lit '': '' @ body)), s1)
           | (Inr x, s1) \<Rightarrow> (Inr x, s1)))"

definition round_trip :: "pyfloat \<Rightarrow> lane_reply \<Rightarrow> lane_reply" where
  "round_trip elapsed r =
     r\<lparr>reply_metrics := reply_metrics r\<lparr>gateway_round_trip_ms := Some (round3 elapsed)\<rparr>\<rparr>"

definition http_executor ::
  "pystr \<Rightarrow> transport \<Rightarrow> pyfloat \<Rightarrow> 's lane_routes \<Rightarrow> 's lane_executor" where
  "http_executor nm tr elapsed routes =
     \<lparr>lane_execute = (\<lambda>req s.
        sbind (open_json nm tr (route_execute routes (request_to_dict req)) s) (\<lambda>p s.
          (rbind (result_from_dict p) (\<lambda>r. Inr (round_trip elapsed r)), s))),
      lane_clear = (\<lambda>ks full s.
        sbind (open_json nm tr (route_reset routes \<lparr>reset_keys = ks, reset_full = full\<rparr>) s) (\<lambda>_ s. (Inr (), s))),
      lane_seed = (\<lambda>inp s. sbind (open_json nm tr (route_seed routes inp) s) (\<lambda>_ s. (Inr (), s))),
      lane_configure_memory = Some (\<lambda>k m. open_json nm tr (route_memory routes k m)),
      lane_health = Some (open_json nm tr (route_health routes))\<rparr>"

definition lane_a_routes ::
  "pystr \<Rightarrow> pyfloat \<Rightarrow> pyfloat \<Rightarrow> pyfloat \<times> lane_metrics \<Rightarrow> lane_state lane_app lane_routes" where
  "lane_a_routes detail dttl now t =
     \<lparr>route_execute = lane_a_execute detail dttl now t, route_reset = lane_a_reset,
      route_seed = lane_a_seed detail dttl now, route_memory = lane_a_memory detail now,
      route_health = lane_a_health now\<rparr>"

text \<open>Lane B has no route for the memory.\<close>

definition lane_b_routes :: "pystr \<Rightarrow> pyfloat \<times> lane_metrics \<Rightarrow> documents lane_app lane_routes" where
  "lane_b_routes detail t =
     \<lparr>route_execute = lane_b_execute detail t, route_reset = lane_b_reset, route_seed = lane_b_seed,
      route_memory = (\<lambda>_ _ app. (Inl (HttpFailure 404 detail), app)), route_health = lane_b_health\<rparr>"

section \<open>The lane servers are lanes\<close>

text \<open>A request the lane servers take, whatever the body of a refusal would be.\<close>

definition acceptable :: "arena_request \<Rightarrow> bool" where
  "acceptable req = (case parse_execute [] (request_to_dict req) of Inl _ \<Rightarrow> False | Inr _ \<Rightarrow> True)"

lemma parse_request:
  assumes "parse_execute detail (request_to_dict req) = Inr req'"
  shows "request_key req' = request_key req" "request_command req' = request_command req"
    "request_id req' = request_id req"
  using assms by (auto simp: parse_execute_def request_to_dict_def split: if_splits sum.splits)

lemma acceptable_parse:
  "acceptable req \<longleftrightarrow> (\<exists>req'. parse_execute detail (request_to_dict req) = Inr req')"
  by (auto simp: acceptable_def parse_execute_def request_to_dict_def split: sum.splits)

lemma open_json_delivered [simp]:
  "call s = (Inr x, s') \<Longrightarrow> open_json nm Delivered call s = (Inr x, s')"
  by (simp add: open_json_def)

lemma truncate_round_trip [simp]: "lane_result.truncate (round_trip x r) = lane_result.truncate r"
  by (simp add: round_trip_def lane_result.defs)

text \<open>A delivered request that is accepted is answered as by the adapter.\<close>

lemma http_a_execute:
  assumes "parse_execute detail (request_to_dict req) = Inr req'"
    and "redis_db_execute dttl now req' (lane_store app) = (res, st)"
  shows "lane_execute (http_executor nm Delivered x (lane_a_routes detail dttl now t)) req app =
    (Inr (round_trip x (timed (with_times t res))),
     app\<lparr>lane_known := List.insert (request_key req) (lane_known app), lane_store := st\<rparr>)"
  using assms parse_request(1)[OF assms(1)]
  by (simp add: http_executor_def lane_a_routes_def lane_a_execute_def open_json_def result_roundtrip)

lemma http_b_execute:
  assumes "parse_execute detail (request_to_dict req) = Inr req'"
    and "db_only_execute req' (lane_store app) = (res, st)"
  shows "lane_execute (http_executor nm Delivered x (lane_b_routes detail t)) req app =
    (Inr (round_trip x (timed (with_times t res))),
     app\<lparr>lane_known := List.insert (request_key req) (lane_known app), lane_store := st\<rparr>)"
  using assms parse_request(1)[OF assms(1)]
  by (simp add: http_executor_def lane_b_routes_def lane_b_execute_def open_json_def result_roundtrip)

lemma http_refused:
  assumes "parse_execute detail (request_to_dict req) = Inl e"
  shows "snd (lane_execute (http_executor nm tr x (lane_a_routes detail dttl now t)) req app) = app"
    "snd (lane_execute (http_executor nm tr x (lane_b_routes detail u)) req app') = app'"
  using assms by (cases tr; cases e; simp add: http_executor_def lane_a_routes_def lane_b_routes_def
    lane_a_execute_def lane_b_execute_def open_json_def)+

text \<open>The other routes change the store as the adapter's operations do.\<close>

lemma route_stores:
  "lane_store (snd (lane_a_reset \<lparr>reset_keys = ks, reset_full = True\<rparr> app)) = redis_db_clear ks True (lane_store app)"
  "lane_store (snd (lane_b_reset \<lparr>reset_keys = ks, reset_full = True\<rparr> app')) = db_only_clear ks True (lane_store app')"
  "accepts_seed_payload inp \<Longrightarrow> lane_store (snd (lane_a_seed detail dttl now inp app)) = redis_db_seed dttl now inp (lane_store app)"
  "lane_store (snd (lane_b_seed inp app')) = db_only_seed inp (lane_store app')"
  by (simp_all add: lane_a_reset_def lane_b_reset_def redis_db_clear_def db_only_clear_def lane_a_seed_def
      lane_b_seed_def redis_db_seed_def db_only_seed_def Let_def split: prod.split)

abbreviation app_cached_keys :: "lane_state lane_app \<Rightarrow> pystr set" where
  "app_cached_keys app \<equiv> cached_keys (lane_store app)"

abbreviation app_plain_keys :: "documents lane_app \<Rightarrow> pystr set" where
  "app_plain_keys app \<equiv> plain_keys (lane_store app)"

lemma http_a_stored:
  "app_cached_keys (snd (lane_execute (http_executor nm Delivered x (lane_a_routes detail dttl now t)) req app)) \<subseteq>
     insert (request_key req) (app_cached_keys app)"
proof (cases "parse_execute detail (request_to_dict req)")
  case (Inr req')
  obtain res st where e: "redis_db_execute dttl now req' (lane_store app) = (res, st)" by (metis surj_pair)
  then show ?thesis
    using http_a_execute[OF Inr e] cached.execute_stored[of dttl now t req' "lane_store app"] parse_request(1)[OF Inr]
    by (simp add: redis_executor_def)
qed (auto simp: http_refused)

lemma http_b_stored:
  "app_plain_keys (snd (lane_execute (http_executor nm Delivered x (lane_b_routes detail t)) req app)) \<subseteq>
     insert (request_key req) (app_plain_keys app)"
proof (cases "parse_execute detail (request_to_dict req)")
  case (Inr req')
  obtain res st where e: "db_only_execute req' (lane_store app) = (res, st)" by (metis surj_pair)
  then show ?thesis
    using http_b_execute[OF Inr e] plain.execute_stored[of t req' "lane_store app"] parse_request(1)[OF Inr]
    by (simp add: db_executor_def)
qed (auto simp: http_refused)

lemma redis_db_seed_keys:
  "cached_keys (redis_db_seed dttl now inp w) \<subseteq> set (keys_of (seed_documents inp)) \<union> cached_keys w"
  using cached.seed_stored[of dttl now undefined inp w] by (simp add: redis_executor_def)

lemma lane_a_routes_stored:
  "app_cached_keys (snd (lane_a_seed detail dttl now inp app)) \<subseteq> set (keys_of (seed_documents inp)) \<union> app_cached_keys app"
  "app_cached_keys (snd (lane_a_memory detail now k m app)) = app_cached_keys app"
  "app_cached_keys (snd (lane_a_health now app)) = app_cached_keys app"
proof -
  show "app_cached_keys (snd (lane_a_seed detail dttl now inp app)) \<subseteq> set (keys_of (seed_documents inp)) \<union> app_cached_keys app"
    using route_stores(3)[of inp detail dttl now app] redis_db_seed_keys
    by (cases "accepts_seed_payload inp") (simp_all add: lane_a_seed_def)
qed (simp_all add: lane_a_memory_def lane_a_health_def client_info_memory_def Let_def split: prod.split)

interpretation http_a: cached_lane "http_executor nm Delivered x (lane_a_routes detail dttl now t)"
  app_cached_keys acceptable accepts_seed_payload for nm x detail dttl now t
proof (unfold_locales, goal_cases)
  case (1 req s)
  show ?case by (rule http_a_stored)
next
  case (2 req s)
  then obtain req' where r: "parse_execute detail (request_to_dict req) = Inr req'" using acceptable_parse by blast
  obtain res st where "redis_db_execute dttl now req' (lane_store s) = (res, st)" by (metis surj_pair)
  then show ?case using http_a_execute[OF r] by simp
next
  case (3 ks s)
  show ?case
    by (simp add: http_executor_def lane_a_routes_def lane_a_reset_def open_json_def mongo_clear_def keys_of_def
        split: prod.split)
next
  case (4 ks full s)
  show ?case
    by (simp add: http_executor_def lane_a_routes_def lane_a_reset_def open_json_def Let_def split: prod.split)
next
  case (5 inp s)
  have "snd (lane_seed (http_executor nm Delivered x (lane_a_routes detail dttl now t)) inp s) =
      snd (lane_a_seed detail dttl now inp s)"
    by (cases "lane_store s")
      (simp add: http_executor_def lane_a_routes_def open_json_def lane_a_seed_def Let_def)
  then show ?case using lane_a_routes_stored(1) by simp
next
  case (6 inp s)
  then show ?case
    by (cases "lane_store s")
      (simp add: http_executor_def lane_a_routes_def open_json_def lane_a_seed_def Let_def)
next
  case (7 conf k m s)
  then have "snd (conf k m s) = snd (lane_a_memory detail now k m s)"
    by (cases "lane_store s")
      (auto simp: http_executor_def lane_a_routes_def open_json_def lane_a_memory_def split: prod.split)
  then show ?case using lane_a_routes_stored(2) by simp
next
  case (8 hl s)
  then have "snd (hl s) = snd (lane_a_health now s)"
    by (cases "lane_store s") (auto simp: http_executor_def lane_a_routes_def open_json_def lane_a_health_def split: prod.split)
  then show ?case using lane_a_routes_stored(3) by simp
next
  case (9 conf k m s)
  then show ?case
    by (cases "lane_store s") (auto simp: http_executor_def lane_a_routes_def open_json_def lane_a_memory_def split: prod.split)
qed

interpretation http_b: lane "http_executor nm Delivered x (lane_b_routes detail t)"
  app_plain_keys acceptable "\<lambda>_. True" for nm x detail t
proof (unfold_locales, goal_cases)
  case (1 req s)
  show ?case by (rule http_b_stored)
next
  case (2 req s)
  then obtain req' where r: "parse_execute detail (request_to_dict req) = Inr req'" using acceptable_parse by blast
  obtain res st where "db_only_execute req' (lane_store s) = (res, st)" by (metis surj_pair)
  then show ?case using http_b_execute[OF r] by simp
qed (use mongo_keys(4) in \<open>auto simp: http_executor_def lane_b_routes_def lane_b_reset_def lane_b_seed_def lane_b_health_def
    open_json_def mongo_clear_def keys_of_def Let_def split: if_splits\<close>)

interpretation http_lanes: lane_pair
  "http_executor nm Delivered x (lane_a_routes detail dttl now t)" app_cached_keys acceptable accepts_seed_payload
  "http_executor nm' Delivered y (lane_b_routes detail' u)" app_plain_keys acceptable "\<lambda>_. True"
  for nm x detail dttl now t nm' y detail' u
  by unfold_locales

section \<open>A lane server knows what it stores\<close>

text \<open>A server from its start: any routes in any order, at any readings of the clock.\<close>

inductive lane_a_reachable :: "lane_state lane_app \<Rightarrow> bool" where
  start: "lane_a_reachable (lane_app_init (client_init, []))"
| execute: "lane_a_reachable app \<Longrightarrow> lane_a_reachable (snd (lane_a_execute detail dttl now t p app))"
| reset: "lane_a_reachable app \<Longrightarrow> lane_a_reachable (snd (lane_a_reset rp app))"
| seed: "lane_a_reachable app \<Longrightarrow> lane_a_reachable (snd (lane_a_seed detail dttl now inp app))"
| memory: "lane_a_reachable app \<Longrightarrow> lane_a_reachable (snd (lane_a_memory detail now k m app))"
| health: "lane_a_reachable app \<Longrightarrow> lane_a_reachable (snd (lane_a_health now app))"

inductive lane_b_reachable :: "documents lane_app \<Rightarrow> bool" where
  start: "lane_b_reachable (lane_app_init [])"
| execute: "lane_b_reachable app \<Longrightarrow> lane_b_reachable (snd (lane_b_execute detail t p app))"
| reset: "lane_b_reachable app \<Longrightarrow> lane_b_reachable (snd (lane_b_reset rp app))"
| seed: "lane_b_reachable app \<Longrightarrow> lane_b_reachable (snd (lane_b_seed inp app))"

lemma execute_tracked_a:
  assumes "app_cached_keys app \<subseteq> set (lane_known app)"
  shows "app_cached_keys (snd (lane_a_execute detail dttl now t p app)) \<subseteq>
    set (lane_known (snd (lane_a_execute detail dttl now t p app)))"
proof (cases "parse_execute detail p")
  case (Inr req)
  then show ?thesis
    using assms cached.execute_stored[of dttl now t req "lane_store app"]
    by (auto simp: lane_a_execute_def redis_executor_def case_prod_unfold)
qed (simp add: lane_a_execute_def assms)

lemma execute_tracked_b:
  assumes "app_plain_keys app \<subseteq> set (lane_known app)"
  shows "app_plain_keys (snd (lane_b_execute detail t p app)) \<subseteq> set (lane_known (snd (lane_b_execute detail t p app)))"
proof (cases "parse_execute detail p")
  case (Inr req)
  then show ?thesis
    using assms plain.execute_stored[of t req "lane_store app"]
    by (auto simp: lane_b_execute_def db_executor_def case_prod_unfold)
qed (simp add: lane_b_execute_def assms)

lemma delete_many_keys:
  "set (keys_of (mongo_delete_many ks docs)) = set (keys_of docs) - set ks"
  using mongo_delete_many_get[of ks docs] by (auto simp: keys_of_iff split: if_splits)

lemma lane_a_tracks: "lane_a_reachable app \<Longrightarrow> app_cached_keys app \<subseteq> set (lane_known app)"
proof (induction rule: lane_a_reachable.induct)
  case (execute app detail dttl now t p)
  then show ?case by (intro execute_tracked_a)
next
  case (reset app rp)
  then show ?case
    by (auto simp: lane_a_reset_def redis_db_clear_def mongo_clear_def keys_of_def[of "[]"] delete_many_keys Let_def
        split: prod.split)
next
  case (seed app detail dttl now inp)
  then show ?case
    using lane_a_routes_stored(1)[of detail dttl now inp app]
    by (auto simp: lane_a_seed_def set_fold_insert mongo_seed_def keys_of_def[of "[]"] Let_def split: prod.splits if_splits)
next
  case (memory app detail now k m)
  then show ?case
    by (auto simp: lane_a_memory_def split: prod.split)
next
  case (health app now)
  then show ?case by (auto simp: lane_a_health_def split: prod.split)
qed (simp add: lane_app_init_def keys_of_def)

lemma lane_b_tracks: "lane_b_reachable app \<Longrightarrow> app_plain_keys app \<subseteq> set (lane_known app)"
proof (induction rule: lane_b_reachable.induct)
  case (execute app detail t p)
  then show ?case by (intro execute_tracked_b)
next
  case (reset app rp)
  then show ?case
    by (auto simp: lane_b_reset_def db_only_clear_def mongo_clear_def keys_of_def[of "[]"] delete_many_keys Let_def)
next
  case (seed app inp)
  then show ?case
    using mongo_keys(4)[of "seed_documents inp" "lane_store app"]
    by (auto simp: lane_b_seed_def set_fold_insert)
qed (simp add: lane_app_init_def keys_of_def)

lemma reset_all_empties:
  assumes "set (keys_of docs) \<subseteq> set ks"
  shows "mongo_delete_many ks docs = []"
proof -
  have "set (keys_of (mongo_delete_many ks docs)) = {}" using assms by (simp only: delete_many_keys Diff_eq_empty_iff)
  then show ?thesis by (simp add: keys_of_def)
qed

end
