(* ===== verification/ArenaApi.thy ===== *)
theory ArenaApi
  imports LaneServer
begin

text \<open>
  The gateway as a service (\<open>internal/arena/api\<close>): what it accepts, how exceptions become statuses, and
  the start of the application. The lanes are the servers of \<open>LaneServer\<close> behind their clients, as
  \<open>create_app\<close> connects them. A payload that is not accepted is answered with status 422, an exception
  nobody catches with status 500 (FastAPI); their bodies, and the texts of exceptions, are arguments.

  Main results: what the gateway's interface accepts the lane servers accept too, so a manual command
  is always answered, with the results of the two adapters, and an accepted scenario runs to its end.
\<close>

section \<open>Manual commands\<close>

record manual_payload =
  m_command :: pystr
  m_key :: pystr
  m_field :: "pystr option"
  m_value :: "pystr option"
  m_ttl_enabled :: bool

definition parse_manual :: "pystr \<Rightarrow> manual_payload \<Rightarrow> http_failure + command_input" where
  "parse_manual detail p =
     (if m_command p \<notin> set COMMANDS \<or> m_key p = [] then Inl (HttpFailure 422 detail)
      else case validate_payload (m_command p) (m_field p) (m_value p) of
        Inl e \<Rightarrow> Inl (HttpFailure 422 detail)
      | Inr (f, v) \<Rightarrow>
          Inr \<lparr>input_command = m_command p, input_key = m_key p, input_field = f, input_value = v,
               input_ttl_enabled = m_ttl_enabled p, input_ttl_seconds = None\<rparr>)"

definition unhandled :: "pystr \<Rightarrow> (py_exc + 'a) \<times> 's \<Rightarrow> (http_failure + 'a) \<times> 's" where
  "unhandled detail r =
     (case fst r of Inl e \<Rightarrow> Inl (HttpFailure 500 detail) | Inr x \<Rightarrow> Inr x, snd r)"

definition run_manual_command ::
  "pystr \<Rightarrow> 'r lane_executor \<Rightarrow> 'd lane_executor \<Rightarrow> pystr \<Rightarrow> manual_payload \<Rightarrow> ('r, 'd) gateway
    \<Rightarrow> (http_failure + execution_result) \<times> ('r, 'd) gateway" where
  "run_manual_command detail R D rid p g =
     (case parse_manual detail p of
        Inl e \<Rightarrow> (Inl e, g)
      | Inr inp \<Rightarrow> unhandled detail (execute_manual_command R D rid inp g))"

section \<open>Scenarios\<close>

definition parse_scenario :: "pystr \<Rightarrow> scenario_input \<Rightarrow> http_failure + scenario_input" where
  "parse_scenario detail p =
     (if scenario_id p \<notin> {lit ''read'', lit ''write'', lit ''mixed''} \<or> users p < 1 \<or> duration_seconds p < 1 \<or>
         (case read_hot_percent p of None \<Rightarrow> False | Some n \<Rightarrow> n \<notin> {0, 20, 40, 60, 80, 100}) \<or>
         \<not> positive_or_none (scenario_ttl_seconds p)
      then Inl (HttpFailure 422 detail) else Inr p)"

definition run_scenario ::
  "pystr \<Rightarrow> scenario_input \<Rightarrow> ('r, 'd) runner \<Rightarrow> (http_failure + pystr) \<times> ('r, 'd) runner" where
  "run_scenario detail p rn =
     (case parse_scenario detail p of
        Inl e \<Rightarrow> (Inl e, rn)
      | Inr inp \<Rightarrow> (case accept_scenario inp rn of (m, rn1) \<Rightarrow> (Inr m, rn1)))"

definition reset_scenarios ::
  "pystr \<Rightarrow> 'r lane_executor \<Rightarrow> 'd lane_executor \<Rightarrow> ('r, 'd) runner \<Rightarrow> (http_failure + pystr) \<times> ('r, 'd) runner" where
  "reset_scenarios detail R D rn = unhandled detail (runner_reset R D rn)"

section \<open>Controls\<close>

definition api_set_memory_profile ::
  "(py_exc \<Rightarrow> pystr) \<Rightarrow> pystr \<Rightarrow> 'r lane_executor \<Rightarrow> pystr \<Rightarrow> ('r, 'd) gateway
    \<Rightarrow> (http_failure + memory_choice) \<times> ('r, 'd) gateway" where
  "api_set_memory_profile str_of detail R key g =
     (if key = [] then (Inl (HttpFailure 422 detail), g)
      else case set_memory_profile R key g of
        (Inl ValueError, g1) \<Rightarrow> (Inl (HttpFailure 400 (str_of ValueError)), g1)
      | (Inl (RuntimeError m), g1) \<Rightarrow> (Inl (HttpFailure 409 m), g1)
      | (Inl e, g1) \<Rightarrow> (Inl (HttpFailure 500 detail), g1)
      | (Inr c, g1) \<Rightarrow> (Inr c, g1))"

definition api_set_ttl_profile ::
  "(py_exc \<Rightarrow> pystr) \<Rightarrow> pystr \<Rightarrow> pystr option \<Rightarrow> ('r, 'd) gateway
    \<Rightarrow> (http_failure + ttl_choice) \<times> ('r, 'd) gateway" where
  "api_set_ttl_profile str_of detail key g =
     (case set_ttl_profile key g of
        (Inl ValueError, g1) \<Rightarrow> (Inl (HttpFailure 400 (str_of ValueError)), g1)
      | (Inl e, g1) \<Rightarrow> (Inl (HttpFailure 500 detail), g1)
      | (Inr c, g1) \<Rightarrow> (Inr c, g1))"

definition api_healthcheck ::
  "(py_exc \<Rightarrow> pystr) \<Rightarrow> pystr \<Rightarrow> 'r lane_executor \<Rightarrow> 'd lane_executor \<Rightarrow> ('r, 'd) runner
    \<Rightarrow> (http_failure + gateway_health \<times> bool \<times> pystr option \<times> nat) \<times> ('r, 'd) runner" where
  "api_healthcheck str_of detail R D rn =
     (case unhandled detail (healthcheck str_of R D (arena_gateway rn)) of (res, g) \<Rightarrow>
        let rn1 = rn\<lparr>arena_gateway := g\<rparr>
        in (case res of Inl e \<Rightarrow> Inl e | Inr h \<Rightarrow> Inr (h, runner_status rn1), rn1))"

text \<open>\<open>initialize_gateway_state\<close>: exceptions are logged and dropped.\<close>

definition initialize_gateway_state ::
  "bool \<Rightarrow> 'r lane_executor \<Rightarrow> 'd lane_executor \<Rightarrow> ('r, 'd) gateway \<Rightarrow> ('r, 'd) gateway" where
  "initialize_gateway_state reset_on_start R D g =
     (if reset_on_start
      then (case reset_state R D g of
              (Inl e, g1) \<Rightarrow> g1
            | (Inr _, g1) \<Rightarrow> g1\<lparr>history := history_clear (history g1)\<rparr>)
      else snd (initialize R g))"

section \<open>What the gateway sends is accepted\<close>

lemma validate_payload_idem:
  "validate_payload c f v = Inr (f', v') \<Longrightarrow> validate_payload c f' v' = Inr (f', v')"
  by (auto simp: validate_payload_def Let_def split: if_splits)

text \<open>An input whose request the lane servers take as it is.\<close>

definition sendable :: "command_input \<Rightarrow> bool" where
  "sendable inp \<longleftrightarrow> input_command inp \<in> set COMMANDS \<and> input_key inp \<noteq> [] \<and>
     validate_payload (input_command inp) (input_field inp) (input_value inp) = Inr (input_field inp, input_value inp) \<and>
     positive_or_none (input_ttl_seconds inp)"

lemma sendable_manual: "parse_manual detail p = Inr inp \<Longrightarrow> sendable inp"
  by (auto simp: parse_manual_def sendable_def positive_or_none_def validate_payload_idem
      split: if_splits sum.splits)

lemma selected_ttl_positive:
  assumes "selected_ttl_seconds g = Inr ttl"
  shows "positive_or_none ttl"
  using assms ttl_profiles_positive
  by (auto simp: selected_ttl_seconds_def positive_or_none_def split: option.splits)

lemma sent_request_accepted:
  assumes "sendable inp" "build_request rid md inp g = Inr req" "md = lit ''manual'' \<or> md = lit ''scenario''"
  shows "parse_execute detail (request_to_dict req) = Inr req" "acceptable req"
proof -
  have ttl: "positive_or_none (ttl_seconds req)"
    using assms(1,2) selected_ttl_positive by (auto simp: build_request_def sendable_def split: if_splits)
  have "request_id req \<noteq> []" "mode req = md" "request_command req = input_command inp"
    "request_key req = input_key inp" "request_field req = input_field inp" "request_value req = input_value inp"
    using assms(2) by (auto simp: build_request_def lit_def)
  then show "parse_execute detail (request_to_dict req) = Inr req" for detail
    using assms(1,3) ttl by (auto simp: parse_execute_def request_to_dict_def sendable_def)
  then show "acceptable req" using acceptable_parse by blast
qed

section \<open>Manual commands over HTTP\<close>

abbreviation lane_a_client ::
  "pystr \<Rightarrow> pyfloat \<Rightarrow> pystr \<Rightarrow> pyfloat \<Rightarrow> pyfloat \<Rightarrow> pyfloat \<times> lane_metrics \<Rightarrow> lane_state lane_app lane_executor" where
  "lane_a_client nm x detail dttl now t \<equiv> http_executor nm Delivered x (lane_a_routes detail dttl now t)"

abbreviation lane_b_client ::
  "pystr \<Rightarrow> pyfloat \<Rightarrow> pystr \<Rightarrow> pyfloat \<times> lane_metrics \<Rightarrow> documents lane_app lane_executor" where
  "lane_b_client nm x detail t \<equiv> http_executor nm Delivered x (lane_b_routes detail t)"

type_synonym http_arena = "(lane_state lane_app, documents lane_app) gateway"

lemma truncate_sent [simp]:
  "lane_result.truncate (round_trip x (timed (with_times t res))) = res"
  by simp

lemma manual_over_http:
  fixes g :: http_arena
  assumes "parse_manual det p = Inr inp" "valid_controls g"
    and "r = run_manual_command det (lane_a_client nm x detail dttl now t) (lane_b_client nm' y detail' u) rid p g"
  obtains e where "fst r = Inr e" "request_key (exec_request e) = m_key p"
    "redis_db_execute dttl now (exec_request e) (lane_store (redis_lane g)) =
       (lane_result.truncate (exec_redis_db e), lane_store (redis_lane (snd r)))"
    "db_only_execute (exec_request e) (lane_store (db_only_lane g)) =
       (lane_result.truncate (exec_db_only e), lane_store (db_only_lane (snd r)))"
proof -
  let ?g = "lock_memory_profile g"
  have v: "valid_controls ?g" using assms(2) by (simp add: valid_controls_def lock_memory_profile_def)
  obtain req where req: "build_request rid (lit ''manual'') inp ?g = Inr req" "request_key req = input_key inp"
    using build_request_valid[OF v] by blast
  have key: "input_key inp = m_key p" using assms(1) by (auto simp: parse_manual_def split: if_splits sum.splits)
  note accepted = sent_request_accepted(1)[OF sendable_manual[OF assms(1)] req(1)]
  obtain a st where a: "redis_db_execute dttl now req (lane_store (redis_lane ?g)) = (a, st)" by (metis surj_pair)
  obtain b st' where b: "db_only_execute req (lane_store (db_only_lane ?g)) = (b, st')" by (metis surj_pair)
  have "lane_execute (lane_a_client nm x detail dttl now t) req (redis_lane ?g) =
      (Inr (round_trip x (timed (with_times t a))),
       (redis_lane ?g)\<lparr>lane_known := List.insert (request_key req) (lane_known (redis_lane ?g)), lane_store := st\<rparr>)"
    by (rule http_a_execute[OF accepted a]) simp
  moreover have "lane_execute (lane_b_client nm' y detail' u) req (db_only_lane ?g) =
      (Inr (round_trip y (timed (with_times u b))),
       (db_only_lane ?g)\<lparr>lane_known := List.insert (request_key req) (lane_known (db_only_lane ?g)), lane_store := st'\<rparr>)"
    by (rule http_b_execute[OF accepted b]) simp
  moreover define x' where "x' = build_execution req (round_trip x (timed (with_times t a))) (round_trip y (timed (with_times u b)))"
  ultimately obtain g' where
    "execute_manual_command (lane_a_client nm x detail dttl now t) (lane_b_client nm' y detail' u) rid inp g = (Inr x', g')"
    and st: "lane_store (redis_lane g') = st" "lane_store (db_only_lane g') = st'"
    using req(1) by (simp add: execute_manual_command_def execute_command_def execute_request_def gather_def Let_def)
  then have r: "r = (Inr x', g')" using assms(1) by (simp add: assms(3) run_manual_command_def unhandled_def)
  show ?thesis
    by (rule that[of x']) (use a b st req(2) key in \<open>simp_all add: r x'_def build_execution_def lock_memory_profile_def\<close>)
qed

section \<open>Scenarios over HTTP\<close>

definition http_ticks :: "(lane_state lane_app, documents lane_app) tick list \<Rightarrow> bool" where
  "http_ticks ticks \<longleftrightarrow> (\<forall>(R, D, rid) \<in> set ticks. \<exists>nm x detail dttl now t nm' y detail' u.
     R = lane_a_client nm x detail dttl now t \<and> D = lane_b_client nm' y detail' u)"

lemma run_actions_http:
  assumes "valid_controls g" "http_ticks ticks" "\<And>a. a \<in> set as \<Longrightarrow> sendable (action_input inp a)"
  shows "fst (run_actions inp as ticks g) = (if length as \<le> length ticks then Finished else Cancelled)"
  using assms
proof (induction inp as ticks g rule: run_actions.induct)
  case (3 inp a rest R D rid ticks g)
  obtain nm x detail dttl now t nm' y detail' u where
    RD: "R = lane_a_client nm x detail dttl now t" "D = lane_b_client nm' y detail' u"
    using "3.prems"(2) by (auto simp: http_ticks_def)
  let ?r = "execute_scenario_command R D rid (action_input inp a) g"
  have acc: "acceptable req \<and> acceptable req"
    if "build_request rid (lit ''scenario'') (action_input inp a) (lock_memory_profile g) = Inr req" for req
    using sent_request_accepted(2)[OF _ that] "3.prems"(3) by simp
  obtain req y where e: "?r = (Inr y, snd (execute_request R D (lit ''scenario_execution_completed'') req (lock_memory_profile g)))"
    and v: "valid_controls (snd ?r)"
    unfolding execute_scenario_command_def RD by (rule http_lanes.command_answered[OF "3.prems"(1) acc])
  have r: "?r = (Inr y, snd ?r)" using e by simp
  have "fst (run_actions inp rest ticks (snd ?r)) = (if length rest \<le> length ticks then Finished else Cancelled)"
    using "3.IH"[OF r[symmetric] refl v] "3.prems"(2,3) by (simp add: http_ticks_def)
  moreover have "run_actions inp (a # rest) ((R, D, rid) # ticks) g = run_actions inp rest ticks (snd ?r)"
    by (subst run_actions.simps, subst r) simp
  ultimately show ?case by simp
qed simp_all

text \<open>Every action of a plan is a request the lane servers take.\<close>

lemma catalog_keys_nonempty: "k \<in> set (keys_of build_catalog_documents) \<Longrightarrow> k \<noteq> []"
  by (auto simp: catalog_keys(1) catalog_key_def lit_def)

lemma picks_nonempty: "pick hot_keys i \<noteq> []" "pick cold_keys i \<noteq> []"
proof -
  have "pick hot_keys i \<in> set hot_keys" "pick cold_keys i \<in> set cold_keys"
    using catalog_keys(2,3) by (auto intro!: pick_member)
  then show "pick hot_keys i \<noteq> []" "pick cold_keys i \<noteq> []"
    using catalog_keys_nonempty catalog_split by (metis UnI1 UnI2 set_append)+
qed

definition well_formed_action :: "scenario_action \<Rightarrow> bool" where
  "well_formed_action a \<longleftrightarrow> action_key a \<noteq> [] \<and>
     (action_command a \<in> {lit ''GET'', lit ''DEL''} \<and> action_value a = None \<or>
      action_command a = lit ''SET'' \<and> action_value a \<noteq> None)"

lemma well_formed_mixed: "well_formed_action (mixed_action i)"
  by (simp add: well_formed_action_def mixed_action_def action_def Let_def picks_nonempty lit_def)

lemma plan_actions:
  assumes "build_plan inp = Inr plan" "a \<in> set (actions plan)"
  shows "well_formed_action a"
proof -
  have "well_formed_action (read_action h i)" for h i
    by (simp add: well_formed_action_def read_action_def action_def picks_nonempty)
  moreover have "well_formed_action (action ''SET'' (write_key i) (Some v))" for i v
    by (simp add: well_formed_action_def action_def write_key_def lit_def)
  ultimately show ?thesis
    using assms well_formed_mixed
    by (auto simp: build_plan_def build_read_plan_def build_write_plan_def build_mixed_plan_def split: if_splits)
qed

lemma plan_sendable:
  assumes "well_formed_action a" "positive_or_none (scenario_ttl_seconds inp)"
  shows "sendable (action_input inp a)"
  using assms
  by (auto simp: well_formed_action_def sendable_def action_input_def COMMANDS_def validate_payload_def lit_def or_empty_def)

lemma accepted_plan:
  assumes "parse_scenario detail p = Inr inp"
  shows "\<exists>plan. build_plan inp = Inr plan" "positive_or_none (scenario_ttl_seconds inp)"
  using assms
  by (auto simp: parse_scenario_def build_plan_def build_read_plan_def int_or_def READ_LEVELS_def
      split: if_splits option.splits)

lemma plan_body_http:
  fixes g :: http_arena
  assumes "parse_scenario det p = Inr inp" "valid_controls g" "http_ticks ticks" "build_plan inp = Inr plan"
  shows "fst (plan_body (lane_a_client nm x detail dttl now t) (lane_b_client nm' y detail' u) inp ticks g) =
    (if length (actions plan) \<le> length ticks then Finished else Cancelled)"
proof -
  let ?R = "lane_a_client nm x detail dttl now t" and ?D = "lane_b_client nm' y detail' u"
  have "accepts_seed_payload (plan_seed plan)"
    by (simp add: accepts_seed_payload_def plan_seed_def positive_or_none_def)
  then have seed: "seed_state ?R ?D (plan_seed plan) g = (Inr (), snd (seed_state ?R ?D (plan_seed plan) g))"
      "valid_controls (snd (seed_state ?R ?D (plan_seed plan) g))"
    using assms(2) by (simp_all add: http_lanes.seed_effect valid_controls_def)
  obtain g1 where s: "(if seed_docs plan \<noteq> [] then seed_state ?R ?D (plan_seed plan) g else (Inr (), g)) = (Inr (), g1)"
    and g1: "valid_controls g1"
    using seed assms(2) by metis
  have "fst (run_actions inp (actions plan) ticks g1) = (if length (actions plan) \<le> length ticks then Finished else Cancelled)"
    using run_actions_http[OF g1 assms(3)] plan_sendable plan_actions[OF assms(4)] accepted_plan(2)[OF assms(1)] by blast
  then show ?thesis unfolding plan_body_def assms(4) sum.case s prod.case by (simp add: case_prod_unfold)
qed

end
