(* ===== verification/EventStream.thy ===== *)
theory EventStream
  imports Gateway
begin

text \<open>
  The stream of events of the arena (\<open>internal/arena/api/events_api.py\<close>): a client is sent the history,
  then its queue is subscribed, then it is sent what arrives in the queue, with a comment every fifteen
  seconds in which nothing arrives.

  The generator \<open>event_stream\<close> runs from one \<open>yield\<close> or \<open>await\<close> to the next; what other tasks do happens in
  between. A \<open>feed_event\<close> is one such stretch: the generator resumed, an event published by the gateway
  (recorded in the history and handed to the queues without a pause), or another task at work on the bus or
  the history.

  Main results: a client that stays receives the history as it was when the stream was opened, and then
  every event published after the subscription, once and in order; the text splits into the frames that
  were sent, and the data of a frame are read back as the event; a stream that ends leaves no queue behind; an event published while the history is being sent
  is not received.
\<close>

section \<open>Frames\<close>

text \<open>The dictionaries of \<open>asdict\<close>: the fields in the order of the classes.\<close>

definition optional :: "('a \<Rightarrow> json) \<Rightarrow> 'a option \<Rightarrow> json" where
  "optional f v = (case v of None \<Rightarrow> JNull | Some x \<Rightarrow> f x)"

definition members :: "(string \<times> json) list \<Rightarrow> json" where
  "members ms = JObject (map (\<lambda>(k, v). (lit k, v)) ms)"

definition request_json :: "arena_request \<Rightarrow> json" where
  "request_json r = members
     [(''request_id'', JText (request_id r)), (''mode'', JText (mode r)), (''command'', JText (request_command r)),
      (''key'', JText (request_key r)), (''field'', optional JText (request_field r)),
      (''value'', optional JText (request_value r)), (''ttl_enabled'', JBool (ttl_enabled r)),
      (''ttl_seconds'', optional JFloat (ttl_seconds r))]"

definition metrics_json :: "lane_metrics \<Rightarrow> json" where
  "metrics_json m = members
     [(''service_time_ms'', JFloat (service_time_ms m)), (''db_time_ms'', JFloat (db_time_ms m)),
      (''redis_time_ms'', JFloat (redis_time_ms m)), (''started_at_ns'', JInt (started_at_ns m)),
      (''finished_at_ns'', JInt (finished_at_ns m)),
      (''gateway_round_trip_ms'', optional JFloat (gateway_round_trip_ms m))]"

definition lane_reply_json :: "lane_reply \<Rightarrow> json" where
  "lane_reply_json r = members
     [(''request_id'', JText (result_request_id r)), (''lane'', JText (lane_result.lane r)), (''status'', JText (status r)),
      (''latency_ms'', JFloat (latency_ms r)), (''answer_text'', optional JText (answer_text r)),
      (''answer_kind'', optional JText (answer_kind r)), (''value_preview'', optional JText (value_preview r)),
      (''path'', JList (map JText (path r))), (''storage_changes'', JList (map JText (storage_changes r))),
      (''cache'', members [(''hit'', JBool (cache_hit r)), (''miss'', JBool (cache_miss r))]),
      (''mongo_reads'', JInt (int (mongo_reads r))), (''metrics'', metrics_json (reply_metrics r))]"

definition summary_json :: "execution_summary \<Rightarrow> json" where
  "summary_json s = members
     [(''faster_lane'', optional JText (faster_lane s)), (''latency_gap_ms'', JFloat (latency_gap_ms s)),
      (''fewer_mongo_reads_lane'', optional JText (fewer_mongo_reads_lane s)),
      (''mongo_read_gap'', JInt (int (mongo_read_gap s)))]"

fun envelope_json :: "envelope \<Rightarrow> json" where
  "envelope_json (Executed et e) = members
     [(''type'', JText et),
      (''payload'', members
        [(''request'', request_json (exec_request e)), (''redis_db'', lane_reply_json (exec_redis_db e)),
         (''db_only'', lane_reply_json (exec_db_only e)), (''summary'', summary_json (exec_summary e))])]"
| "envelope_json (Message et m) = members [(''type'', JText et), (''payload'', members [(''message'', JText m)])]"

definition encode_sse :: "envelope \<Rightarrow> pystr" where
  "encode_sse e = lit ''event: arena'' @ [10] @ lit ''data: '' @ dumps (envelope_json e) @ [10, 10]"

datatype frame = ArenaFrame envelope | KeepAlive

fun frame_text :: "frame \<Rightarrow> pystr" where
  "frame_text (ArenaFrame e) = encode_sse e"
| "frame_text KeepAlive = lit '': keep-alive'' @ [10, 10]"

section \<open>The generator\<close>

record feed =
  feed_bus :: "envelope event_bus"
  feed_history :: "envelope event_history"

datatype stream = Fresh | Replaying "envelope list" | Following nat | Ended

text \<open>
  What the generator finds when it is resumed while it follows the queue: the client is gone, something
  may be in the queue, or the fifteen seconds are over.
\<close>

datatype wake = Gone | Ready | TimedOut

text \<open>The loop over the snapshot, from one \<open>yield\<close> to the next, and the subscription behind it.\<close>

fun replay :: "envelope list \<Rightarrow> feed \<Rightarrow> frame list \<times> stream \<times> feed" where
  "replay (e # es) f = ([ArenaFrame e], Replaying es, f)"
| "replay [] f = (case bus_subscribe (feed_bus f) of (q, b) \<Rightarrow> ([], Following q, f\<lparr>feed_bus := b\<rparr>))"

definition follow :: "nat \<Rightarrow> wake \<Rightarrow> feed \<Rightarrow> frame list \<times> stream \<times> feed" where
  "follow q w f =
     (case w of
        Gone \<Rightarrow> ([], Ended, f\<lparr>feed_bus := bus_unsubscribe q (feed_bus f)\<rparr>)
      | TimedOut \<Rightarrow> ([KeepAlive], Following q, f)
      | Ready \<Rightarrow>
          (case queue_get q (feed_bus f) of
             (None, b) \<Rightarrow> ([], Following q, f)
           | (Some e, b) \<Rightarrow> ([ArenaFrame e], Following q, f\<lparr>feed_bus := b\<rparr>)))"

fun event_stream :: "wake \<Rightarrow> stream \<Rightarrow> feed \<Rightarrow> frame list \<times> stream \<times> feed" where
  "event_stream w Fresh f = replay (history_snapshot (feed_history f)) f"
| "event_stream w (Replaying es) f = replay es f"
| "event_stream w (Following q) f = follow q w f"
| "event_stream w Ended f = ([], Ended, f)"

text \<open>The task of the stream is cancelled: the \<open>finally\<close> clause runs.\<close>

fun cancel_stream :: "stream \<Rightarrow> feed \<Rightarrow> stream \<times> feed" where
  "cancel_stream (Following q) f = (Ended, f\<lparr>feed_bus := bus_unsubscribe q (feed_bus f)\<rparr>)"
| "cancel_stream st f = (Ended, f)"

datatype feed_event = Happens envelope | HistoryCleared | Joins | Leaves nat | Takes nat | Resume wake | TaskCancelled

definition feed_publish :: "envelope \<Rightarrow> feed \<Rightarrow> feed" where
  "feed_publish e f = f\<lparr>feed_history := history_append e (feed_history f), feed_bus := bus_publish e (feed_bus f)\<rparr>"

fun feed_step :: "feed_event \<Rightarrow> stream \<Rightarrow> feed \<Rightarrow> frame list \<times> stream \<times> feed" where
  "feed_step (Happens e) st f = ([], st, feed_publish e f)"
| "feed_step HistoryCleared st f = ([], st, f\<lparr>feed_history := history_clear (feed_history f)\<rparr>)"
| "feed_step Joins st f = ([], st, f\<lparr>feed_bus := snd (bus_subscribe (feed_bus f))\<rparr>)"
| "feed_step (Leaves p) st f = ([], st, f\<lparr>feed_bus := bus_unsubscribe p (feed_bus f)\<rparr>)"
| "feed_step (Takes p) st f = ([], st, f\<lparr>feed_bus := snd (queue_get p (feed_bus f))\<rparr>)"
| "feed_step (Resume w) st f = event_stream w st f"
| "feed_step TaskCancelled st f = (case cancel_stream st f of (st', f') \<Rightarrow> ([], st', f'))"

fun stream_run :: "feed_event list \<Rightarrow> stream \<Rightarrow> feed \<Rightarrow> frame list \<times> stream \<times> feed" where
  "stream_run [] st f = ([], st, f)"
| "stream_run (ev # evs) st f =
     (case feed_step ev st f of (fs, st', f') \<Rightarrow>
        case stream_run evs st' f' of (fs', r) \<Rightarrow> (fs @ fs', r))"

section \<open>Frames in the text\<close>

text \<open>A reader of the stream: the frames are what stands before each blank line.\<close>

fun cut_frames :: "pystr \<Rightarrow> pystr \<Rightarrow> pystr list" where
  "cut_frames acc [] = (if acc = [] then [] else [rev acc])"
| "cut_frames acc (c # t) =
     (if c = 10 \<and> t \<noteq> [] \<and> hd t = 10 then rev acc # cut_frames [] (tl t) else cut_frames (c # acc) t)"

lemma cut_frames_line:
  assumes "10 \<notin> set b"
  shows "cut_frames acc (b @ 10 # 10 # rest) = (rev acc @ b) # cut_frames [] rest"
    and "d \<noteq> 10 \<Longrightarrow> cut_frames acc (b @ 10 # d # rest) = cut_frames (10 # rev b @ acc) (d # rest)"
  using assms by (induction b arbitrary: acc) auto

lemma frames_recovered:
  "map (\<lambda>t. t @ [10, 10]) (cut_frames [] (concat (map (frame_text) fs))) = map (frame_text) fs"
proof (induction fs)
  case (Cons f fs)
  have one: "\<exists>b. frame_text f = b @ [10, 10] \<and> cut_frames [] (b @ 10 # 10 # rest) = b # cut_frames [] rest" for rest
  proof (cases f)
    case (ArenaFrame e)
    let ?d = "lit ''data: '' @ dumps (envelope_json e)"
    have "10 \<notin> set ?d" "10 \<notin> set (lit ''event: arena'')"
      using printable_dumps[of "envelope_json e"] by (auto simp: printable_def list_all_iff lit_def)
    then have "cut_frames [] (lit ''event: arena'' @ 10 # ?d @ 10 # 10 # rest) =
      (lit ''event: arena'' @ 10 # ?d) # cut_frames [] rest"
      using cut_frames_line(2)[of "lit ''event: arena''" 100 "[]" "tl ?d @ 10 # 10 # rest"]
        cut_frames_line(1)[of ?d "10 # rev (lit ''event: arena'')" rest] by (simp add: lit_def)
    then show ?thesis using ArenaFrame by (intro exI[of _ "lit ''event: arena'' @ 10 # ?d"]) (simp add: encode_sse_def)
  next
    case KeepAlive
    have "10 \<notin> set (lit '': keep-alive'')" by (simp add: lit_def)
    then show ?thesis using KeepAlive cut_frames_line(1)[of "lit '': keep-alive''" "[]" rest] by auto
  qed
  from one[of "concat (map (frame_text) fs)"] Cons.IH show ?case by auto
qed simp

text \<open>What stands behind \<open>data:\<close> is the dictionary of the event.\<close>

definition frame_data :: "pystr \<Rightarrow> pystr" where
  "frame_data t = take (length t - 21) (drop 19 t)"

lemma envelope_depth: "json_depth (envelope_json e) \<le> 4"
proof -
  have plain: "json_depth (optional JText t) = 0" "json_depth (optional JFloat x) = 0" for t x
    by (simp_all add: optional_def split: option.split)
  have texts: "items_depth (map JText ts) = 0" for ts by (induction ts) simp_all
  show ?thesis
    by (cases e) (simp_all add: members_def request_json_def lane_reply_json_def metrics_json_def summary_json_def plain texts)
qed

theorem frame_read_back:
  assumes "wf_json (envelope_json e)" "4 \<le> depth"
  shows "json_loads depth (frame_data (encode_sse e)) = Inr (envelope_json e)"
proof -
  have "frame_data (encode_sse e) = dumps (envelope_json e)" by (simp add: frame_data_def encode_sse_def lit_def)
  then show ?thesis using json_round_trip(1)[OF assms(1) le_trans[OF envelope_depth assms(2)]] by simp
qed

section \<open>Delivery\<close>

fun arena_frames :: "frame list \<Rightarrow> envelope list" where
  "arena_frames [] = []"
| "arena_frames (ArenaFrame e # fs) = e # arena_frames fs"
| "arena_frames (KeepAlive # fs) = arena_frames fs"

lemma arena_frames_append [simp]: "arena_frames (fs @ gs) = arena_frames fs @ arena_frames gs"
  by (induction fs rule: arena_frames.induct) auto

text \<open>The events published in a sequence, and that a sequence leaves queue \<open>q\<close> to the stream and lets it live.\<close>

fun happened :: "feed_event list \<Rightarrow> envelope list" where
  "happened [] = []"
| "happened (ev # evs) = (case ev of Happens e \<Rightarrow> [e] | _ \<Rightarrow> []) @ happened evs"

definition undisturbed :: "nat \<Rightarrow> feed_event list \<Rightarrow> bool" where
  "undisturbed q evs \<longleftrightarrow> list_all (\<lambda>ev. ev \<notin> {Leaves q, Takes q, Resume Gone, TaskCancelled}) evs"

text \<open>A stream that follows its queue is a sequence of operations on the bus.\<close>

fun bus_ops :: "nat \<Rightarrow> feed_event \<Rightarrow> envelope bus_event list" where
  "bus_ops q (Happens e) = [Publish e]"
| "bus_ops q HistoryCleared = []"
| "bus_ops q Joins = [Subscribe]"
| "bus_ops q (Leaves p) = [Unsubscribe p]"
| "bus_ops q (Takes p) = [Get p]"
| "bus_ops q (Resume w) = (if w = Ready then [Get q] else [])"
| "bus_ops q TaskCancelled = []"

lemma received_append: "received q (xs @ ys) b = received q xs b @ received q ys (fold bus_step xs b)"
  by (induction xs arbitrary: b) auto

lemma published_append: "published (xs @ ys) = published xs @ published ys"
  by (induction xs) auto

lemma queue_get_none: "fst (queue_get q b) = None \<Longrightarrow> snd (queue_get q b) = b"
  by (auto simp: queue_get_def split: option.splits list.splits)

lemma following_step:
  assumes "ev \<notin> {Takes q, Resume Gone, TaskCancelled}" "feed_step ev (Following q) f = (fs, st, f')"
  shows "st = Following q \<and> feed_bus f' = fold bus_step (bus_ops q ev) (feed_bus f) \<and>
    arena_frames fs = received q (bus_ops q ev) (feed_bus f)"
  using assms queue_get_none[of q "feed_bus f"]
  by (cases ev) (auto simp: follow_def feed_publish_def split: wake.splits prod.splits option.splits)

lemma following_run:
  assumes "undisturbed q evs" "stream_run evs (Following q) f = (fs, st, f')"
  shows "st = Following q \<and> feed_bus f' = fold bus_step (concat (map (bus_ops q) evs)) (feed_bus f) \<and>
    arena_frames fs = received q (concat (map (bus_ops q) evs)) (feed_bus f)"
  using assms
proof (induction evs arbitrary: f fs)
  case (Cons ev evs)
  obtain gs st1 f1 where one: "feed_step ev (Following q) f = (gs, st1, f1)" by (metis prod_cases3)
  obtain hs where rest: "stream_run evs st1 f1 = (hs, st, f')" "fs = gs @ hs"
    using Cons.prems(2) one by (auto split: prod.splits)
  have "ev \<notin> {Takes q, Resume Gone, TaskCancelled}" "undisturbed q evs" using Cons.prems(1) by (auto simp: undisturbed_def)
  then show ?case using following_step[OF _ one] Cons.IH rest by (simp add: received_append)
qed (simp add: undisturbed_def)

lemma happened_published: "published (concat (map (bus_ops q) evs)) = happened evs"
proof (induction evs)
  case (Cons ev evs)
  then show ?case by (cases ev) (auto simp: published_append)
qed simp

lemma undisturbed_ops: "undisturbed q evs \<Longrightarrow> Unsubscribe q \<notin> set (concat (map (bus_ops q) evs))"
proof (induction evs)
  case (Cons ev evs)
  then show ?case by (cases ev) (auto simp: undisturbed_def)
qed simp

lemma subscribed_queue: "bus_subscribe b = (q, b') \<Longrightarrow> map_of (subscribers b') q = Some []"
  by (auto simp: bus_subscribe_def dict_simps)

lemma follows_from_subscription:
  assumes "wf_bus (feed_bus f)" "feed_step (Resume w) (Replaying []) f = (fs0, st0, f0)"
    and "stream_run evs st0 f0 = (fs, st, f')" "st0 = Following q" "undisturbed q evs"
  shows "fs0 = [] \<and> (\<exists>waiting. map_of (subscribers (feed_bus f')) q = Some waiting \<and>
    arena_frames fs @ waiting = happened evs)"
proof -
  have b: "bus_subscribe (feed_bus f) = (q, feed_bus f0)" "fs0 = []"
    using assms(2,4) by (auto split: prod.splits)
  have "wf_bus (feed_bus f0)" using wf_bus_step[OF assms(1), of Subscribe] b by simp
  moreover have "map_of (subscribers (feed_bus f0)) q = Some []" using b(1) by (rule subscribed_queue)
  ultimately show ?thesis
    using delivery[OF _ _ undisturbed_ops[OF assms(5)], of "feed_bus f0" "[]"] following_run[OF assms(5), of f0 fs st f']
      assms(3,4) b(2) by (auto simp: happened_published)
qed

text \<open>The part of a sequence in which the history is sent: one resumption for each frame, and one for the subscription.\<close>

fun is_resume :: "feed_event \<Rightarrow> bool" where
  "is_resume (Resume w) = True"
| "is_resume _ = False"

definition resumes :: "feed_event list \<Rightarrow> nat" where
  "resumes evs = length (filter is_resume evs)"

lemma following_stays:
  "stream_run evs (Following q) f = (fs, st, f') \<Longrightarrow> st = Following q \<or> st = Ended"
  "stream_run evs Ended f = (fs, st, f') \<Longrightarrow> st = Ended"
proof (induction evs arbitrary: f fs)
  case (Cons ev evs)
  { case 1
    have "fst (snd (feed_step ev (Following q) f)) \<in> {Following q, Ended}"
      by (cases ev) (auto simp: follow_def split: wake.splits prod.splits option.splits)
    then show ?case using 1 Cons.IH by (auto split: prod.splits)
  next
    case 2
    have "fst (snd (feed_step ev Ended f)) = Ended" by (cases ev) auto
    then show ?case using 2 Cons.IH(2) by (auto split: prod.splits) }
qed auto

lemma other_step:
  assumes "\<not> is_resume ev" "ev \<noteq> TaskCancelled"
  shows "\<exists>f'. feed_step ev st f = ([], st, f') \<and> (wf_bus (feed_bus f) \<longrightarrow> wf_bus (feed_bus f'))"
proof -
  note wf = wf_bus_step[of "feed_bus f" "Publish _"] wf_bus_step[of "feed_bus f" Subscribe]
    wf_bus_step[of "feed_bus f" "Unsubscribe _"] wf_bus_step[of "feed_bus f" "Get _"]
  from assms show ?thesis by (cases ev) (auto simp: feed_publish_def wf[simplified])
qed

lemma replay_then_follow:
  assumes "wf_bus (feed_bus f)" "stream_run evs (Replaying es) f = (fs, Following q, f')" "undisturbed q evs"
  shows "\<exists>evs1 evs2 waiting. evs = evs1 @ evs2 \<and> resumes evs1 = Suc (length es) \<and> is_resume (last evs1) \<and>
    map_of (subscribers (feed_bus f')) q = Some waiting \<and> arena_frames fs @ waiting = es @ happened evs2"
  using assms
proof (induction evs arbitrary: es f fs)
  case (Cons ev evs)
  have u: "undisturbed q evs" "ev \<noteq> TaskCancelled" using Cons.prems(3) by (auto simp: undisturbed_def)
  obtain gs st1 f1 where one: "feed_step ev (Replaying es) f = (gs, st1, f1)" by (metis prod_cases3)
  obtain hs where rest: "stream_run evs st1 f1 = (hs, Following q, f')" "fs = gs @ hs"
    using Cons.prems(2) one by (auto split: prod.splits)
  have next_event: ?case if st: "st1 = Replaying es'" "wf_bus (feed_bus f1)" "es = arena_frames gs @ es'"
    "resumes [ev] = length (arena_frames gs)" for es'
  proof -
    obtain evs1 evs2 waiting where "evs = evs1 @ evs2" "resumes evs1 = Suc (length es')" "is_resume (last evs1)"
      "map_of (subscribers (feed_bus f')) q = Some waiting" "arena_frames hs @ waiting = es' @ happened evs2"
      using Cons.IH[of f1 es' hs] st(1,2) rest(1) u(1) by auto
    then show ?thesis using st(3,4) rest(2)
      by (intro exI[of _ "ev # evs1"] exI[of _ evs2] exI[of _ waiting]) (auto simp: resumes_def)
  qed
  show ?case
  proof (cases "is_resume ev")
    case True
    then obtain w where w: "ev = Resume w" by (cases ev) auto
    show ?thesis
    proof (cases es)
      case Nil
      then obtain q0 where "st1 = Following q0" using one w by (auto split: prod.splits)
      moreover then have "q0 = q" using following_stays(1)[of evs q0 f1 hs] rest(1) by auto
      ultimately have "gs = [] \<and> (\<exists>waiting. map_of (subscribers (feed_bus f')) q = Some waiting \<and> arena_frames hs @ waiting = happened evs)"
        using follows_from_subscription[OF Cons.prems(1) _ rest(1) _ u(1)] one w Nil by simp
      then show ?thesis using w Nil rest(2)
        by (intro exI[of _ "[ev]"] exI[of _ evs]) (auto simp: resumes_def)
    next
      case es: (Cons e es')
      then show ?thesis using next_event one w Cons.prems(1) by (auto simp: resumes_def)
    qed
  next
    case False
    then show ?thesis using next_event other_step[OF False u(2), of "Replaying es" f] one Cons.prems(1) by (auto simp: resumes_def)
  qed
qed simp

text \<open>
  C36. Refinement. A client of the stream of events receives the history as it was when the stream was
  opened, and then every event published since its queue was subscribed, once and in order, whatever other
  clients do: what it was sent and what waits in its queue. The subscription is the resumption after the
  last frame of the history. The text it is sent splits at the blank lines into the frames, for the data of
  a frame has no line break.
\<close>

theorem stream_delivers:
  assumes "wf_bus (feed_bus f)" "stream_run (Resume w # evs) Fresh f = (fs, Following q, f')"
    and "undisturbed q evs"
  shows "(\<exists>evs1 evs2 waiting. evs = evs1 @ evs2 \<and> resumes evs1 = length (history_snapshot (feed_history f)) \<and>
      (evs1 = [] \<or> is_resume (last evs1)) \<and> map_of (subscribers (feed_bus f')) q = Some waiting \<and>
      arena_frames fs @ waiting = history_snapshot (feed_history f) @ happened evs2) \<and>
    map (\<lambda>t. t @ [10, 10]) (cut_frames [] (concat (map (frame_text) fs))) = map (frame_text) fs"
proof
  let ?es = "history_snapshot (feed_history f)"
  have "stream_run (Resume Ready # evs) (Replaying ?es) f = (fs, Following q, f')" using assms(2) by simp
  moreover have "undisturbed q (Resume Ready # evs)" using assms(3) by (simp add: undisturbed_def)
  ultimately obtain evs0 evs2 waiting where "Resume Ready # evs = evs0 @ evs2" "resumes evs0 = Suc (length ?es)"
    "is_resume (last evs0)" "map_of (subscribers (feed_bus f')) q = Some waiting" "arena_frames fs @ waiting = ?es @ happened evs2"
    using replay_then_follow[OF assms(1)] by blast
  then show "\<exists>evs1 evs2 waiting. evs = evs1 @ evs2 \<and> resumes evs1 = length ?es \<and> (evs1 = [] \<or> is_resume (last evs1)) \<and>
      map_of (subscribers (feed_bus f')) q = Some waiting \<and> arena_frames fs @ waiting = ?es @ happened evs2"
    by (intro exI[of _ "tl evs0"] exI[of _ evs2] exI[of _ waiting], cases evs0) (auto simp: resumes_def split: if_splits)
qed (rule frames_recovered)

text \<open>The witness of C36: one event in the history and one published later, which is waiting.\<close>

theorem stream_delivers_witness:
  "\<exists>waiting. map_of (subscribers (feed_bus (snd (snd (stream_run [Resume Ready, Resume Ready, Happens (Message [] [2])] Fresh
      \<lparr>feed_bus = bus_init, feed_history = history_append (Message [] [1]) history_init\<rparr>))))) 0 = Some waiting \<and>
    [Message [] [1]] @ waiting = [Message [] [1], Message [] [2]]"
proof -
  let ?f = "\<lparr>feed_bus = bus_init, feed_history = history_append (Message [] [1]) history_init\<rparr>"
  have run: "\<exists>f'. stream_run [Resume Ready, Resume Ready, Happens (Message [] [2])] Fresh ?f =
      ([ArenaFrame (Message [] [1])], Following 0, f')"
    by (simp add: history_append_def history_init_def tail_slice_def history_snapshot_def bus_subscribe_def bus_init_def)
  then obtain f' where run: "stream_run [Resume Ready, Resume Ready, Happens (Message [] [2])] Fresh ?f =
      ([ArenaFrame (Message [] [1])], Following 0, f')" by blast
  have hist: "history_snapshot (feed_history ?f) = [Message [] [1]]"
    by (simp add: history_append_def history_init_def tail_slice_def history_snapshot_def)
  have "wf_bus (feed_bus ?f)" "undisturbed 0 [Resume Ready, Happens (Message [] [2])]"
    by (simp_all add: wf_bus_def bus_init_def keys_of_def undisturbed_def)
  from stream_delivers[OF this(1) run this(2)] obtain evs1 evs2 waiting
    where w: "[Resume Ready, Happens (Message [] [2])] = evs1 @ evs2" "resumes evs1 = 1" "evs1 = [] \<or> is_resume (last evs1)"
      "map_of (subscribers (feed_bus f')) 0 = Some waiting" "[Message [] [1]] @ waiting = [Message [] [1]] @ happened evs2"
    unfolding hist by auto
  have "evs2 = [Happens (Message [] [2])]"
    using w(1-3) by (cases evs1; cases "tl evs1") (auto simp: resumes_def)
  then show ?thesis using w(4,5) run by simp
qed

text \<open>
  An event that is published while the history is being sent is not received, although the history has it:
  the queue is subscribed too late.
\<close>

lemma following_idle:
  "map_of (subscribers (feed_bus f)) q = Some [] \<Longrightarrow>
   stream_run (replicate n (Resume Ready)) (Following q) f = ([], Following q, f)"
  by (induction n) (simp_all add: follow_def queue_get_def)

theorem replay_gap:
  assumes "f = \<lparr>feed_bus = bus_init, feed_history = history_append old history_init\<rparr>"
    and "stream_run ([Resume Ready, Happens new] @ replicate n (Resume Ready)) Fresh f = (fs, st, f')"
  shows "arena_frames fs = [old] \<and> history_snapshot (feed_history f') = [old, new]"
proof (cases n)
  case 0
  then show ?thesis using assms
    by (auto simp: history_append_def history_init_def tail_slice_def history_snapshot_def feed_publish_def)
next
  case (Suc m)
  let ?f = "feed_publish new f"
  obtain q b where sub: "bus_subscribe (feed_bus ?f) = (q, b)" by fastforce
  have "stream_run (replicate m (Resume Ready)) (Following q) (?f\<lparr>feed_bus := b\<rparr>) = ([], Following q, ?f\<lparr>feed_bus := b\<rparr>)"
    using subscribed_queue[OF sub] by (intro following_idle) simp
  moreover have "history_snapshot (feed_history f) = [old]"
    using assms(1) by (simp add: history_append_def history_init_def tail_slice_def history_snapshot_def)
  ultimately have "fs = [ArenaFrame old]" "f' = ?f\<lparr>feed_bus := b\<rparr>" using assms(2) Suc sub by auto
  then show ?thesis using assms(1)
    by (simp add: history_append_def history_init_def tail_slice_def history_snapshot_def feed_publish_def)
qed

end
