(* ===== verification/Ends.thy ===== *)
theory Ends
  imports Prelude
begin

text \<open>
  How a sequence of steps that may raise ends. \<open>ends Q E r\<close>: it returned a value and a state in \<open>Q\<close>, or raised
  with a state in \<open>E\<close>. The rules of the collection \<open>wp\<close> compute it step by step.
\<close>

definition ends :: "('a \<Rightarrow> 's \<Rightarrow> bool) \<Rightarrow> (py_exc \<Rightarrow> 's \<Rightarrow> bool) \<Rightarrow> (py_exc + 'a) \<times> 's \<Rightarrow> bool" where
  "ends Q E r = (case r of (Inr a, s) \<Rightarrow> Q a s | (Inl e, s) \<Rightarrow> E e s)"

named_theorems wp \<open>how the steps of a phase end\<close>

lemma ends_simps [simp]: "ends Q E (Inr a, s) = Q a s" "ends Q E (Inl e, s) = E e s"
  by (simp_all add: ends_def)

lemma ends_sbind [wp]: "ends (\<lambda>a s. ends Q E (f a s)) E r \<Longrightarrow> ends Q E (sbind r f)"
  by (cases r; cases "fst r") (auto simp: ends_def sbind_def split: sum.splits)

lemma ends_if [wp]: "(c \<Longrightarrow> ends Q E x) \<Longrightarrow> (\<not> c \<Longrightarrow> ends Q E y) \<Longrightarrow> ends Q E (if c then x else y)"
  by simp

lemma ends_mono:
  assumes "ends Q E r" "\<And>a s. Q a s \<Longrightarrow> Q' a s" "\<And>e s. E e s \<Longrightarrow> E' e s"
  shows "ends Q' E' r"
  using assms by (auto simp: ends_def split: prod.splits sum.splits)

lemma ends_Inr: "ends Q E (Inr a, s) \<Longrightarrow> Q a s"
  by simp

lemma ends_then: "ends Q E r \<Longrightarrow> (\<And>x s. Q x s \<Longrightarrow> ends R E (f x s)) \<Longrightarrow> ends R E (sbind r f)"
  by (intro ends_sbind) (erule ends_mono)

end
