(* ===== verification/PyMongo.thy ===== *)
theory PyMongo
  imports MongoRepo Json Ends
begin

text \<open>
  The second document store of the arena, \<open>PyMongoArenaRepository\<close> (\<open>internal/arena/mongo/repository.py\<close>), and
  its equivalence with \<open>InMemoryMongoRepository\<close> (\<open>MongoRepo\<close>).

  \<open>pymongo\<close> is an argument, \<open>arena_driver\<close>: the operations on one collection, by \<open>_id\<close>. \<open>honest_arena\<close> is what
  MongoDB documents about them. A \<open>fields\<close> value that is not a document, which the repository never writes,
  raises; the model has \<open>TypeError\<close> for it.

  Main result: any sequence of operations has the same replies on both, as long as the names of hash fields
  are plain; a name with a dot is a path for MongoDB, and such a field is lost.
\<close>

section \<open>The driver\<close>

record 'd arena_driver =
  find_id :: "pystr \<Rightarrow> 'd \<Rightarrow> (py_exc + json_object option) \<times> 'd"
  replace_id :: "pystr \<Rightarrow> json_object \<Rightarrow> 'd \<Rightarrow> (py_exc + unit) \<times> 'd"
  update_id :: "pystr \<Rightarrow> (pystr \<times> json) list \<Rightarrow> pystr list \<Rightarrow> 'd \<Rightarrow> (py_exc + unit) \<times> 'd"
  delete_id :: "pystr \<Rightarrow> 'd \<Rightarrow> (py_exc + nat) \<times> 'd"
  delete_ids :: "pystr list \<Rightarrow> 'd \<Rightarrow> (py_exc + unit) \<times> 'd"
  delete_every :: "'d \<Rightarrow> (py_exc + unit) \<times> 'd"
  bulk_replace :: "(pystr \<times> json_object) list \<Rightarrow> 'd \<Rightarrow> (py_exc + unit) \<times> 'd"
  find_every :: "'d \<Rightarrow> (py_exc + json_object list) \<times> 'd"
  admin_ping :: "'d \<Rightarrow> (py_exc + unit) \<times> 'd"

section \<open>The repository\<close>

definition string_document :: "pystr \<Rightarrow> pystr \<Rightarrow> json_object" where
  "string_document key v = [(lit ''_id'', JText key), (lit ''kind'', JText (lit ''string'')), (lit ''value'', JText v)]"

definition hash_document :: "pystr \<Rightarrow> json_object \<Rightarrow> json_object" where
  "hash_document key fs = [(lit ''_id'', JText key), (lit ''kind'', JText (lit ''hash'')), (lit ''fields'', JObject fs)]"

text \<open>\<open>document.get("kind", "string")\<close> and \<open>document.get("fields", {})\<close>.\<close>

definition kind_of :: "json_object \<Rightarrow> json" where
  "kind_of doc = json_get doc ''kind'' (JText (lit ''string''))"

definition fields_of :: "json_object \<Rightarrow> py_exc + json_object" where
  "fields_of doc = (case json_get doc ''fields'' (JObject []) of JObject fs \<Rightarrow> Inr fs | _ \<Rightarrow> Inl (TypeError []))"

definition py_write :: "'d arena_driver \<Rightarrow> pystr \<Rightarrow> pystr \<Rightarrow> 'd \<Rightarrow> (py_exc + pystr) \<times> 'd" where
  "py_write drv key v d =
     sbind (find_id drv key d) (\<lambda>document d.
     sbind (replace_id drv key (string_document key v) d) (\<lambda>_ d. (Inr (created_or_updated (document = None)), d)))"

text \<open>\<open>JNull\<close> is \<open>None\<close>.\<close>

definition py_read :: "'d arena_driver \<Rightarrow> pystr \<Rightarrow> 'd \<Rightarrow> (py_exc + json) \<times> 'd" where
  "py_read drv key d =
     sbind (find_id drv key d) (\<lambda>document d.
       (case document of
          None \<Rightarrow> Inr JNull
        | Some doc \<Rightarrow>
            if kind_of doc \<noteq> JText (lit ''string'') then type_error else Inr (json_get doc ''value'' JNull), d))"

definition py_hset :: "'d arena_driver \<Rightarrow> pystr \<Rightarrow> pystr \<Rightarrow> pystr \<Rightarrow> 'd \<Rightarrow> (py_exc + pystr) \<times> 'd" where
  "py_hset drv key field_name v d =
     sbind (find_id drv key d) (\<lambda>document d.
       case document of
         None \<Rightarrow> sbind (replace_id drv key (hash_document key [(field_name, JText v)]) d) (\<lambda>_ d. (Inr (lit ''created''), d))
       | Some doc \<Rightarrow>
           if kind_of doc \<noteq> JText (lit ''hash'') then (type_error, d)
           else sbind (fields_of doc, d) (\<lambda>fields d.
             sbind (update_id drv key [(lit ''kind'', JText (lit ''hash'')), (lit ''fields.'' @ field_name, JText v)] [lit ''value''] d) (\<lambda>_ d.
               (Inr (created_or_updated (field_name \<notin> set (keys_of fields))), d))))"

definition py_hget :: "'d arena_driver \<Rightarrow> pystr \<Rightarrow> pystr \<Rightarrow> 'd \<Rightarrow> (py_exc + json) \<times> 'd" where
  "py_hget drv key field_name d =
     sbind (find_id drv key d) (\<lambda>document d.
       (case document of
          None \<Rightarrow> Inr JNull
        | Some doc \<Rightarrow>
            if kind_of doc \<noteq> JText (lit ''hash'') then type_error
            else rbind (fields_of doc) (\<lambda>fields. Inr (case map_of fields field_name of None \<Rightarrow> JNull | Some x \<Rightarrow> x)), d))"

definition py_hgetall :: "'d arena_driver \<Rightarrow> (json \<Rightarrow> pystr) \<Rightarrow> pystr \<Rightarrow> 'd \<Rightarrow> (py_exc + (pystr, pystr) dict option) \<times> 'd" where
  "py_hgetall drv str key d =
     sbind (find_id drv key d) (\<lambda>document d.
       (case document of
          None \<Rightarrow> Inr None
        | Some doc \<Rightarrow>
            if kind_of doc \<noteq> JText (lit ''hash'') then type_error
            else rbind (fields_of doc) (\<lambda>fields. Inr (Some (map (\<lambda>(f, x). (f, str x)) fields))), d))"

definition py_delete :: "'d arena_driver \<Rightarrow> pystr \<Rightarrow> 'd \<Rightarrow> (py_exc + bool) \<times> 'd" where
  "py_delete drv key d = sbind (delete_id drv key d) (\<lambda>n d. (Inr (n \<noteq> 0), d))"

definition py_delete_many :: "'d arena_driver \<Rightarrow> pystr list \<Rightarrow> 'd \<Rightarrow> (py_exc + unit) \<times> 'd" where
  "py_delete_many drv keys d = (if keys = [] then (Inr (), d) else delete_ids drv keys d)"

definition py_clear :: "'d arena_driver \<Rightarrow> 'd \<Rightarrow> (py_exc + unit) \<times> 'd" where
  "py_clear drv d = delete_every drv d"

definition py_seed :: "'d arena_driver \<Rightarrow> (pystr, pystr) dict \<Rightarrow> 'd \<Rightarrow> (py_exc + unit) \<times> 'd" where
  "py_seed drv new d =
     (if new = [] then (Inr (), d) else bulk_replace drv (map (\<lambda>(key, v). (key, string_document key v)) new) d)"

definition py_healthcheck :: "'d arena_driver \<Rightarrow> pystr \<Rightarrow> pystr \<Rightarrow> 'd \<Rightarrow> (py_exc + (pystr, pystr) dict) \<times> 'd" where
  "py_healthcheck drv db_name collection_name d =
     sbind (admin_ping drv d) (\<lambda>_ d.
       (Inr [(lit ''backend'', lit ''pymongo''), (lit ''db_name'', db_name), (lit ''collection_name'', collection_name),
             (lit ''status'', lit ''ok'')], d))"

definition py_document_bytes :: "(json \<Rightarrow> pystr) \<Rightarrow> json_object \<Rightarrow> py_exc + nat" where
  "py_document_bytes str doc =
     (let id_bytes = utf8_len (str (json_get doc ''_id'' (JText [])))
      in if kind_of doc = JText (lit ''hash'')
         then rbind (fields_of doc) (\<lambda>fields. Inr (id_bytes + sum_list (map (\<lambda>(f, x). utf8_len f + utf8_len (str x)) fields)))
         else Inr (id_bytes + utf8_len (str (json_get doc ''value'' (JText [])))))"

fun py_bytes :: "(json \<Rightarrow> pystr) \<Rightarrow> nat \<Rightarrow> json_object list \<Rightarrow> py_exc + nat" where
  "py_bytes str n [] = Inr n"
| "py_bytes str n (doc # docs) = rbind (py_document_bytes str doc) (\<lambda>m. py_bytes str (n + m) docs)"

definition py_stats :: "'d arena_driver \<Rightarrow> (json \<Rightarrow> pystr) \<Rightarrow> 'd \<Rightarrow> (py_exc + nat \<times> nat) \<times> 'd" where
  "py_stats drv str d =
     sbind (find_every drv d) (\<lambda>docs d. (rbind (py_bytes str 0 docs) (\<lambda>n. Inr (n, length docs)), d))"

section \<open>Sequences of operations\<close>

datatype repo_op =
    Write pystr pystr | Read pystr | HSet pystr pystr pystr | HGet pystr pystr | HGetAll pystr
  | Delete pystr | DeleteMany "pystr list" | Clear | Seed "(pystr, pystr) dict" | Stats

datatype repo_reply = Status pystr | Value json | Fields "(pystr, pystr) dict option" | Deleted bool | Done | Counts nat nat

definition replying :: "('a \<Rightarrow> repo_reply) \<Rightarrow> (py_exc + 'a) \<times> 's \<Rightarrow> (py_exc + repo_reply) \<times> 's" where
  "replying f r = sbind r (\<lambda>x s. (Inr (f x), s))"

definition text_or_null :: "pystr option \<Rightarrow> json" where
  "text_or_null v = (case v of None \<Rightarrow> JNull | Some t \<Rightarrow> JText t)"

fun mem_run :: "repo_op \<Rightarrow> documents \<Rightarrow> (py_exc + repo_reply) \<times> documents" where
  "mem_run (Write key v) docs = (case mongo_write key v docs of (st, docs) \<Rightarrow> (Inr (Status st), docs))"
| "mem_run (Read key) docs = replying (Value \<circ> text_or_null) (mongo_read key docs, docs)"
| "mem_run (HSet key f v) docs = replying Status (mongo_hset key f v docs)"
| "mem_run (HGet key f) docs = replying (Value \<circ> text_or_null) (mongo_hget key f docs, docs)"
| "mem_run (HGetAll key) docs = replying Fields (mongo_hgetall key docs, docs)"
| "mem_run (Delete key) docs = (case mongo_delete key docs of (b, docs) \<Rightarrow> (Inr (Deleted b), docs))"
| "mem_run (DeleteMany ks) docs = (Inr Done, mongo_delete_many ks docs)"
| "mem_run Clear docs = (Inr Done, mongo_clear docs)"
| "mem_run (Seed new) docs = (Inr Done, mongo_seed new docs)"
| "mem_run Stats docs = (case mongo_stats docs of (n, m) \<Rightarrow> (Inr (Counts n m), docs))"

fun py_run :: "'d arena_driver \<Rightarrow> (json \<Rightarrow> pystr) \<Rightarrow> repo_op \<Rightarrow> 'd \<Rightarrow> (py_exc + repo_reply) \<times> 'd" where
  "py_run drv str (Write key v) d = replying Status (py_write drv key v d)"
| "py_run drv str (Read key) d = replying Value (py_read drv key d)"
| "py_run drv str (HSet key f v) d = replying Status (py_hset drv key f v d)"
| "py_run drv str (HGet key f) d = replying Value (py_hget drv key f d)"
| "py_run drv str (HGetAll key) d = replying Fields (py_hgetall drv str key d)"
| "py_run drv str (Delete key) d = replying Deleted (py_delete drv key d)"
| "py_run drv str (DeleteMany ks) d = replying (\<lambda>_. Done) (py_delete_many drv ks d)"
| "py_run drv str Clear d = replying (\<lambda>_. Done) (py_clear drv d)"
| "py_run drv str (Seed new) d = replying (\<lambda>_. Done) (py_seed drv new d)"
| "py_run drv str Stats d = replying (\<lambda>(n, m). Counts n m) (py_stats drv str d)"

fun run_ops :: "(repo_op \<Rightarrow> 's \<Rightarrow> (py_exc + repo_reply) \<times> 's) \<Rightarrow> repo_op list \<Rightarrow> 's \<Rightarrow> (py_exc + repo_reply) list" where
  "run_ops run [] s = []"
| "run_ops run (p # ops) s = (case run p s of (r, s1) \<Rightarrow> r # run_ops run ops s1)"

section \<open>What MongoDB documents\<close>

text \<open>
  The path of \<open>$set\<close> is split at dots and names a field of a document inside; documents that are missing on
  the way are made. A part of a path is neither empty nor starts with a dollar sign.
\<close>

fun set_path :: "pystr list \<Rightarrow> json \<Rightarrow> json_object \<Rightarrow> json_object" where
  "set_path [] v doc = doc"
| "set_path [f] v doc = AList.update f v doc"
| "set_path (f # rest) v doc =
     AList.update f (JObject (set_path rest v (case map_of doc f of Some (JObject e) \<Rightarrow> e | _ \<Rightarrow> []))) doc"

definition apply_update :: "(pystr \<times> json) list \<Rightarrow> pystr list \<Rightarrow> json_object \<Rightarrow> json_object" where
  "apply_update sets unsets doc =
     fold AList.delete unsets (fold (\<lambda>(p, v). set_path (split_on 46 p) v) sets doc)"

definition path_ok :: "pystr \<Rightarrow> bool" where
  "path_ok p = list_all (\<lambda>c. c \<noteq> [] \<and> hd c \<noteq> 36) (split_on 46 p)"

text \<open>\<open>contents\<close>: the documents of the collection by \<open>_id\<close>.\<close>

definition honest_arena :: "'d arena_driver \<Rightarrow> ('d \<Rightarrow> pystr \<Rightarrow> json_object option) \<Rightarrow> bool" where
  "honest_arena drv contents \<longleftrightarrow>
     (\<forall>k d. fst (find_id drv k d) = Inr (contents d k) \<and> contents (snd (find_id drv k d)) = contents d) \<and>
     (\<forall>k doc d. fst (replace_id drv k doc d) = Inr () \<and> contents (snd (replace_id drv k doc d)) = (contents d)(k \<mapsto> doc)) \<and>
     (\<forall>k sets unsets d. list_all (path_ok \<circ> fst) sets \<longrightarrow>
        fst (update_id drv k sets unsets d) = Inr () \<and>
        contents (snd (update_id drv k sets unsets d)) =
          (contents d)(k := map_option (apply_update sets unsets) (contents d k))) \<and>
     (\<forall>k d. fst (delete_id drv k d) = Inr (if contents d k = None then 0 else 1) \<and>
        contents (snd (delete_id drv k d)) = (contents d)(k := None)) \<and>
     (\<forall>ks d. fst (delete_ids drv ks d) = Inr () \<and>
        contents (snd (delete_ids drv ks d)) = (\<lambda>k. if k \<in> set ks then None else contents d k)) \<and>
     (\<forall>d. fst (delete_every drv d) = Inr () \<and> contents (snd (delete_every drv d)) = Map.empty) \<and>
     (\<forall>docs d. fst (bulk_replace drv docs d) = Inr () \<and>
        contents (snd (bulk_replace drv docs d)) = fold (\<lambda>(k, doc) c. c(k \<mapsto> doc)) docs (contents d)) \<and>
     (\<forall>d. \<exists>ks. distinct ks \<and> set ks = dom (contents d) \<and>
        fst (find_every drv d) = Inr (map (\<lambda>k. the (contents d k)) ks) \<and> contents (snd (find_every drv d)) = contents d)"

lemma sbind_returned: "fst r = Inr a \<Longrightarrow> sbind r f = f a (snd r)"
  by (cases r) auto

lemma honest_laws:
  assumes "honest_arena drv contents"
  shows "sbind (find_id drv k d) f = f (contents d k) (snd (find_id drv k d))" "contents (snd (find_id drv k d)) = contents d"
    "sbind (replace_id drv k doc d) g = g () (snd (replace_id drv k doc d))" "contents (snd (replace_id drv k doc d)) = (contents d)(k \<mapsto> doc)"
    "sbind (delete_id drv k d) h = h (if contents d k = None then 0 else 1) (snd (delete_id drv k d))"
    "contents (snd (delete_id drv k d)) = (contents d)(k := None)"
    "sbind (delete_ids drv ks d) g = g () (snd (delete_ids drv ks d))"
    "contents (snd (delete_ids drv ks d)) = (\<lambda>k. if k \<in> set ks then None else contents d k)"
    "sbind (delete_every drv d) g = g () (snd (delete_every drv d))" "contents (snd (delete_every drv d)) = Map.empty"
    "sbind (bulk_replace drv docs d) g = g () (snd (bulk_replace drv docs d))"
    "contents (snd (bulk_replace drv docs d)) = fold (\<lambda>(k, doc) c. c(k \<mapsto> doc)) docs (contents d)"
  using assms by (simp_all add: honest_arena_def sbind_returned)

lemma honest_update:
  assumes "honest_arena drv contents" "list_all (path_ok \<circ> fst) sets"
  shows "sbind (update_id drv k sets unsets d) g = g () (snd (update_id drv k sets unsets d))"
    "contents (snd (update_id drv k sets unsets d)) = (contents d)(k := map_option (apply_update sets unsets) (contents d k))"
  using assms by (simp_all add: honest_arena_def sbind_returned)

section \<open>Equivalence\<close>

definition document_of :: "pystr \<Rightarrow> arena_document \<Rightarrow> json_object" where
  "document_of key doc =
     (case doc of StringDoc v \<Rightarrow> string_document key v | HashDoc fs \<Rightarrow> hash_document key (map (\<lambda>(f, v). (f, JText v)) fs))"

definition stores :: "(pystr \<Rightarrow> json_object option) \<Rightarrow> documents \<Rightarrow> bool" where
  "stores c docs \<longleftrightarrow> wf_dict docs \<and> (\<forall>k. c k = map_option (document_of k) (map_of docs k))"

definition plain_name :: "pystr \<Rightarrow> bool" where
  "plain_name f \<longleftrightarrow> f \<noteq> [] \<and> 46 \<notin> set f \<and> hd f \<noteq> 36"

fun plain_op :: "repo_op \<Rightarrow> bool" where
  "plain_op (HSet key f v) = plain_name f"
| "plain_op _ = True"

lemma json_get_document [simp]:
  "kind_of (string_document k v) = JText (lit ''string'')" "kind_of (hash_document k fs) = JText (lit ''hash'')"
  "json_get (string_document k v) ''value'' x = JText v" "fields_of (hash_document k fs) = Inr fs"
  "json_get (string_document k v) ''_id'' x = JText k" "json_get (hash_document k fs) ''_id'' x = JText k"
  by (simp_all add: kind_of_def fields_of_def json_get_def string_document_def hash_document_def)

lemma update_texts: "AList.update f (JText v) (map (\<lambda>(f, v). (f, JText v)) fs) = map (\<lambda>(f, v). (f, JText v)) (AList.update f v fs)"
  by (induction fs) auto

lemma keys_texts [simp]: "keys_of (map (\<lambda>(f, v). (f, JText v)) fs) = keys_of fs"
  by (induction fs) (auto simp: keys_of_def)

lemma map_of_texts: "map_of (map (\<lambda>(f, v). (f, JText v)) fs) f = map_option JText (map_of fs f)"
  by (induction fs) auto

lemma hset_update:
  assumes "plain_name f"
  shows "apply_update [(lit ''kind'', JText (lit ''hash'')), (lit ''fields.'' @ f, JText v)] [lit ''value''] (hash_document k fs) =
    hash_document k (AList.update f (JText v) fs)"
    "list_all (path_ok \<circ> fst) [(lit ''kind'', JText (lit ''hash'')), (lit ''fields.'' @ f, JText v)]"
proof -
  have path: "split_on 46 (lit ''fields.'' @ f) = [lit ''fields'', f]" "split_on 46 (lit ''kind'') = [lit ''kind'']"
    using split_on_simps(2)[of 46 "lit ''fields''" f] split_on_simps(1)[of 46 f] split_on_simps(1)[of 46 "lit ''kind''"] assms
    by (simp_all add: plain_name_def lit_def)
  show "list_all (path_ok \<circ> fst) [(lit ''kind'', JText (lit ''hash'')), (lit ''fields.'' @ f, JText v)]"
    using assms by (simp add: path_ok_def path plain_name_def lit_def split_on_simps(1))
  show "apply_update [(lit ''kind'', JText (lit ''hash'')), (lit ''fields.'' @ f, JText v)] [lit ''value''] (hash_document k fs) =
    hash_document k (AList.update f (JText v) fs)"
    by (simp add: apply_update_def path hash_document_def)
qed

lemma replying_simps [simp]: "replying f (Inr x, s) = (Inr (f x), s)" "replying f (Inl e, s) = (Inl e, s)"
  by (simp_all add: replying_def)

lemma stores_get: "stores c docs \<Longrightarrow> c k = map_option (document_of k) (map_of docs k)" "stores c docs \<Longrightarrow> wf_dict docs"
  by (simp_all add: stores_def)

lemma stores_update: "stores c docs \<Longrightarrow> stores (c(k \<mapsto> document_of k doc)) (AList.update k doc docs)"
  by (auto simp: stores_def dict_simps)

lemma stores_delete: "stores c docs \<Longrightarrow> stores (c(k := None)) (snd (mongo_delete k docs))"
  by (auto simp: stores_def mongo_remove_eq dict_simps wf_dict_def distinct_removeAll)

definition agrees :: "('d \<Rightarrow> pystr \<Rightarrow> json_object option) \<Rightarrow> (py_exc + repo_reply) \<times> 'd \<Rightarrow> (py_exc + repo_reply) \<times> documents \<Rightarrow> bool" where
  "agrees contents r m \<longleftrightarrow> fst r = fst m \<and> stores (contents (snd r)) (snd m)"

lemma reads_agree:
  assumes "honest_arena drv contents" "stores (contents d) docs" "\<And>t. str (JText t) = t"
  shows "agrees contents (py_run drv str (Read k) d) (mem_run (Read k) docs)"
    "agrees contents (py_run drv str (HGet k f) d) (mem_run (HGet k f) docs)"
    "agrees contents (py_run drv str (HGetAll k) d) (mem_run (HGetAll k) docs)"
proof -
  have texts: "map (\<lambda>(f, x). (f, str x)) (map (\<lambda>(f, v). (f, JText v)) fs) = fs" for fs by (induction fs) (auto simp: assms(3))
  note simps = agrees_def honest_laws[OF assms(1)] stores_get(1)[OF assms(2)] document_of_def text_or_null_def
  show "agrees contents (py_run drv str (Read k) d) (mem_run (Read k) docs)"
    using assms(2) by (cases "map_of docs k") (auto simp: simps py_read_def mongo_read_def split: arena_document.splits)
  show "agrees contents (py_run drv str (HGet k f) d) (mem_run (HGet k f) docs)"
    using assms(2) by (cases "map_of docs k")
      (auto simp: simps py_hget_def mongo_hget_def map_of_texts split: arena_document.splits option.splits)
  show "agrees contents (py_run drv str (HGetAll k) d) (mem_run (HGetAll k) docs)"
    using assms(2) by (cases "map_of docs k")
      (auto simp: simps py_hgetall_def mongo_hgetall_def texts simp del: map_map split: arena_document.splits)
qed

lemma writes_agree:
  assumes "honest_arena drv contents" "stores (contents d) docs"
  shows "agrees contents (py_run drv str (Write k v) d) (mem_run (Write k v) docs)"
    "plain_name f \<Longrightarrow> agrees contents (py_run drv str (HSet k f v) d) (mem_run (HSet k f v) docs)"
    "agrees contents (py_run drv str (Delete k) d) (mem_run (Delete k) docs)"
proof -
  note simps = agrees_def honest_laws[OF assms(1)] stores_get(1)[OF assms(2)]
  show "agrees contents (py_run drv str (Write k v) d) (mem_run (Write k v) docs)"
    using stores_update[OF assms(2), of k "StringDoc v"]
    by (auto simp: simps py_write_def mongo_write_def Let_def keys_of_iff document_of_def)
  show "agrees contents (py_run drv str (Delete k) d) (mem_run (Delete k) docs)"
    using stores_delete[OF assms(2), of k] by (auto simp: simps py_delete_def mongo_delete_def keys_of_iff split: if_splits)
  assume f: "plain_name f"
  note update = honest_update[OF assms(1) hset_update(2)[OF f]]
  show "agrees contents (py_run drv str (HSet k f v) d) (mem_run (HSet k f v) docs)"
  proof (cases "map_of docs k")
    case None
    then show ?thesis using stores_update[OF assms(2), of k "HashDoc [(f, v)]"]
      by (simp add: simps py_hset_def mongo_hset_def document_of_def)
  next
    case (Some doc)
    then show ?thesis
    proof (cases doc)
      case (StringDoc t)
      then show ?thesis using Some assms(2) by (simp add: simps py_hset_def mongo_hset_def document_of_def)
    next
      case (HashDoc fs)
      then show ?thesis using Some stores_update[OF assms(2), of k "HashDoc (AList.update f v fs)"]
        by (simp add: simps py_hset_def mongo_hset_def document_of_def update hset_update(1)[OF f] update_texts Let_def)
    qed
  qed
qed

lemma fold_replace: "fold (\<lambda>(k, doc) c. c(k \<mapsto> doc)) (map (\<lambda>(k, v). (k, string_document k v)) new) c = fold (\<lambda>(k, v) c. c(k \<mapsto> document_of k (StringDoc v))) new c"
  by (induction new arbitrary: c) (auto simp: document_of_def)

lemma stores_seed: "stores c docs \<Longrightarrow> stores (fold (\<lambda>(k, v) c. c(k \<mapsto> document_of k (StringDoc v))) new c) (mongo_seed new docs)"
  unfolding mongo_seed_def by (induction new arbitrary: c docs) (auto intro: stores_update)

lemma py_document_bytes_eq: "(\<And>t. str (JText t) = t) \<Longrightarrow> py_document_bytes str (document_of k doc) = Inr (document_bytes k doc)"
  by (cases doc) (auto simp: py_document_bytes_def document_of_def comp_def case_prod_unfold)

lemma py_bytes_eq:
  assumes "\<And>t. str (JText t) = t"
  shows "py_bytes str n (map (\<lambda>k. document_of k (g k)) ks) = Inr (n + sum_list (map (\<lambda>k. document_bytes k (g k)) ks))"
  by (induction ks arbitrary: n) (simp_all add: py_document_bytes_eq[OF assms])

lemma stats_agree:
  assumes "honest_arena drv contents" "stores (contents d) docs" "\<And>t. str (JText t) = t"
  shows "agrees contents (py_run drv str Stats d) (mem_run Stats docs)"
proof -
  obtain ks where ks: "distinct ks" "set ks = dom (contents d)" "fst (find_every drv d) = Inr (map (\<lambda>k. the (contents d k)) ks)"
    "contents (snd (find_every drv d)) = contents d" using assms(1) unfolding honest_arena_def by blast
  let ?g = "\<lambda>k. the (map_of docs k)"
  have wf: "distinct (map fst docs)" using stores_get(2)[OF assms(2)] by (simp add: wf_dict_def keys_of_def)
  have dom: "set ks = fst ` set docs" using ks(2) by (auto simp: stores_get(1)[OF assms(2)] dom_def map_of_eq_None_iff)
  have m: "map (\<lambda>k. the (contents d k)) ks = map (\<lambda>k. document_of k (?g k)) ks"
    using dom by (auto simp: stores_get(1)[OF assms(2)] map_of_eq_None_iff option.map_sel)
  have bytes: "py_bytes str 0 (map (\<lambda>k. the (contents d k)) ks) = Inr (\<Sum>k\<leftarrow>ks. document_bytes k (?g k))"
    unfolding m by (simp add: py_bytes_eq[OF assms(3)])
  have "(\<Sum>k\<leftarrow>ks. document_bytes k (?g k)) = (\<Sum>k\<leftarrow>map fst docs. document_bytes k (?g k))"
    using ks(1) wf dom by (simp only: sum_list_distinct_conv_sum_set set_map)
  also have "\<dots> = dict_sum document_bytes docs"
    unfolding dict_sum_def using wf by (auto simp: comp_def intro!: arg_cong[of _ _ sum_list] map_cong)
  finally have "(\<Sum>k\<leftarrow>ks. document_bytes k (?g k)) = dict_sum document_bytes docs" .
  moreover have "length ks = length docs"
    using ks(1) wf dom distinct_card[of ks] distinct_card[of "map fst docs"] by simp
  ultimately show ?thesis using bytes ks(4) assms(2)
    by (simp add: agrees_def py_stats_def sbind_returned[OF ks(3)] mongo_stats_eq)
qed

lemma op_agrees:
  assumes "honest_arena drv contents" "stores (contents d) docs" "\<And>t. str (JText t) = t" "plain_op p"
  shows "agrees contents (py_run drv str p d) (mem_run p docs)"
proof (cases p)
  case (DeleteMany ks)
  have "stores (\<lambda>k. if k \<in> set ks then None else contents d k) (mongo_delete_many ks docs)"
    using assms(2) by (auto simp: stores_def mongo_delete_many_get wf_mongo_delete_many)
  moreover have "mongo_delete_many [] docs = docs" by (simp add: mongo_delete_many_def)
  ultimately show ?thesis using DeleteMany assms(2)
    by (cases "ks = []") (auto simp: agrees_def py_delete_many_def replying_def honest_laws[OF assms(1)])
next
  case (Seed new)
  have "mongo_seed [] docs = docs" by (simp add: mongo_seed_def)
  then show ?thesis using Seed stores_seed[OF assms(2), of new] assms(2)
    by (cases "new = []") (auto simp: agrees_def py_seed_def replying_def honest_laws[OF assms(1)] fold_replace)
next
  case Clear
  then show ?thesis by (simp add: agrees_def py_clear_def replying_def honest_laws[OF assms(1)] mongo_clear_def stores_def wf_dict_def keys_of_def)
qed (use assms reads_agree[OF assms(1-3)] writes_agree[OF assms(1,2)] stats_agree[OF assms(1-3)] in simp_all)

section \<open>Properties\<close>

text \<open>
  C34. Equivalence. The two repositories of the arena cannot be told apart: on a collection that behaves
  as documented, every sequence of operations has the replies, errors included, that it has in memory, when
  the names of the hash fields it sets are plain (not empty, no dot, no dollar sign in front).
\<close>

theorem pymongo_equivalent:
  assumes "honest_arena drv contents" "stores (contents d) docs" "\<And>t. str (JText t) = t" "list_all plain_op ops"
  shows "run_ops (py_run drv str) ops d = run_ops mem_run ops docs"
  using assms(2,4)
proof (induction ops arbitrary: d docs)
  case (Cons p ops)
  have "agrees contents (py_run drv str p d) (mem_run p docs)" using op_agrees[OF assms(1) Cons.prems(1) assms(3)] Cons.prems(2) by simp
  then show ?case using Cons by (auto simp: agrees_def split: prod.splits)
qed simp

text \<open>A collection in memory, for examples.\<close>

definition dict_driver :: "(pystr, json_object) dict arena_driver" where
  "dict_driver =
     \<lparr>find_id = (\<lambda>k d. (Inr (map_of d k), d)), replace_id = (\<lambda>k doc d. (Inr (), AList.update k doc d)),
      update_id = (\<lambda>k sets unsets d.
        (Inr (), case map_of d k of None \<Rightarrow> d | Some doc \<Rightarrow> AList.update k (apply_update sets unsets doc) d)),
      delete_id = (\<lambda>k d. (Inr (if map_of d k = None then 0 else 1), AList.delete k d)),
      delete_ids = (\<lambda>ks d. (Inr (), filter (\<lambda>(k, _). k \<notin> set ks) d)), delete_every = (\<lambda>d. (Inr (), [])),
      bulk_replace = (\<lambda>docs d. (Inr (), fold (\<lambda>(k, doc). AList.update k doc) docs d)),
      find_every = (\<lambda>d. (Inr (map (\<lambda>k. the (map_of d k)) (remdups (map fst d))), d)), admin_ping = (\<lambda>d. (Inr (), d))\<rparr>"

lemma dict_honest: "honest_arena dict_driver map_of"
proof -
  have "map_of (fold (\<lambda>(k, doc). AList.update k doc) docs d) = fold (\<lambda>(k, doc) c. c(k \<mapsto> doc)) docs (map_of d)" for docs and d :: "(pystr, json_object) dict"
    by (induction docs arbitrary: d) (auto simp: update_conv')
  moreover have "map_of (filter (\<lambda>(k, _). k \<notin> set ks) d) = (\<lambda>k. if k \<in> set ks then None else map_of d k)" for ks and d :: "(pystr, json_object) dict"
    by (induction d) (auto simp: fun_eq_iff)
  moreover have "\<exists>ks. distinct ks \<and> set ks = dom (map_of d) \<and> map (\<lambda>k. the (map_of d k)) (remdups (map fst d)) = map (\<lambda>k. the (map_of d k)) ks"
    for d :: "(pystr, json_object) dict"
    by (rule exI[of _ "remdups (map fst d)"]) (simp add: dom_map_of_conv_image_fst)
  ultimately show ?thesis
    by (simp add: honest_arena_def dict_driver_def update_conv' delete_conv' fun_upd_idem_iff split: option.splits) auto
qed

text \<open>The witness of C34: a hash, read with the wrong command, and the statistics.\<close>

theorem pymongo_equivalent_witness:
  "let ops = [HSet (lit ''k'') (lit ''f'') (lit ''v''), HGet (lit ''k'') (lit ''f''), Read (lit ''k''), Stats]
   in run_ops (py_run dict_driver (\<lambda>v. case v of JText t \<Rightarrow> t)) ops [] =
     [Inr (Status (lit ''created'')), Inr (Value (JText (lit ''v''))), type_error, Inr (Counts 3 1)]"
proof -
  let ?ops = "[HSet (lit ''k'') (lit ''f'') (lit ''v''), HGet (lit ''k'') (lit ''f''), Read (lit ''k''), Stats]"
  have "stores (map_of []) []" "list_all plain_op ?ops" by (simp_all add: stores_def wf_dict_def keys_of_def plain_name_def lit_def)
  from pymongo_equivalent[OF dict_honest this(1) _ this(2), of "\<lambda>v. case v of JText t \<Rightarrow> t"]
  have "run_ops (py_run dict_driver (\<lambda>v. case v of JText t \<Rightarrow> t)) ?ops [] = run_ops mem_run ?ops []" by simp
  also have "\<dots> = [Inr (Status (lit ''created'')), Inr (Value (JText (lit ''v''))), type_error, Inr (Counts 3 1)]" by code_simp
  finally show ?thesis by simp
qed

text \<open>
  A field name with a dot: \<open>HSET\<close> on an existing hash stores it inside another document, and \<open>HGET\<close> does not
  find it, which it does in memory.
\<close>

theorem dotted_field_is_lost:
  "let ops = [HSet (lit ''k'') (lit ''f'') (lit ''v''), HSet (lit ''k'') (lit ''a.b'') (lit ''w''), HGet (lit ''k'') (lit ''a.b'')]
   in last (run_ops mem_run ops []) = Inr (Value (JText (lit ''w''))) \<and>
      last (run_ops (py_run dict_driver (\<lambda>v. case v of JText t \<Rightarrow> t)) ops []) = Inr (Value JNull)"
  by code_simp

end
