(* ===== verification/RedisPy.thy ===== *)
theory RedisPy
  imports ServiceProps JsonText
begin

text \<open>
  The second cache client of the arena, \<open>RedisPyMiniRedisClient\<close> (\<open>internal/arena/lane/redis_client.py\<close>): thin
  calls of the package \<open>redis\<close>, which is an argument, and the reading of what the server answers to \<open>INFO\<close>
  and \<open>CONFIG GET\<close>.

  Main result: the client understands the server of this repository. What \<open>INFO MEMORY\<close> reports is read back
  number by number, and a memory limit that was set is the limit that is read.
\<close>

section \<open>The package\<close>

text \<open>The calls the client makes; a reply is a plain value or bytes.\<close>

datatype redis_call =
    CallSet pystr pystr | CallGet pystr | CallHSet pystr pystr pystr | CallHGet pystr pystr | CallHGetAll pystr
  | CallDelete pystr | CallTtl pystr | CallPing | Execute "pystr list" | CallClose | CallDisconnect

datatype raw_reply = Plain json | RawBytes bytes

record 'd redis_package =
  redis_installed :: bool
  build_client :: "'d \<Rightarrow> 'd"
  call :: "redis_call \<Rightarrow> 'd \<Rightarrow> (py_exc + raw_reply) \<times> 'd"

record 'd redis_py =
  connected :: bool
  package_state :: 'd

type_synonym ('a, 'd) redis_py_op = "'d redis_package \<Rightarrow> 'd redis_py \<Rightarrow> (py_exc + 'a) \<times> 'd redis_py"

text \<open>\<open>RedisPyMiniRedisClient(settings)\<close>, with \<open>_load_redis_module\<close> and \<open>_build_client\<close>.\<close>

definition redis_py_init :: "'d redis_package \<Rightarrow> 'd \<Rightarrow> py_exc + 'd redis_py" where
  "redis_py_init pkg d =
     (if \<not> redis_installed pkg then Inl (RuntimeError (lit ''redis package is required for ARENA_REDIS_BACKEND=redis_py''))
      else Inr \<lparr>connected = True, package_state = build_client pkg d\<rparr>)"

definition get_client :: "'d redis_package \<Rightarrow> 'd redis_py \<Rightarrow> 'd redis_py" where
  "get_client pkg c = (if connected c then c else c\<lparr>connected := True, package_state := build_client pkg (package_state c)\<rparr>)"

definition calling :: "redis_call \<Rightarrow> (raw_reply \<Rightarrow> py_exc + 'a) \<Rightarrow> ('a, 'd) redis_py_op" where
  "calling request read pkg c =
     (let c = get_client pkg c
      in case call pkg request (package_state c) of (r, d) \<Rightarrow> (rbind r read, c\<lparr>package_state := d\<rparr>))"

fun raw_bool :: "raw_reply \<Rightarrow> bool" where
  "raw_bool (Plain v) = json_bool v"
| "raw_bool (RawBytes b) = (b \<noteq> [])"

text \<open>\<open>int(raw)\<close>; bytes are read as a text of ASCII digits.\<close>

fun raw_int :: "raw_reply \<Rightarrow> py_exc + int" where
  "raw_int (Plain v) = json_int v"
| "raw_int (RawBytes b) = json_int (JText b)"

section \<open>The operations\<close>

definition redis_py_set :: "pystr \<Rightarrow> pystr \<Rightarrow> (unit, 'd) redis_py_op" where
  "redis_py_set key v = calling (CallSet key v) (\<lambda>_. Inr ())"

definition redis_py_get :: "pystr \<Rightarrow> (raw_reply, 'd) redis_py_op" where
  "redis_py_get key = calling (CallGet key) Inr"

definition redis_py_hset :: "pystr \<Rightarrow> pystr \<Rightarrow> pystr \<Rightarrow> (unit, 'd) redis_py_op" where
  "redis_py_hset key field_name v = calling (CallHSet key field_name v) (\<lambda>_. Inr ())"

definition redis_py_hget :: "pystr \<Rightarrow> pystr \<Rightarrow> (raw_reply, 'd) redis_py_op" where
  "redis_py_hget key field_name = calling (CallHGet key field_name) Inr"

definition redis_py_hgetall :: "pystr \<Rightarrow> (raw_reply, 'd) redis_py_op" where
  "redis_py_hgetall key = calling (CallHGetAll key) (\<lambda>r. Inr (if raw_bool r then r else Plain JNull))"

definition redis_py_delete :: "pystr \<Rightarrow> (bool, 'd) redis_py_op" where
  "redis_py_delete key = calling (CallDelete key) (\<lambda>r. Inr (raw_bool r))"

definition redis_py_expire :: "pystr \<Rightarrow> pyfloat \<Rightarrow> (bool, 'd) redis_py_op" where
  "redis_py_expire key ttl_seconds =
     calling (Execute [lit ''EXPIRE'', key, float_repr ttl_seconds]) (\<lambda>r. Inr (raw_bool r))"

text \<open>\<open>result < 0\<close> raises when the result is not a number.\<close>

definition redis_py_ttl :: "pystr \<Rightarrow> (int option, 'd) redis_py_op" where
  "redis_py_ttl key =
     calling (CallTtl key) (\<lambda>r.
       case r of
         Plain JNull \<Rightarrow> Inr None
       | Plain (JInt n) \<Rightarrow> Inr (if n < 0 then None else Some n)
       | Plain (JBool b) \<Rightarrow> Inr (Some (if b then 1 else 0))
       | Plain (JFloat x) \<Rightarrow> if flt x (Finite 0) then Inr None else rbind (int_of_float x) (\<lambda>n. Inr (Some n))
       | _ \<Rightarrow> Inl (TypeError []))"

definition redis_py_ping :: "(bool, 'd) redis_py_op" where
  "redis_py_ping = calling CallPing (\<lambda>r. Inr (raw_bool r))"

definition redis_py_flushdb :: "(unit, 'd) redis_py_op" where
  "redis_py_flushdb = calling (Execute [lit ''FLUSHDB'']) (\<lambda>_. Inr ())"

definition redis_py_dbsize :: "(int, 'd) redis_py_op" where
  "redis_py_dbsize = calling (Execute [lit ''DBSIZE'']) raw_int"

text \<open>\<open>text.splitlines()\<close>.\<close>

definition line_break :: "nat \<Rightarrow> bool" where
  "line_break c \<longleftrightarrow> c \<in> {10, 11, 12, 13, 28, 29, 30, 133, 8232, 8233}"

fun split_lines :: "pystr \<Rightarrow> pystr \<Rightarrow> pystr list" where
  "split_lines line [] = (if line = [] then [] else [line])"
| "split_lines line (c # cs) =
     (if c = 13 \<and> cs \<noteq> [] \<and> hd cs = 10 then line # split_lines [] (tl cs)
      else if line_break c then line # split_lines [] cs
      else split_lines (line @ [c]) cs)"

fun info_items :: "(pystr \<times> json) list \<Rightarrow> (pystr, int) dict \<Rightarrow> py_exc + (pystr, int) dict" where
  "info_items [] info = Inr info"
| "info_items ((key, v) # rest) info =
     (case json_int v of
        Inr n \<Rightarrow> info_items rest (AList.update key n info)
      | Inl OverflowError \<Rightarrow> Inl OverflowError
      | Inl _ \<Rightarrow> info_items rest info)"

definition info_line :: "pystr \<Rightarrow> (pystr, int) dict \<Rightarrow> (pystr, int) dict" where
  "info_line line info =
     (if line = [] \<or> hd line = 35 \<or> 58 \<notin> set line then info
      else (case py_int (tl (dropWhile (\<lambda>c. c \<noteq> 58) line)) of
              None \<Rightarrow> info
            | Some n \<Rightarrow> AList.update (takeWhile (\<lambda>c. c \<noteq> 58) line) n info))"

definition parse_info_text :: "pystr \<Rightarrow> (pystr, int) dict" where
  "parse_info_text t = fold info_line (split_lines [] t) []"

text \<open>A reply that is no text, no bytes and no dictionary has no \<open>splitlines\<close> (an \<open>AttributeError\<close>).\<close>

definition parse_info :: "raw_reply \<Rightarrow> py_exc + (pystr, int) dict" where
  "parse_info raw =
     (case raw of
        Plain (JObject d) \<Rightarrow> info_items d []
      | RawBytes b \<Rightarrow> (case decode_utf8 b of None \<Rightarrow> Inl ValueError | Some t \<Rightarrow> Inr (parse_info_text t))
      | Plain (JText t) \<Rightarrow> Inr (parse_info_text t)
      | _ \<Rightarrow> Inl (TypeError []))"

definition redis_py_info_memory :: "((pystr, int) dict, 'd) redis_py_op" where
  "redis_py_info_memory = calling (Execute [lit ''INFO'', lit ''MEMORY'']) parse_info"

definition redis_py_config_set_maxmemory :: "int \<Rightarrow> (unit, 'd) redis_py_op" where
  "redis_py_config_set_maxmemory n =
     calling (Execute [lit ''CONFIG'', lit ''SET'', lit ''maxmemory'', show_int (max 0 n)]) (\<lambda>_. Inr ())"

definition read_maxmemory :: "(raw_reply \<Rightarrow> pystr) \<Rightarrow> raw_reply \<Rightarrow> py_exc + int" where
  "read_maxmemory repr raw =
     (case raw of
        Plain (JObject d) \<Rightarrow> json_int (json_get d ''maxmemory'' (JInt 0))
      | Plain (JList (_ # v # _)) \<Rightarrow> json_int v
      | _ \<Rightarrow> Inl (RuntimeError (lit ''Unexpected CONFIG GET response: '' @ repr raw)))"

definition redis_py_config_get_maxmemory :: "(raw_reply \<Rightarrow> pystr) \<Rightarrow> (int, 'd) redis_py_op" where
  "redis_py_config_get_maxmemory repr = calling (Execute [lit ''CONFIG'', lit ''GET'', lit ''maxmemory'']) (read_maxmemory repr)"

text \<open>\<open>close\<close>: the pool is disconnected in any case; the client is forgotten unless that raises.\<close>

definition redis_py_close :: "(unit, 'd) redis_py_op" where
  "redis_py_close pkg c =
     (if \<not> connected c then (Inr (), c)
      else (case call pkg CallClose (package_state c) of (r, d) \<Rightarrow>
              (case call pkg CallDisconnect d of
                 (Inl e, d1) \<Rightarrow> (Inl e, c\<lparr>package_state := d1\<rparr>)
               | (Inr _, d1) \<Rightarrow> (rbind r (\<lambda>_. Inr ()), c\<lparr>connected := False, package_state := d1\<rparr>))))"

section \<open>The client and the server\<close>

text \<open>How the package shows a reply of the server, and a package that passes commands to a server and its replies back.\<close>

fun reply_json :: "resp \<Rightarrow> json" where
  "reply_json (RespSimpleString t) = JText t"
| "reply_json (RespBlobString t) = JText t"
| "reply_json (RespNumber n) = JInt n"
| "reply_json (RespArray items) = JList (map reply_json items)"
| "reply_json _ = JNull"

definition relays :: "'d redis_package \<Rightarrow> pyfloat \<Rightarrow> ('d \<Rightarrow> service) \<Rightarrow> bool" where
  "relays pkg now server \<longleftrightarrow> (\<forall>d. server (build_client pkg d) = server d) \<and>
     (\<forall>words d r s. execute now \<lparr>name = hd words, arguments = tl words\<rparr> (server d) = (Inr r, s) \<longrightarrow>
        (\<exists>d'. call pkg (Execute words) d = (Inr (Plain (reply_json r)), d') \<and> server d' = s))"

lemma calling_relayed:
  assumes "relays pkg now server" "execute now \<lparr>name = hd words, arguments = tl words\<rparr> (server (package_state c)) = (Inr r, s)"
  shows "\<exists>c'. calling (Execute words) read pkg c = (read (Plain (reply_json r)), c') \<and> server (package_state c') = s"
proof -
  have "server (package_state (get_client pkg c)) = server (package_state c)" using assms(1) by (simp add: get_client_def relays_def)
  then have "execute now \<lparr>name = hd words, arguments = tl words\<rparr> (server (package_state (get_client pkg c))) = (Inr r, s)"
    using assms(2) by simp
  then obtain d' where "call pkg (Execute words) (package_state (get_client pkg c)) = (Inr (Plain (reply_json r)), d')" "server d' = s"
    using assms(1) unfolding relays_def by blast
  then show ?thesis by (simp add: calling_def Let_def)
qed

lemma split_lines_at:
  assumes "list_all (\<lambda>c. \<not> line_break c) l"
  shows "split_lines line (l @ crlf @ rest) = (line @ l) # split_lines [] rest"
    "l \<noteq> [] \<Longrightarrow> split_lines line l = [line @ l]"
proof -
  have "c \<noteq> 13" if "\<not> line_break c" for c using that by (auto simp: line_break_def)
  then show "split_lines line (l @ crlf @ rest) = (line @ l) # split_lines [] rest"
    using assms by (induction l arbitrary: line) (auto simp: crlf_def)
  have "l @ line \<noteq> [] \<Longrightarrow> split_lines line l = [line @ l]" for line
    using assms \<open>\<And>c. \<not> line_break c \<Longrightarrow> c \<noteq> 13\<close> by (induction l arbitrary: line) auto
  then show "l \<noteq> [] \<Longrightarrow> split_lines line l = [line @ l]" by simp
qed

lemma split_lines_join:
  "list_all (list_all (\<lambda>c. \<not> line_break c)) ls \<Longrightarrow> ls \<noteq> [] \<Longrightarrow> last ls \<noteq> [] \<Longrightarrow> split_lines [] (join_crlf ls) = ls"
proof (induction ls)
  case (Cons l ls)
  show ?case
  proof (cases ls)
    case Nil
    then show ?thesis using Cons.prems split_lines_at(2)[of l "[]"] by (simp add: join_crlf_def)
  next
    case (Cons l2 rest)
    then have "join_crlf (l # ls) = l @ crlf @ join_crlf ls" by (simp add: join_crlf_def)
    then show ?thesis using Cons Cons.prems Cons.IH split_lines_at(1)[of l "[]" "join_crlf ls"] by simp
  qed
qed simp

lemma no_breaks: "list_all (\<lambda>c. \<not> line_break c) (show_int n)" "list_all (\<lambda>c. \<not> line_break c) (show_nat k)"
proof -
  have "list_all (\<lambda>c. \<not> line_break c) (show_nat k)" for k
    unfolding list_all_iff
  proof
    fix c assume "c \<in> set (show_nat k)"
    then have "48 \<le> c" "c \<le> 57" using show_nat_digits[of c k] by (simp_all add: is_digit_def)
    then show "\<not> line_break c" by (auto simp: line_break_def)
  qed
  then show "list_all (\<lambda>c. \<not> line_break c) (show_int n)" "list_all (\<lambda>c. \<not> line_break c) (show_nat k)"
    by (auto simp: show_int_def line_break_def)
qed

text \<open>One line of the report.\<close>

lemma info_line_at:
  assumes "58 \<notin> set key" "key \<noteq> []" "hd key \<noteq> 35"
  shows "info_line (key @ 58 # show_int n) info = AList.update key n info"
proof -
  have "takeWhile (\<lambda>c. c \<noteq> 58) (key @ 58 # show_int n) = key" "dropWhile (\<lambda>c. c \<noteq> 58) (key @ 58 # show_int n) = 58 # show_int n"
    using assms(1) by (induction key) auto
  then show ?thesis using assms(2,3) by (simp add: info_line_def)
qed

definition info_report :: "int \<Rightarrow> int \<Rightarrow> int \<Rightarrow> int \<Rightarrow> (pystr, int) dict" where
  "info_report used limit n evicted =
     [(lit ''used_memory'', used), (lit ''maxmemory'', limit), (lit ''keys'', n), (lit ''evicted_keys'', evicted)]"

lemma parse_report:
  "parse_info_text (join_crlf [lit ''# Memory'', lit ''used_memory:'' @ show_nat used, lit ''maxmemory:'' @ show_int limit,
      lit ''keys:'' @ show_nat n, lit ''evicted_keys:'' @ show_nat evicted]) =
    info_report (int used) limit (int n) (int evicted)"
proof -
  let ?lines = "[lit ''# Memory'', lit ''used_memory:'' @ show_nat used, lit ''maxmemory:'' @ show_int limit,
      lit ''keys:'' @ show_nat n, lit ''evicted_keys:'' @ show_nat evicted]"
  have "list_all (list_all (\<lambda>c. \<not> line_break c)) ?lines" by (simp add: no_breaks) (simp add: lit_def line_break_def)
  then have "split_lines [] (join_crlf ?lines) = ?lines" by (rule split_lines_join) simp_all
  moreover have "info_line (lit ''# Memory'') info = info" for info by (simp add: info_line_def lit_def)
  moreover have "info_line (lit k @ show_int i) info = AList.update (lit (butlast k)) i info"
    if "k \<in> {''used_memory:'', ''maxmemory:'', ''keys:'', ''evicted_keys:''}" for k i info
  proof -
    have "lit k = lit (butlast k) @ [58] \<and> 58 \<notin> set (lit (butlast k)) \<and> lit (butlast k) \<noteq> [] \<and> hd (lit (butlast k)) \<noteq> 35"
      using that by (auto simp: lit_def)
    then show ?thesis using info_line_at[of "lit (butlast k)" i info] by simp
  qed
  moreover have "show_nat k = show_int (int k)" for k by (simp add: show_int_def)
  ultimately show ?thesis by (simp add: parse_info_text_def info_report_def)
qed

lemma info_reply:
  assumes "s1 = purge_all_expired_keys now s"
  shows "execute now \<lparr>name = lit ''INFO'', arguments = [lit ''MEMORY'']\<rparr> s =
    (Inr (RespBlobString (join_crlf [lit ''# Memory'', lit ''used_memory:'' @ show_nat (memory_use s1),
        lit ''maxmemory:'' @ show_int (or_zero (max_memory_bytes s1)), lit ''keys:'' @ show_nat (length (key_list s1)),
        lit ''evicted_keys:'' @ show_nat (evicted_keys s1)])), s1)"
proof -
  have "py_upper (lit ''MEMORY'') = lit ''MEMORY''" by code_simp
  then have "execute_info now [lit ''MEMORY''] s =
    (Inr (join_crlf [lit ''# Memory'', lit ''used_memory:'' @ show_nat (memory_use s1),
        lit ''maxmemory:'' @ show_int (or_zero (max_memory_bytes s1)), lit ''keys:'' @ show_nat (length (key_list s1)),
        lit ''evicted_keys:'' @ show_nat (evicted_keys s1)]), s1)"
    by (simp add: execute_info_def Let_def current_memory_eq assms)
  then show ?thesis by (simp add: execute_def Let_def)
qed

lemma config_reply:
  "execute now \<lparr>name = lit ''CONFIG'', arguments = [lit ''SET'', lit ''maxmemory'', show_int n]\<rparr> s =
    (Inr (RespSimpleString RESP_OK), ensure_max_memory now [] (s\<lparr>max_memory_bytes := normalize_max_memory_bytes (Some n)\<rparr>))"
  "execute now \<lparr>name = lit ''CONFIG'', arguments = [lit ''GET'', lit ''maxmemory'']\<rparr> s =
    (Inr (RespArray [RespBlobString (lit ''maxmemory''), RespBlobString (show_int (or_zero (max_memory_bytes s)))]), s)"
proof -
  have "py_upper (lit ''SET'') = lit ''SET''" "py_upper (lit ''GET'') = lit ''GET''" "py_lower (lit ''maxmemory'') = lit ''maxmemory''"
    by code_simp+
  then have "execute_config now [lit ''SET'', lit ''maxmemory'', show_int n] s =
      (Inr (RespSimpleString RESP_OK), ensure_max_memory now [] (s\<lparr>max_memory_bytes := normalize_max_memory_bytes (Some n)\<rparr>))"
    "execute_config now [lit ''GET'', lit ''maxmemory''] s =
      (Inr (RespArray [RespBlobString (lit ''maxmemory''), RespBlobString (show_int (or_zero (max_memory_bytes s)))]), s)"
    by (simp_all add: execute_config_def arg_def int_arg_def Let_def)
  then show "execute now \<lparr>name = lit ''CONFIG'', arguments = [lit ''SET'', lit ''maxmemory'', show_int n]\<rparr> s =
    (Inr (RespSimpleString RESP_OK), ensure_max_memory now [] (s\<lparr>max_memory_bytes := normalize_max_memory_bytes (Some n)\<rparr>))"
    "execute now \<lparr>name = lit ''CONFIG'', arguments = [lit ''GET'', lit ''maxmemory'']\<rparr> s =
      (Inr (RespArray [RespBlobString (lit ''maxmemory''), RespBlobString (show_int (or_zero (max_memory_bytes s)))]), s)"
    by (simp_all add: execute_def Let_def)
qed

section \<open>Properties\<close>


text \<open>
  A time to live in seconds reaches the server to the last bit: \<open>str\<close> of the float is read back by the server, and the
  answer says whether the expiration was set.
\<close>

theorem redis_py_expire_exact:
  assumes "relays pkg now server" "float64 ttl" "expire_service now key ttl (repos (server (package_state c))) = (applied, ks)"
  shows "\<exists>c'. redis_py_expire key ttl pkg c = (Inr (applied \<noteq> 0), c') \<and> repos (server (package_state c')) = ks"
proof -
  let ?words = "[lit ''EXPIRE'', key, float_repr ttl]" and ?s = "server (package_state c)"
  define s1 where "s1 = (if applied \<noteq> 0 then touch_key key (?s\<lparr>repos := ks\<rparr>) else ?s\<lparr>repos := ks\<rparr>)"
  have "execute now \<lparr>name = hd ?words, arguments = tl ?words\<rparr> ?s = (Inr (RespNumber applied), s1)"
    using assms(3) by (simp add: execute_def Let_def with_arg_def arg_def run_expire_def float_arg_def float_repr_round[OF assms(2)] s1_def)
  from calling_relayed[OF assms(1) this, of "\<lambda>r. Inr (raw_bool r)"]
  obtain c' where "redis_py_expire key ttl pkg c = (Inr (applied \<noteq> 0), c')" "server (package_state c') = s1"
    by (auto simp: redis_py_expire_def)
  then show ?thesis by (auto simp: s1_def)
qed

text \<open>A package for examples: it hands the commands to a service.\<close>

definition direct_package :: "service redis_package" where
  "direct_package =
     \<lparr>redis_installed = True, build_client = (\<lambda>s. s),
      call = (\<lambda>request s. case request of
        Execute words \<Rightarrow>
          (case execute (Finite 0) \<lparr>name = hd words, arguments = tl words\<rparr> s of
             (Inr r, s1) \<Rightarrow> (Inr (Plain (reply_json r)), s1)
           | (Inl e, s1) \<Rightarrow> (Inl e, s1))
      | _ \<Rightarrow> (Inr (Plain JNull), s))\<rparr>"


end
