(* ===== verification/BenchClient.thy ===== *)
theory BenchClient
  imports CliMain
begin

text \<open>
  The client of the benchmark (\<open>app/adapters/mini_redis.py\<close>): it keeps one connection, encodes commands,
  parses replies, and repeats a command once on a new connection when the old one turns out to be closed.

  A connection is the bytes it will still deliver and how it ends (closed, or an exception of \<open>recv\<close>).
  The network is an argument: connecting, and sending a frame, after which the connection delivers the
  answer. The texts Python makes of operating system errors, of bytes and of containers are arguments.
  The lock around a command makes it one step.

  Main results: frames and replies round-trip with the server; a command on a stale connection has the
  result it has on a fresh one; on a session of the server what \<open>set\<close> stores \<open>get\<close> returns.
\<close>

section \<open>Encoding\<close>

definition part_text :: "frame_item \<Rightarrow> pystr" where
  "part_text part = (case part of Num n \<Rightarrow> show_int n | Text t \<Rightarrow> t)"

definition encode_command :: "frame_item list \<Rightarrow> bytes" where
  "encode_command parts =
     (lit ''*'' @ show_nat (length parts) @ crlf) @
     concat (map (\<lambda>part.
       let encoded = encode_utf8 (part_text part)
       in (lit ''$'' @ show_nat (length encoded) @ crlf) @ (encoded @ crlf)) parts)"

section \<open>Parsing\<close>

record 'p connection =
  unread :: bytes
  ending :: "py_exc option"
  peer :: 'p

record py_texts =
  repr_value :: "cli_value \<Rightarrow> pystr"
  repr_byte :: "nat \<Rightarrow> pystr"
  str_error :: "py_exc \<Rightarrow> pystr"

text \<open>\<open>recv\<close> with nothing left: empty when the connection is closed.\<close>

definition at_end :: "py_exc option \<Rightarrow> string \<Rightarrow> py_exc" where
  "at_end ends message = (case ends of None \<Rightarrow> MiniRedisError (lit message) | Some e \<Rightarrow> e)"

fun bench_readline :: "py_exc option \<Rightarrow> bytes \<Rightarrow> bytes \<Rightarrow> (py_exc + bytes) \<times> bytes" where
  "bench_readline ends line [] = (Inl (at_end ends ''connection closed while reading response''), [])"
| "bench_readline ends line (b # bs) =
     (let data = line @ [b]
      in if ends_with crlf data then (Inr (take (length data - 2) data), bs) else bench_readline ends data bs)"

definition bench_text :: "py_exc option \<Rightarrow> bytes \<Rightarrow> (py_exc + pystr) \<times> bytes" where
  "bench_text ends bs =
     sbind (bench_readline ends [] bs) (\<lambda>line bs.
       (case decode_utf8 line of None \<Rightarrow> Inl ValueError | Some t \<Rightarrow> Inr t, bs))"

definition bench_int :: "py_exc option \<Rightarrow> bytes \<Rightarrow> (py_exc + int) \<times> bytes" where
  "bench_int ends bs =
     sbind (bench_text ends bs) (\<lambda>t bs. (case py_int t of None \<Rightarrow> Inl ValueError | Some n \<Rightarrow> Inr n, bs))"

text \<open>
  The bulk string: \<open>length + 2\<close> bytes, of which the last two are dropped. A negative length other than
  \<open>-1\<close> reads nothing.
\<close>

definition bench_bulk :: "py_exc option \<Rightarrow> int \<Rightarrow> bytes \<Rightarrow> (py_exc + cli_value) \<times> bytes" where
  "bench_bulk ends n bs =
     (let wanted = nat (n + 2); payload = take wanted bs
      in if length bs < wanted then (Inl (at_end ends ''connection closed while reading bulk string''), [])
         else (case decode_utf8 (take (length payload - 2) payload) of
                 None \<Rightarrow> Inl ValueError | Some t \<Rightarrow> Inr (VText t), drop wanted bs))"

function (sequential) parse_resp ::
    "py_texts \<Rightarrow> py_exc option \<Rightarrow> nat \<Rightarrow> bytes \<Rightarrow> (py_exc + cli_value) \<times> bytes"
  and parse_entries ::
    "py_texts \<Rightarrow> py_exc option \<Rightarrow> nat \<Rightarrow> nat \<Rightarrow> (pystr, cli_value) dict \<Rightarrow> bytes
      \<Rightarrow> (py_exc + (pystr, cli_value) dict) \<times> bytes"
  and parse_values ::
    "py_texts \<Rightarrow> py_exc option \<Rightarrow> nat \<Rightarrow> nat \<Rightarrow> bytes \<Rightarrow> (py_exc + cli_value list) \<times> bytes" where
  "parse_resp tx ends 0 bs = (Inl RecursionError, bs)"
| "parse_resp tx ends (Suc stack) [] = (Inl (at_end ends ''empty response''), [])"
| "parse_resp tx ends (Suc stack) (prefix # bs) =
     (if prefix = of_char CHR ''+'' then sbind (bench_text ends bs) (\<lambda>t bs. (Inr (VText t), bs))
      else if prefix = of_char CHR ''$'' then
        sbind (bench_int ends bs) (\<lambda>n bs. if n = - 1 then (Inr VNone, bs) else bench_bulk ends n bs)
      else if prefix = of_char CHR '':'' then sbind (bench_int ends bs) (\<lambda>n bs. (Inr (VInt n), bs))
      else if prefix = of_char CHR ''_'' then sbind (bench_readline ends [] bs) (\<lambda>_ bs. (Inr VNone, bs))
      else if prefix = of_char CHR ''-'' then sbind (bench_text ends bs) (\<lambda>m bs. (Inl (MiniRedisError m), bs))
      else if prefix = of_char CHR ''%'' then
        sbind (bench_int ends bs) (\<lambda>n bs.
          sbind (parse_entries tx ends stack (nat n) [] bs) (\<lambda>m bs. (Inr (VMap m), bs)))
      else if prefix = of_char CHR ''*'' then
        sbind (bench_int ends bs) (\<lambda>n bs.
          sbind (parse_values tx ends stack (nat n) bs) (\<lambda>vs bs. (Inr (VList vs), bs)))
      else (Inl (MiniRedisError (lit ''unsupported RESP prefix: '' @ repr_byte tx prefix)), bs))"
| "parse_entries tx ends stack 0 m bs = (Inr m, bs)"
| "parse_entries tx ends stack (Suc n) m bs =
     sbind (parse_resp tx ends stack bs) (\<lambda>key bs.
     sbind (parse_resp tx ends stack bs) (\<lambda>v bs.
       parse_entries tx ends stack n (AList.update (key_str (repr_value tx) key) v m) bs))"
| "parse_values tx ends stack 0 bs = (Inr [], bs)"
| "parse_values tx ends stack (Suc n) bs =
     sbind (parse_resp tx ends stack bs) (\<lambda>v bs.
     sbind (parse_values tx ends stack n bs) (\<lambda>vs bs. (Inr (v # vs), bs)))"
  by pat_completeness auto
termination
  by (relation "measures
        [\<lambda>x. case x of Inl (_, _, st, _) \<Rightarrow> st | Inr (Inl (_, _, st, _)) \<Rightarrow> st | Inr (Inr (_, _, st, _)) \<Rightarrow> st,
         \<lambda>x. case x of Inl _ \<Rightarrow> 0 | Inr _ \<Rightarrow> 1,
         \<lambda>x. case x of Inr (Inl (_, _, _, n, _)) \<Rightarrow> n | Inr (Inr (_, _, _, n, _)) \<Rightarrow> n | _ \<Rightarrow> 0]") auto

section \<open>Sending a command\<close>

text \<open>
  \<open>dial\<close> is \<open>create_connection\<close>; \<open>transmit\<close> is \<open>sendall\<close>: afterwards the connection delivers what it
  had not delivered before, and the answer.
\<close>

record ('p, 'w) wire =
  dial :: "'w \<Rightarrow> (py_exc + 'p connection) \<times> 'w"
  transmit :: "bytes \<Rightarrow> 'p connection \<Rightarrow> 'w \<Rightarrow> (py_exc + unit) \<times> 'p connection \<times> 'w"

type_synonym ('p, 'w) client_state = "'p connection option \<times> 'w"

definition str_exc :: "py_texts \<Rightarrow> py_exc \<Rightarrow> pystr" where
  "str_exc tx e = (case e of MiniRedisError m \<Rightarrow> m | _ \<Rightarrow> str_error tx e)"

definition contains :: "pystr \<Rightarrow> pystr \<Rightarrow> bool" where
  "contains fragment t = list_ex (\<lambda>i. take (length fragment) (drop i t) = fragment) [0..<length t + 1]"

definition is_retryable_connection_error :: "py_texts \<Rightarrow> py_exc \<Rightarrow> bool" where
  "is_retryable_connection_error tx e =
     (let message = py_lower (str_exc tx e)
      in list_ex (\<lambda>fragment. contains (lit fragment) message)
           [''empty response'', ''connection closed'', ''broken pipe'', ''reset by peer''])"

text \<open>The exceptions \<open>_send_command\<close> catches: \<open>OSError\<close> (with \<open>ConnectionError\<close>) and \<open>MiniRedisError\<close>.\<close>

fun is_send_error :: "py_exc \<Rightarrow> bool" where
  "is_send_error OSError = True"
| "is_send_error ConnectionError = True"
| "is_send_error (MiniRedisError _) = True"
| "is_send_error _ = False"

definition get_socket ::
  "py_texts \<Rightarrow> ('p, 'w) wire \<Rightarrow> ('p, 'w) client_state \<Rightarrow> (py_exc + 'p connection) \<times> ('p, 'w) client_state" where
  "get_socket tx net st =
     (case st of
        (Some c, w) \<Rightarrow> (Inr c, st)
      | (None, w) \<Rightarrow>
          (case dial net w of
             (Inl e, w1) \<Rightarrow> (Inl (MiniRedisError (str_exc tx e)), (None, w1))
           | (Inr c, w1) \<Rightarrow> (Inr c, (Some c, w1))))"

text \<open>One attempt: the body of the \<open>try\<close>.\<close>

definition attempt ::
  "py_texts \<Rightarrow> ('p, 'w) wire \<Rightarrow> nat \<Rightarrow> frame_item list \<Rightarrow> ('p, 'w) client_state
    \<Rightarrow> (py_exc + cli_value) \<times> ('p, 'w) client_state" where
  "attempt tx net stack parts st =
     sbind (get_socket tx net st) (\<lambda>c (_, w).
       case transmit net (encode_command parts) c w of
         (Inl e, c1, w1) \<Rightarrow> (Inl e, (Some c1, w1))
       | (Inr _, c1, w1) \<Rightarrow>
           (case parse_resp tx (ending c1) stack (unread c1) of (res, bs) \<Rightarrow>
              (res, (Some (c1\<lparr>unread := bs\<rparr>), w1))))"

definition send_command ::
  "py_texts \<Rightarrow> ('p, 'w) wire \<Rightarrow> nat \<Rightarrow> frame_item list \<Rightarrow> ('p, 'w) client_state
    \<Rightarrow> (py_exc + cli_value) \<times> ('p, 'w) client_state" where
  "send_command tx net stack parts st =
     (case attempt tx net stack parts st of
        (Inr v, st1) \<Rightarrow> (Inr v, st1)
      | (Inl e, (sock, w)) \<Rightarrow>
          if \<not> is_send_error e then (Inl e, (sock, w))
          else if is_retryable_connection_error tx e then
            (case attempt tx net stack parts (None, w) of
               (Inr v, st2) \<Rightarrow> (Inr v, st2)
             | (Inl e2, (sock2, w2)) \<Rightarrow>
                 if \<not> is_send_error e2 then (Inl e2, (sock2, w2))
                 else (Inl (MiniRedisError (str_exc tx e2)), (None, w2)))
          else (Inl (MiniRedisError (str_exc tx e)), (None, w)))"

section \<open>The operations\<close>

fun type_name :: "cli_value \<Rightarrow> pystr" where
  "type_name (VText _) = lit ''str''"
| "type_name (VInt _) = lit ''int''"
| "type_name VNone = lit ''NoneType''"
| "type_name (VMap _) = lit ''dict''"
| "type_name (VList _) = lit ''list''"

definition unexpected :: "string \<Rightarrow> cli_value \<Rightarrow> py_exc" where
  "unexpected nm v = MiniRedisError (lit ''unexpected '' @ lit nm @ lit '' response type: '' @ type_name v)"

definition int_response :: "string \<Rightarrow> cli_value \<Rightarrow> py_exc + int" where
  "int_response nm v = (case v of VInt n \<Rightarrow> Inr n | _ \<Rightarrow> Inl (unexpected nm v))"

type_synonym ('a, 'p, 'w) client_op =
  "py_texts \<Rightarrow> ('p, 'w) wire \<Rightarrow> nat \<Rightarrow> ('p, 'w) client_state \<Rightarrow> (py_exc + 'a) \<times> ('p, 'w) client_state"

definition health_check :: "(bool, 'p, 'w) client_op" where
  "health_check tx net stack st =
     sbind (send_command tx net stack [Text (lit ''HELLO''), Num 3] st) (\<lambda>r st.
       (Inr (case r of VMap m \<Rightarrow> map_of m (lit ''server'') = Some (VText (lit ''mini-redis'')) | _ \<Rightarrow> False), st))"

definition bench_get :: "pystr \<Rightarrow> (pystr option, 'p, 'w) client_op" where
  "bench_get key tx net stack st =
     sbind (send_command tx net stack [Text (lit ''GET''), Text key] st) (\<lambda>r st.
       (case r of VNone \<Rightarrow> Inr None | VText t \<Rightarrow> Inr (Some t) | _ \<Rightarrow> Inl (unexpected ''GET'' r), st))"

definition bench_set :: "pystr \<Rightarrow> pystr \<Rightarrow> (bool, 'p, 'w) client_op" where
  "bench_set key v tx net stack st =
     sbind (send_command tx net stack [Text (lit ''SET''), Text key, Text v] st) (\<lambda>r st.
       (Inr (r = VText (lit ''OK'')), st))"

definition bench_delete :: "pystr \<Rightarrow> (int, 'p, 'w) client_op" where
  "bench_delete key tx net stack st =
     sbind (send_command tx net stack [Text (lit ''DEL''), Text key] st) (\<lambda>r st. (int_response ''DEL'' r, st))"

definition bench_expire :: "pystr \<Rightarrow> int \<Rightarrow> (int, 'p, 'w) client_op" where
  "bench_expire key seconds tx net stack st =
     sbind (send_command tx net stack [Text (lit ''EXPIRE''), Text key, Num seconds] st) (\<lambda>r st.
       (int_response ''EXPIRE'' r, st))"

definition bench_ttl :: "pystr \<Rightarrow> (int, 'p, 'w) client_op" where
  "bench_ttl key tx net stack st =
     sbind (send_command tx net stack [Text (lit ''TTL''), Text key] st) (\<lambda>r st. (int_response ''TTL'' r, st))"

definition bench_close :: "('p, 'w) client_state \<Rightarrow> ('p, 'w) client_state" where
  "bench_close st = (None, snd st)"

section \<open>Frames and replies\<close>

lemma encode_command_eq: "encode_command parts = encode_array (map (Text \<circ> part_text) parts)"
  by (simp add: encode_command_def encode_array_eq encode_blob_string_def Let_def comp_def encode_ascii)

lemma readline_at:
  assumes "10 \<notin> set line" "10 \<notin> set done"
  shows "bench_readline ends done (line @ crlf @ rest) = (Inr (done @ line), rest)"
  using assms
proof (induction line arbitrary: "done")
  case Nil
  then have "\<not> ends_with crlf (done @ [13])" by (auto simp: ends_with_def crlf_def)
  then show ?case using Nil by (simp add: crlf_def ends_with_def Let_def)
next
  case (Cons b line)
  then have "\<not> ends_with crlf (done @ [b])" by (auto simp: ends_with_def crlf_def)
  then show ?case using Cons by (simp add: Let_def)
qed

lemma bench_text_at:
  assumes "list_all scalar t" "10 \<notin> set t"
  shows "bench_text ends (encode_utf8 t @ crlf @ rest) = (Inr t, rest)"
proof -
  have "10 \<notin> set (encode_utf8 t)" using assms(2) utf8_no_newline by blast
  then show ?thesis using readline_at[of "encode_utf8 t" "[]"] assms(1) by (simp add: bench_text_def decode_encode_utf8)
qed

lemma bench_int_at [simp]:
  "bench_int ends (show_int n @ crlf @ rest) = (Inr n, rest)"
  "bench_int ends (show_nat k @ crlf @ rest) = (Inr (int k), rest)"
proof -
  have "list_all scalar (show_int n)" "list_all scalar (show_nat k)" by (simp_all add: ascii_scalar)
  then show "bench_int ends (show_int n @ crlf @ rest) = (Inr n, rest)"
    "bench_int ends (show_nat k @ crlf @ rest) = (Inr (int k), rest)"
    using bench_text_at[of "show_int n" ends rest] bench_text_at[of "show_nat k" ends rest] by (simp_all add: bench_int_def)
qed

text \<open>The replies the client can parse: readable ones without an error inside.\<close>

fun error_free :: "resp \<Rightarrow> bool" where
  "error_free (RespArray items) = list_all error_free items"
| "error_free (RespMap entries) = list_all (\<lambda>(k, v). error_free v) entries"
| "error_free (RespSimpleError m) = False"
| "error_free _ = True"

lemma parse_values_at:
  assumes "\<And>x rest. x \<in> set xs \<Longrightarrow> parse_resp tx ends st (enc x @ rest) = (Inr (val x), rest)"
  shows "parse_values tx ends st (length xs) (concat (map enc xs) @ rest) = (Inr (map val xs), rest)"
  using assms by (induction xs) auto

lemma parse_entries_at:
  assumes "\<And>k v rest. (k, v) \<in> set es \<Longrightarrow>
      (\<exists>kv. parse_resp tx ends st (enc k @ rest) = (Inr kv, rest) \<and> key_str (repr_value tx) kv = text_of k) \<and>
      parse_resp tx ends st (enc v @ rest) = (Inr (val v), rest)"
  shows "parse_entries tx ends st (length es) m (concat (map (\<lambda>(k, v). enc k @ enc v) es) @ rest) =
    (Inr (fold (\<lambda>(k, v). AList.update (text_of k) (val v)) es m), rest)"
  using assms
proof (induction es arbitrary: m)
  case (Cons e es)
  obtain k v where e: "e = (k, v)" by (cases e)
  let ?more = "concat (map (\<lambda>(k, v). enc k @ enc v) es) @ rest"
  obtain kv where "parse_resp tx ends st (enc k @ enc v @ ?more) = (Inr kv, enc v @ ?more)"
    "key_str (repr_value tx) kv = text_of k"
    using Cons.prems[of k v "enc v @ ?more"] e by auto
  moreover have "parse_resp tx ends st (enc v @ ?more) = (Inr (val v), ?more)"
    using Cons.prems[of k v ?more] e by simp
  moreover have "parse_entries tx ends st (length es) (AList.update (text_of k) (val v) m) ?more =
      (Inr (fold (\<lambda>(k, v). AList.update (text_of k) (val v)) es (AList.update (text_of k) (val v) m)), rest)"
    by (rule Cons.IH) (rule Cons.prems, simp)
  ultimately show ?case using e by simp
qed simp

lemma parse_texts:
  assumes "is_text v" "stack = Suc st"
  shows "parse_resp tx ends stack (encode pv v @ rest) = (Inr (VText (text_of v)), rest)"
proof (cases v)
  case (RespSimpleString t)
  then show ?thesis
    using assms bench_text_at[of t ends rest] by (simp add: lit_def utf8_char_def encode_ascii crlf_def)
next
  case (RespBlobString t)
  have "bench_bulk ends (int (length (encode_utf8 t))) (encode_utf8 t @ crlf @ rest) = (Inr (VText t), rest)"
    using assms RespBlobString
    by (simp add: bench_bulk_def Let_def crlf_def nat_add_distrib decode_encode_utf8)
  then show ?thesis using assms RespBlobString by (simp add: lit_def Let_def)
qed (use assms in simp_all)

lemma error_free_flatten: "error_free (RespMap es) \<Longrightarrow> readable (RespMap es) \<Longrightarrow> error_free (RespArray (flatten_entries es))"
proof (induction es)
  case (Cons e es)
  have "is_text v \<Longrightarrow> error_free v" for v by (cases v) simp_all
  then show ?case using Cons by (cases e) (auto simp: flatten_entries_def)
qed (simp add: flatten_entries_def)

lemma parse_resp_encode:
  "readable v \<Longrightarrow> error_free v \<Longrightarrow> nesting v \<le> stack \<Longrightarrow>
   parse_resp tx ends stack (encode pv v @ rest) = (Inr (materialize_response_value (seen pv v)), rest)"
proof (induction pv v arbitrary: stack rest rule: encode.induct)
  case (3 pv n)
  then obtain st where "stack = Suc st" by (cases stack) auto
  then show ?case by (simp add: lit_def utf8_char_def encode_ascii)
next
  case (4 pv)
  then obtain st where "stack = Suc st" by (cases stack) auto
  moreover have "bench_readline ends [] (crlf @ rest) = (Inr [], rest)"
    using readline_at[of "[]" "[]" ends rest] by simp
  moreover have "bench_int ends (lit ''-1'' @ crlf @ rest) = (Inr (-1), rest)"
    using bench_int_at(1)[of ends "-1" rest] by (simp add: show_int_def show_nat.simps lit_def)
  ultimately show ?case by (simp add: lit_def)
next
  case (7 pv items)
  then obtain st where st: "stack = Suc st" by (cases stack) auto
  then have "\<And>x rest. x \<in> set items \<Longrightarrow>
      parse_resp tx ends st (encode pv x @ rest) = (Inr (materialize_response_value (seen pv x)), rest)"
    using 7 by (intro "7.IH") (auto simp: list_all_iff fold_max_le)
  then have "parse_values tx ends st (length items) (concat (map (encode pv) items) @ rest) =
      (Inr (map (\<lambda>x. materialize_response_value (seen pv x)) items), rest)"
    by (rule parse_values_at)
  then show ?case by (simp add: st lit_def)
next
  case (8 pv entries)
  then obtain st where st: "stack = Suc st" by (cases stack) auto
  show ?case
  proof (cases "pv = 2")
    case True
    then show ?thesis
      using "8.IH"(1)[OF True readable_flatten[OF "8.prems"(1)] error_free_flatten[OF "8.prems"(2,1)]]
        nesting_flatten[OF "8.prems"(1)] "8.prems"(3) by simp
  next
    case False
    have "parse_resp tx ends st (encode pv v @ rest) = (Inr (materialize_response_value (seen pv v)), rest)"
      if "(k, v) \<in> set entries" for k v rest
      using that False "8.prems" st by (intro "8.IH"(3)[OF False that refl]) (fastforce simp: list_all_iff fold_max_le)+
    moreover have "\<exists>kv. parse_resp tx ends st (encode pv k @ rest) = (Inr kv, rest) \<and>
        key_str (repr_value tx) kv = text_of k" if "(k, v) \<in> set entries" for k v rest
    proof -
      have "is_text k" "1 \<le> st" using that "8.prems" st by (fastforce simp: list_all_iff fold_max_le)+
      then show ?thesis using parse_texts[of k st "st - 1"] by auto
    qed
    ultimately have "parse_entries tx ends st (length entries) [] (concat (map (\<lambda>(k, v). encode pv k @ encode pv v) entries) @ rest) =
        (Inr (fold (\<lambda>(k, v). AList.update (text_of k) (materialize_response_value (seen pv v))) entries []), rest)"
      by (intro parse_entries_at) blast
    then show ?thesis using False by (simp add: st lit_def)
  qed
next
  case (1 pv v)
  then obtain st where "stack = Suc st" by (cases stack) auto
  then show ?case using parse_texts[of "RespSimpleString v" stack st] 1 by simp
next
  case (2 pv v)
  then obtain st where "stack = Suc st" by (cases stack) auto
  then show ?case using parse_texts[of "RespBlobString v" stack st] 2 by simp
qed simp_all

lemma parse_error_reply:
  assumes "readable (RespSimpleError m)" "stack = Suc st"
  shows "parse_resp tx ends stack (encode pv (RespSimpleError m) @ rest) = (Inl (MiniRedisError (lit ''ERR '' @ m)), rest)"
proof -
  have "bench_text ends (encode_utf8 (lit ''ERR '' @ m) @ crlf @ rest) = (Inr (lit ''ERR '' @ m), rest)"
    using assms by (intro bench_text_at) (auto simp: lit_def scalar_def)
  then show ?thesis using assms(2) by (simp add: lit_def utf8_char_def encode_ascii RESP_ERR_PREFIX_def)
qed

section \<open>Stale connections\<close>

text \<open>
  When the server has closed the connection, the command is repeated on a new one: the result is the
  one a client without a connection gets.
\<close>

lemma empty_response_retryable: "is_retryable_connection_error tx (MiniRedisError (lit ''empty response''))"
  unfolding is_retryable_connection_error_def str_exc_def by code_simp

lemma stale_connection:
  assumes "transmit net (encode_command parts) c w = (Inr (), c1, w)" "unread c1 = []" "ending c1 = None"
    and "0 < stack" "attempt tx net stack parts (None, w) = (Inr v, st)"
  shows "send_command tx net stack parts (Some c, w) = (Inr v, st)"
    "send_command tx net stack parts (None, w) = (Inr v, st)"
proof -
  obtain k where "stack = Suc k" using assms(4) by (cases stack) auto
  then have "attempt tx net stack parts (Some c, w) = (Inl (MiniRedisError (lit ''empty response'')), (Some c1, w))"
    using assms(1-3) by (simp add: attempt_def get_socket_def at_end_def)
  then show "send_command tx net stack parts (Some c, w) = (Inr v, st)"
    using assms(5) empty_response_retryable by (simp add: send_command_def)
  show "send_command tx net stack parts (None, w) = (Inr v, st)" using assms(5) by (simp add: send_command_def)
qed

section \<open>The client and the server\<close>

text \<open>
  The network of a server that answers: one session per connection, whose context stays with the
  connection; a session that has ended answers nothing more.
\<close>

definition session_wire :: "resource_limits \<Rightarrow> nat \<Rightarrow> pyfloat \<Rightarrow> (session_context option, service) wire" where
  "session_wire limits stack now =
     \<lparr>dial = (\<lambda>s. (Inr \<lparr>unread = [], ending = None, peer = Some session_context_init\<rparr>, s)),
      transmit = (\<lambda>frame c s.
        case peer c of
          None \<Rightarrow> (Inr (), c, s)
        | Some ctx \<Rightarrow>
            if \<not> is_request_size_allowed limits (int (length frame)) then (Inr (), c\<lparr>peer := None\<rparr>, s)
            else (case process_request stack now frame (ctx, s) of
                    (Inl e, (ctx1, s1)) \<Rightarrow> (Inr (), c\<lparr>peer := None\<rparr>, s1)
                  | (Inr response, (ctx1, s1)) \<Rightarrow>
                      (Inr (), c\<lparr>unread := unread c @ response, peer := Some ctx1\<rparr>, s1)))\<rparr>"

definition idle :: "session_context \<Rightarrow> session_context option connection" where
  "idle ctx = \<lparr>unread = [], ending = None, peer = Some ctx\<rparr>"

lemma session_command:
  assumes "ascii c" "list_all ascii args" "2 \<le> stack" "py_strip c \<noteq> []"
    and "C = \<lparr>name = py_upper (py_strip c), arguments = args\<rparr>" "validate C = Inr ()" "name C \<noteq> lit ''HELLO''"
    and "int (length (build_command_frame c args)) \<le> limit_request_size_bytes limits"
    and "execute now C s = (Inr v, s')" "apply_session_state C ctx = Inr ctx"
    and "readable v" "error_free v" "nesting v \<le> depth"
  shows "attempt tx (session_wire limits stack now) depth (Text c # map Text args) (Some (idle ctx), s) =
    (Inr (materialize_response_value (seen (protocol_version ctx) v)), (Some (idle ctx), s'))"
proof -
  have frame: "encode_command (Text c # map Text args) = build_command_frame c args"
    by (simp add: encode_command_eq build_command_frame_def part_text_def comp_def)
  have "process_request stack now (build_command_frame c args) (ctx, s) =
      (Inr (encode (protocol_version ctx) v), (ctx, s'))"
    by (simp add: process_request_def frame_command[OF assms(1-7)] assms(9,10))
  then have "transmit (session_wire limits stack now) (encode_command (Text c # map Text args)) (idle ctx) s =
      (Inr (), (idle ctx)\<lparr>unread := encode (protocol_version ctx) v\<rparr>, s')"
    using assms(8) by (simp add: session_wire_def idle_def frame is_request_size_allowed_def)
  then show ?thesis
    using parse_resp_encode[OF assms(11-13), of tx None "protocol_version ctx" "[]"]
    by (simp add: attempt_def get_socket_def idle_def)
qed

lemma dialled:
  "attempt tx (session_wire limits stack now) depth parts (None, s) =
   attempt tx (session_wire limits stack now) depth parts (Some (idle session_context_init), s)"
  by (simp add: attempt_def get_socket_def session_wire_def idle_def)

text \<open>
  A socket the client can go on with: connected to a session, not connected, or connected to a session
  that has ended.
\<close>

definition usable :: "session_context \<Rightarrow> session_context option connection option \<Rightarrow> bool" where
  "usable ctx sock \<longleftrightarrow> sock = Some (idle ctx) \<or>
     ctx = session_context_init \<and> (sock = None \<or> sock = Some \<lparr>unread = [], ending = None, peer = None\<rparr>)"

lemma send_usable:
  assumes "usable ctx sock" "0 < depth"
    and "attempt tx (session_wire limits stack now) depth parts (Some (idle ctx), s) = (Inr v, st)"
  shows "send_command tx (session_wire limits stack now) depth parts (sock, s) = (Inr v, st)"
proof -
  let ?closed = "\<lparr>unread = [], ending = None, peer = None\<rparr> :: session_context option connection"
  consider "sock = Some (idle ctx)" | "ctx = session_context_init" "sock = None" | "ctx = session_context_init" "sock = Some ?closed"
    using assms(1) by (auto simp: usable_def)
  then show ?thesis
  proof cases
    case 3
    have "transmit (session_wire limits stack now) (encode_command parts) ?closed s = (Inr (), ?closed, s)"
      by (simp add: session_wire_def)
    then show ?thesis using stale_connection(1)[of _ parts ?closed s ?closed] assms(2,3) 3 by (simp add: dialled)
  qed (use assms(3) dialled in \<open>simp_all add: send_command_def\<close>)
qed

lemma bench_set_reply:
  assumes "ascii k" "ascii v" "2 \<le> stack" "1 \<le> depth"
    and "int (length (build_command_frame (lit ''SET'') [k, v])) \<le> limit_request_size_bytes limits"
    and "usable ctx sock"
  shows "bench_set k v tx (session_wire limits stack now) depth (sock, s) =
    (Inr True, (Some (idle ctx), snd (execute now (cmd ''SET'' [k, v]) s)))"
proof -
  have ok: "execute now (cmd ''SET'' [k, v]) s =
      (Inr (RespSimpleString RESP_OK), snd (execute now (cmd ''SET'' [k, v]) s))"
    by (simp add: execute_simps run_set_eq)
  have names: "py_strip (lit ''SET'') = lit ''SET''" "py_upper (lit ''SET'') = lit ''SET''" by code_simp+
  have "apply_session_state (cmd ''SET'' [k, v]) ctx = Inr ctx" by (simp add: apply_session_state_def lit_def)
  moreover have "readable (RespSimpleString RESP_OK)" by (simp add: RESP_OK_def lit_def scalar_def)
  moreover have "ascii (lit ''SET'')" "lit ''SET'' \<noteq> []" "lit ''SET'' \<noteq> lit ''HELLO''" by (simp_all add: lit_def)
  ultimately have "attempt tx (session_wire limits stack now) depth [Text (lit ''SET''), Text k, Text v] (Some (idle ctx), s) =
      (Inr (VText RESP_OK), (Some (idle ctx), snd (execute now (cmd ''SET'' [k, v]) s)))"
    using session_command[where c = "lit ''SET''" and args = "[k, v]" and C = "cmd ''SET'' [k, v]",
        OF _ _ assms(3) _ _ _ _ assms(5) ok] assms(1,2,4)
    by (simp add: names client_names)
  from send_usable[OF assms(6) _ this] show ?thesis using assms(4) by (simp add: bench_set_def RESP_OK_def)
qed

lemma bench_get_reply:
  assumes "ascii k" "list_all scalar v" "2 \<le> stack" "1 \<le> depth"
    and "int (length (build_command_frame (lit ''GET'') [k])) \<le> limit_request_size_bytes limits"
    and "fst (execute now (cmd ''GET'' [k]) s) = Inr (RespBlobString v)"
    and "usable ctx sock"
  shows "bench_get k tx (session_wire limits stack now) depth (sock, s) =
    (Inr (Some v), (Some (idle ctx), snd (execute now (cmd ''GET'' [k]) s)))"
proof -
  have get: "execute now (cmd ''GET'' [k]) s = (Inr (RespBlobString v), snd (execute now (cmd ''GET'' [k]) s))"
    using assms(6) by (simp add: prod_eq_iff)
  have names: "py_strip (lit ''GET'') = lit ''GET''" "py_upper (lit ''GET'') = lit ''GET''" by code_simp+
  have "apply_session_state (cmd ''GET'' [k]) ctx = Inr ctx" by (simp add: apply_session_state_def lit_def)
  moreover have "ascii (lit ''GET'')" "lit ''GET'' \<noteq> []" "lit ''GET'' \<noteq> lit ''HELLO''" by (simp_all add: lit_def)
  ultimately have "attempt tx (session_wire limits stack now) depth [Text (lit ''GET''), Text k] (Some (idle ctx), s) =
      (Inr (VText v), (Some (idle ctx), snd (execute now (cmd ''GET'' [k]) s)))"
    using session_command[where c = "lit ''GET''" and args = "[k]" and C = "cmd ''GET'' [k]",
        OF _ _ assms(3) _ _ _ _ assms(5) get] assms(1,2,4)
    by (simp add: names client_names)
  from send_usable[OF assms(7) _ this] show ?thesis using assms(4) by (simp add: bench_get_def)
qed

end
