(* ===== verification/Benchmark.thy ===== *)
theory Benchmark
  imports PyFloat
begin

text \<open>
  The benchmark (\<open>app/benchmark/runner.py\<close>, \<open>models.py\<close>): it measures requests to a database, requests
  to a cache in front of it at several hit rates, and requests to the cache alone, records every step as
  an event, and summarises the measurements.

  The clients, the clock and the cancel flag are the environment: functions on a world of their own,
  which may raise. The store of a run is the list of its events, of its log entries and of the records
  written. Not kept: the wall-clock times of log entries and records, and the commit identifiers.
\<close>

section \<open>Numbers\<close>

definition zero_float :: "pyfloat \<Rightarrow> bool" where
  "zero_float x \<longleftrightarrow> x = Finite 0 \<or> x = NegZero"

fun negative :: "pyfloat \<Rightarrow> bool" where
  "negative (Finite x) = (x < 0)"
| "negative NegZero = True"
| "negative NegInf = True"
| "negative _ = False"

definition signed :: "bool \<Rightarrow> pyfloat \<Rightarrow> pyfloat" where
  "signed neg x = (if neg then fneg x else x)"

definition fmul :: "pyfloat \<Rightarrow> pyfloat \<Rightarrow> pyfloat" where
  "fmul x y =
     (let neg = (negative x \<noteq> negative y)
      in if x = NaN \<or> y = NaN then NaN
         else if x \<in> {PosInf, NegInf} \<or> y \<in> {PosInf, NegInf}
           then (if zero_float x \<or> zero_float y then NaN else signed neg PosInf)
         else if fval x * fval y = 0 then signed neg (Finite 0)
         else round64 (fval x * fval y))"

text \<open>Division by a float that is not zero (the code tests the divisor first).\<close>

definition fdiv :: "pyfloat \<Rightarrow> pyfloat \<Rightarrow> pyfloat" where
  "fdiv x y =
     (let neg = (negative x \<noteq> negative y)
      in if x = NaN \<or> y = NaN then NaN
         else if x \<in> {PosInf, NegInf} then (if y \<in> {PosInf, NegInf} then NaN else signed neg PosInf)
         else if y \<in> {PosInf, NegInf} \<or> zero_float x then signed neg (Finite 0)
         else round64 (fval x / fval y))"

text \<open>\<open>round(x, 2)\<close>.\<close>

fun round2 :: "pyfloat \<Rightarrow> pyfloat" where
  "round2 (Finite x) =
     (case round64 (of_int (round_half_even (x * 100)) / 100) of
        Finite y \<Rightarrow> if y = 0 \<and> x < 0 then NegZero else Finite y
      | y \<Rightarrow> y)"
| "round2 x = x"

definition of_int_float :: "int \<Rightarrow> pyfloat" where
  "of_int_float n = round64 (of_int n)"

definition elapsed_ms :: "pyfloat \<Rightarrow> pyfloat \<Rightarrow> pyfloat" where
  "elapsed_ms started finished = round2 (fmul (fsub finished started) (Finite 1000))"

text \<open>
  \<open>statistics.fmean\<close>: the exact sum, rounded, divided by the number. The samples are differences of
  clock readings, so they are finite; a sum with another value is formed step by step here.
\<close>

definition fsum :: "pyfloat list \<Rightarrow> pyfloat" where
  "fsum xs =
     (if list_all (\<lambda>x. x \<notin> {PosInf, NegInf, NaN}) xs then round64 (sum_list (map fval xs))
      else foldl fadd (Finite 0) xs)"

definition fmean :: "pyfloat list \<Rightarrow> pyfloat" where
  "fmean xs = fdiv (fsum xs) (of_int_float (int (length xs)))"

text \<open>\<open>sorted\<close>: stable.\<close>

fun insert_float :: "pyfloat \<Rightarrow> pyfloat list \<Rightarrow> pyfloat list" where
  "insert_float x [] = [x]"
| "insert_float x (y # ys) = (if flt x y then x # y # ys else y # insert_float x ys)"

definition sort_floats :: "pyfloat list \<Rightarrow> pyfloat list" where
  "sort_floats xs = fold insert_float xs []"

definition percentile_index :: "nat \<Rightarrow> nat" where
  "percentile_index n = nat (max 0 (\<lfloor>fval (fmul (of_int_float (int n)) (round64 (95 / 100)))\<rfloor> - 1))"

definition percentile_95 :: "pyfloat list \<Rightarrow> pyfloat" where
  "percentile_95 samples =
     (if samples = [] then Finite 0 else sort_floats samples ! percentile_index (length samples))"

section \<open>Records\<close>

record run_config =
  scenario :: pystr
  iteration_count :: int
  concurrency :: int
  hit_rate_buckets :: "int list"
  config_ttl_seconds :: int
  include_reference :: bool

datatype meta = MetaText pystr | MetaInt int | MetaFloat pyfloat | MetaNone

record flow_event =
  event_id :: pystr
  event_request_id :: pystr
  event_timestamp :: pyfloat
  event_mode :: pystr
  event_type :: pystr
  event_stage :: pystr
  event_duration_ms :: pyfloat
  event_metadata :: "(pystr, meta) dict"

record log_entry =
  entry_level :: pystr
  entry_stage :: pystr
  entry_message :: pystr
  entry_metadata :: "(pystr, meta) dict"

record run_summary =
  db_avg_ms :: pyfloat
  redis_avg_ms :: pyfloat
  reference_avg_ms :: "pyfloat option"
  p95_db_ms :: pyfloat
  p95_redis_ms :: pyfloat
  p95_reference_ms :: "pyfloat option"
  speedup_ratio :: pyfloat
  improvement_percent :: pyfloat
  break_even_hit_rate :: "int option"
  cache_hit_rate :: pyfloat
  db_only_count :: nat
  redis_hit_count :: nat
  redis_miss_count :: nat
  fallback_count :: nat
  error_count :: nat

record run_record =
  run_status :: pystr
  run_configuration :: run_config
  run_finished :: bool
  run_summary_of :: "run_summary option"
  run_error_message :: "pystr option"

section \<open>The environment and the store\<close>

record 'w bench_env =
  env_clock :: "'w \<Rightarrow> pyfloat \<times> 'w"
  env_cancelled :: "'w \<Rightarrow> bool"
  env_health :: "'w \<Rightarrow> (py_exc + bool) \<times> 'w"
  env_get :: "pystr \<Rightarrow> 'w \<Rightarrow> (py_exc + pystr option) \<times> 'w"
  env_set :: "pystr \<Rightarrow> pystr \<Rightarrow> 'w \<Rightarrow> (py_exc + bool) \<times> 'w"
  env_delete :: "pystr \<Rightarrow> 'w \<Rightarrow> (py_exc + int) \<times> 'w"
  env_expire :: "pystr \<Rightarrow> int \<Rightarrow> 'w \<Rightarrow> (py_exc + int) \<times> 'w"
  env_baseline_health :: "('w \<Rightarrow> (py_exc + bool) \<times> 'w) option"
  env_fetch_detail :: "pystr \<Rightarrow> 'w \<Rightarrow> (py_exc + unit) \<times> 'w"
  env_str :: "py_exc \<Rightarrow> pystr"

record 'w bench =
  world :: 'w
  flow_events :: "flow_event list"
  log_entries :: "log_entry list"
  run_rec :: run_record
  run_writes :: "run_record list"

type_synonym ('a, 'w) bench_op = "'w bench \<Rightarrow> (py_exc + 'a) \<times> 'w bench"

definition on_world :: "('w \<Rightarrow> (py_exc + 'a) \<times> 'w) \<Rightarrow> ('a, 'w) bench_op" where
  "on_world f b = (case f (world b) of (r, w) \<Rightarrow> (r, b\<lparr>world := w\<rparr>))"

definition perf_counter :: "'w bench_env \<Rightarrow> (pyfloat, 'w) bench_op" where
  "perf_counter env b = (case env_clock env (world b) of (t, w) \<Rightarrow> (Inr t, b\<lparr>world := w\<rparr>))"

definition ensure_not_cancelled :: "'w bench_env \<Rightarrow> (unit, 'w) bench_op" where
  "ensure_not_cancelled env b = (if env_cancelled env (world b) then Inl BenchmarkCancelled else Inr (), b)"

definition append_event :: "flow_event \<Rightarrow> (unit, 'w) bench_op" where
  "append_event e b = (Inr (), b\<lparr>flow_events := flow_events b @ [e]\<rparr>)"

definition append_log :: "string \<Rightarrow> string \<Rightarrow> pystr \<Rightarrow> (pystr, meta) dict \<Rightarrow> 'w bench \<Rightarrow> 'w bench" where
  "append_log level stage message metadata b =
     b\<lparr>log_entries := log_entries b @
        [\<lparr>entry_level = lit level, entry_stage = lit stage, entry_message = message, entry_metadata = metadata\<rparr>]\<rparr>"

definition write_run :: "run_record \<Rightarrow> 'w bench \<Rightarrow> 'w bench" where
  "write_run r b = b\<lparr>run_rec := r, run_writes := run_writes b @ [r]\<rparr>"

definition set_status :: "string \<Rightarrow> 'w bench \<Rightarrow> 'w bench" where
  "set_status st b = write_run ((run_rec b)\<lparr>run_status := lit st\<rparr>) b"

text \<open>\<open>try: r except MiniRedisError as exc: handler(str(exc)) else: rest\<close>; other exceptions go on.\<close>

definition try_redis ::
  "(py_exc + 'a) \<times> 's \<Rightarrow> ('a \<Rightarrow> 's \<Rightarrow> (py_exc + 'b) \<times> 's) \<Rightarrow> (pystr \<Rightarrow> 's \<Rightarrow> (py_exc + 'b) \<times> 's) \<Rightarrow> (py_exc + 'b) \<times> 's" where
  "try_redis r rest handler =
     (case r of
        (Inr v, s) \<Rightarrow> rest v s
      | (Inl e, s) \<Rightarrow> (case e of MiniRedisError m \<Rightarrow> handler m s | _ \<Rightarrow> (Inl e, s)))"

text \<open>An event of a request; \<open>suffix\<close> is the end of its identifier.\<close>

definition flow :: "string \<Rightarrow> pystr \<Rightarrow> string \<Rightarrow> pyfloat \<Rightarrow> string \<Rightarrow> string \<Rightarrow> pyfloat \<Rightarrow> (string \<times> meta) list \<Rightarrow> (unit, 'w) bench_op" where
  "flow md rid suffix ts type stage duration metadata =
     append_event \<lparr>event_id = rid @ lit ''-'' @ lit suffix, event_request_id = rid, event_timestamp = ts,
       event_mode = lit md, event_type = lit type, event_stage = lit stage, event_duration_ms = duration,
       event_metadata = map (\<lambda>(k, v). (lit k, v)) metadata\<rparr>"

section \<open>The baseline phase\<close>

definition baseline_request :: "'w bench_env \<Rightarrow> nat \<Rightarrow> (pyfloat, 'w) bench_op" where
  "baseline_request env index b =
     (let record_id = show_nat index; rid = lit ''baseline-'' @ record_id; meta = [(''record_id'', MetaText record_id)]
      in sbind (ensure_not_cancelled env b) (\<lambda>_ b.
         sbind (perf_counter env b) (\<lambda>started b.
         sbind (flow ''db_only'' rid ''start'' (elapsed_ms started started) ''request_started'' ''request'' (Finite 0) meta b) (\<lambda>_ b.
         sbind (perf_counter env b) (\<lambda>db_started b.
         sbind (flow ''db_only'' rid ''db-start'' (elapsed_ms started db_started) ''db_query_started'' ''db_lookup'' (Finite 0) meta b) (\<lambda>_ b.
         sbind (on_world (env_fetch_detail env record_id) b) (\<lambda>_ b.
         sbind (perf_counter env b) (\<lambda>db_finished b.
         let total = elapsed_ms started db_finished in
         sbind (flow ''db_only'' rid ''db-finish'' total ''db_query_completed'' ''db_lookup'' (elapsed_ms db_started db_finished) meta b) (\<lambda>_ b.
         sbind (flow ''db_only'' rid ''response'' total ''response_sent'' ''response'' (Finite 0)
                  [(''total_duration_ms'', MetaFloat total)] b) (\<lambda>_ b.
           (Inr total, b)))))))))))"

fun baseline_loop :: "'w bench_env \<Rightarrow> nat list \<Rightarrow> pyfloat list \<Rightarrow> (pyfloat list, 'w) bench_op" where
  "baseline_loop env [] samples b = (Inr samples, b)"
| "baseline_loop env (index # rest) samples b =
     sbind (baseline_request env index b) (\<lambda>total b. baseline_loop env rest (samples @ [total]) b)"

definition run_baseline :: "'w bench_env \<Rightarrow> run_config \<Rightarrow> (pyfloat list, 'w) bench_op" where
  "run_baseline env cfg b =
     sbind (baseline_loop env [0..<nat (iteration_count cfg)] [] b) (\<lambda>samples b.
       (Inr samples, append_log ''INFO'' ''baseline_run'' (lit ''baseline benchmark completed'')
          [(lit ''sample_count'', MetaInt (int (length samples)))] b))"

fun warmup_loop :: "'w bench_env \<Rightarrow> nat list \<Rightarrow> (unit, 'w) bench_op" where
  "warmup_loop env [] b = (Inr (), b)"
| "warmup_loop env (index # rest) b =
     sbind (ensure_not_cancelled env b) (\<lambda>_ b.
     sbind (on_world (env_fetch_detail env (show_nat index)) b) (\<lambda>_ b. warmup_loop env rest b))"

definition warmup :: "'w bench_env \<Rightarrow> run_config \<Rightarrow> (unit, 'w) bench_op" where
  "warmup env cfg = warmup_loop env [0..<nat (min 3 (iteration_count cfg))]"

section \<open>The cache phase\<close>

record tally =
  samples_of :: "pyfloat list"
  cache_hits :: nat
  cache_total :: nat
  misses :: nat
  fallbacks :: nat
  errors :: nat
  bucket_samples :: "(int, pyfloat list) dict"

definition tally_init :: tally where
  "tally_init = \<lparr>samples_of = [], cache_hits = 0, cache_total = 0, misses = 0, fallbacks = 0, errors = 0, bucket_samples = []\<rparr>"

text \<open>\<open>samples.append(total)\<close> and \<open>bucket_samples.setdefault(bucket, []).append(total)\<close>.\<close>

definition add_sample :: "int \<Rightarrow> pyfloat \<Rightarrow> tally \<Rightarrow> tally" where
  "add_sample bucket duration a =
     a\<lparr>samples_of := samples_of a @ [duration],
       bucket_samples := AList.update bucket
         ((case map_of (bucket_samples a) bucket of None \<Rightarrow> [] | Some ts \<Rightarrow> ts) @ [duration]) (bucket_samples a)\<rparr>"

definition target_hit_count :: "int \<Rightarrow> int \<Rightarrow> int" where
  "target_hit_count iterations bucket =
     max 0 (min iterations (round_half_even (fval (round64 (of_int (iterations * bucket) / 100)))))"

definition cached_text :: "pystr \<Rightarrow> pystr" where
  "cached_text record_id = lit ''cached:'' @ record_id"

definition detail_key :: "pystr \<Rightarrow> pystr" where
  "detail_key record_id = lit ''benchmark:detail:'' @ record_id"

text \<open>The database query of a request in this phase, with its two events; the time it finished.\<close>

definition cache_db_query ::
  "'w bench_env \<Rightarrow> pystr \<Rightarrow> pystr \<Rightarrow> int \<Rightarrow> pyfloat \<Rightarrow> (pyfloat, 'w) bench_op" where
  "cache_db_query env rid record_id bucket started b =
     (let meta = [(''record_id'', MetaText record_id), (''bucket'', MetaInt bucket)]
      in sbind (perf_counter env b) (\<lambda>db_started b.
         sbind (flow ''cache_aside'' rid ''db-start'' (elapsed_ms started db_started) ''db_query_started'' ''db_lookup'' (Finite 0) meta b) (\<lambda>_ b.
         sbind (on_world (env_fetch_detail env record_id) b) (\<lambda>_ b.
         sbind (perf_counter env b) (\<lambda>db_finished b.
         sbind (flow ''cache_aside'' rid ''db-finish'' (elapsed_ms started db_finished) ''db_query_completed'' ''db_lookup''
                  (elapsed_ms db_started db_finished) meta b) (\<lambda>_ b.
           (Inr db_finished, b)))))))"

definition send_response ::
  "pystr \<Rightarrow> pyfloat \<Rightarrow> string \<Rightarrow> (unit, 'w) bench_op" where
  "send_response rid duration cache_status =
     flow ''cache_aside'' rid ''response'' duration ''response_sent'' ''response'' (Finite 0)
       [(''total_duration_ms'', MetaFloat duration), (''cache_status'', MetaText (lit cache_status))]"

text \<open>The lookup failed: the answer comes from the database.\<close>

definition cache_fallback ::
  "'w bench_env \<Rightarrow> pystr \<Rightarrow> pystr \<Rightarrow> int \<Rightarrow> pyfloat \<Rightarrow> pyfloat \<Rightarrow> pystr \<Rightarrow> tally \<Rightarrow> (tally, 'w) bench_op" where
  "cache_fallback env rid record_id bucket started lookup_started message a b =
     (let key = detail_key record_id; a1 = a\<lparr>errors := errors a + 1, fallbacks := fallbacks a + 1\<rparr>
      in sbind (perf_counter env b) (\<lambda>lookup_finished b.
         let ts = elapsed_ms started lookup_finished in
         sbind (flow ''cache_aside'' rid ''fallback'' ts ''fallback_used'' ''redis_lookup''
                  (elapsed_ms lookup_started lookup_finished)
                  [(''reason'', MetaText message), (''key'', MetaText key), (''bucket'', MetaInt bucket)] b) (\<lambda>_ b.
         sbind (flow ''cache_aside'' rid ''error'' ts ''error'' ''redis_lookup'' (Finite 0) [(''message'', MetaText message)] b) (\<lambda>_ b.
         sbind (cache_db_query env rid record_id bucket started b) (\<lambda>db_finished b.
         let total = elapsed_ms started db_finished in
         sbind (send_response rid total ''fallback'' b) (\<lambda>_ b.
           (Inr (add_sample bucket total a1), b)))))))"

definition cache_hit_branch ::
  "'w bench_env \<Rightarrow> pystr \<Rightarrow> pystr \<Rightarrow> int \<Rightarrow> pyfloat \<Rightarrow> pyfloat \<Rightarrow> pyfloat \<Rightarrow> tally \<Rightarrow> (tally, 'w) bench_op" where
  "cache_hit_branch env rid record_id bucket started lookup_started lookup_finished a b =
     (let key = detail_key record_id; a1 = a\<lparr>cache_hits := cache_hits a + 1\<rparr>
      in sbind (perf_counter env b) (\<lambda>finished b.
         let total = elapsed_ms started finished in
         sbind (flow ''cache_aside'' rid ''hit'' (elapsed_ms started lookup_finished) ''cache_hit'' ''redis_lookup''
                  (elapsed_ms lookup_started lookup_finished) [(''key'', MetaText key), (''bucket'', MetaInt bucket)] b) (\<lambda>_ b.
         sbind (send_response rid total ''hit'' b) (\<lambda>_ b.
           (Inr (add_sample bucket total a1), b)))))"

text \<open>
  Writing the value back after a miss. A \<open>MiniRedisError\<close> of either command is counted and recorded;
  the result is the new tally and the status of the request.
\<close>

definition cache_writeback ::
  "'w bench_env \<Rightarrow> run_config \<Rightarrow> pystr \<Rightarrow> pystr \<Rightarrow> int \<Rightarrow> pyfloat \<Rightarrow> tally \<Rightarrow> (tally \<times> string, 'w) bench_op" where
  "cache_writeback env cfg rid record_id bucket started a b =
     (let key = detail_key record_id
      in sbind (perf_counter env b) (\<lambda>writeback_started b.
         try_redis
           (sbind (on_world (env_set env key (cached_text record_id)) b) (\<lambda>_ b.
              on_world (env_expire env key (config_ttl_seconds cfg)) b))
           (\<lambda>_ b.
             sbind (perf_counter env b) (\<lambda>writeback_finished b.
             sbind (flow ''cache_aside'' rid ''cache-set'' (elapsed_ms started writeback_finished) ''cache_set'' ''writeback''
                      (elapsed_ms writeback_started writeback_finished)
                      [(''key'', MetaText key), (''ttl_seconds'', MetaInt (config_ttl_seconds cfg))] b) (\<lambda>_ b.
               (Inr (a, ''miss''), b))))
           (\<lambda>m b.
             sbind (perf_counter env b) (\<lambda>writeback_finished b.
             let ts = elapsed_ms started writeback_finished in
             sbind (flow ''cache_aside'' rid ''writeback-fallback'' ts ''fallback_used'' ''writeback''
                      (elapsed_ms writeback_started writeback_finished)
                      [(''reason'', MetaText m), (''key'', MetaText key), (''bucket'', MetaInt bucket)] b) (\<lambda>_ b.
             sbind (flow ''cache_aside'' rid ''writeback-error'' ts ''error'' ''writeback'' (Finite 0) [(''message'', MetaText m)] b) (\<lambda>_ b.
               (Inr (a\<lparr>errors := errors a + 1, fallbacks := fallbacks a + 1\<rparr>, ''miss_writeback_failed''), b)))))))"

definition cache_miss_branch ::
  "'w bench_env \<Rightarrow> run_config \<Rightarrow> pystr \<Rightarrow> pystr \<Rightarrow> int \<Rightarrow> pyfloat \<Rightarrow> pyfloat \<Rightarrow> pyfloat \<Rightarrow> tally \<Rightarrow> (tally, 'w) bench_op" where
  "cache_miss_branch env cfg rid record_id bucket started lookup_started lookup_finished a b =
     (let key = detail_key record_id; a1 = a\<lparr>misses := misses a + 1\<rparr>
      in sbind (flow ''cache_aside'' rid ''miss'' (elapsed_ms started lookup_finished) ''cache_miss'' ''redis_lookup''
                  (elapsed_ms lookup_started lookup_finished) [(''key'', MetaText key), (''bucket'', MetaInt bucket)] b) (\<lambda>_ b.
         sbind (cache_db_query env rid record_id bucket started b) (\<lambda>_ b.
         sbind (cache_writeback env cfg rid record_id bucket started a1 b) (\<lambda>(a2, cache_status) b.
         sbind (perf_counter env b) (\<lambda>finished b.
         let total = elapsed_ms started finished in
         sbind (send_response rid total cache_status b) (\<lambda>_ b.
           (Inr (add_sample bucket total a2), b)))))))"

text \<open>The preparation of a request: the key is stored or deleted, depending on the wanted hit rate.\<close>

definition cache_prepare ::
  "'w bench_env \<Rightarrow> run_config \<Rightarrow> pystr \<Rightarrow> bool \<Rightarrow> (unit, 'w) bench_op" where
  "cache_prepare env cfg record_id should_hit b =
     (let key = detail_key record_id
      in if should_hit then
           sbind (on_world (env_set env key (cached_text record_id)) b) (\<lambda>_ b.
           sbind (on_world (env_expire env key (config_ttl_seconds cfg)) b) (\<lambda>_ b. (Inr (), b)))
         else sbind (on_world (env_delete env key) b) (\<lambda>_ b. (Inr (), b)))"

definition cache_record_id :: "int \<Rightarrow> nat \<Rightarrow> pystr" where
  "cache_record_id bucket index = show_int bucket @ lit ''-'' @ show_nat index"

definition cache_request ::
  "'w bench_env \<Rightarrow> run_config \<Rightarrow> int \<Rightarrow> nat \<Rightarrow> tally \<Rightarrow> (tally, 'w) bench_op" where
  "cache_request env cfg bucket index a b =
     (let record_id = cache_record_id bucket index; key = detail_key record_id; rid = lit ''cache-'' @ record_id;
          should_hit = (int index < target_hit_count (iteration_count cfg) bucket);
          a1 = a\<lparr>cache_total := cache_total a + 1\<rparr>
      in sbind (ensure_not_cancelled env b) (\<lambda>_ b.
         sbind (cache_prepare env cfg record_id should_hit b) (\<lambda>_ b.
         sbind (perf_counter env b) (\<lambda>started b.
         sbind (flow ''cache_aside'' rid ''start'' (Finite 0) ''request_started'' ''request'' (Finite 0)
                  [(''record_id'', MetaText record_id), (''bucket'', MetaInt bucket)] b) (\<lambda>_ b.
         sbind (perf_counter env b) (\<lambda>lookup_started b.
         sbind (flow ''cache_aside'' rid ''lookup-start'' (elapsed_ms started lookup_started) ''cache_lookup_started'' ''redis_lookup''
                  (Finite 0) [(''key'', MetaText key), (''bucket'', MetaInt bucket)] b) (\<lambda>_ b.
           try_redis (on_world (env_get env key) b)
             (\<lambda>cached_value b.
               sbind (perf_counter env b) (\<lambda>lookup_finished b.
               sbind (flow ''cache_aside'' rid ''lookup-finish'' (elapsed_ms started lookup_finished) ''cache_lookup_completed''
                        ''redis_lookup'' (elapsed_ms lookup_started lookup_finished)
                        [(''key'', MetaText key), (''bucket'', MetaInt bucket)] b) (\<lambda>_ b.
                 if cached_value \<noteq> None
                 then cache_hit_branch env rid record_id bucket started lookup_started lookup_finished a1 b
                 else cache_miss_branch env cfg rid record_id bucket started lookup_started lookup_finished a1 b)))
             (\<lambda>m b. cache_fallback env rid record_id bucket started lookup_started m a1 b))))))))"

fun cache_loop ::
  "'w bench_env \<Rightarrow> run_config \<Rightarrow> (int \<times> nat) list \<Rightarrow> tally \<Rightarrow> (tally, 'w) bench_op" where
  "cache_loop env cfg [] a b = (Inr a, b)"
| "cache_loop env cfg ((bucket, index) # rest) a b =
     sbind (cache_request env cfg bucket index a b) (\<lambda>a b. cache_loop env cfg rest a b)"

text \<open>The requests of the phase in their order: for each bucket, each index.\<close>

definition cache_plan :: "run_config \<Rightarrow> (int \<times> nat) list" where
  "cache_plan cfg =
     (let buckets = (if hit_rate_buckets cfg = [] then [50] else hit_rate_buckets cfg)
      in concat (map (\<lambda>bucket. map (Pair bucket) [0..<nat (iteration_count cfg)]) buckets))"

definition run_cache :: "'w bench_env \<Rightarrow> run_config \<Rightarrow> (tally \<times> (int, pyfloat) dict, 'w) bench_op" where
  "run_cache env cfg b =
     sbind (cache_loop env cfg (cache_plan cfg) tally_init b) (\<lambda>a b.
       (Inr (a, map (\<lambda>(bucket, ts). (bucket, round2 (fmean ts))) (filter (\<lambda>(_, ts). ts \<noteq> []) (bucket_samples a))),
        append_log ''INFO'' ''cache_run'' (lit ''cache benchmark completed'')
          [(lit ''sample_count'', MetaInt (int (length (samples_of a)))), (lit ''cache_hits'', MetaInt (int (cache_hits a))),
           (lit ''cache_total'', MetaInt (int (cache_total a))), (lit ''redis_miss_count'', MetaInt (int (misses a))),
           (lit ''fallback_count'', MetaInt (int (fallbacks a))), (lit ''error_count'', MetaInt (int (errors a)))] b))"

section \<open>The reference phase\<close>

definition reference_request :: "'w bench_env \<Rightarrow> run_config \<Rightarrow> nat \<Rightarrow> (pyfloat, 'w) bench_op" where
  "reference_request env cfg index b =
     (let rid = lit ''reference-'' @ show_nat index; key = detail_key rid
      in sbind (ensure_not_cancelled env b) (\<lambda>_ b.
         sbind (on_world (env_set env key (cached_text rid)) b) (\<lambda>_ b.
         sbind (on_world (env_expire env key (config_ttl_seconds cfg)) b) (\<lambda>_ b.
         sbind (perf_counter env b) (\<lambda>started b.
         sbind (flow ''redis_only_reference'' rid ''start'' (Finite 0) ''request_started'' ''request'' (Finite 0)
                  [(''record_id'', MetaText rid)] b) (\<lambda>_ b.
         sbind (perf_counter env b) (\<lambda>lookup_started b.
         sbind (on_world (env_get env key) b) (\<lambda>_ b.
         sbind (perf_counter env b) (\<lambda>lookup_finished b.
         sbind (flow ''redis_only_reference'' rid ''hit'' (elapsed_ms started lookup_finished) ''cache_hit'' ''redis_lookup''
                  (elapsed_ms lookup_started lookup_finished) [(''key'', MetaText key)] b) (\<lambda>_ b.
         sbind (perf_counter env b) (\<lambda>finished b.
         let total = elapsed_ms started finished in
         sbind (flow ''redis_only_reference'' rid ''response'' total ''response_sent'' ''response'' (Finite 0)
                  [(''total_duration_ms'', MetaFloat total), (''cache_status'', MetaText (lit ''reference_hit''))] b) (\<lambda>_ b.
           (Inr total, b)))))))))))))"

fun reference_loop :: "'w bench_env \<Rightarrow> run_config \<Rightarrow> nat list \<Rightarrow> pyfloat list \<Rightarrow> (pyfloat list, 'w) bench_op" where
  "reference_loop env cfg [] samples b = (Inr samples, b)"
| "reference_loop env cfg (index # rest) samples b =
     sbind (reference_request env cfg index b) (\<lambda>total b. reference_loop env cfg rest (samples @ [total]) b)"

definition run_reference :: "'w bench_env \<Rightarrow> run_config \<Rightarrow> (pyfloat list, 'w) bench_op" where
  "run_reference env cfg b =
     sbind (reference_loop env cfg [0..<nat (iteration_count cfg)] [] b) (\<lambda>samples b.
       (Inr samples, append_log ''INFO'' ''reference_run'' (lit ''reference benchmark completed'')
          [(lit ''sample_count'', MetaInt (int (length samples)))] b))"

section \<open>The summary\<close>

definition break_even :: "int list \<Rightarrow> (int, pyfloat) dict \<Rightarrow> pyfloat \<Rightarrow> int option" where
  "break_even buckets bucket_averages db_avg =
     List.find (\<lambda>bucket. case map_of bucket_averages bucket of None \<Rightarrow> False | Some avg \<Rightarrow> fle avg db_avg) (sort buckets)"

definition mean_or_zero :: "pyfloat list \<Rightarrow> pyfloat" where
  "mean_or_zero xs = (if xs = [] then Finite 0 else fmean xs)"

definition benchmark_summary ::
  "pyfloat list \<Rightarrow> tally \<Rightarrow> (int, pyfloat) dict \<Rightarrow> pyfloat list \<Rightarrow> int list \<Rightarrow> run_summary" where
  "benchmark_summary baseline_samples a bucket_averages reference_samples buckets =
     (let db_avg = mean_or_zero baseline_samples; redis_avg = mean_or_zero (samples_of a)
      in \<lparr>db_avg_ms = round2 db_avg, redis_avg_ms = round2 redis_avg,
          reference_avg_ms = (if reference_samples = [] then None else Some (round2 (fmean reference_samples))),
          p95_db_ms = round2 (percentile_95 baseline_samples), p95_redis_ms = round2 (percentile_95 (samples_of a)),
          p95_reference_ms = (if reference_samples = [] then None else Some (round2 (percentile_95 reference_samples))),
          speedup_ratio = (if zero_float redis_avg then Finite 0 else round2 (fdiv db_avg redis_avg)),
          improvement_percent =
            (if zero_float db_avg then Finite 0
             else round2 (fmul (fsub (Finite 1) (fdiv redis_avg db_avg)) (Finite 100))),
          break_even_hit_rate = break_even buckets bucket_averages db_avg,
          cache_hit_rate =
            (if cache_total a = 0 then Finite 0
             else round2 (fmul (round64 (of_nat (cache_hits a) / of_nat (cache_total a))) (Finite 100))),
          db_only_count = length baseline_samples, redis_hit_count = cache_hits a, redis_miss_count = misses a,
          fallback_count = fallbacks a, error_count = errors a\<rparr>)"

section \<open>A run\<close>

text \<open>The body of the \<open>try\<close>: the phases in their order.\<close>

definition bootstrap :: "'w bench_env \<Rightarrow> (unit, 'w) bench_op" where
  "bootstrap env b =
     sbind (ensure_not_cancelled env b) (\<lambda>_ b.
     sbind (on_world (env_health env) b) (\<lambda>ok b.
       if \<not> ok then (Inl (MiniRedisError (lit ''mini-redis health check failed'')), b)
       else let b = append_log ''INFO'' ''bootstrap'' (lit ''mini-redis health check passed'') [] b in
         case env_baseline_health env of
           None \<Rightarrow> (Inr (), b)
         | Some check \<Rightarrow>
             sbind (ensure_not_cancelled env b) (\<lambda>_ b.
             sbind (on_world check b) (\<lambda>ok b.
               if \<not> ok then (Inl (RuntimeError (lit ''baseline database health check failed'')), b)
               else (Inr (), append_log ''INFO'' ''bootstrap'' (lit ''baseline database health check passed'') [] b)))))"

definition warmup_phase :: "'w bench_env \<Rightarrow> run_config \<Rightarrow> (unit, 'w) bench_op" where
  "warmup_phase env cfg b =
     (let count = [(lit ''warmup_count'', MetaInt (min 3 (iteration_count cfg)))];
          b = append_log ''INFO'' ''warmup'' (lit ''warmup started'') count (set_status ''warming_up'' b)
      in sbind (warmup env cfg b) (\<lambda>_ b.
           (Inr (), append_log ''INFO'' ''warmup'' (lit ''warmup completed'') count b)))"

definition baseline_phase :: "'w bench_env \<Rightarrow> run_config \<Rightarrow> (pyfloat list, 'w) bench_op" where
  "baseline_phase env cfg b =
     run_baseline env cfg
       (append_log ''INFO'' ''baseline_run'' (lit ''baseline benchmark started'')
          [(lit ''iteration_count'', MetaInt (iteration_count cfg))] (set_status ''running_baseline'' b))"

definition cache_phase :: "'w bench_env \<Rightarrow> run_config \<Rightarrow> (tally \<times> (int, pyfloat) dict, 'w) bench_op" where
  "cache_phase env cfg b =
     run_cache env cfg
       (append_log ''INFO'' ''cache_run'' (lit ''cache benchmark started'')
          [(lit ''iteration_count'', MetaInt (iteration_count cfg)),
           (lit ''bucket_count'', MetaInt (int (length (hit_rate_buckets cfg))))] (set_status ''running_cache'' b))"

definition reference_phase :: "'w bench_env \<Rightarrow> run_config \<Rightarrow> (pyfloat list, 'w) bench_op" where
  "reference_phase env cfg b =
     (if \<not> include_reference cfg then (Inr [], b)
      else run_reference env cfg
        (append_log ''INFO'' ''reference_run'' (lit ''reference benchmark started'')
           [(lit ''iteration_count'', MetaInt (iteration_count cfg))] (set_status ''running_reference'' b)))"

definition meta_int :: "int option \<Rightarrow> meta" where
  "meta_int v = (case v of None \<Rightarrow> MetaNone | Some n \<Rightarrow> MetaInt n)"

definition complete_run :: "run_summary \<Rightarrow> 'w bench \<Rightarrow> 'w bench" where
  "complete_run s b =
     append_log ''INFO'' ''complete'' (lit ''benchmark run completed'') []
       (append_log ''INFO'' ''aggregation'' (lit ''aggregation completed'')
          [(lit ''db_avg_ms'', MetaFloat (db_avg_ms s)), (lit ''redis_avg_ms'', MetaFloat (redis_avg_ms s)),
           (lit ''break_even_hit_rate'', meta_int (break_even_hit_rate s)), (lit ''cache_hit_rate'', MetaFloat (cache_hit_rate s))]
          (write_run ((run_rec b)\<lparr>run_status := lit ''completed'', run_finished := True, run_summary_of := Some s\<rparr>) b))"

definition aggregate ::
  "'w bench_env \<Rightarrow> run_config \<Rightarrow> pyfloat list \<Rightarrow> tally \<Rightarrow> (int, pyfloat) dict \<Rightarrow> pyfloat list \<Rightarrow> (unit, 'w) bench_op" where
  "aggregate env cfg baseline_samples a averages reference_samples b =
     sbind (ensure_not_cancelled env
        (append_log ''INFO'' ''aggregation'' (lit ''aggregation started'') [] (set_status ''aggregating'' b))) (\<lambda>_ b.
       (Inr (), complete_run (benchmark_summary baseline_samples a averages reference_samples (hit_rate_buckets cfg)) b))"

definition run_phases :: "'w bench_env \<Rightarrow> run_config \<Rightarrow> (unit, 'w) bench_op" where
  "run_phases env cfg b =
     sbind (bootstrap env b) (\<lambda>_ b.
     sbind (warmup_phase env cfg b) (\<lambda>_ b.
     sbind (baseline_phase env cfg b) (\<lambda>baseline_samples b.
     sbind (cache_phase env cfg b) (\<lambda>(a, averages) b.
     sbind (reference_phase env cfg b) (\<lambda>reference_samples b.
       aggregate env cfg baseline_samples a averages reference_samples b)))))"

definition cancel_run :: "'w bench \<Rightarrow> 'w bench" where
  "cancel_run b =
     append_log ''INFO'' ''cancelled'' (lit ''benchmark run cancelled'') []
       (write_run ((run_rec b)\<lparr>run_status := lit ''cancelled'', run_finished := True, run_error_message := None\<rparr>) b)"

definition fail_run :: "pystr \<Rightarrow> 'w bench \<Rightarrow> 'w bench" where
  "fail_run message b =
     append_log ''ERROR'' ''failed'' message []
       (write_run ((run_rec b)\<lparr>run_status := lit ''failed'', run_finished := True, run_error_message := Some message\<rparr>) b)"

definition run_benchmark :: "'w bench_env \<Rightarrow> 'w bench \<Rightarrow> 'w bench" where
  "run_benchmark env b =
     (let cfg = run_configuration (run_rec b);
          b = append_log ''INFO'' ''bootstrap'' (lit ''benchmark started'') [(lit ''scenario'', MetaText (scenario cfg))]
                (set_status ''bootstrapping'' b)
      in case run_phases env cfg b of
           (Inr _, b) \<Rightarrow> b
         | (Inl BenchmarkCancelled, b) \<Rightarrow> cancel_run b
         | (Inl e, b) \<Rightarrow> fail_run (env_str env e) b)"

end
