(* ===== verification/BenchProps.thy ===== *)
theory BenchProps
  imports Benchmark Ends "HOL-Library.Multiset"
begin

text \<open>
  What the benchmark does. The phases are sequences of steps that may raise; \<open>ends\<close> (theory \<open>Ends\<close>) says
  what holds after such a sequence, in either case, and the rules in the collection \<open>wp\<close> follow the steps.

  Main results: a run always ends with a record that says how (completed, cancelled or failed), after a
  prefix of the same statuses; in the cache phase every request comes to one of four outcomes, which
  decides the events it leaves and the counters it adds to; the 95th percentile is a sample with enough
  samples below it.
\<close>

section \<open>Steps and traces\<close>

lemma ends_try_redis [wp]:
  assumes "ends (\<lambda>v s. ends Q E (f v s)) (\<lambda>e s. (\<forall>m. e = MiniRedisError m \<longrightarrow> ends Q E (h m s)) \<and> E e s) r"
  shows "ends Q E (try_redis r f h)"
  using assms by (auto simp: try_redis_def ends_def split: prod.splits sum.splits py_exc.splits)

text \<open>
  The trace of a run: which request recorded which kind of event, in which mode, the status a response
  reports, and that a reported duration is not a text. \<open>grew b es b'\<close>: the trace grew by \<open>es\<close> and the record of the run stayed.
\<close>

type_synonym trace_item = "pystr \<times> pystr \<times> pystr \<times> meta option \<times> bool"

definition no_text :: "meta option \<Rightarrow> bool" where
  "no_text m = (case m of Some (MetaText t) \<Rightarrow> False | _ \<Rightarrow> True)"

definition trace_item_of :: "flow_event \<Rightarrow> trace_item" where
  "trace_item_of e =
     (event_request_id e, event_type e, event_mode e, map_of (event_metadata e) (lit ''cache_status''),
      no_text (map_of (event_metadata e) (lit ''total_duration_ms'')))"

lemma no_text_simps [simp]: "no_text None" "no_text (Some (MetaFloat x))"
  by (simp_all add: no_text_def)

definition run_trace :: "'w bench \<Rightarrow> trace_item list" where
  "run_trace b = map trace_item_of (flow_events b)"

definition step_item :: "string \<Rightarrow> pystr \<Rightarrow> string option \<Rightarrow> string \<Rightarrow> trace_item" where
  "step_item md rid st t =
     (rid, lit t, lit md, if t = ''response_sent'' then map_option (MetaText \<circ> lit) st else None, True)"

definition steps :: "string \<Rightarrow> pystr \<Rightarrow> string option \<Rightarrow> string list \<Rightarrow> trace_item list" where
  "steps md rid st types = map (step_item md rid st) types"

definition grew :: "'w bench \<Rightarrow> trace_item list \<Rightarrow> 'w bench \<Rightarrow> bool" where
  "grew b es b' \<longleftrightarrow> run_rec b' = run_rec b \<and> run_writes b' = run_writes b \<and> run_trace b' = run_trace b @ es"

lemma steps_simps [simp]:
  "steps md rid st [] = []" "steps md rid st (t # ts) = step_item md rid st t # steps md rid st ts"
  by (simp_all add: steps_def)

lemma grew_refl [simp]: "grew b [] b"
  by (simp add: grew_def step_item_def)

lemma log_frame [simp]:
  "run_rec (append_log level stage message metadata b) = run_rec b"
  "run_writes (append_log level stage message metadata b) = run_writes b"
  "run_trace (append_log level stage message metadata b) = run_trace b"
  by (simp_all add: append_log_def run_trace_def)

lemma grew_log [simp]:
  "grew b es (append_log level stage message metadata b') = grew b es b'"
  "grew (append_log level stage message metadata b) es b' = grew b es b'"
  by (simp_all add: grew_def)

lemma grew_trans: "grew b es b1 \<Longrightarrow> grew b1 fs b2 \<Longrightarrow> grew b (es @ fs) b2"
  by (simp add: grew_def step_item_def)

lemma ends_clock [wp]: "(\<And>t b'. grew b [] b' \<Longrightarrow> Q t b') \<Longrightarrow> ends Q E (perf_counter env b)"
  by (simp add: perf_counter_def grew_def run_trace_def split: prod.splits)

lemma ends_world [wp]:
  assumes "\<And>v b'. grew b [] b' \<Longrightarrow> Q v b'" "\<And>e b'. grew b [] b' \<Longrightarrow> E e b'"
  shows "ends Q E (on_world f b)"
proof -
  have "grew b [] (b\<lparr>world := w\<rparr>)" for w by (simp add: grew_def run_trace_def)
  then show ?thesis using assms by (auto simp: on_world_def ends_def split: prod.splits sum.splits)
qed

lemma ends_cancelled [wp]: "Q () b \<Longrightarrow> E BenchmarkCancelled b \<Longrightarrow> ends Q E (ensure_not_cancelled env b)"
  by (simp add: ensure_not_cancelled_def)

lemma ends_flow [wp]:
  assumes "\<And>b'. grew b [(rid, lit type, lit md, map_of (map (\<lambda>(k, v). (lit k, v)) metadata) (lit ''cache_status''),
      no_text (map_of (map (\<lambda>(k, v). (lit k, v)) metadata) (lit ''total_duration_ms'')))] b' \<Longrightarrow> Q () b'"
  shows "ends Q E (flow md rid suffix ts type stage duration metadata b)"
  using assms by (simp add: flow_def append_event_def grew_def run_trace_def trace_item_of_def)

text \<open>Any extension of the trace; the form in which an exception leaves the store.\<close>

definition extended :: "'w bench \<Rightarrow> 'w bench \<Rightarrow> bool" where
  "extended b b' \<longleftrightarrow> (\<exists>es. grew b es b')"

lemma extendedI: "grew b es b' \<Longrightarrow> extended b b'"
  by (auto simp: extended_def)

lemma extended_trans: "extended b b1 \<Longrightarrow> extended b1 b2 \<Longrightarrow> extended b b2"
  by (auto simp: extended_def intro: grew_trans)

lemma extended_log [simp]:
  "extended b (append_log level stage message metadata b') = extended b b'"
  "extended (append_log level stage message metadata b) b' = extended b b'"
  by (simp_all add: extended_def)

lemma extended_refl [simp]: "extended b b"
  by (rule extendedI) (rule grew_refl)

section \<open>Outcomes of the cache phase\<close>

text \<open>
  What a request of the cache phase can come to, the events that record it, and what it adds to the
  counters.
\<close>

datatype request_outcome = Hit | Miss | MissUnsaved | Fallback

fun outcome_events :: "request_outcome \<Rightarrow> string list" where
  "outcome_events Hit =
     [''request_started'', ''cache_lookup_started'', ''cache_lookup_completed'', ''cache_hit'', ''response_sent'']"
| "outcome_events Miss =
     [''request_started'', ''cache_lookup_started'', ''cache_lookup_completed'', ''cache_miss'',
      ''db_query_started'', ''db_query_completed'', ''cache_set'', ''response_sent'']"
| "outcome_events MissUnsaved =
     [''request_started'', ''cache_lookup_started'', ''cache_lookup_completed'', ''cache_miss'',
      ''db_query_started'', ''db_query_completed'', ''fallback_used'', ''error'', ''response_sent'']"
| "outcome_events Fallback =
     [''request_started'', ''cache_lookup_started'', ''fallback_used'', ''error'',
      ''db_query_started'', ''db_query_completed'', ''response_sent'']"

fun outcome_status :: "request_outcome \<Rightarrow> string" where
  "outcome_status Hit = ''hit''"
| "outcome_status Miss = ''miss''"
| "outcome_status MissUnsaved = ''miss_writeback_failed''"
| "outcome_status Fallback = ''fallback''"

abbreviation cache_steps :: "pystr \<Rightarrow> request_outcome \<Rightarrow> string list \<Rightarrow> trace_item list" where
  "cache_steps rid out types \<equiv> steps ''cache_aside'' rid (Some (outcome_status out)) types"

definition tallied :: "request_outcome \<Rightarrow> tally \<Rightarrow> tally \<Rightarrow> bool" where
  "tallied out a a' \<longleftrightarrow>
     cache_total a' = cache_total a \<and> length (samples_of a') = length (samples_of a) + 1 \<and>
     cache_hits a' = cache_hits a + of_bool (out = Hit) \<and>
     misses a' = misses a + of_bool (out \<in> {Miss, MissUnsaved}) \<and>
     fallbacks a' = fallbacks a + of_bool (out \<in> {Fallback, MissUnsaved}) \<and>
     errors a' = errors a + of_bool (out \<in> {Fallback, MissUnsaved})"

lemma add_sample_fields [simp]:
  "samples_of (add_sample bucket d a) = samples_of a @ [d]" "cache_hits (add_sample bucket d a) = cache_hits a"
  "cache_total (add_sample bucket d a) = cache_total a" "misses (add_sample bucket d a) = misses a"
  "fallbacks (add_sample bucket d a) = fallbacks a" "errors (add_sample bucket d a) = errors a"
  by (simp_all add: add_sample_def)

lemma cache_db_query_ends [wp]:
  assumes "\<And>t b'. grew b (steps ''cache_aside'' rid None [''db_query_started'', ''db_query_completed'']) b' \<Longrightarrow> Q t b'"
    and "\<And>e b'. extended b b' \<Longrightarrow> E e b'"
  shows "ends Q E (cache_db_query env rid record_id bucket started b)"
  unfolding cache_db_query_def Let_def
  by (intro wp ends_simps[THEN iffD2] assms) (auto simp: grew_def step_item_def extended_def)

lemma cache_prepare_ends [wp]:
  assumes "\<And>b'. grew b [] b' \<Longrightarrow> Q () b'" and "\<And>e b'. extended b b' \<Longrightarrow> E e b'"
  shows "ends Q E (cache_prepare env cfg record_id should_hit b)"
  unfolding cache_prepare_def Let_def
  by (cases should_hit; simp only: if_True if_False; intro wp ends_simps[THEN iffD2] assms)
    (auto simp: grew_def step_item_def extended_def)

text \<open>The branches of a request. The events of the lookup come before them.\<close>

lemma cache_fallback_ends [wp]:
  assumes "\<And>a' b'. grew b (cache_steps rid Fallback (drop 2 (outcome_events Fallback))) b' \<Longrightarrow> tallied Fallback a a' \<Longrightarrow> Q a' b'"
    and "\<And>e b'. extended b b' \<Longrightarrow> E e b'"
  shows "ends Q E (cache_fallback env rid record_id bucket started lookup_started message a b)"
  unfolding cache_fallback_def send_response_def Let_def
  by (intro wp ends_simps[THEN iffD2] assms) (auto simp: grew_def step_item_def tallied_def extended_def)

lemma cache_hit_ends [wp]:
  assumes "\<And>a' b'. grew b (cache_steps rid Hit (drop 3 (outcome_events Hit))) b' \<Longrightarrow> tallied Hit a a' \<Longrightarrow> Q a' b'"
  shows "ends Q E (cache_hit_branch env rid record_id bucket started lookup_started lookup_finished a b)"
  unfolding cache_hit_branch_def send_response_def Let_def
  by (intro wp ends_simps[THEN iffD2] assms) (auto simp: grew_def step_item_def tallied_def)

lemma cache_writeback_ends [wp]:
  assumes "\<And>b'. grew b (steps ''cache_aside'' rid None [''cache_set'']) b' \<Longrightarrow> Q (a, ''miss'') b'"
    and "\<And>b'. grew b (steps ''cache_aside'' rid None [''fallback_used'', ''error'']) b' \<Longrightarrow>
      Q (a\<lparr>errors := errors a + 1, fallbacks := fallbacks a + 1\<rparr>, ''miss_writeback_failed'') b'"
    and "\<And>e b'. extended b b' \<Longrightarrow> E e b'"
  shows "ends Q E (cache_writeback env cfg rid record_id bucket started a b)"
  unfolding cache_writeback_def Let_def
  by (intro wp conjI allI impI ends_simps[THEN iffD2] assms) (auto simp: grew_def step_item_def extended_def)

lemma cache_miss_ends [wp]:
  assumes "\<And>a' b'. grew b (cache_steps rid Miss (drop 3 (outcome_events Miss))) b' \<Longrightarrow> tallied Miss a a' \<Longrightarrow> Q a' b'"
    and "\<And>a' b'. grew b (cache_steps rid MissUnsaved (drop 3 (outcome_events MissUnsaved))) b' \<Longrightarrow> tallied MissUnsaved a a' \<Longrightarrow> Q a' b'"
    and "\<And>e b'. extended b b' \<Longrightarrow> E e b'"
  shows "ends Q E (cache_miss_branch env cfg rid record_id bucket started lookup_started lookup_finished a b)"
  unfolding cache_miss_branch_def send_response_def Let_def
  apply (intro wp ends_simps[THEN iffD2]; (simp only: prod.case)?; (intro wp ends_simps[THEN iffD2])?)
  apply (rule assms(1); auto simp: grew_def step_item_def tallied_def; fail)
  apply (rule assms(2); auto simp: grew_def step_item_def tallied_def; fail)
  apply (rule assms(3); auto simp: grew_def step_item_def extended_def; fail)+
  done

lemma cache_request_ends:
  "ends (\<lambda>a' b'. \<exists>out. tallied out (a\<lparr>cache_total := cache_total a + 1\<rparr>) a' \<and>
        grew b (cache_steps (lit ''cache-'' @ cache_record_id bucket index) out (outcome_events out)) b')
     (\<lambda>e b'. extended b b') (cache_request env cfg bucket index a b)"
  unfolding cache_request_def Let_def
  apply (intro wp conjI allI impI ends_simps[THEN iffD2])
  apply ((rule exI, rule conjI, assumption, simp add: grew_def step_item_def) | (force simp: grew_def step_item_def extended_def))+
  done

text \<open>The phase as a whole: one outcome for each planned request.\<close>

fun outcome_trace :: "(int \<times> nat) list \<Rightarrow> request_outcome list \<Rightarrow> trace_item list" where
  "outcome_trace ((bucket, index) # plan) (out # outs) =
     cache_steps (lit ''cache-'' @ cache_record_id bucket index) out (outcome_events out) @ outcome_trace plan outs"
| "outcome_trace _ _ = []"

definition totals :: "request_outcome list \<Rightarrow> tally \<Rightarrow> tally \<Rightarrow> bool" where
  "totals outs a a' \<longleftrightarrow>
     cache_total a' = cache_total a + length outs \<and> length (samples_of a') = length (samples_of a) + length outs \<and>
     cache_hits a' = cache_hits a + count_list outs Hit \<and>
     misses a' = misses a + count_list outs Miss + count_list outs MissUnsaved \<and>
     fallbacks a' = fallbacks a + count_list outs Fallback + count_list outs MissUnsaved \<and>
     errors a' = errors a + count_list outs Fallback + count_list outs MissUnsaved"

lemma totals_Cons:
  "tallied out (a\<lparr>cache_total := cache_total a + 1\<rparr>) a1 \<Longrightarrow> totals outs a1 a2 \<Longrightarrow> totals (out # outs) a a2"
  by (cases out) (auto simp: tallied_def totals_def)

lemma cache_loop_ends:
  "ends (\<lambda>a' b'. \<exists>outs. length outs = length plan \<and> totals outs a a' \<and> grew b (outcome_trace plan outs) b')
     (\<lambda>e b'. extended b b') (cache_loop env cfg plan a b)"
proof (induction plan arbitrary: a b)
  case Nil
  show ?case by (simp add: totals_def)
next
  case (Cons p plan)
  obtain bucket index where [simp]: "p = (bucket, index)" by fastforce
  show ?case unfolding \<open>p = _\<close> cache_loop.simps
  proof (intro ends_sbind ends_mono[OF cache_request_ends], goal_cases)
    case (1 a1 b1)
    then obtain out where out: "tallied out (a\<lparr>cache_total := cache_total a + 1\<rparr>) a1"
      "grew b (cache_steps (lit ''cache-'' @ cache_record_id bucket index) out (outcome_events out)) b1" by blast
    show ?case
    proof (rule ends_mono[OF Cons.IH], goal_cases)
      case (1 a2 b2)
      then obtain outs where "length outs = length plan" "totals outs a1 a2" "grew b1 (outcome_trace plan outs) b2" by blast
      then show ?case using out by (intro exI[of _ "out # outs"]) (auto intro: totals_Cons grew_trans)
    qed (use out in \<open>blast intro: extendedI extended_trans\<close>)
  qed
qed

lemma length_cache_plan: "length (cache_plan cfg) = nat (iteration_count cfg) * max 1 (length (hit_rate_buckets cfg))"
  by (cases "hit_rate_buckets cfg") (simp_all add: cache_plan_def Let_def length_concat comp_def sum_list_triv algebra_simps)

section \<open>The other phases\<close>

definition baseline_trace :: "nat list \<Rightarrow> trace_item list" where
  "baseline_trace plan = concat (map (\<lambda>index. steps ''db_only'' (lit ''baseline-'' @ show_nat index) None
     [''request_started'', ''db_query_started'', ''db_query_completed'', ''response_sent'']) plan)"

definition reference_trace :: "nat list \<Rightarrow> trace_item list" where
  "reference_trace plan = concat (map (\<lambda>index. steps ''redis_only_reference'' (lit ''reference-'' @ show_nat index) (Some ''reference_hit'')
     [''request_started'', ''cache_hit'', ''response_sent'']) plan)"

lemma trace_Nil [simp]: "baseline_trace [] = []" "reference_trace [] = []"
  by (simp_all add: baseline_trace_def reference_trace_def)

lemma grew_Cons:
  "grew b (baseline_trace [i]) b1 \<Longrightarrow> grew b1 (baseline_trace plan) b2 \<Longrightarrow> grew b (baseline_trace (i # plan)) b2"
  "grew b (reference_trace [i]) b1 \<Longrightarrow> grew b1 (reference_trace plan) b2 \<Longrightarrow> grew b (reference_trace (i # plan)) b2"
  by (simp_all add: grew_def baseline_trace_def reference_trace_def)

lemma baseline_request_ends:
  "ends (\<lambda>d b'. grew b (baseline_trace [index]) b') (\<lambda>e b'. extended b b') (baseline_request env index b)"
  unfolding baseline_request_def Let_def
  by (intro wp ends_simps[THEN iffD2]) (auto simp: grew_def step_item_def extended_def baseline_trace_def)

lemma reference_request_ends:
  "ends (\<lambda>d b'. grew b (reference_trace [index]) b') (\<lambda>e b'. extended b b') (reference_request env cfg index b)"
  unfolding reference_request_def Let_def
  by (intro wp ends_simps[THEN iffD2]) (auto simp: grew_def step_item_def extended_def reference_trace_def)

lemma baseline_loop_ends:
  "ends (\<lambda>samples' b'. length samples' = length samples + length plan \<and> grew b (baseline_trace plan) b')
     (\<lambda>e b'. extended b b') (baseline_loop env plan samples b)"
proof (induction plan arbitrary: samples b)
  case (Cons i plan)
  show ?case unfolding baseline_loop.simps
    by (intro ends_sbind ends_mono[OF baseline_request_ends] ends_mono[OF Cons.IH])
      (auto intro: grew_Cons extendedI extended_trans)
qed simp

lemma reference_loop_ends:
  "ends (\<lambda>samples' b'. length samples' = length samples + length plan \<and> grew b (reference_trace plan) b')
     (\<lambda>e b'. extended b b') (reference_loop env cfg plan samples b)"
proof (induction plan arbitrary: samples b)
  case (Cons i plan)
  show ?case unfolding reference_loop.simps
    by (intro ends_sbind ends_mono[OF reference_request_ends] ends_mono[OF Cons.IH])
      (auto intro: grew_Cons extendedI extended_trans)
qed simp

lemma warmup_loop_ends: "ends (\<lambda>_ b'. grew b [] b') (\<lambda>e b'. grew b [] b') (warmup_loop env plan b)"
proof (induction plan arbitrary: b)
  case (Cons i plan)
  show ?case unfolding warmup_loop.simps
    by (intro wp ends_mono[OF Cons.IH]) (auto simp: grew_def step_item_def)
qed simp

section \<open>The life of a run\<close>

text \<open>
  The statuses a run goes through between \<open>bootstrapping\<close> and its last one. \<open>moved b sts es b'\<close>: the
  statuses \<open>sts\<close> were written, the trace grew by \<open>es\<close>, and everything else of the record stayed.
\<close>

definition lifecycle :: "run_config \<Rightarrow> string list" where
  "lifecycle cfg =
     [''warming_up'', ''running_baseline'', ''running_cache''] @
     (if include_reference cfg then [''running_reference''] else []) @ [''aggregating'']"

definition moved :: "'w bench \<Rightarrow> string list \<Rightarrow> trace_item list \<Rightarrow> 'w bench \<Rightarrow> bool" where
  "moved b sts es b' \<longleftrightarrow>
     map run_status (run_writes b') = map run_status (run_writes b) @ map lit sts \<and>
     (\<exists>st. run_rec b' = (run_rec b)\<lparr>run_status := st\<rparr>) \<and> run_trace b' = run_trace b @ es"

lemma moved_trans: "moved b sts es b1 \<Longrightarrow> moved b1 sts' es' b2 \<Longrightarrow> moved b (sts @ sts') (es @ es') b2"
  by (auto simp: moved_def)

lemma moved_grew: "grew b es b' \<Longrightarrow> moved b [] es b'"
  by (auto simp: moved_def grew_def intro: exI[of _ "run_status (run_rec b)"])

lemma moved_status: "grew (set_status st b) es b' \<Longrightarrow> moved b [st] es b'"
  by (auto simp: moved_def grew_def set_status_def write_run_def run_trace_def)

lemma moved_log [simp]: "moved b sts es (append_log level stage message metadata b') = moved b sts es b'"
  by (simp add: moved_def)

definition interrupted :: "'w bench \<Rightarrow> string list \<Rightarrow> 'w bench \<Rightarrow> bool" where
  "interrupted b sts b' \<longleftrightarrow> (\<exists>es. moved b sts es b')"

lemma interrupted_status: "extended (set_status st b) b' \<Longrightarrow> interrupted b [st] b'"
  by (auto simp: interrupted_def extended_def intro: moved_status)

lemma bootstrap_ends: "ends (\<lambda>_ b'. moved b [] [] b') (\<lambda>e b'. interrupted b [] b') (bootstrap env b)"
proof -
  have "ends (\<lambda>_ b'. grew b [] b') (\<lambda>e b'. grew b [] b') (bootstrap env b)"
    unfolding bootstrap_def Let_def by (intro wp) (auto split: option.split intro!: wp simp: grew_def)
  then show ?thesis by (rule ends_mono) (auto simp: interrupted_def intro: moved_grew)
qed

lemma warmup_phase_ends:
  "ends (\<lambda>_ b'. moved b [''warming_up''] [] b') (\<lambda>e b'. interrupted b [''warming_up''] b') (warmup_phase env cfg b)"
  unfolding warmup_phase_def warmup_def Let_def
  by (intro ends_sbind ends_mono[OF warmup_loop_ends]) (auto simp: interrupted_def intro: moved_status)

lemma baseline_phase_ends:
  "ends (\<lambda>samples b'. length samples = nat (iteration_count cfg) \<and>
        moved b [''running_baseline''] (baseline_trace [0..<nat (iteration_count cfg)]) b')
     (\<lambda>e b'. interrupted b [''running_baseline''] b') (baseline_phase env cfg b)"
  unfolding baseline_phase_def run_baseline_def
  by (intro ends_sbind ends_mono[OF baseline_loop_ends]) (auto intro: moved_status interrupted_status)

lemma cache_phase_ends:
  "ends (\<lambda>(a, averages) b'. \<exists>outs. length outs = length (cache_plan cfg) \<and> totals outs tally_init a \<and>
        moved b [''running_cache''] (outcome_trace (cache_plan cfg) outs) b')
     (\<lambda>e b'. interrupted b [''running_cache''] b') (cache_phase env cfg b)"
  unfolding cache_phase_def run_cache_def
  by (intro ends_sbind ends_mono[OF cache_loop_ends]) (auto intro: moved_status interrupted_status)

definition reference_plan :: "run_config \<Rightarrow> nat list" where
  "reference_plan cfg = (if include_reference cfg then [0..<nat (iteration_count cfg)] else [])"

lemma reference_phase_ends:
  "ends (\<lambda>samples b'. length samples = length (reference_plan cfg) \<and>
        moved b (if include_reference cfg then [''running_reference''] else []) (reference_trace (reference_plan cfg)) b')
     (\<lambda>e b'. include_reference cfg \<and> interrupted b [''running_reference''] b') (reference_phase env cfg b)"
proof (cases "include_reference cfg")
  case True
  then show ?thesis unfolding reference_phase_def run_reference_def if_False not_not simp_thms reference_plan_def if_True
    by (simp only: if_False not_not simp_thms if_True)
      (intro ends_sbind ends_mono[OF reference_loop_ends]; auto intro: moved_status interrupted_status)
qed (simp add: reference_phase_def reference_plan_def moved_grew)

lemma interrupted_trans: "moved b sts es b1 \<Longrightarrow> interrupted b1 sts' b2 \<Longrightarrow> interrupted b (sts @ sts') b2"
  by (auto simp: interrupted_def intro: moved_trans)

lemma aggregate_ends:
  "ends (\<lambda>_ b'. \<exists>b1. moved b [''aggregating''] [] b1 \<and>
        b' = complete_run (benchmark_summary xs a averages ys (hit_rate_buckets cfg)) b1)
     (\<lambda>e b'. interrupted b [''aggregating''] b') (aggregate env cfg xs a averages ys b)"
proof -
  let ?b1 = "append_log ''INFO'' ''aggregation'' (lit ''aggregation started'') [] (set_status ''aggregating'' b)"
  have "moved b [''aggregating''] [] ?b1" by (simp add: moved_status)
  then show ?thesis unfolding aggregate_def
    by (intro wp ends_simps[THEN iffD2]) (auto simp: interrupted_def intro!: exI[of _ ?b1])
qed

definition full_trace :: "run_config \<Rightarrow> request_outcome list \<Rightarrow> trace_item list" where
  "full_trace cfg outs =
     baseline_trace [0..<nat (iteration_count cfg)] @ outcome_trace (cache_plan cfg) outs @
     reference_trace (reference_plan cfg)"

text \<open>What a run that went through all its phases leaves, before its record is completed.\<close>

definition measured :: "run_config \<Rightarrow> 'w bench \<Rightarrow> run_summary \<Rightarrow> 'w bench \<Rightarrow> bool" where
  "measured cfg b s b1 \<longleftrightarrow>
     (\<exists>xs a averages ys outs. s = benchmark_summary xs a averages ys (hit_rate_buckets cfg) \<and>
        length xs = nat (iteration_count cfg) \<and> length outs = length (cache_plan cfg) \<and> totals outs tally_init a \<and>
        length ys = length (reference_plan cfg) \<and> moved b (lifecycle cfg) (full_trace cfg outs) b1)"

lemma measuredI:
  assumes "length xs = nat (iteration_count cfg)" "length outs = length (cache_plan cfg)" "totals outs tally_init a"
    "length ys = length (reference_plan cfg)" "moved b (lifecycle cfg) (full_trace cfg outs) b1"
  shows "measured cfg b (benchmark_summary xs a averages ys (hit_rate_buckets cfg)) b1"
  unfolding measured_def using assms by blast

definition stopped :: "run_config \<Rightarrow> 'w bench \<Rightarrow> 'w bench \<Rightarrow> bool" where
  "stopped cfg b b' \<longleftrightarrow> (\<exists>k. interrupted b (take k (lifecycle cfg)) b')"

text \<open>One more phase: it may stop, or the next ones go on from where it came to.\<close>

lemma next_phase:
  assumes "moved b sts es b0" "sts @ sts' = take k (lifecycle cfg)"
    and "ends Q (\<lambda>e b1. interrupted b0 sts' b1) r"
    and "\<And>x b1. Q x b1 \<Longrightarrow> ends R (\<lambda>e b'. stopped cfg b b') (f x b1)"
  shows "ends R (\<lambda>e b'. stopped cfg b b') (sbind r f)"
  using assms(3)
proof (intro ends_sbind, elim ends_mono)
  show "stopped cfg b b1" if "interrupted b0 sts' b1" for b1
    using interrupted_trans[OF assms(1) that] assms(2) by (auto simp: stopped_def)
qed (rule assms(4))

lemma last_phases_end:
  assumes "moved b (take 3 (lifecycle cfg)) (baseline_trace [0..<nat (iteration_count cfg)] @ outcome_trace (cache_plan cfg) outs) b3"
    and "length xs = nat (iteration_count cfg)" "length outs = length (cache_plan cfg)" "totals outs tally_init a"
  shows "ends (\<lambda>_ b'. \<exists>s b1. measured cfg b s b1 \<and> b' = complete_run s b1) (\<lambda>e b'. stopped cfg b b')
    (sbind (reference_phase env cfg b3) (\<lambda>ys b. aggregate env cfg xs a averages ys b))"
proof -
  let ?ref = "if include_reference cfg then [''running_reference''] else []"
  have L: "take 3 (lifecycle cfg) @ ?ref = take (3 + length ?ref) (lifecycle cfg)"
    "take 3 (lifecycle cfg) @ ?ref @ [''aggregating''] = lifecycle cfg" by (simp_all add: lifecycle_def)
  show ?thesis
  proof (rule next_phase[OF assms(1) L(1)], rule ends_mono[OF reference_phase_ends], assumption)
    show "interrupted b3 ?ref b4" if "include_reference cfg \<and> interrupted b3 [''running_reference''] b4" for b4
      using that by simp
  next
    fix ys :: "pyfloat list" and b4
    assume ys: "length ys = length (reference_plan cfg) \<and> moved b3 ?ref (reference_trace (reference_plan cfg)) b4"
    note moved = moved_trans[OF assms(1) conjunct2[OF ys]]
    show "ends (\<lambda>_ b'. \<exists>s b1. measured cfg b s b1 \<and> b' = complete_run s b1) (\<lambda>e b'. stopped cfg b b')
      (aggregate env cfg xs a averages ys b4)"
    proof (rule ends_mono[OF aggregate_ends], goal_cases)
      case (1 _ b')
      then obtain b5 where b5: "moved b4 [''aggregating''] [] b5"
        "b' = complete_run (benchmark_summary xs a averages ys (hit_rate_buckets cfg)) b5" by blast
      have "measured cfg b (benchmark_summary xs a averages ys (hit_rate_buckets cfg)) b5"
        using moved_trans[OF moved b5(1)] L(2) ys assms(2-4) by (intro measuredI) (auto simp: full_trace_def)
      then show ?case using b5(2) by blast
    next
      case (2 e b')
      from interrupted_trans[OF moved this] show ?case using L(2)
        by (auto simp: stopped_def intro!: exI[of _ "length (lifecycle cfg)"])
    qed
  qed
qed

lemma run_phases_ends:
  "ends (\<lambda>_ b'. \<exists>s b1. measured cfg b s b1 \<and> b' = complete_run s b1) (\<lambda>e b'. stopped cfg b b') (run_phases env cfg b)"
proof -
  have L: "take (Suc 0) (lifecycle cfg) = [''warming_up'']" "take 2 (lifecycle cfg) = [''warming_up'', ''running_baseline'']"
    "take 3 (lifecycle cfg) = [''warming_up'', ''running_baseline'', ''running_cache'']" by (simp_all add: lifecycle_def)
  have start: "moved b [] [] b" by (simp add: moved_grew)
  show ?thesis unfolding run_phases_def
  proof (rule next_phase[OF start, of "[]" 0, OF _ bootstrap_ends], goal_cases)
    case (2 _ b0)
    note 0 = this
    show ?case
    proof (rule next_phase[OF 0, of "[''warming_up'']" 1, OF _ warmup_phase_ends], goal_cases)
      case (2 _ b1)
      note 1 = moved_trans[OF 0 this]
      show ?case
      proof (rule next_phase[OF 1, of "[''running_baseline'']" 2, OF _ baseline_phase_ends], goal_cases)
        case (2 xs b2)
        note 2 = moved_trans[OF 1 conjunct2[OF this]] conjunct1[OF this]
        show ?case
        proof (rule next_phase[OF 2(1), of "[''running_cache'']" 3, OF _ cache_phase_ends], goal_cases)
          case (2 r b3)
          then obtain a averages outs where 3: "r = (a, averages)" "length outs = length (cache_plan cfg)" "totals outs tally_init a"
            "moved b2 [''running_cache''] (outcome_trace (cache_plan cfg) outs) b3" by (cases r) auto
          show ?case unfolding 3(1) prod.case
            using last_phases_end[OF _ \<open>length xs = _\<close> 3(2,3)] moved_trans[OF \<open>moved b _ _ b2\<close> 3(4)] by (simp add: L)
        qed (simp add: L)
      qed (simp add: L)
    qed (simp add: L)
  qed simp
qed

text \<open>The run: its statuses, its last record, and what a completed one has measured.\<close>

definition finished_with :: "run_record \<Rightarrow> run_record \<Rightarrow> string \<Rightarrow> bool" where
  "finished_with r r' st \<longleftrightarrow>
     run_status r' = lit st \<and> run_finished r' \<and> run_configuration r' = run_configuration r \<and>
     (if st = ''completed'' then run_summary_of r' \<noteq> None \<and> run_error_message r' = run_error_message r
      else run_summary_of r' = run_summary_of r \<and> (run_error_message r' \<noteq> None \<longleftrightarrow> st = ''failed''))"

lemma close_simps [simp]:
  "run_rec (complete_run s b) = (run_rec b)\<lparr>run_status := lit ''completed'', run_finished := True, run_summary_of := Some s\<rparr>"
  "run_writes (complete_run s b) = run_writes b @ [run_rec (complete_run s b)]" "run_trace (complete_run s b) = run_trace b"
  "run_rec (cancel_run b) = (run_rec b)\<lparr>run_status := lit ''cancelled'', run_finished := True, run_error_message := None\<rparr>"
  "run_writes (cancel_run b) = run_writes b @ [run_rec (cancel_run b)]" "run_trace (cancel_run b) = run_trace b"
  "run_rec (fail_run m b) = (run_rec b)\<lparr>run_status := lit ''failed'', run_finished := True, run_error_message := Some m\<rparr>"
  "run_writes (fail_run m b) = run_writes b @ [run_rec (fail_run m b)]" "run_trace (fail_run m b) = run_trace b"
  by (simp_all add: complete_run_def cancel_run_def fail_run_def write_run_def append_log_def run_trace_def)

lemma run_benchmark_cases:
  obtains (completed) s b1 where "measured (run_configuration (run_rec b)) (set_status ''bootstrapping'' b) s b1"
      "run_benchmark env b = complete_run s b1"
  | (stopped) b1 where "stopped (run_configuration (run_rec b)) (set_status ''bootstrapping'' b) b1"
      "run_benchmark env b = cancel_run b1 \<or> (\<exists>m. run_benchmark env b = fail_run m b1)"
proof -
  let ?cfg = "run_configuration (run_rec b)"
  let ?b0 = "append_log ''INFO'' ''bootstrap'' (lit ''benchmark started'') [(lit ''scenario'', MetaText (scenario ?cfg))]
    (set_status ''bootstrapping'' b)"
  have log: "measured ?cfg ?b0 = measured ?cfg (set_status ''bootstrapping'' b)"
    "stopped ?cfg ?b0 = stopped ?cfg (set_status ''bootstrapping'' b)"
    by (auto simp: fun_eq_iff measured_def stopped_def interrupted_def moved_def)
  obtain r b1 where r: "run_phases env ?cfg ?b0 = (r, b1)" by fastforce
  then have result: "run_benchmark env b = (case r of Inr _ \<Rightarrow> b1 | Inl BenchmarkCancelled \<Rightarrow> cancel_run b1 | Inl e \<Rightarrow> fail_run (env_str env e) b1)"
    by (simp add: run_benchmark_def Let_def split: sum.split py_exc.split)
  show ?thesis
  proof (cases r)
    case (Inr u)
    then show ?thesis using run_phases_ends[of ?cfg ?b0 env] r result log that(1) by auto
  next
    case (Inl e)
    then have "stopped ?cfg (set_status ''bootstrapping'' b) b1"
      using run_phases_ends[of ?cfg ?b0 env] r log by simp
    then show ?thesis using result Inl that(2) by (cases e) auto
  qed
qed

lemma run_ends:
  "\<exists>k st. st \<in> {''completed'', ''cancelled'', ''failed''} \<and>
     map run_status (run_writes (run_benchmark env b)) =
       map run_status (run_writes b) @ map lit (''bootstrapping'' # take k (lifecycle (run_configuration (run_rec b))) @ [st]) \<and>
     (st = ''completed'' \<longrightarrow> length (lifecycle (run_configuration (run_rec b))) \<le> k) \<and>
     last (run_writes (run_benchmark env b)) = run_rec (run_benchmark env b) \<and>
     finished_with (run_rec b) (run_rec (run_benchmark env b)) st"
proof (cases rule: run_benchmark_cases[of b env])
  case (completed s b1)
  then obtain es where es: "moved (set_status ''bootstrapping'' b) (lifecycle (run_configuration (run_rec b))) es b1"
    by (auto simp: measured_def)
  show ?thesis unfolding completed(2)
    by (rule exI[of _ "length (lifecycle (run_configuration (run_rec b)))"], rule exI[of _ "''completed''"])
      (use es in \<open>auto simp: moved_def finished_with_def set_status_def write_run_def\<close>)
next
  case (stopped b1)
  then obtain k es where es: "moved (set_status ''bootstrapping'' b) (take k (lifecycle (run_configuration (run_rec b)))) es b1"
    by (auto simp: stopped_def interrupted_def)
  from stopped(2) show ?thesis
  proof (elim disjE exE)
    assume c: "run_benchmark env b = cancel_run b1"
    show ?thesis unfolding c
      by (rule exI[of _ k], rule exI[of _ "''cancelled''"])
        (use es in \<open>auto simp: moved_def finished_with_def set_status_def write_run_def\<close>)
  next
    fix m assume f: "run_benchmark env b = fail_run m b1"
    show ?thesis unfolding f
      by (rule exI[of _ k], rule exI[of _ "''failed''"])
        (use es in \<open>auto simp: moved_def finished_with_def set_status_def write_run_def\<close>)
  qed
qed

text \<open>What a completed run has measured.\<close>

lemma completed_measured:
  assumes "run_status (run_rec (run_benchmark env b)) = lit ''completed''" "cfg = run_configuration (run_rec b)"
  shows "\<exists>s outs. run_summary_of (run_rec (run_benchmark env b)) = Some s \<and>
     length outs = nat (iteration_count cfg) * max 1 (length (hit_rate_buckets cfg)) \<and>
     run_trace (run_benchmark env b) = run_trace b @ full_trace cfg outs \<and>
     db_only_count s = nat (iteration_count cfg) \<and> redis_hit_count s = count_list outs Hit \<and>
     redis_miss_count s = count_list outs Miss + count_list outs MissUnsaved \<and>
     fallback_count s = count_list outs Fallback + count_list outs MissUnsaved \<and>
     error_count s = fallback_count s"
proof (cases rule: run_benchmark_cases[of b env])
  case (completed s b1)
  then obtain xs a averages ys outs where m: "s = benchmark_summary xs a averages ys (hit_rate_buckets cfg)"
    "length xs = nat (iteration_count cfg)" "length outs = length (cache_plan cfg)" "totals outs tally_init a"
    "moved (set_status ''bootstrapping'' b) (lifecycle cfg) (full_trace cfg outs) b1" unfolding assms(2) measured_def by blast
  have "run_trace (set_status ''bootstrapping'' b) = run_trace b" by (simp add: set_status_def write_run_def run_trace_def)
  then show ?thesis using m by (auto simp: completed(2) moved_def benchmark_summary_def Let_def totals_def tally_init_def length_cache_plan)
next
  case (stopped b1)
  then show ?thesis using assms(1) by auto
qed

section \<open>The percentile\<close>

lemma insert_float_mset [simp]: "mset (insert_float x ys) = add_mset x (mset ys)"
  by (induction ys) auto

lemma insert_float_set [simp]: "set (insert_float x ys) = insert x (set ys)"
  by (induction ys) auto

lemma sort_floats_mset [simp]: "mset (sort_floats xs) = mset xs"
proof -
  have "mset (fold insert_float xs ys) = mset xs + mset ys" for ys by (induction xs arbitrary: ys) auto
  then show ?thesis by (simp add: sort_floats_def)
qed

lemma sort_floats_length [simp]: "length (sort_floats xs) = length xs"
  using mset_eq_length[OF sort_floats_mset] .

lemma insert_float_sorted:
  assumes "sorted_wrt fle ys" "x \<noteq> NaN" "NaN \<notin> set ys"
  shows "sorted_wrt fle (insert_float x ys)"
  using assms
proof (induction ys)
  case (Cons y ys)
  then show ?case using Cons fle_total[of x y] fle_trans by (auto simp: flt_def)
qed simp

lemma sort_floats_sorted:
  assumes "NaN \<notin> set xs"
  shows "sorted_wrt fle (sort_floats xs)"
proof -
  have "sorted_wrt fle (fold insert_float xs ys)" if "sorted_wrt fle ys" "NaN \<notin> set ys" for ys
    using that assms
  proof (induction xs arbitrary: ys)
    case (Cons x xs)
    then show ?case using Cons insert_float_sorted by auto
  qed simp
  then show ?thesis by (simp add: sort_floats_def)
qed

lemma constant_95: "round64 (95 / 100) = Finite (4278419646001971 / 4503599627370496)"
  by code_simp

lemma percentile_index_bounds:
  assumes "0 < n" "n < 2 ^ 53"
  shows "percentile_index n < n" "94 * n div 100 \<le> percentile_index n + 1"
proof -
  obtain c where c: "round64 (95 / 100) = Finite c" "94 / 100 \<le> c" "c \<le> 1" using constant_95 by (rule that) simp_all
  have n: "round64 (of_int (int n)) = Finite (of_nat n)"
    using round64_between[of "of_int (int n)" "int n" "int n"] assms by (auto simp: of_nat_less_iff[symmetric])
  let ?x = "of_nat n * c" let ?k = "int (94 * n div 100)"
  have "100 * (94 * n div 100) \<le> 94 * n" by simp
  then have "(of_nat (100 * (94 * n div 100)) :: rat) \<le> of_nat (94 * n)" by (simp only: of_nat_le_iff)
  then have "of_int ?k \<le> (94 * of_nat n / 100 :: rat)" by simp
  also have "\<dots> \<le> ?x" using c(2) assms(1) by (simp add: field_simps)
  finally have k: "of_int ?k \<le> ?x" .
  have x: "0 < ?x" "?x \<le> of_int (int n)" using c assms(1) by (auto simp: mult_left_le)
  obtain y where y: "round64 ?x = Finite y" "of_int ?k \<le> y" "y \<le> of_int (int n)"
    using round64_between[OF x(1) k x(2)] assms by auto
  have "fmul (of_int_float (int n)) (round64 (95 / 100)) = Finite y"
    using n c x(1) y(1) assms(1) by (simp add: fmul_def of_int_float_def Let_def)
  then have i: "percentile_index n = nat (max 0 (\<lfloor>y\<rfloor> - 1))" by (simp add: percentile_index_def)
  have "\<lfloor>y\<rfloor> \<le> int n" "?k \<le> \<lfloor>y\<rfloor>" using y(2,3) by (simp_all add: floor_le_iff le_floor_iff)
  then show "percentile_index n < n" "94 * n div 100 \<le> percentile_index n + 1" using assms(1) by (auto simp: i)
qed

lemma percentile_95_bounds:
  assumes "xs \<noteq> []" "length xs < 2 ^ 53" "NaN \<notin> set xs"
  shows "percentile_95 xs \<in> set xs"
    and "94 * length xs div 100 \<le> length (filter (\<lambda>x. fle x (percentile_95 xs)) xs)"
    and "1 \<le> length (filter (\<lambda>x. fle (percentile_95 xs) x) xs)"
proof -
  let ?ys = "sort_floats xs" let ?i = "percentile_index (length xs)"
  have i: "?i < length xs" "94 * length xs div 100 \<le> ?i + 1" using percentile_index_bounds[of "length xs"] assms by auto
  have p: "percentile_95 xs = ?ys ! ?i" using assms(1) by (simp add: percentile_95_def)
  have same: "set ?ys = set xs" using mset_eq_setD[OF sort_floats_mset] .
  show in_set: "percentile_95 xs \<in> set xs" using i(1) by (simp add: p same[symmetric])
  have "fle (?ys ! j) (?ys ! ?i)" if "j \<le> ?i" for j
    using that i(1) sorted_wrt_nth_less[OF sort_floats_sorted[OF assms(3)], of j ?i] in_set assms(3) p
    by (cases "j = ?i") auto
  then have "\<forall>x\<in>set (take (?i + 1) ?ys). fle x (percentile_95 xs)" using i(1) by (auto simp: p in_set_conv_nth)
  then have "filter (\<lambda>x. fle x (percentile_95 xs)) (take (?i + 1) ?ys) = take (?i + 1) ?ys" by (simp add: filter_id_conv)
  then have "?i + 1 \<le> length (filter (\<lambda>x. fle x (percentile_95 xs)) (take (?i + 1) ?ys @ drop (?i + 1) ?ys))"
    unfolding filter_append using i(1) by simp
  then have "?i + 1 \<le> length (filter (\<lambda>x. fle x (percentile_95 xs)) ?ys)" by (simp only: append_take_drop_id)
  also have "length (filter (\<lambda>x. fle x (percentile_95 xs)) ?ys) = length (filter (\<lambda>x. fle x (percentile_95 xs)) xs)"
    by (rule mset_eq_length) (simp add: mset_filter)
  finally show "94 * length xs div 100 \<le> length (filter (\<lambda>x. fle x (percentile_95 xs)) xs)" using i(2) by simp
  show "1 \<le> length (filter (\<lambda>x. fle (percentile_95 xs) x) xs)"
    using in_set assms(3) by (cases "filter (\<lambda>x. fle (percentile_95 xs) x) xs") (auto simp: filter_empty_conv)
qed

end
