(* ===== verification/Timeline.thy ===== *)
theory Timeline
  imports BenchProps FloatText
begin

text \<open>
  What the benchmark shows of a run: the timelines of its requests (\<open>app/api/timeline.py\<close>) and the
  presentation (\<open>app/api/presentation.py\<close>), both computed from the recorded events.

  Events have the types of \<open>FlowEvent\<close>, so the conversions of \<open>contracts.py\<close> leave them as they are.
\<close>

section \<open>The timeline of a request\<close>

record request_timeline =
  tl_request_id :: pystr
  tl_mode :: pystr
  tl_started_at_ms :: pyfloat
  tl_finished_at_ms :: pyfloat
  tl_total_duration_ms :: pyfloat
  tl_cache_status :: pystr
  tl_path_summary :: pystr
  tl_has_error :: bool
  tl_stage_durations :: "(pystr, pyfloat) dict"
  tl_event_count :: nat
  tl_events :: "flow_event list"

text \<open>\<open>_event_sort_key\<close>: the pair of the time and the identifier; \<open>sorted\<close> is stable.\<close>

definition event_before :: "flow_event \<Rightarrow> flow_event \<Rightarrow> bool" where
  "event_before e f =
     (if feq (event_timestamp e) (event_timestamp f) then event_id e < event_id f
      else flt (event_timestamp e) (event_timestamp f))"

fun insert_event :: "flow_event \<Rightarrow> flow_event list \<Rightarrow> flow_event list" where
  "insert_event e [] = [e]"
| "insert_event e (f # fs) = (if event_before e f then e # f # fs else f # insert_event e fs)"

definition sort_events :: "flow_event list \<Rightarrow> flow_event list" where
  "sort_events es = fold insert_event es []"

definition aggregate_stage_durations :: "flow_event list \<Rightarrow> (pystr, pyfloat) dict" where
  "aggregate_stage_durations es =
     fold (\<lambda>e ds.
       let before = (case map_of ds (event_stage e) of None \<Rightarrow> Finite 0 | Some d \<Rightarrow> d)
       in AList.update (event_stage e) (round2 (fadd before (event_duration_ms e))) ds) es []"

definition has_type :: "string \<Rightarrow> flow_event \<Rightarrow> bool" where
  "has_type t e \<longleftrightarrow> event_type e = lit t"

definition response_event :: "flow_event list \<Rightarrow> flow_event option" where
  "response_event es = List.find (has_type ''response_sent'') (rev es)"

fun truthy :: "meta \<Rightarrow> bool" where
  "truthy (MetaText t) = (t \<noteq> [])"
| "truthy (MetaInt n) = (n \<noteq> 0)"
| "truthy (MetaFloat x) = (\<not> zero_float x)"
| "truthy MetaNone = False"

fun str_meta :: "meta \<Rightarrow> pystr" where
  "str_meta (MetaText t) = t"
| "str_meta (MetaInt n) = show_int n"
| "str_meta (MetaFloat x) = float_repr x"
| "str_meta MetaNone = lit ''None''"

fun float_meta :: "meta \<Rightarrow> py_exc + pyfloat" where
  "float_meta (MetaText t) = (case py_float t of None \<Rightarrow> Inl ValueError | Some x \<Rightarrow> Inr x)"
| "float_meta (MetaInt n) = Inr (of_int_float n)"
| "float_meta (MetaFloat x) = Inr x"
| "float_meta MetaNone = Inl (TypeError [])"

definition inferred_status :: "flow_event list \<Rightarrow> pystr" where
  "inferred_status es =
     (if list_ex (has_type ''cache_hit'') es then lit ''hit''
      else if list_ex (has_type ''cache_miss'') es then lit ''miss''
      else if list_ex (has_type ''fallback_used'') es then lit ''fallback''
      else if list_ex (has_type ''error'') es then lit ''error''
      else if list_ex (\<lambda>e. event_mode e = lit ''redis_only_reference'') es then lit ''reference_hit''
      else lit ''db_only'')"

definition infer_cache_status :: "flow_event list \<Rightarrow> pystr" where
  "infer_cache_status es =
     (case response_event es of
        None \<Rightarrow> inferred_status es
      | Some e \<Rightarrow>
          (case map_of (event_metadata e) (lit ''cache_status'') of
             None \<Rightarrow> inferred_status es
           | Some m \<Rightarrow> if truthy m then str_meta m else inferred_status es))"

definition infer_total_duration_ms :: "flow_event list \<Rightarrow> pyfloat \<Rightarrow> py_exc + pyfloat" where
  "infer_total_duration_ms es finished =
     (case response_event es of
        None \<Rightarrow> Inr (round2 finished)
      | Some e \<Rightarrow>
          (case map_of (event_metadata e) (lit ''total_duration_ms'') of
             None \<Rightarrow> Inr (round2 finished)
           | Some m \<Rightarrow> if m = MetaNone then Inr (round2 finished) else rbind (float_meta m) (\<lambda>x. Inr (round2 x))))"

definition build_path_summary :: "pystr \<Rightarrow> pystr \<Rightarrow> bool \<Rightarrow> pystr" where
  "build_path_summary md cache_status err =
     (if md = lit ''db_only'' then lit ''App -> DB -> Response''
      else if md = lit ''redis_only_reference'' then lit ''App -> Redis -> Response''
      else if err \<and> cache_status \<in> {lit ''fallback'', lit ''miss_writeback_failed''} then lit ''App -> Redis -> DB -> Response''
      else if cache_status = lit ''hit'' then lit ''App -> Redis -> Response''
      else if cache_status \<in> {lit ''miss'', lit ''miss_writeback_failed''} then lit ''App -> Redis -> DB -> Redis -> Response''
      else if cache_status = lit ''fallback'' then lit ''App -> Redis -> DB -> Response''
      else lit ''App -> Redis -> DB -> Response'')"

definition build_request_timeline :: "pystr \<Rightarrow> flow_event list \<Rightarrow> py_exc + request_timeline" where
  "build_request_timeline rid events =
     (let es = sort_events events
      in if es = [] then Inl IndexError
         else let md = event_mode (hd es); finished = event_timestamp (last es); status = infer_cache_status es;
                  err = list_ex (has_type ''error'') es
              in rbind (infer_total_duration_ms es finished) (\<lambda>duration.
                   Inr \<lparr>tl_request_id = rid, tl_mode = md, tl_started_at_ms = event_timestamp (hd es),
                        tl_finished_at_ms = finished, tl_total_duration_ms = duration, tl_cache_status = status,
                        tl_path_summary = build_path_summary md status err, tl_has_error = err,
                        tl_stage_durations = aggregate_stage_durations es, tl_event_count = length es, tl_events = es\<rparr>))"

text \<open>The events of each request, the requests in the order in which they appear first.\<close>

definition group_events :: "flow_event list \<Rightarrow> (pystr, flow_event list) dict" where
  "group_events es =
     fold (\<lambda>e d. AList.update (event_request_id e)
       ((case map_of d (event_request_id e) of None \<Rightarrow> [] | Some fs \<Rightarrow> fs) @ [e]) d) es []"

fun all_results :: "(py_exc + 'a) list \<Rightarrow> py_exc + 'a list" where
  "all_results [] = Inr []"
| "all_results (r # rs) = rbind r (\<lambda>x. rbind (all_results rs) (\<lambda>xs. Inr (x # xs)))"

definition build_request_timelines :: "flow_event list \<Rightarrow> py_exc + request_timeline list" where
  "build_request_timelines events =
     all_results (map (\<lambda>(rid, es). build_request_timeline rid es) (group_events events))"

section \<open>The presentation\<close>

record kpis =
  kpi_db_avg_ms :: pyfloat
  kpi_redis_avg_ms :: pyfloat
  kpi_redis_hit_avg_ms :: "pyfloat option"
  kpi_redis_miss_avg_ms :: "pyfloat option"
  kpi_reference_avg_ms :: "pyfloat option"
  kpi_speedup_ratio :: pyfloat
  kpi_improvement_percent :: pyfloat
  kpi_break_even_hit_rate :: "int option"
  kpi_cache_hit_rate :: pyfloat
  kpi_error_count :: nat

record lane_item =
  item_mode :: pystr
  item_label :: pystr
  item_request_count :: nat
  item_avg_duration_ms :: "pyfloat option"
  item_hit_count :: nat
  item_miss_count :: nat
  item_fallback_count :: nat
  item_error_count :: nat

record chart_series =
  latency_comparison :: "(pystr \<times> pyfloat) list"
  path_ratio :: "(pystr \<times> nat) list"
  timeline_stage_totals :: "(pystr, pyfloat) dict"

record presentation =
  shown_status :: pystr
  shown_config :: run_config
  shown_kpis :: "kpis option"
  lane_summary :: "lane_item list"
  shown_charts :: chart_series

definition average_duration :: "request_timeline list \<Rightarrow> pyfloat option" where
  "average_duration rs =
     (if rs = [] then None
      else Some (round2 (fdiv (foldl fadd (Finite 0) (map tl_total_duration_ms rs)) (of_int_float (int (length rs))))))"

definition count_cache_status :: "request_timeline list \<Rightarrow> string \<Rightarrow> nat" where
  "count_cache_status rs st = length (filter (\<lambda>r. tl_cache_status r = lit st) rs)"

definition of_mode :: "string \<Rightarrow> request_timeline list \<Rightarrow> request_timeline list" where
  "of_mode md rs = filter (\<lambda>r. tl_mode r = lit md) rs"

definition hit_requests :: "request_timeline list \<Rightarrow> request_timeline list" where
  "hit_requests rs = filter (\<lambda>r. tl_cache_status r = lit ''hit'') (of_mode ''cache_aside'' rs)"

definition miss_requests :: "request_timeline list \<Rightarrow> request_timeline list" where
  "miss_requests rs =
     filter (\<lambda>r. tl_cache_status r \<in> {lit ''miss'', lit ''miss_writeback_failed''}) (of_mode ''cache_aside'' rs)"

definition build_kpis :: "run_summary option \<Rightarrow> request_timeline list \<Rightarrow> request_timeline list \<Rightarrow> kpis option" where
  "build_kpis summary hits missed =
     map_option (\<lambda>s.
       \<lparr>kpi_db_avg_ms = db_avg_ms s, kpi_redis_avg_ms = redis_avg_ms s, kpi_redis_hit_avg_ms = average_duration hits,
        kpi_redis_miss_avg_ms = average_duration missed, kpi_reference_avg_ms = reference_avg_ms s,
        kpi_speedup_ratio = speedup_ratio s, kpi_improvement_percent = improvement_percent s,
        kpi_break_even_hit_rate = break_even_hit_rate s, kpi_cache_hit_rate = cache_hit_rate s,
        kpi_error_count = error_count s\<rparr>) summary"

definition lane_item_of :: "string \<Rightarrow> string \<Rightarrow> request_timeline list \<Rightarrow> lane_item" where
  "lane_item_of md label rs =
     \<lparr>item_mode = lit md, item_label = lit label, item_request_count = length rs, item_avg_duration_ms = average_duration rs,
      item_hit_count = count_cache_status rs ''hit'' + count_cache_status rs ''reference_hit'',
      item_miss_count = count_cache_status rs ''miss'' + count_cache_status rs ''miss_writeback_failed'',
      item_fallback_count = count_cache_status rs ''fallback'', item_error_count = length (filter tl_has_error rs)\<rparr>"

definition has_reference :: "run_summary option \<Rightarrow> bool" where
  "has_reference summary = (case summary of None \<Rightarrow> False | Some s \<Rightarrow> reference_avg_ms s \<noteq> None)"

definition build_lane_summary :: "run_summary option \<Rightarrow> request_timeline list \<Rightarrow> lane_item list" where
  "build_lane_summary summary rs =
     [lane_item_of ''db_only'' ''DB Only'' (of_mode ''db_only'' rs),
      lane_item_of ''cache_aside'' ''Redis + DB'' (of_mode ''cache_aside'' rs)] @
     (if of_mode ''redis_only_reference'' rs = [] \<and> \<not> has_reference summary then []
      else [lane_item_of ''redis_only_reference'' ''Redis Only Reference'' (of_mode ''redis_only_reference'' rs)])"

definition labelled :: "string \<Rightarrow> 'a option \<Rightarrow> (pystr \<times> 'a) list" where
  "labelled label v = (case v of None \<Rightarrow> [] | Some x \<Rightarrow> [(lit label, x)])"

definition stage_totals :: "request_timeline list \<Rightarrow> (pystr, pyfloat) dict" where
  "stage_totals rs =
     fold (\<lambda>(stage, d) ds.
       let before = (case map_of ds stage of None \<Rightarrow> Finite 0 | Some x \<Rightarrow> x)
       in AList.update stage (round2 (fadd before d)) ds) (concat (map tl_stage_durations rs)) []"

definition build_chart_series :: "run_summary option \<Rightarrow> request_timeline list \<Rightarrow> chart_series" where
  "build_chart_series summary rs =
     (let hits = hit_requests rs; missed = miss_requests rs; hit_avg = average_duration hits
      in \<lparr>latency_comparison =
            labelled ''DB Only Avg'' (map_option db_avg_ms summary) @ labelled ''Redis Hit Avg'' hit_avg @
            labelled ''Redis Miss Avg'' (average_duration missed) @
            (if hit_avg = None then labelled ''Redis + DB Avg'' (map_option redis_avg_ms summary) else []) @
            labelled ''Redis Only Avg'' (Option.bind summary reference_avg_ms),
          path_ratio =
            [(lit ''DB Only'', length (of_mode ''db_only'' rs)), (lit ''Redis Hit'', length hits),
             (lit ''Redis Miss'', length missed), (lit ''Redis Reference'', length (of_mode ''redis_only_reference'' rs)),
             (lit ''Fallback'', count_cache_status rs ''fallback''), (lit ''Error'', length (filter tl_has_error rs))],
          timeline_stage_totals = stage_totals rs\<rparr>)"

definition build_presentation_payload ::
  "run_record \<Rightarrow> flow_event list \<Rightarrow> py_exc + presentation" where
  "build_presentation_payload r events =
     rbind (build_request_timelines events) (\<lambda>rs.
       Inr \<lparr>shown_status = run_status r, shown_config = run_configuration r,
            shown_kpis = build_kpis (run_summary_of r) (hit_requests rs) (miss_requests rs),
            lane_summary = build_lane_summary (run_summary_of r) rs,
            shown_charts = build_chart_series (run_summary_of r) rs\<rparr>)"

section \<open>Grouping\<close>

lemma insert_event_mset [simp]: "mset (insert_event e es) = add_mset e (mset es)"
  by (induction es) auto

lemma sort_events_mset [simp]: "mset (sort_events es) = mset es"
proof -
  have "mset (fold insert_event es fs) = mset es + mset fs" for fs by (induction es arbitrary: fs) auto
  then show ?thesis by (simp add: sort_events_def)
qed

lemma sort_events_set [simp]: "set (sort_events es) = set es"
  using mset_eq_setD[OF sort_events_mset] .

lemma sort_events_Nil [simp]: "sort_events es = [] \<longleftrightarrow> es = []"
  using mset_eq_length[OF sort_events_mset, of es] by (cases es) auto

lemma update_append_fresh: "k \<notin> fst ` set d \<Longrightarrow> AList.update k v d = d @ [(k, v)]"
  by (induction d) auto

lemma update_last: "k \<notin> fst ` set d \<Longrightarrow> AList.update k v (d @ [(k, w)]) = d @ [(k, v)]"
  by (induction d) auto

lemma map_of_last: "k \<notin> fst ` set d \<Longrightarrow> ([k \<mapsto> w] ++ map_of d) k = Some w"
  by (simp add: map_add_def map_of_eq_None_iff[THEN iffD2])

text \<open>The events of a request that is new and whose events are together form one group.\<close>

lemma group_block:
  assumes "es \<noteq> []" "\<forall>e\<in>set es. event_request_id e = rid" "rid \<notin> fst ` set d"
  shows "fold (\<lambda>e d. AList.update (event_request_id e)
      ((case map_of d (event_request_id e) of None \<Rightarrow> [] | Some fs \<Rightarrow> fs) @ [e]) d) es d = d @ [(rid, es)]"
    (is "fold ?f es d = _")
  using assms(1,2)
proof (induction es rule: rev_induct)
  case (snoc e es)
  show ?case
  proof (cases "es = []")
    case True
    have "map_of d rid = None" using assms(3) by (simp add: map_of_eq_None_iff)
    then show ?thesis using snoc.prems assms(3) True by (simp add: update_append_fresh)
  next
    case False
    then show ?thesis using snoc assms(3) by (simp add: update_last map_of_last)
  qed
qed simp

lemma group_blocks:
  assumes "list_all2 (\<lambda>rid es. es \<noteq> [] \<and> (\<forall>e\<in>set es. event_request_id e = rid)) rids blocks" "distinct rids"
  shows "group_events (concat blocks) = zip rids blocks"
proof -
  have "fold (\<lambda>e d. AList.update (event_request_id e)
      ((case map_of d (event_request_id e) of None \<Rightarrow> [] | Some fs \<Rightarrow> fs) @ [e]) d) (concat blocks) d = d @ zip rids blocks"
    if "fst ` set d \<inter> set rids = {}" for d
    using assms that
  proof (induction arbitrary: d rule: list_all2_induct)
    case (Cons rid rids es blocks)
    have "rid \<notin> fst ` set d" using Cons.prems(2) by auto
    then have b: "fold (\<lambda>e d. AList.update (event_request_id e)
      ((case map_of d (event_request_id e) of None \<Rightarrow> [] | Some fs \<Rightarrow> fs) @ [e]) d) es d = d @ [(rid, es)]"
      using Cons.hyps by (intro group_block) auto
    have "fst ` set (d @ [(rid, es)]) \<inter> set rids = {}" using Cons.prems by auto
    then show ?case using Cons.IH[of "d @ [(rid, es)]"] Cons.prems(1) b by (simp add: fold_append)
  qed simp
  from this[of "[]"] show ?thesis by (simp add: group_events_def)
qed

section \<open>The timeline of a recorded request\<close>

lemma filter_sort_single:
  assumes "filter P es = [e]"
  shows "filter P (sort_events es) = [e]"
proof -
  have "mset (filter P (sort_events es)) = {#e#}" using assms by (simp add: mset_filter flip: mset_single_iff)
  then show ?thesis by (simp only: mset_single_iff)
qed

lemma find_filter: "List.find P xs = (case filter P xs of [] \<Rightarrow> None | x # _ \<Rightarrow> Some x)"
  by (induction xs) auto

lemma find_rev_single: "filter P es = [e] \<Longrightarrow> List.find P (rev es) = Some e"
  by (simp add: find_filter flip: rev_filter)

lemma step_of:
  assumes "trace_item_of e = step_item md rid st t"
  shows "event_type e = lit t" "event_request_id e = rid" "event_mode e = lit md"
    "map_of (event_metadata e) (lit ''cache_status'') = (if t = ''response_sent'' then map_option (MetaText \<circ> lit) st else None)"
    "no_text (map_of (event_metadata e) (lit ''total_duration_ms''))"
  using assms by (simp_all add: trace_item_of_def step_item_def)

lemma steps_filter:
  assumes "map trace_item_of es = steps md rid st types"
  shows "map trace_item_of (filter (has_type t) es) = steps md rid st (filter ((=) t) types)"
  using assms
proof (induction es arbitrary: types)
  case (Cons e es)
  then obtain t' types' where types: "types = t' # types'" "trace_item_of e = step_item md rid st t'"
    "map trace_item_of es = steps md rid st types'" by (cases types) (auto simp: steps_def)
  then show ?case using Cons.IH[OF types(3)] step_of(1)[OF types(2)] by (auto simp: has_type_def)
qed (simp add: steps_def)

lemma steps_mem:
  assumes "map trace_item_of es = steps md rid st types"
  shows "\<And>e. e \<in> set es \<Longrightarrow> event_request_id e = rid \<and> event_mode e = lit md"
    and "list_ex (has_type t) es \<longleftrightarrow> t \<in> set types"
proof -
  have "set (map trace_item_of es) = set (steps md rid st types)" using assms by simp
  then have "trace_item_of ` set es = step_item md rid st ` set types" by (simp add: steps_def)
  note img = this
  show "event_request_id e = rid \<and> event_mode e = lit md" if "e \<in> set es" for e
  proof -
    have "trace_item_of e \<in> step_item md rid st ` set types" using img that by blast
    then show ?thesis using step_of by blast
  qed
  have "filter (has_type t) es = [] \<longleftrightarrow> filter ((=) t) types = []"
    using arg_cong[OF steps_filter[OF assms, of t], of length] by (auto simp: steps_def)
  then show "list_ex (has_type t) es \<longleftrightarrow> t \<in> set types"
    by (auto simp: list_ex_iff filter_empty_conv)
qed

text \<open>
  A request as it was recorded: mode, identifier, the status its response reports, the kinds of its
  events. Exactly one of them is a response; without a status it is a plain request to the database.
\<close>

type_synonym recorded = "string \<times> pystr \<times> string option \<times> string list"

definition recorded_steps :: "recorded \<Rightarrow> trace_item list" where
  "recorded_steps r = (case r of (md, rid, st, types) \<Rightarrow> steps md rid st types)"

definition well_recorded :: "recorded \<Rightarrow> bool" where
  "well_recorded r = (case r of (md, rid, st, types) \<Rightarrow>
     filter ((=) ''response_sent'') types = [''response_sent''] \<and> st \<noteq> Some [] \<and>
     (st = None \<longrightarrow> set types \<inter> {''cache_hit'', ''cache_miss'', ''fallback_used'', ''error''} = {} \<and> md \<noteq> ''redis_only_reference''))"

definition shows_request :: "recorded \<Rightarrow> request_timeline \<Rightarrow> bool" where
  "shows_request r line = (case r of (md, rid, st, types) \<Rightarrow>
     tl_request_id line = rid \<and> tl_mode line = lit md \<and> tl_has_error line = (''error'' \<in> set types) \<and>
     tl_cache_status line = lit (case st of Some x \<Rightarrow> x | None \<Rightarrow> ''db_only''))"

text \<open>
  The timeline of a request depends on the order of its events only in the times: mode, status and
  error are those of the recorded steps.
\<close>

lemma timeline_of_steps:
  assumes "map trace_item_of es = recorded_steps r" "well_recorded r"
  obtains tl where "build_request_timeline (fst (snd r)) es = Inr tl" "shows_request r tl"
proof -
  obtain md rid st types where r: "r = (md, rid, st, types)" by (cases r) auto
  have es: "map trace_item_of es = steps md rid st types" using assms(1) by (simp add: r recorded_steps_def)
  have ok: "filter ((=) ''response_sent'') types = [''response_sent'']" "st \<noteq> Some []"
    using assms(2) by (auto simp: r well_recorded_def)
  obtain e where e: "filter (has_type ''response_sent'') es = [e]" "trace_item_of e = step_item md rid st ''response_sent''"
    using steps_filter[OF es, of "''response_sent''"] ok by (auto simp: map_eq_Cons_conv)
  have resp: "response_event (sort_events es) = Some e"
    unfolding response_event_def by (rule find_rev_single) (rule filter_sort_single[OF e(1)])
  have ne: "es \<noteq> []" using e(1) by auto
  have "inferred_status (sort_events es) = lit ''db_only''" if "st = None"
  proof -
    have ex: "list_ex P (sort_events es) = list_ex P es" for P by (simp add: list_ex_iff)
    have "\<not> list_ex (\<lambda>e. event_mode e = lit ''redis_only_reference'') es"
      using steps_mem(1)[OF es] assms(2) that by (auto simp: list_ex_iff r well_recorded_def)
    then show ?thesis using assms(2) that
      by (auto simp: inferred_status_def ex steps_mem(2)[OF es] r well_recorded_def)
  qed
  then have status: "infer_cache_status (sort_events es) = lit (case st of Some x \<Rightarrow> x | None \<Rightarrow> ''db_only'')"
    using ok(2) by (auto simp: infer_cache_status_def resp step_of[OF e(2)] split: option.splits)
  have "\<exists>x. infer_total_duration_ms (sort_events es) t = Inr x" for t
    using step_of(5)[OF e(2)]
    by (auto simp: infer_total_duration_ms_def resp no_text_def split: option.splits meta.splits)
  then obtain x where x: "infer_total_duration_ms (sort_events es) (event_timestamp (last (sort_events es))) = Inr x" by blast
  have "hd (sort_events es) \<in> set es" using ne hd_in_set[of "sort_events es"] by simp
  then have md: "event_mode (hd (sort_events es)) = lit md" using steps_mem(1)[OF es] by blast
  have err: "list_ex (has_type ''error'') (sort_events es) = (''error'' \<in> set types)"
    using steps_mem(2)[OF es, of "''error''"] by (simp add: list_ex_iff)
  show ?thesis by (rule that) (auto simp: build_request_timeline_def Let_def ne x md err status r shows_request_def)
qed

lemma split_blocks:
  assumes "map f xs = concat (map g rs)"
  obtains blocks where "xs = concat blocks" "list_all2 (\<lambda>r es. map f es = g r) rs blocks"
proof -
  have "\<exists>blocks. xs = concat blocks \<and> list_all2 (\<lambda>r es. map f es = g r) rs blocks"
    using assms
  proof (induction rs arbitrary: xs)
    case (Cons r rs)
    then obtain ys zs where "xs = ys @ zs" "map f ys = g r" "map f zs = concat (map g rs)"
      by (auto simp: map_eq_append_conv)
    moreover from Cons.IH[OF this(3)] obtain blocks where
      "zs = concat blocks" "list_all2 (\<lambda>r es. map f es = g r) rs blocks" by blast
    ultimately show ?case by (intro exI[of _ "ys # blocks"]) auto
  qed simp
  then show ?thesis using that by blast
qed

text \<open>The timelines of recorded requests with different identifiers: one for each, in order.\<close>

lemma timelines_of_requests:
  assumes "map trace_item_of events = concat (map recorded_steps rs)" "list_all well_recorded rs"
    and "distinct (map (\<lambda>r. fst (snd r)) rs)"
  obtains tls where "build_request_timelines events = Inr tls" "list_all2 shows_request rs tls"
proof -
  obtain blocks where b: "events = concat blocks" "list_all2 (\<lambda>r es. map trace_item_of es = recorded_steps r) rs blocks"
    using split_blocks[OF assms(1)] .
  have "list_all2 (\<lambda>rid es. es \<noteq> [] \<and> (\<forall>e\<in>set es. event_request_id e = rid)) (map (\<lambda>r. fst (snd r)) rs) blocks"
    using b(2) assms(2)
  proof (induction rule: list_all2_induct)
    case (Cons r rs es blocks)
    obtain md rid st types where r: "r = (md, rid, st, types)" by (cases r) auto
    have "types \<noteq> []" using Cons.prems by (auto simp: r well_recorded_def)
    then have "es \<noteq> []" using Cons.hyps(1) by (auto simp: r recorded_steps_def steps_def)
    moreover have "map trace_item_of es = steps md rid st types" using Cons.hyps(1) by (simp add: r recorded_steps_def)
    ultimately show ?case using Cons.IH Cons.prems steps_mem(1) by (auto simp: r)
  qed simp
  then have groups: "group_events events = zip (map (\<lambda>r. fst (snd r)) rs) blocks"
    unfolding b(1) using assms(3) by (rule group_blocks)
  have "\<exists>tls. all_results (map (\<lambda>(rid, es). build_request_timeline rid es) (zip (map (\<lambda>r. fst (snd r)) rs) blocks)) = Inr tls \<and>
      list_all2 shows_request rs tls"
    using b(2) assms(2)
  proof (induction rule: list_all2_induct)
    case (Cons r rs es blocks)
    then obtain tls where "all_results (map (\<lambda>(rid, es). build_request_timeline rid es) (zip (map (\<lambda>r. fst (snd r)) rs) blocks)) = Inr tls"
      "list_all2 shows_request rs tls" by auto
    moreover obtain tl where "build_request_timeline (fst (snd r)) es = Inr tl" "shows_request r tl"
      using timeline_of_steps[OF Cons.hyps(1)] Cons.prems by auto
    ultimately show ?case by (intro exI[of _ "tl # tls"]) simp
  qed simp
  then show ?thesis using that groups by (auto simp: build_request_timelines_def)
qed

section \<open>The requests of a run\<close>

definition baseline_requests :: "nat list \<Rightarrow> recorded list" where
  "baseline_requests plan = map (\<lambda>index. (''db_only'', lit ''baseline-'' @ show_nat index, None,
     [''request_started'', ''db_query_started'', ''db_query_completed'', ''response_sent''])) plan"

definition cache_requests :: "(int \<times> nat) list \<Rightarrow> request_outcome list \<Rightarrow> recorded list" where
  "cache_requests plan outs = map2 (\<lambda>(bucket, index) out.
     (''cache_aside'', lit ''cache-'' @ cache_record_id bucket index, Some (outcome_status out), outcome_events out)) plan outs"

definition reference_requests :: "nat list \<Rightarrow> recorded list" where
  "reference_requests plan = map (\<lambda>index. (''redis_only_reference'', lit ''reference-'' @ show_nat index,
     Some ''reference_hit'', [''request_started'', ''cache_hit'', ''response_sent''])) plan"

definition run_requests :: "run_config \<Rightarrow> request_outcome list \<Rightarrow> recorded list" where
  "run_requests cfg outs =
     baseline_requests [0..<nat (iteration_count cfg)] @ cache_requests (cache_plan cfg) outs @
     reference_requests (reference_plan cfg)"

lemma outcome_trace_requests:
  "length outs = length plan \<Longrightarrow> outcome_trace plan outs = concat (map recorded_steps (cache_requests plan outs))"
  by (induction outs plan rule: list_induct2) (auto simp: cache_requests_def recorded_steps_def)

lemma full_trace_requests:
  assumes "length outs = length (cache_plan cfg)"
  shows "full_trace cfg outs = concat (map recorded_steps (run_requests cfg outs))"
  using outcome_trace_requests[OF assms]
  by (simp add: full_trace_def run_requests_def baseline_trace_def reference_trace_def baseline_requests_def
      reference_requests_def recorded_steps_def comp_def)

lemma outcome_recorded: "well_recorded (''cache_aside'', rid, Some (outcome_status out), outcome_events out)"
  by (cases out) (simp_all add: well_recorded_def)

lemma run_requests_recorded: "list_all well_recorded (run_requests cfg outs)"
  by (auto simp: run_requests_def baseline_requests_def reference_requests_def cache_requests_def list_all_iff
      outcome_recorded set_zip well_recorded_def[of "(''db_only'', _)"] well_recorded_def[of "(''redis_only_reference'', _)"])

lemma show_nat_inj [simp]: "show_nat m = show_nat n \<longleftrightarrow> m = n"
  by (metis py_int_show_nat of_nat_eq_iff option.inject)

lemma show_int_inj [simp]: "show_int m = show_int n \<longleftrightarrow> m = n"
  by (metis py_int_show_int option.inject)

lemma append_separator:
  assumes "c \<notin> set ys" "c \<notin> set ys'"
  shows "xs @ c # ys = xs' @ c # ys' \<longleftrightarrow> xs = xs' \<and> ys = ys'"
proof
  assume eq: "xs @ c # ys = xs' @ c # ys'"
  have cut: "takeWhile ((\<noteq>) c) (rev (us @ c # vs)) = rev vs" if "c \<notin> set vs" for us vs
    using that by (auto simp: takeWhile_append)
  have "rev ys = rev ys'" using arg_cong[OF eq, of "\<lambda>l. takeWhile ((\<noteq>) c) (rev l)"] unfolding cut[OF assms(1)] cut[OF assms(2)] .
  then show "xs = xs' \<and> ys = ys'" using eq by simp
qed simp

lemma record_id_inj [simp]: "cache_record_id b i = cache_record_id c j \<longleftrightarrow> b = c \<and> i = j"
proof -
  have "45 \<notin> set (show_nat n)" for n by (auto simp: is_digit_def dest: show_nat_digits)
  then show ?thesis using append_separator[of 45 "show_nat i" "show_nat j" "show_int b" "show_int c"]
    by (simp add: cache_record_id_def lit_def)
qed

lemma distinct_cache_plan:
  assumes "distinct (hit_rate_buckets cfg)"
  shows "distinct (cache_plan cfg)"
proof -
  have "distinct (concat (map (\<lambda>b. map (Pair b) [0..<n]) bs))" if "distinct bs" for bs and n :: nat
    using that by (induction bs) (auto simp: distinct_map inj_on_def)
  from this[of "[50 :: int]"] this[OF assms] show ?thesis by (simp add: cache_plan_def Let_def)
qed

lemma run_requests_distinct:
  assumes "distinct (hit_rate_buckets cfg)" "length outs = length (cache_plan cfg)"
  shows "distinct (map (\<lambda>r. fst (snd r)) (run_requests cfg outs))"
proof -
  have cache: "map (\<lambda>r. fst (snd r)) (cache_requests plan outs) = map (\<lambda>(b, i). lit ''cache-'' @ cache_record_id b i) plan"
    if "length outs = length plan" for plan
    using that by (induction outs plan rule: list_induct2) (auto simp: cache_requests_def)
  have "distinct (map (\<lambda>(b, i). lit ''cache-'' @ cache_record_id b i) (cache_plan cfg))"
    using distinct_cache_plan[OF assms(1)] by (auto simp: distinct_map inj_on_def)
  then show ?thesis unfolding run_requests_def map_append cache[OF assms(2)]
    by (auto simp: baseline_requests_def reference_requests_def distinct_map inj_on_def lit_def reference_plan_def)
qed

section \<open>Counting\<close>

text \<open>What the counts of the presentation depend on: mode, status and error of each timeline.\<close>

definition face :: "recorded \<Rightarrow> pystr \<times> pystr \<times> bool" where
  "face r = (case r of (md, rid, st, types) \<Rightarrow>
     (lit md, lit (case st of Some x \<Rightarrow> x | None \<Rightarrow> ''db_only''), ''error'' \<in> set types))"

lemma shown_faces:
  "list_all2 shows_request rs tls \<Longrightarrow> map (\<lambda>t. (tl_mode t, tl_cache_status t, tl_has_error t)) tls = map face rs"
  by (induction rule: list_all2_induct) (auto simp: shows_request_def face_def split: prod.splits)

lemma count_faces:
  assumes "map (\<lambda>t. (tl_mode t, tl_cache_status t, tl_has_error t)) tls = map face rs"
  shows "length (filter (\<lambda>t. P (tl_mode t) (tl_cache_status t) (tl_has_error t)) tls) =
    length (filter (\<lambda>r. case face r of (m, c, e) \<Rightarrow> P m c e) rs)"
proof -
  have "length (filter (\<lambda>t. P (tl_mode t) (tl_cache_status t) (tl_has_error t)) tls) =
      length (filter (\<lambda>(m, c, e). P m c e) (map (\<lambda>t. (tl_mode t, tl_cache_status t, tl_has_error t)) tls))"
    by (simp add: filter_map comp_def)
  then show ?thesis unfolding assms by (simp add: filter_map comp_def)
qed

lemma cache_faces:
  "length outs = length plan \<Longrightarrow>
   map face (cache_requests plan outs) = map (\<lambda>out. (lit ''cache_aside'', lit (outcome_status out), out \<in> {Fallback, MissUnsaved})) outs"
proof (induction outs plan rule: list_induct2)
  case (Cons out outs p plan)
  then show ?case by (cases p; cases out) (auto simp: cache_requests_def face_def)
qed (simp add: cache_requests_def)

lemma length_filter_map: "length (filter P (map f xs)) = length (filter (P \<circ> f) xs)"
  by (simp add: filter_map)

text \<open>The counts of the lane with the cache, and the number of requests to the database alone.\<close>

lemma run_faces:
  assumes "length outs = length (cache_plan cfg)"
  shows "length (filter (\<lambda>r. case face r of (m, c, e) \<Rightarrow> m = lit ''cache_aside'' \<and> P c e) (run_requests cfg outs)) =
      length (filter (\<lambda>out. P (lit (outcome_status out)) (out \<in> {Fallback, MissUnsaved})) outs)"
    and "length (filter (\<lambda>r. case face r of (m, c, e) \<Rightarrow> m = lit ''db_only'') (run_requests cfg outs)) = nat (iteration_count cfg)"
proof -
  have faces: "map face (run_requests cfg outs) =
      replicate (nat (iteration_count cfg)) (lit ''db_only'', lit ''db_only'', False) @
      map (\<lambda>out. (lit ''cache_aside'', lit (outcome_status out), out \<in> {Fallback, MissUnsaved})) outs @
      replicate (length (reference_plan cfg)) (lit ''redis_only_reference'', lit ''reference_hit'', False)"
    unfolding run_requests_def map_append cache_faces[OF assms]
    by (simp add: baseline_requests_def reference_requests_def face_def comp_def map_replicate_const)
  have count: "length (filter (\<lambda>r. Q (face r)) (run_requests cfg outs)) = length (filter Q (map face (run_requests cfg outs)))" for Q
    by (simp add: length_filter_map comp_def)
  show "length (filter (\<lambda>r. case face r of (m, c, e) \<Rightarrow> m = lit ''cache_aside'' \<and> P c e) (run_requests cfg outs)) =
      length (filter (\<lambda>out. P (lit (outcome_status out)) (out \<in> {Fallback, MissUnsaved})) outs)"
    unfolding count[of "\<lambda>(m, c, e). m = lit ''cache_aside'' \<and> P c e"] faces by (simp add: filter_map comp_def)
  show "length (filter (\<lambda>r. case face r of (m, c, e) \<Rightarrow> m = lit ''db_only'') (run_requests cfg outs)) = nat (iteration_count cfg)"
    unfolding count[of "\<lambda>(m, c, e). m = lit ''db_only''"] faces by (simp add: filter_map comp_def)
qed

lemma count_list_filter: "count_list xs x = length (filter ((=) x) xs)"
  by (induction xs) auto

lemma lane_counts:
  assumes "length outs = length (cache_plan cfg)" "list_all2 shows_request (run_requests cfg outs) tls"
  defines "item \<equiv> lane_item_of ''cache_aside'' ''Redis + DB'' (of_mode ''cache_aside'' tls)"
  shows "item_request_count item = length outs" "item_hit_count item = count_list outs Hit"
    "item_miss_count item = count_list outs Miss + count_list outs MissUnsaved"
    "item_fallback_count item = count_list outs Fallback"
    "item_error_count item = count_list outs Fallback + count_list outs MissUnsaved"
    and "length (of_mode ''db_only'' tls) = nat (iteration_count cfg)"
proof -
  have count: "length (filter (\<lambda>t. tl_mode t = lit ''cache_aside'' \<and> P (tl_cache_status t) (tl_has_error t)) tls) =
      length (filter (\<lambda>out. P (lit (outcome_status out)) (out \<in> {Fallback, MissUnsaved})) outs)" for P
    unfolding count_faces[OF shown_faces[OF assms(2)], of "\<lambda>m c e. m = lit ''cache_aside'' \<and> P c e"]
    by (rule run_faces(1)[OF assms(1)])
  have one: "length (filter (\<lambda>out. lit (outcome_status out) = lit (outcome_status x)) outs) = count_list outs x" for x
    unfolding count_list_filter by (rule arg_cong[of _ _ "\<lambda>P. length (filter P outs)"]) (auto simp: fun_eq_iff elim: outcome_status.elims)
  have none: "length (filter (\<lambda>out. lit (outcome_status out) = lit ''reference_hit'') outs) = 0"
    by (auto simp: filter_empty_conv elim: outcome_status.elims)
  note status = count[of "\<lambda>c e. c = lit st" for st]
  have err: "length (filter (\<lambda>out. out \<in> {Fallback, MissUnsaved}) outs) = count_list outs Fallback + count_list outs MissUnsaved"
    by (induction outs) auto
  show "item_request_count item = length outs" using count[of "\<lambda>c e. True"] by (simp add: item_def lane_item_of_def of_mode_def)
  show "item_hit_count item = count_list outs Hit" "item_miss_count item = count_list outs Miss + count_list outs MissUnsaved"
    "item_fallback_count item = count_list outs Fallback"
    using status[of "''hit''"] status[of "''reference_hit''"] status[of "''miss''"] status[of "''miss_writeback_failed''"]
      status[of "''fallback''"] one[of Hit] one[of Miss] one[of MissUnsaved] one[of Fallback] none
    by (simp_all add: item_def lane_item_of_def of_mode_def count_cache_status_def conj_commute)
  show "item_error_count item = count_list outs Fallback + count_list outs MissUnsaved"
    using count[of "\<lambda>c e. e"] err by (simp add: item_def lane_item_of_def of_mode_def conj_commute)
  show "length (of_mode ''db_only'' tls) = nat (iteration_count cfg)"
    using count_faces[OF shown_faces[OF assms(2)], of "\<lambda>m c e. m = lit ''db_only''"] run_faces(2)[OF assms(1)]
    by (simp add: of_mode_def)
qed

end
