(* ===== verification/RunStore.thy ===== *)
theory RunStore
  imports BenchProps
begin

text \<open>
  The files of the runs (\<open>app/storage/run_store.py\<close>) and the application that starts and stops runs
  (\<open>BenchmarkApplication\<close> in \<open>app/api/server.py\<close>).

  A file is a value under the identifier of its run, and a write replaces it in one step; times of
  creation and update are not kept (\<open>RunFiles\<close> has the files with their text). The threads of the application are interleaved in a step relation: a
  step is a section under the lock, a read or a write of a file. A run thread is the list of records it
  still has to write; which lists are possible is what the runner promises (whether a run is cancelled is
  left open, so the relation has every interleaving of the code and more).

  Main results: at most one run is active; without stop requests a new run can be started whenever none is
  active; a stop request that is overtaken by the end of the run blocks every later run.
\<close>

section \<open>Files\<close>

record run_files =
  run_table :: "(pystr, run_record) dict"
  event_table :: "(pystr, flow_event list) dict"
  log_table :: "(pystr, log_entry list) dict"

definition lines_of :: "(pystr, 'a list) dict \<Rightarrow> pystr \<Rightarrow> 'a list" where
  "lines_of d rid = (case map_of d rid of None \<Rightarrow> [] | Some xs \<Rightarrow> xs)"

definition store_write_run :: "pystr \<Rightarrow> run_record \<Rightarrow> run_files \<Rightarrow> run_files" where
  "store_write_run rid r fs = fs\<lparr>run_table := AList.update rid r (run_table fs)\<rparr>"

text \<open>\<open>None\<close>: there is no such file.\<close>

definition store_read_run :: "pystr \<Rightarrow> run_files \<Rightarrow> run_record option" where
  "store_read_run rid fs = map_of (run_table fs) rid"

definition store_append_event :: "pystr \<Rightarrow> flow_event \<Rightarrow> run_files \<Rightarrow> run_files" where
  "store_append_event rid e fs = fs\<lparr>event_table := AList.update rid (lines_of (event_table fs) rid @ [e]) (event_table fs)\<rparr>"

definition store_read_events :: "pystr \<Rightarrow> run_files \<Rightarrow> flow_event list" where
  "store_read_events rid fs = lines_of (event_table fs) rid"

definition store_read_events_after :: "pystr \<Rightarrow> pyfloat option \<Rightarrow> run_files \<Rightarrow> flow_event list" where
  "store_read_events_after rid after fs =
     (case after of
        None \<Rightarrow> store_read_events rid fs
      | Some t \<Rightarrow> filter (\<lambda>e. flt t (event_timestamp e)) (store_read_events rid fs))"

definition store_append_log :: "pystr \<Rightarrow> log_entry \<Rightarrow> run_files \<Rightarrow> run_files" where
  "store_append_log rid e fs = fs\<lparr>log_table := AList.update rid (lines_of (log_table fs) rid @ [e]) (log_table fs)\<rparr>"

definition store_read_logs :: "pystr \<Rightarrow> run_files \<Rightarrow> log_entry list" where
  "store_read_logs rid fs = lines_of (log_table fs) rid"

record run_item =
  listed_id :: pystr
  listed_status :: pystr
  listed_scenario :: pystr

definition serialize_run_list_item :: "pystr \<Rightarrow> run_record \<Rightarrow> run_item" where
  "serialize_run_list_item rid r =
     \<lparr>listed_id = rid, listed_status = run_status r, listed_scenario = scenario (run_configuration r)\<rparr>"

text \<open>The files \<open>run_*.json\<close>, the last name first.\<close>

definition list_runs :: "run_files \<Rightarrow> run_item list" where
  "list_runs fs =
     map (\<lambda>(rid, r). serialize_run_list_item rid r)
       (rev (sort_key fst (filter (\<lambda>(rid, r). take 4 rid = lit ''run_'') (run_table fs))))"

definition active_statuses :: "pystr list" where
  "active_statuses =
     map lit [''queued'', ''bootstrapping'', ''warming_up'', ''running_baseline'', ''running_cache'',
       ''running_reference'', ''aggregating'', ''cancelling'']"

definition has_active_run :: "run_files \<Rightarrow> bool" where
  "has_active_run fs = list_ex (\<lambda>item. listed_status item \<in> set active_statuses) (list_runs fs)"

section \<open>The application\<close>

record app_state =
  files :: run_files
  active_run_id :: "pystr option"
  cancel_events :: "(pystr, bool) dict"

definition build_run_id :: "nat \<Rightarrow> pystr" where
  "build_run_id now_ms = lit ''run_'' @ show_nat now_ms"

definition queued_run :: "run_config \<Rightarrow> run_record" where
  "queued_run cfg =
     \<lparr>run_status = lit ''queued'', run_configuration = cfg, run_finished = False, run_summary_of = None,
      run_error_message = None\<rparr>"

definition log_line :: "string \<Rightarrow> string \<Rightarrow> string \<Rightarrow> log_entry" where
  "log_line level stage message =
     \<lparr>entry_level = lit level, entry_stage = lit stage, entry_message = lit message, entry_metadata = []\<rparr>"

definition create_run :: "nat \<Rightarrow> run_config \<Rightarrow> app_state \<Rightarrow> (pystr \<times> run_record) option \<times> app_state" where
  "create_run now_ms cfg app =
     (let rid = build_run_id now_ms; r = queued_run cfg
      in if active_run_id app \<noteq> None \<or> has_active_run (files app) then (None, app)
         else (Some (rid, r),
               app\<lparr>active_run_id := Some rid, cancel_events := AList.update rid False (cancel_events app),
                   files := store_append_log rid (log_line ''INFO'' ''bootstrap'' ''benchmark queued'')
                     (store_write_run rid r (files app))\<rparr>))"

text \<open>\<open>stop_run\<close>: the section under the lock, and the marking of the record that was read after it.\<close>

definition stop_lock :: "pystr \<Rightarrow> app_state \<Rightarrow> (bool \<times> string) \<times> app_state" where
  "stop_lock rid app =
     (if active_run_id app \<noteq> Some rid \<or> map_of (cancel_events app) rid = None
      then ((False, ''run is not active''), app)
      else if map_of (cancel_events app) rid = Some True then ((False, ''run is already cancelling''), app)
      else ((True, ''cancellation requested''), app\<lparr>cancel_events := AList.update rid True (cancel_events app)\<rparr>))"

definition final_statuses :: "pystr list" where
  "final_statuses = map lit [''cancelled'', ''completed'', ''failed'']"

definition stop_mark :: "pystr \<Rightarrow> run_record \<Rightarrow> app_state \<Rightarrow> app_state" where
  "stop_mark rid r app =
     (if run_status r \<in> set final_statuses then app
      else app\<lparr>files := store_append_log rid (log_line ''INFO'' ''cancel'' ''benchmark cancellation requested'')
             (store_write_run rid (r\<lparr>run_status := lit ''cancelling''\<rparr>) (files app))\<rparr>)"

definition stop_run :: "pystr \<Rightarrow> app_state \<Rightarrow> (bool \<times> string) \<times> app_state" where
  "stop_run rid app =
     (case stop_lock rid app of
        ((False, m), app1) \<Rightarrow> ((False, m), app1)
      | ((True, m), app1) \<Rightarrow>
          (case store_read_run rid (files app1) of
             None \<Rightarrow> ((True, m), app1)
           | Some r \<Rightarrow> ((True, m), stop_mark rid r app1)))"

definition release :: "pystr \<Rightarrow> app_state \<Rightarrow> app_state" where
  "release rid app =
     app\<lparr>active_run_id := (if active_run_id app = Some rid then None else active_run_id app),
         cancel_events := AList.delete rid (cancel_events app)\<rparr>"

text \<open>A run thread when nothing comes between: the runner on the files of its run, and the release.\<close>

definition bench_of :: "'w \<Rightarrow> pystr \<Rightarrow> run_record \<Rightarrow> run_files \<Rightarrow> 'w bench" where
  "bench_of w rid r fs =
     \<lparr>world = w, flow_events = store_read_events rid fs, log_entries = store_read_logs rid fs, run_rec = r, run_writes = []\<rparr>"

definition run_and_release :: "'w bench_env \<Rightarrow> 'w \<Rightarrow> pystr \<Rightarrow> app_state \<Rightarrow> app_state" where
  "run_and_release env w rid app =
     release rid
       (case store_read_run rid (files app) of
          None \<Rightarrow> app
        | Some r \<Rightarrow>
            (let b = run_benchmark env (bench_of w rid r (files app))
             in app\<lparr>files := (store_write_run rid (run_rec b) (files app))
                  \<lparr>event_table := AList.update rid (flow_events b) (event_table (files app)),
                   log_table := AList.update rid (log_entries b) (log_table (files app))\<rparr>\<rparr>))"

section \<open>Threads\<close>

text \<open>The records a run writes, as the runner promises them.\<close>

definition promised_writes :: "run_record \<Rightarrow> run_record list \<Rightarrow> bool" where
  "promised_writes r ws \<longleftrightarrow>
     (\<exists>k st. st \<in> {''completed'', ''cancelled'', ''failed''} \<and>
        map run_status ws = map lit (''bootstrapping'' # take k (lifecycle (run_configuration r)) @ [st]))"

record conc =
  app :: app_state
  run_threads :: "(pystr \<times> run_record list) list"
  stops :: "(pystr \<times> run_record option) list"

inductive app_step :: "conc \<Rightarrow> conc \<Rightarrow> bool" where
  created: "create_run now_ms cfg (app c) = (Some (rid, r), a) \<Longrightarrow> promised_writes r ws \<Longrightarrow>
    app_step c (c\<lparr>app := a, run_threads := run_threads c @ [(rid, ws)]\<rparr>)"
| wrote: "run_threads c = ts @ (rid, w # ws) # us \<Longrightarrow>
    app_step c (c\<lparr>app := (app c)\<lparr>files := store_write_run rid w (files (app c))\<rparr>, run_threads := ts @ (rid, ws) # us\<rparr>)"
| released: "run_threads c = ts @ (rid, []) # us \<Longrightarrow>
    app_step c (c\<lparr>app := release rid (app c), run_threads := ts @ us\<rparr>)"
| stop_locked: "stop_lock rid (app c) = ((True, m), a) \<Longrightarrow>
    app_step c (c\<lparr>app := a, stops := stops c @ [(rid, None)]\<rparr>)"
| stop_read: "stops c = ts @ (rid, None) # us \<Longrightarrow> store_read_run rid (files (app c)) = Some r \<Longrightarrow>
    app_step c (c\<lparr>stops := ts @ (rid, Some r) # us\<rparr>)"
| stop_marked: "stops c = ts @ (rid, Some r) # us \<Longrightarrow>
    app_step c (c\<lparr>app := stop_mark rid r (app c), stops := ts @ us\<rparr>)"

definition conc_init :: conc where
  "conc_init =
     \<lparr>app = \<lparr>files = \<lparr>run_table = [], event_table = [], log_table = []\<rparr>, active_run_id = None, cancel_events = []\<rparr>,
      run_threads = [], stops = []\<rparr>"

inductive app_run :: "conc \<Rightarrow> bool" where
  start: "app_run conc_init"
| step: "app_run c \<Longrightarrow> app_step c c' \<Longrightarrow> app_run c'"

inductive_cases app_stepE: "app_step c c'"

section \<open>One run at a time\<close>

lemma release_fields [simp]:
  "files (release rid a) = files a" "active_run_id (release rid a) = (if active_run_id a = Some rid then None else active_run_id a)"
  "cancel_events (release rid a) = AList.delete rid (cancel_events a)"
  by (simp_all add: release_def)

lemma stop_mark_fields [simp]:
  "active_run_id (stop_mark rid r a) = active_run_id a" "cancel_events (stop_mark rid r a) = cancel_events a"
  by (simp_all add: stop_mark_def)

definition one_run :: "conc \<Rightarrow> bool" where
  "one_run c \<longleftrightarrow>
     map fst (run_threads c) = (case active_run_id (app c) of None \<Rightarrow> [] | Some rid \<Rightarrow> [rid]) \<and>
     map fst (cancel_events (app c)) = map fst (run_threads c)"

lemma one_run_step:
  assumes "app_step c c'" "one_run c"
  shows "one_run c'"
  using assms
proof (cases rule: app_step.cases)
  case (created now_ms cfg rid r a ws)
  then show ?thesis using assms(2)
    by (auto simp: create_run_def one_run_def Let_def split: if_splits)
next
  case (wrote ts rid w ws us)
  then show ?thesis using assms(2) by (simp add: one_run_def)
next
  case (released ts rid us)
  then have "active_run_id (app c) = Some rid" "ts = []" "us = []"
    using assms(2) by (auto simp: one_run_def append_eq_Cons_conv split: option.splits)
  then show ?thesis using assms(2) released by (auto simp: one_run_def)
next
  case (stop_locked rid m a)
  then show ?thesis using assms(2)
    by (auto simp: one_run_def stop_lock_def map_of_eq_None_iff split: if_splits option.splits)
next
  case (stop_read ts rid us r)
  then show ?thesis using assms(2) by (simp add: one_run_def)
next
  case (stop_marked ts rid r us)
  then show ?thesis using assms(2) by (simp add: one_run_def)
qed

lemma one_run_always: "app_run c \<Longrightarrow> one_run c"
proof (induction rule: app_run.induct)
  case start
  show ?case by (simp add: one_run_def conc_init_def)
qed (rule one_run_step)

section \<open>Runs without stop requests\<close>

inductive quiet_run :: "conc \<Rightarrow> bool" where
  start: "quiet_run conc_init"
| step: "quiet_run c \<Longrightarrow> app_step c c' \<Longrightarrow> stops c' = [] \<Longrightarrow> quiet_run c'"

lemma quiet_run_run: "quiet_run c \<Longrightarrow> app_run c \<and> stops c = []"
proof (induction rule: quiet_run.induct)
  case start
  show ?case by (simp add: app_run.start) (simp add: conc_init_def)
qed (auto intro: app_run.step)

lemma final_names: "lit st \<in> set final_statuses \<longleftrightarrow> st \<in> {''completed'', ''cancelled'', ''failed''}"
  by (auto simp: final_statuses_def)

lemma final_not_active: "x \<in> set final_statuses \<Longrightarrow> x \<notin> set active_statuses"
  by (auto simp: final_statuses_def active_statuses_def)

lemma promised_last: "promised_writes r ws \<Longrightarrow> ws \<noteq> [] \<and> run_status (last ws) \<in> set final_statuses"
proof -
  assume "promised_writes r ws"
  then obtain k st where w: "map run_status ws = map lit (''bootstrapping'' # take k (lifecycle (run_configuration r)) @ [st])"
    "st \<in> {''completed'', ''cancelled'', ''failed''}" by (auto simp: promised_writes_def)
  then have "ws \<noteq> []" by auto
  then have "run_status (last ws) = lit st" using arg_cong[OF w(1), of last] by (simp add: last_map)
  then show ?thesis using w(2) \<open>ws \<noteq> []\<close> by (simp add: final_names)
qed

text \<open>
  A record that is not final has a run thread with something left to write, and the last thing it
  writes is final.
\<close>

definition settled :: "conc \<Rightarrow> bool" where
  "settled c \<longleftrightarrow>
     distinct (map fst (run_table (files (app c)))) \<and>
     (\<forall>rid r. store_read_run rid (files (app c)) = Some r \<longrightarrow>
        run_status r \<in> set final_statuses \<or> (\<exists>ws. (rid, ws) \<in> set (run_threads c) \<and> ws \<noteq> [])) \<and>
     (\<forall>(rid, ws) \<in> set (run_threads c). ws \<noteq> [] \<longrightarrow> run_status (last ws) \<in> set final_statuses)"

lemma store_simps [simp]:
  "store_read_run k (store_write_run rid r fs) = (if k = rid then Some r else store_read_run k fs)"
  "store_read_run k (store_append_log rid e fs) = store_read_run k fs"
  "run_table (store_append_log rid e fs) = run_table fs"
  "run_table (store_write_run rid r fs) = AList.update rid r (run_table fs)"
  by (simp_all add: store_read_run_def store_write_run_def store_append_log_def update_conv')

lemma settled_step:
  assumes "app_step c c'" "settled c" "stops c = []" "one_run c"
  shows "settled c' \<or> stops c' \<noteq> []"
  using assms(1)
proof (cases rule: app_step.cases)
  case (created now_ms cfg rid r a ws)
  then have "run_threads c = []" "active_run_id (app c) = None"
    using assms(4) by (auto simp: one_run_def create_run_def Let_def split: if_splits)
  then show ?thesis using assms(2) created promised_last[of r ws]
    by (fastforce simp: create_run_def settled_def Let_def distinct_update split: if_splits)
next
  case (wrote ts rid w ws us)
  then have "ts = []" "us = []" using assms(4) by (auto simp: one_run_def append_eq_Cons_conv split: option.splits)
  then show ?thesis using assms(2) wrote by (cases ws) (auto simp: settled_def distinct_update)
next
  case (released ts rid us)
  then have "ts = []" "us = []" using assms(4) by (auto simp: one_run_def append_eq_Cons_conv split: option.splits)
  then show ?thesis using assms(2) released by (auto simp: settled_def)
qed (use assms(3) in auto)

lemma settled_quiet: "quiet_run c \<Longrightarrow> settled c"
proof (induction rule: quiet_run.induct)
  case start
  show ?case by (simp add: settled_def conc_init_def store_read_run_def)
next
  case (step c c')
  then show ?case using settled_step quiet_run_run one_run_always by blast
qed

lemma no_active_run:
  assumes "settled c" "run_threads c = []"
  shows "\<not> has_active_run (files (app c))"
proof -
  have "run_status r \<notin> set active_statuses" if "(rid, r) \<in> set (run_table (files (app c)))" for rid r
    using that assms final_not_active by (auto simp: settled_def store_read_run_def)
  then show ?thesis
    by (auto simp: has_active_run_def list_ex_iff list_runs_def serialize_run_list_item_def)
qed

text \<open>The model of the runner keeps the promise.\<close>

lemma runner_promise: "run_writes b = [] \<Longrightarrow> promised_writes (run_rec b) (run_writes (run_benchmark env b))"
  unfolding promised_writes_def using run_ends[of env b] by (metis append_Nil list.map(1))

section \<open>A stop request that comes too late\<close>

lemma write_all:
  assumes "app_run c" "run_threads c = [(rid, ws)]" "ws \<noteq> []"
  shows "\<exists>c'. app_run c' \<and> run_threads c' = [(rid, [])] \<and> stops c' = stops c \<and>
    active_run_id (app c') = active_run_id (app c) \<and> cancel_events (app c') = cancel_events (app c)"
  using assms
proof (induction ws arbitrary: c)
  case (Cons w ws)
  let ?c = "c\<lparr>app := (app c)\<lparr>files := store_write_run rid w (files (app c))\<rparr>, run_threads := [(rid, ws)]\<rparr>"
  have step: "app_run ?c" using app_step.wrote[of c "[]" rid w ws "[]"] Cons.prems by (auto intro: app_run.step)
  show ?case
  proof (cases "ws = []")
    case True
    then show ?thesis using step by (intro exI[of _ ?c]) simp
  next
    case False
    then show ?thesis using Cons.IH[OF step] by simp
  qed
qed simp

definition blocked :: "conc \<Rightarrow> bool" where
  "blocked c \<longleftrightarrow> active_run_id (app c) = None \<and> run_threads c = [] \<and> stops c = [] \<and> has_active_run (files (app c))"

lemma blocked_forever:
  assumes "blocked c"
  shows "\<not> app_step c c'" "create_run now_ms cfg (app c) = (None, app c)"
  using assms by (auto simp: blocked_def create_run_def Let_def stop_lock_def elim!: app_stepE split: if_splits)

lemma active_listed:
  assumes "store_read_run rid fs = Some r" "take 4 rid = lit ''run_''" "run_status r \<in> set active_statuses"
  shows "has_active_run fs"
proof -
  have "(rid, r) \<in> set (run_table fs)" using assms(1) by (auto simp: store_read_run_def dest: map_of_SomeD)
  then have "serialize_run_list_item rid r \<in> set (list_runs fs)" using assms(2) by (force simp: list_runs_def)
  moreover have "listed_status (serialize_run_list_item rid r) \<in> set active_statuses"
    using assms(3) by (simp add: serialize_run_list_item_def)
  ultimately show ?thesis unfolding has_active_run_def list_ex_iff by blast
qed

lemma run_id_prefix [simp]: "take 4 (build_run_id n) = lit ''run_''"
  by (simp add: build_run_id_def lit_def)

lemma late_stop_blocks:
  assumes "promised_writes (queued_run cfg) ws"
  shows "\<exists>c. app_run c \<and> blocked c"
proof -
  let ?rid = "build_run_id 0"
  obtain a where a: "create_run 0 cfg (app conc_init) = (Some (?rid, queued_run cfg), a)"
    by (simp add: create_run_def conc_init_def has_active_run_def list_runs_def Let_def)
  define c1 where "c1 = conc_init\<lparr>app := a, run_threads := [(?rid, ws)]\<rparr>"
  have r1: "app_run c1"
    using app_step.created[OF a assms] app_run.step[OF app_run.start] by (simp add: c1_def conc_init_def)
  have f1: "active_run_id (app c1) = Some ?rid" "map_of (cancel_events (app c1)) ?rid = Some False" "stops c1 = []"
    "store_read_run ?rid (files (app c1)) = Some (queued_run cfg)"
    using a by (auto simp: c1_def create_run_def conc_init_def Let_def split: if_splits)
  define c2 where "c2 = c1\<lparr>app := (app c1)\<lparr>cancel_events := AList.update ?rid True (cancel_events (app c1))\<rparr>, stops := [(?rid, None)]\<rparr>"
  have "stop_lock ?rid (app c1) = ((True, ''cancellation requested''), app c2)" using f1 by (simp add: stop_lock_def c2_def)
  then have r2: "app_run c2" using app_step.stop_locked[of ?rid c1] r1 f1(3) by (auto simp: c2_def intro: app_run.step)
  define c3 where "c3 = c2\<lparr>stops := [(?rid, Some (queued_run cfg))]\<rparr>"
  have "store_read_run ?rid (files (app c2)) = Some (queued_run cfg)" using f1(4) by (simp add: c2_def)
  then have r3: "app_run c3" using app_step.stop_read[of c2 "[]" ?rid "[]"] r2 by (auto simp: c2_def c3_def intro: app_run.step)
  obtain c4 where c4: "app_run c4" "run_threads c4 = [(?rid, [])]" "stops c4 = [(?rid, Some (queued_run cfg))]"
    using write_all[OF r3, of ?rid ws] promised_last[OF assms] by (auto simp: c3_def c2_def c1_def)
  define c5 where "c5 = c4\<lparr>app := release ?rid (app c4), run_threads := []\<rparr>"
  have r5: "app_run c5" using app_step.released[of c4 "[]" ?rid "[]"] c4 by (auto simp: c5_def intro: app_run.step)
  define c6 where "c6 = c5\<lparr>app := stop_mark ?rid (queued_run cfg) (app c5), stops := []\<rparr>"
  have r6: "app_run c6" using app_step.stop_marked[of c5 "[]" ?rid _ "[]"] r5 c4(3) by (auto simp: c6_def c5_def intro: app_run.step)
  have "store_read_run ?rid (files (app c6)) = Some ((queued_run cfg)\<lparr>run_status := lit ''cancelling''\<rparr>)"
    by (simp add: c6_def stop_mark_def queued_run_def final_names)
  then have "has_active_run (files (app c6))" by (rule active_listed) (simp_all add: active_statuses_def)
  moreover have "active_run_id (app c6) = None" "run_threads c6 = []"
    using one_run_always[OF r6] by (auto simp: one_run_def c6_def c5_def split: option.splits)
  ultimately have "blocked c6" by (simp add: blocked_def c6_def)
  then show ?thesis using r6 by blast
qed

end
