(* ===== verification/BenchApi.thy ===== *)
theory BenchApi
  imports Timeline RunStore JsonText
begin

text \<open>
  The interface of the benchmark (\<open>app/api/server.py\<close>, \<open>config.py\<close>, \<open>scenarios.py\<close>, \<open>contracts.py\<close>): the
  settings, the routes, what a body must contain, and the answers.

  An answer is a status with a payload; \<open>Unanswered\<close> stands for a handler that an exception leaves (the
  server closes the connection) or that sends nothing. The static files, the text of exceptions and of JSON
  values and the depth of the stack for \<open>json.loads\<close> are arguments, and so are the clients, as in \<open>Benchmark\<close>.
  What is sent for an answer is in \<open>BenchHttp\<close>.
\<close>

section \<open>Settings\<close>

record controller_settings =
  set_controller_host :: pystr
  set_controller_port :: int
  set_redis_host :: pystr
  set_redis_port :: int
  set_redis_timeout_seconds :: pyfloat
  set_baseline_backend :: pystr
  set_mongodb_uri :: pystr
  set_mongodb_db_name :: pystr
  set_mongodb_collection :: pystr
  set_mongodb_seed_file :: pystr
  set_mongodb_connect_timeout_ms :: int

text \<open>\<open>None\<close>: no such file. A text that is not JSON raises \<open>JSONDecodeError\<close>, a \<open>ValueError\<close>.\<close>

definition read_settings_file ::
  "(pystr \<Rightarrow> pystr option) \<Rightarrow> nat \<Rightarrow> pystr option \<Rightarrow> py_exc + json_object" where
  "read_settings_file read_text stack path =
     (case path of
        None \<Rightarrow> Inr []
      | Some p \<Rightarrow>
          if p = [] then Inr []
          else (case read_text p of
                  None \<Rightarrow> Inl OSError
                | Some t \<Rightarrow>
                    rbind (json_loads stack t) (\<lambda>v. case v of JObject d \<Rightarrow> Inr d | _ \<Rightarrow> Inl ValueError)))"

text \<open>\<open>os.getenv(variable, str(file_values.get(key, fallback)))\<close>.\<close>

definition setting ::
  "(pystr \<Rightarrow> pystr option) \<Rightarrow> (json \<Rightarrow> pystr) \<Rightarrow> json_object \<Rightarrow> string \<Rightarrow> string \<Rightarrow> string \<Rightarrow> pystr" where
  "setting getenv str_json file variable key fallback =
     (case getenv (lit variable) of
        Some v \<Rightarrow> v
      | None \<Rightarrow> (case map_of file (lit key) of None \<Rightarrow> lit fallback | Some v \<Rightarrow> str_json v))"

definition int_setting :: "pystr \<Rightarrow> py_exc + int" where
  "int_setting t = (case py_int t of None \<Rightarrow> Inl ValueError | Some n \<Rightarrow> Inr n)"

definition float_setting :: "pystr \<Rightarrow> py_exc + pyfloat" where
  "float_setting t = (case py_float t of None \<Rightarrow> Inl ValueError | Some x \<Rightarrow> Inr x)"

definition settings_from_env ::
  "(pystr \<Rightarrow> pystr option) \<Rightarrow> nat \<Rightarrow> (json \<Rightarrow> pystr) \<Rightarrow> (pystr \<Rightarrow> pystr option) \<Rightarrow> py_exc + controller_settings" where
  "settings_from_env read_text stack str_json getenv =
     rbind (read_settings_file read_text stack (getenv (lit ''APP_SETTINGS_FILE''))) (\<lambda>file.
     let get = setting getenv str_json file in
     rbind (int_setting (get ''BENCHMARK_CONTROLLER_PORT'' ''controller_port'' ''8000'')) (\<lambda>controller_port.
     rbind (int_setting (get ''MINI_REDIS_PORT'' ''redis_port'' ''6379'')) (\<lambda>redis_port.
     rbind (float_setting (get ''MINI_REDIS_TIMEOUT_SECONDS'' ''redis_timeout_seconds'' ''1.0'')) (\<lambda>timeout.
     rbind (int_setting (get ''MONGODB_CONNECT_TIMEOUT_MS'' ''mongodb_connect_timeout_ms'' ''1000'')) (\<lambda>connect_timeout.
       Inr \<lparr>set_controller_host = get ''BENCHMARK_CONTROLLER_HOST'' ''controller_host'' ''127.0.0.1'',
            set_controller_port = controller_port, set_redis_host = get ''MINI_REDIS_HOST'' ''redis_host'' ''127.0.0.1'',
            set_redis_port = redis_port, set_redis_timeout_seconds = timeout,
            set_baseline_backend = get ''BASELINE_BACKEND'' ''baseline_backend'' ''mock'',
            set_mongodb_uri = get ''MONGODB_URI'' ''mongodb_uri'' ''mongodb://127.0.0.1:27017'',
            set_mongodb_db_name = get ''MONGODB_DB_NAME'' ''mongodb_db_name'' ''mini_redis_benchmark'',
            set_mongodb_collection = get ''MONGODB_COLLECTION'' ''mongodb_collection'' ''detail_pages'',
            set_mongodb_seed_file = get ''MONGODB_SEED_FILE'' ''mongodb_seed_file'' ''data/mongodb/detail_page_seed.json'',
            set_mongodb_connect_timeout_ms = connect_timeout\<rparr>)))))"

section \<open>Scenarios\<close>

record demo_scenario =
  demo_scenario_id :: pystr
  default_iteration_count :: int
  default_concurrency :: int
  default_ttl_seconds :: int
  default_hit_rate_buckets :: "int list"
  supported_cache_modes :: "pystr list"
  supported_data_scales :: "pystr list"

definition DEFAULT_HIT_RATE_BUCKETS :: "int list" where
  "DEFAULT_HIT_RATE_BUCKETS = map (\<lambda>i. int i * 10) [0..<11]"

definition SCENARIOS :: "demo_scenario list" where
  "SCENARIOS =
     [\<lparr>demo_scenario_id = lit ''detail_page'', default_iteration_count = 10, default_concurrency = 1, default_ttl_seconds = 30,
       default_hit_rate_buckets = DEFAULT_HIT_RATE_BUCKETS, supported_cache_modes = map lit [''cold'', ''warm'', ''mixed''],
       supported_data_scales = map lit [''small'', ''medium'', ''large'']\<rparr>,
      \<lparr>demo_scenario_id = lit ''search_autocomplete'', default_iteration_count = 30, default_concurrency = 1,
       default_ttl_seconds = 15, default_hit_rate_buckets = DEFAULT_HIT_RATE_BUCKETS,
       supported_cache_modes = map lit [''cold'', ''warm'', ''mixed''], supported_data_scales = map lit [''small'', ''medium'']\<rparr>]"

definition get_scenario :: "pystr \<Rightarrow> demo_scenario option" where
  "get_scenario i = List.find (\<lambda>s. demo_scenario_id s = i) SCENARIOS"

section \<open>Bodies\<close>

text \<open>\<open>Invalid\<close> is a \<open>ValueError\<close> with a message of the code's own.\<close>

datatype body_error = Invalid string | Raised py_exc

definition lift :: "py_exc + 'a \<Rightarrow> body_error + 'a" where
  "lift r = (case r of Inl e \<Rightarrow> Inl (Raised e) | Inr x \<Rightarrow> Inr x)"

text \<open>
  \<open>raw\<close> is what the connection delivers, \<open>content_length\<close> the header. A body that is not UTF-8 raises
  \<open>UnicodeDecodeError\<close>, a \<open>ValueError\<close>.
\<close>

definition read_json_body :: "nat \<Rightarrow> pystr option \<Rightarrow> bytes \<Rightarrow> body_error + json_object" where
  "read_json_body stack content_length raw =
     rbind (lift (int_setting (case content_length of None \<Rightarrow> lit ''0'' | Some t \<Rightarrow> t))) (\<lambda>n.
       let body = take (nat n) raw
       in if n \<le> 0 \<or> body = [] then Inr []
          else (case decode_utf8 body of
                  None \<Rightarrow> Inl (Raised ValueError)
                | Some t \<Rightarrow>
                    (case json_loads stack t of
                       Inl e \<Rightarrow> Inl (if e = ValueError then Invalid ''invalid JSON body'' else Raised e)
                     | Inr JNull \<Rightarrow> Inr []
                     | Inr (JObject d) \<Rightarrow> Inr d
                     | Inr _ \<Rightarrow> Inl (Invalid ''JSON body must be an object''))))"

fun json_ints :: "json list \<Rightarrow> py_exc + int list" where
  "json_ints [] = Inr []"
| "json_ints (v # vs) = rbind (json_int v) (\<lambda>n. rbind (json_ints vs) (\<lambda>ns. Inr (n # ns)))"

definition default_buckets :: json where
  "default_buckets = JList (map JInt DEFAULT_HIT_RATE_BUCKETS)"

definition build_run_config :: "(json \<Rightarrow> pystr) \<Rightarrow> json_object \<Rightarrow> body_error + run_config" where
  "build_run_config str_json body =
     rbind (lift (json_int (json_get body ''iteration_count'' (JInt 10)))) (\<lambda>iterations.
     rbind (lift (json_int (json_get body ''concurrency'' (JInt 1)))) (\<lambda>parallel.
     rbind (lift (rbind (json_iter (json_get body ''hit_rate_buckets'' default_buckets)) json_ints)) (\<lambda>buckets.
     rbind (lift (json_int (json_get body ''ttl_seconds'' (JInt 30)))) (\<lambda>ttl.
       if iterations \<le> 0 then Inl (Invalid ''iteration_count must be greater than 0'')
       else if parallel \<le> 0 then Inl (Invalid ''concurrency must be greater than 0'')
       else if ttl \<le> 0 then Inl (Invalid ''ttl_seconds must be greater than 0'')
       else if buckets = [] then Inl (Invalid ''hit_rate_buckets must not be empty'')
       else if list_ex (\<lambda>b. b < 0 \<or> 100 < b) buckets then Inl (Invalid ''hit_rate_buckets must be between 0 and 100'')
       else Inr \<lparr>scenario = str_json (json_get body ''scenario'' (JText (lit ''detail_page''))), iteration_count = iterations,
                 concurrency = parallel, hit_rate_buckets = buckets, config_ttl_seconds = ttl,
                 include_reference = json_bool (json_get body ''include_reference'' (JBool False))\<rparr>))))"

definition collect_benchmark_keys :: "run_files \<Rightarrow> int \<Rightarrow> int list \<Rightarrow> pystr list" where
  "collect_benchmark_keys fs iterations buckets =
     (let capped = nat (min (max iterations 1) 5000);
          wanted = filter (\<lambda>b. 0 \<le> b \<and> b \<le> 100) buckets;
          chosen = (if wanted = [] then [0, 50, 100] else wanted);
          planned = concat (map (\<lambda>b. map (\<lambda>i. detail_key (cache_record_id b i)) [0..<capped]) chosen);
          reference = map (\<lambda>i. detail_key (lit ''reference-'' @ show_nat i)) [0..<capped];
          recorded = concat (map (\<lambda>item. concat (map (\<lambda>e.
              case map_of (event_metadata e) (lit ''record_id'') of Some (MetaText t) \<Rightarrow> [detail_key t] | _ \<Rightarrow> [])
            (store_read_events (listed_id item) fs))) (take 20 (list_runs fs)))
      in sort (remdups (planned @ reference @ recorded)))"

section \<open>Answers\<close>

datatype payload =
    ErrorMessage pystr
  | Health string pystr int "pystr option"
  | RunCreated pystr run_record
  | RunDetail pystr run_record "log_entry list"
  | Stopping pystr string
  | Seeded int pystr
  | Cleared string nat int "pystr option"
  | Events pystr "flow_event list"
  | Requests pystr "request_timeline list"
  | Presentation pystr presentation
  | Runs "run_item list"
  | Scenarios "demo_scenario list"
  | Scenario demo_scenario
  | DemoConfig

datatype reply = Reply nat payload | StaticFile pystr | Unanswered

text \<open>\<open>_serve_static\<close>: the file, a path outside the directory, or no such file (nothing is sent).\<close>

datatype static_result = Served | Outside | Missing

record 'w web_env =
  clients :: "'w bench_env"
  client_host :: pystr
  client_port :: int
  seed_method :: "('w \<Rightarrow> (py_exc + int) \<times> 'w) option"
  collection_name :: pystr
  json_stack :: nat
  str_json :: "json \<Rightarrow> pystr"
  static :: "pystr \<Rightarrow> static_result"

record 'w web =
  application :: app_state
  outside :: 'w

type_synonym 'w handler = "'w web \<Rightarrow> reply \<times> 'w web"

definition refuse :: "nat \<Rightarrow> string \<Rightarrow> 'w handler" where
  "refuse st m s = (Reply st (ErrorMessage (lit m)), s)"

text \<open>\<open>except ValueError as exc\<close> with status 400.\<close>

definition bad_request :: "'w web_env \<Rightarrow> body_error \<Rightarrow> 'w handler" where
  "bad_request env e s =
     (case e of
        Invalid m \<Rightarrow> refuse 400 m s
      | Raised ValueError \<Rightarrow> (Reply 400 (ErrorMessage (env_str (clients env) ValueError)), s)
      | Raised _ \<Rightarrow> (Unanswered, s))"

definition handle_health :: "'w web_env \<Rightarrow> 'w handler" where
  "handle_health env s =
     (case env_health (clients env) (outside s) of
        (Inr ok, w) \<Rightarrow> (Reply 200 (Health (if ok then ''ok'' else ''down'') (client_host env) (client_port env) None), s\<lparr>outside := w\<rparr>)
      | (Inl e, w) \<Rightarrow>
          (case e of
             MiniRedisError m \<Rightarrow> (Reply 503 (Health ''down'' (client_host env) (client_port env) (Some m)), s\<lparr>outside := w\<rparr>)
           | _ \<Rightarrow> (Unanswered, s\<lparr>outside := w\<rparr>)))"

definition handle_create_run :: "'w web_env \<Rightarrow> nat \<Rightarrow> pystr option \<Rightarrow> bytes \<Rightarrow> 'w handler" where
  "handle_create_run env now_ms content_length raw s =
     (case rbind (read_json_body (json_stack env) content_length raw) (build_run_config (str_json env)) of
        Inl e \<Rightarrow> bad_request env e s
      | Inr cfg \<Rightarrow>
          (case create_run now_ms cfg (application s) of
             (None, a) \<Rightarrow> refuse 409 ''another benchmark run is already active'' (s\<lparr>application := a\<rparr>)
           | (Some (rid, r), a) \<Rightarrow> (Reply 201 (RunCreated rid r), s\<lparr>application := a\<rparr>)))"

definition handle_run_status :: "pystr \<Rightarrow> 'w handler" where
  "handle_run_status rid s =
     (case store_read_run rid (files (application s)) of
        None \<Rightarrow> refuse 404 ''run not found'' s
      | Some r \<Rightarrow> (Reply 200 (RunDetail rid r (store_read_logs rid (files (application s)))), s))"

definition handle_stop_run :: "pystr \<Rightarrow> 'w handler" where
  "handle_stop_run rid s =
     (case store_read_run rid (files (application s)) of
        None \<Rightarrow> refuse 404 ''run not found'' s
      | Some _ \<Rightarrow>
          (case stop_run rid (application s) of
             ((ok, m), a) \<Rightarrow>
               if \<not> ok then refuse 409 m (s\<lparr>application := a\<rparr>)
               else (Reply 200 (Stopping rid m), s\<lparr>application := a\<rparr>)))"

fun is_seed_error :: "py_exc \<Rightarrow> bool" where
  "is_seed_error (MongoBaselineError _) = True"
| "is_seed_error (RuntimeError _) = True"
| "is_seed_error ValueError = True"
| "is_seed_error _ = False"

definition handle_seed_data :: "'w web_env \<Rightarrow> 'w handler" where
  "handle_seed_data env s =
     (case seed_method env of
        None \<Rightarrow> refuse 400 ''seed-data is only available when using the mongodb baseline backend'' s
      | Some seed \<Rightarrow>
          (case seed (outside s) of
             (Inr n, w) \<Rightarrow> (Reply 200 (Seeded n (collection_name env)), s\<lparr>outside := w\<rparr>)
           | (Inl e, w) \<Rightarrow>
               (if is_seed_error e then Reply 400 (ErrorMessage (env_str (clients env) e)) else Unanswered, s\<lparr>outside := w\<rparr>)))"

text \<open>The deletions: the sum of the replies, and the first error, which ends them.\<close>

fun delete_keys :: "'w bench_env \<Rightarrow> pystr list \<Rightarrow> int \<Rightarrow> 'w \<Rightarrow> (py_exc + int \<times> pystr option) \<times> 'w" where
  "delete_keys env [] removed w = (Inr (removed, None), w)"
| "delete_keys env (k # ks) removed w =
     (case env_delete env k w of
        (Inr n, w1) \<Rightarrow> delete_keys env ks (removed + n) w1
      | (Inl e, w1) \<Rightarrow> (case e of MiniRedisError m \<Rightarrow> (Inr (removed, Some m), w1) | _ \<Rightarrow> (Inl e, w1)))"

definition clear_redis :: "'w web_env \<Rightarrow> int \<Rightarrow> int list \<Rightarrow> 'w handler" where
  "clear_redis env iterations buckets s =
     (let keys = collect_benchmark_keys (files (application s)) iterations buckets
      in case delete_keys (clients env) keys 0 (outside s) of
           (Inl e, w) \<Rightarrow> (Unanswered, s\<lparr>outside := w\<rparr>)
         | (Inr (removed, err), w) \<Rightarrow>
             (Reply (if err = None then 200 else 502)
                (Cleared (if err = None then ''ok'' else ''partial'') (length keys) removed err), s\<lparr>outside := w\<rparr>))"

definition handle_clear_redis :: "'w web_env \<Rightarrow> pystr option \<Rightarrow> bytes \<Rightarrow> 'w handler" where
  "handle_clear_redis env content_length raw s =
     (case read_json_body (json_stack env) content_length raw of
        Inl e \<Rightarrow> bad_request env e s
      | Inr body \<Rightarrow>
          (case json_int (json_get body ''iteration_count'' (JInt 10)) of
             Inl e \<Rightarrow> (Unanswered, s)
           | Inr n \<Rightarrow>
               (case json_get body ''hit_rate_buckets'' default_buckets of
                  JList vs \<Rightarrow>
                    (case json_ints vs of
                       Inr buckets \<Rightarrow> clear_redis env (max 1 n) buckets s
                     | Inl OverflowError \<Rightarrow> (Unanswered, s)
                     | Inl _ \<Rightarrow> refuse 400 ''hit_rate_buckets must contain integers'' s)
                | _ \<Rightarrow> refuse 400 ''hit_rate_buckets must be a JSON array'' s)))"

definition handle_events :: "pystr \<Rightarrow> (pystr, pystr list) dict \<Rightarrow> 'w handler" where
  "handle_events rid query s =
     (case map_of query (lit ''after'') of
        Some (t # _) \<Rightarrow>
          (case py_float t of
             None \<Rightarrow> refuse 400 ''invalid after query parameter'' s
           | Some x \<Rightarrow> (Reply 200 (Events rid (store_read_events_after rid (Some x) (files (application s)))), s))
      | _ \<Rightarrow> (Reply 200 (Events rid (store_read_events_after rid None (files (application s)))), s))"

definition handle_run_list :: "'w handler" where
  "handle_run_list s = (Reply 200 (Runs (list_runs (files (application s)))), s)"

definition handle_request_timelines :: "'w web_env \<Rightarrow> pystr \<Rightarrow> 'w handler" where
  "handle_request_timelines env rid s =
     (case build_request_timelines (store_read_events rid (files (application s))) of
        Inl e \<Rightarrow> (Unanswered, s)
      | Inr tls \<Rightarrow> (Reply 200 (Requests rid tls), s))"

definition handle_presentation :: "'w web_env \<Rightarrow> pystr \<Rightarrow> 'w handler" where
  "handle_presentation env rid s =
     (case store_read_run rid (files (application s)) of
        None \<Rightarrow> refuse 404 ''run not found'' s
      | Some r \<Rightarrow>
          (case build_presentation_payload r (store_read_events rid (files (application s))) of
             Inl e \<Rightarrow> (Unanswered, s)
           | Inr p \<Rightarrow> (Reply 200 (Presentation rid p), s)))"

section \<open>Routes\<close>

definition starts_with :: "string \<Rightarrow> pystr \<Rightarrow> bool" where
  "starts_with p t \<longleftrightarrow> take (length p) t = lit p"

definition has_suffix :: "string \<Rightarrow> pystr \<Rightarrow> bool" where
  "has_suffix p t \<longleftrightarrow> length p \<le> length t \<and> drop (length t - length p) t = lit p"

definition path_parts :: "pystr \<Rightarrow> pystr list" where
  "path_parts p = split_on 47 (strip_by ((=) 47) p)"

definition serve_static :: "'w web_env \<Rightarrow> pystr \<Rightarrow> 'w handler" where
  "serve_static env p s =
     (case static env p of
        Served \<Rightarrow> (StaticFile p, s)
      | Outside \<Rightarrow> refuse 404 ''not found'' s
      | Missing \<Rightarrow> (Unanswered, s))"

definition try_serve_static_path :: "'w web_env \<Rightarrow> pystr \<Rightarrow> 'w handler" where
  "try_serve_static_path env p s =
     (let candidate = dropWhile ((=) 47) p
      in if \<not> starts_with ''/'' p \<or> candidate = [] \<or> starts_with ''api/'' candidate \<or> static env candidate = Missing
         then refuse 404 ''not found'' s
         else serve_static env candidate s)"

text \<open>A route with the identifier of a run; \<open>n\<close> is the number of parts it needs.\<close>

definition with_run :: "nat \<Rightarrow> pystr \<Rightarrow> (pystr \<Rightarrow> 'w handler) \<Rightarrow> 'w handler" where
  "with_run n p h s =
     (if length (path_parts p) < n then refuse 404 ''not found'' s else h (path_parts p ! 2) s)"

definition do_GET :: "'w web_env \<Rightarrow> pystr \<Rightarrow> (pystr, pystr list) dict \<Rightarrow> 'w handler" where
  "do_GET env p query s =
     (let runs = starts_with ''/api/benchmark-runs/'' p in
      if p = [] \<or> p = lit ''/'' then serve_static env (lit ''index.html'') s
      else if p = lit ''/api/health'' then handle_health env s
      else if p = lit ''/api/benchmark-runs'' then handle_run_list s
      else if p = lit ''/api/scenarios'' then (Reply 200 (Scenarios SCENARIOS), s)
      else if starts_with ''/api/scenarios/'' p then
        with_run 3 p (\<lambda>i s. case get_scenario i of None \<Rightarrow> refuse 404 ''scenario not found'' s | Some x \<Rightarrow> (Reply 200 (Scenario x), s)) s
      else if p = lit ''/api/demo-config'' then (Reply 200 DemoConfig, s)
      else if runs \<and> has_suffix ''/events'' p then with_run 4 p (\<lambda>rid. handle_events rid query) s
      else if runs \<and> has_suffix ''/presentation'' p then with_run 4 p (handle_presentation env) s
      else if runs \<and> has_suffix ''/requests'' p then with_run 4 p (handle_request_timelines env) s
      else if runs then with_run 3 p handle_run_status s
      else try_serve_static_path env p s)"

definition do_POST :: "'w web_env \<Rightarrow> nat \<Rightarrow> pystr \<Rightarrow> pystr option \<Rightarrow> bytes \<Rightarrow> 'w handler" where
  "do_POST env now_ms p content_length raw s =
     (if p = lit ''/api/benchmark-runs'' then handle_create_run env now_ms content_length raw s
      else if starts_with ''/api/benchmark-runs/'' p \<and> has_suffix ''/stop'' p then with_run 4 p handle_stop_run s
      else if p = lit ''/api/demo-actions/seed-data'' then handle_seed_data env s
      else if p = lit ''/api/demo-actions/clear-redis'' then handle_clear_redis env content_length raw s
      else refuse 404 ''not found'' s)"

section \<open>Accepted configurations\<close>

definition valid_config :: "run_config \<Rightarrow> bool" where
  "valid_config cfg \<longleftrightarrow> 0 < iteration_count cfg \<and> 0 < concurrency cfg \<and> 0 < config_ttl_seconds cfg \<and>
     hit_rate_buckets cfg \<noteq> [] \<and> (\<forall>b\<in>set (hit_rate_buckets cfg). 0 \<le> b \<and> b \<le> 100)"

text \<open>\<open>RunConfig.to_dict\<close>.\<close>

definition config_to_dict :: "run_config \<Rightarrow> json_object" where
  "config_to_dict cfg =
     [(lit ''scenario'', JText (scenario cfg)), (lit ''iteration_count'', JInt (iteration_count cfg)),
      (lit ''concurrency'', JInt (concurrency cfg)), (lit ''hit_rate_buckets'', JList (map JInt (hit_rate_buckets cfg))),
      (lit ''ttl_seconds'', JInt (config_ttl_seconds cfg)), (lit ''include_reference'', JBool (include_reference cfg))]"

lemma lift_simps [simp]: "lift (Inr x) = Inr x" "lift (Inl e) = Inl (Raised e)"
  by (simp_all add: lift_def)

lemma json_ints_JInt [simp]: "json_ints (map JInt ns) = Inr ns"
  by (induction ns) auto

lemma build_run_config_valid: "build_run_config sj body = Inr cfg \<Longrightarrow> valid_config cfg"
  by (auto simp: build_run_config_def valid_config_def list_ex_iff not_less split: if_splits)

lemma build_run_config_dict:
  assumes "valid_config cfg" "\<And>t. sj (JText t) = t"
  shows "build_run_config sj (config_to_dict cfg) = Inr cfg"
  using assms by (auto simp: build_run_config_def config_to_dict_def json_get_def valid_config_def list_ex_iff)

section \<open>Clearing\<close>

text \<open>The keys a run stores or deletes.\<close>

definition run_keys :: "run_config \<Rightarrow> pystr set" where
  "run_keys cfg = (\<lambda>(b, i). detail_key (cache_record_id b i)) ` set (cache_plan cfg) \<union>
     (\<lambda>i. detail_key (lit ''reference-'' @ show_nat i)) ` set (reference_plan cfg)"

lemma run_keys_collected:
  assumes "valid_config cfg" "iteration_count cfg \<le> 5000"
  shows "run_keys cfg \<subseteq> set (collect_benchmark_keys fs (iteration_count cfg) (hit_rate_buckets cfg))"
proof -
  have capped: "nat (min (max (iteration_count cfg) 1) 5000) = nat (iteration_count cfg)"
    using assms by (auto simp: valid_config_def)
  have wanted: "filter (\<lambda>b. 0 \<le> b \<and> b \<le> 100) (hit_rate_buckets cfg) = hit_rate_buckets cfg"
    using assms(1) by (auto simp: valid_config_def filter_id_conv)
  have "hit_rate_buckets cfg \<noteq> []" using assms(1) by (simp add: valid_config_def)
  then show ?thesis
    by (auto simp: run_keys_def collect_benchmark_keys_def capped wanted cache_plan_def reference_plan_def Let_def)
qed

text \<open>What \<open>DEL\<close> promises: the key is gone and the others stay.\<close>

definition deletes :: "'w bench_env \<Rightarrow> ('w \<Rightarrow> pystr \<Rightarrow> bool) \<Rightarrow> bool" where
  "deletes env holds \<longleftrightarrow>
     (\<forall>k w n w'. env_delete env k w = (Inr n, w') \<longrightarrow> (\<forall>j. holds w' j \<longleftrightarrow> holds w j \<and> j \<noteq> k))"

lemma delete_keys_gone:
  assumes "deletes env holds"
  shows "delete_keys env ks n w = (Inr (m, None), w') \<Longrightarrow> holds w' j \<longleftrightarrow> holds w j \<and> j \<notin> set ks"
proof (induction ks arbitrary: n w)
  case (Cons k ks)
  obtain r w1 where r: "env_delete env k w = (r, w1)" by fastforce
  then obtain x where x: "r = Inr x" using Cons.prems by (cases r) (auto split: py_exc.splits)
  then have "delete_keys env ks (n + x) w1 = (Inr (m, None), w')" using Cons.prems r by simp
  then show ?case using Cons.IH assms r x by (auto simp: deletes_def)
qed simp

lemma candidate_prefix: "k \<in> set (collect_benchmark_keys fs n bs) \<Longrightarrow> take 17 k = lit ''benchmark:detail:''"
proof -
  have "take 17 (detail_key t) = lit ''benchmark:detail:''" for t by (simp add: detail_key_def lit_def)
  then show "k \<in> set (collect_benchmark_keys fs n bs) \<Longrightarrow> ?thesis"
    by (auto simp: collect_benchmark_keys_def Let_def split: option.splits meta.splits)
qed

text \<open>The dictionary of a configuration as the body of \<open>clear-redis\<close>.\<close>

lemma clear_dict:
  assumes "read_json_body (json_stack env) content_length raw = Inr (config_to_dict cfg)" "valid_config cfg"
  shows "do_POST env now_ms (lit ''/api/demo-actions/clear-redis'') content_length raw s =
    clear_redis env (iteration_count cfg) (hit_rate_buckets cfg) s"
proof -
  have "max 1 (iteration_count cfg) = iteration_count cfg" using assms(2) by (simp add: valid_config_def)
  moreover have "lit ''/api/demo-actions/clear-redis'' \<noteq> lit ''/api/benchmark-runs''"
    "\<not> starts_with ''/api/benchmark-runs/'' (lit ''/api/demo-actions/clear-redis'')"
    "lit ''/api/demo-actions/clear-redis'' \<noteq> lit ''/api/demo-actions/seed-data''" by code_simp+
  ultimately show ?thesis
    by (simp add: do_POST_def handle_clear_redis_def assms(1) config_to_dict_def json_get_def)
qed

section \<open>The routes of a run\<close>

definition run_path :: "pystr \<Rightarrow> string \<Rightarrow> pystr" where
  "run_path rid what = lit ''/api/benchmark-runs/'' @ rid @ lit ''/'' @ lit what"

lemma last_suffix: "has_suffix q p \<Longrightarrow> q \<noteq> [] \<Longrightarrow> last p = of_char (last q)"
proof -
  assume "has_suffix q p" "q \<noteq> []"
  then have "last (drop (length p - length q) p) = last (lit q)" "drop (length p - length q) p \<noteq> []"
    by (auto simp: has_suffix_def)
  then show ?thesis using \<open>q \<noteq> []\<close> by (simp add: last_drop lit_def last_map)
qed

lemma run_path_facts:
  assumes "47 \<notin> set rid" "rid \<noteq> []" "47 \<notin> set (lit what)" "what \<noteq> []"
  shows "path_parts (run_path rid what) = [lit ''api'', lit ''benchmark-runs'', rid, lit what]"
    and "starts_with ''/api/benchmark-runs/'' (run_path rid what)" "last (run_path rid what) = of_char (last what)"
proof -
  let ?inner = "lit ''api'' @ 47 # lit ''benchmark-runs'' @ 47 # rid @ 47 # lit what"
  have p: "run_path rid what = 47 # ?inner" by (simp add: run_path_def lit_def)
  have ne: "lit what \<noteq> []" using assms(4) by (simp add: lit_def)
  have "last (lit what) \<noteq> 47" using assms(3) last_in_set[OF ne] by metis
  then have "dropWhile ((=) 47) (rev ?inner) = rev ?inner"
    using ne by (cases "lit what" rule: rev_cases) auto
  then have "strip_by ((=) 47) (run_path rid what) = ?inner" by (simp add: p strip_by_def lit_def)
  moreover have "47 \<notin> set (lit ''api'')" "47 \<notin> set (lit ''benchmark-runs'')" by (simp_all add: lit_def)
  ultimately show "path_parts (run_path rid what) = [lit ''api'', lit ''benchmark-runs'', rid, lit what]"
    using assms by (simp add: path_parts_def split_on_simps del: lit_Nil_iff)
  show "starts_with ''/api/benchmark-runs/'' (run_path rid what)" by (simp add: starts_with_def run_path_def lit_def)
  show "last (run_path rid what) = of_char (last what)" using assms(4) by (simp add: run_path_def last_map lit_def)
qed

lemma get_presentation:
  assumes "47 \<notin> set rid" "rid \<noteq> []"
  shows "do_GET env (run_path rid ''presentation'') query s = handle_presentation env rid s"
proof -
  let ?p = "run_path rid ''presentation''"
  note facts = run_path_facts[OF assms, of "''presentation''"]
  have "47 \<notin> set (lit ''presentation'')" by code_simp
  then have l: "last ?p = 110" and parts: "path_parts ?p = [lit ''api'', lit ''benchmark-runs'', rid, lit ''presentation'']"
    and st: "starts_with ''/api/benchmark-runs/'' ?p"
    using facts by simp_all
  have "\<not> has_suffix ''/events'' ?p" using last_suffix[of "''/events''" ?p] l by auto
  moreover have "has_suffix ''/presentation'' ?p" by (simp add: has_suffix_def run_path_def lit_def)
  moreover have "?p \<noteq> lit x" if "length x \<le> 20" for x
  proof -
    have "length (lit y) = length y" for y by (simp add: lit_def)
    moreover from this have "20 < length ?p" by (simp add: run_path_def)
    ultimately show ?thesis using that by auto
  qed
  moreover have "\<not> starts_with ''/api/scenarios/'' ?p" by (simp add: starts_with_def run_path_def lit_def)
  moreover have "?p \<noteq> []" by (simp add: run_path_def)
  ultimately show ?thesis using st parts by (simp add: do_GET_def with_run_def)
qed

lemma run_id_safe: "47 \<notin> set (build_run_id n) \<and> build_run_id n \<noteq> []"
  by (auto simp: build_run_id_def lit_def is_digit_def dest: show_nat_digits)

lemma created_run_record:
  assumes "create_run now_ms cfg a0 = (Some (rid, r), a)" "store_read_events rid (files a0) = []"
  shows created_no_events: "store_read_events rid (files a) = []" and created_run_id: "47 \<notin> set rid \<and> rid \<noteq> []"
    and created_result: "store_read_run rid (files (run_and_release env w rid a)) = Some (run_rec (run_benchmark env (bench_of w rid (queued_run cfg) (files a))))"
    and created_events: "store_read_events rid (files (run_and_release env w rid a)) = flow_events (run_benchmark env (bench_of w rid (queued_run cfg) (files a)))"
proof -
  have rid: "rid = build_run_id now_ms" and a: "files a = store_append_log rid (log_line ''INFO'' ''bootstrap'' ''benchmark queued'')
      (store_write_run rid (queued_run cfg) (files a0))"
    using assms(1) by (auto simp: create_run_def Let_def split: if_splits)
  show "store_read_events rid (files a) = []"
    using assms(2) by (simp add: a store_read_events_def store_append_log_def store_write_run_def)
  show "47 \<notin> set rid \<and> rid \<noteq> []" using run_id_safe by (simp add: rid)
  have "store_read_run rid (files a) = Some (queued_run cfg)" by (simp add: a)
  then show "store_read_run rid (files (run_and_release env w rid a)) = Some (run_rec (run_benchmark env (bench_of w rid (queued_run cfg) (files a))))"
    "store_read_events rid (files (run_and_release env w rid a)) = flow_events (run_benchmark env (bench_of w rid (queued_run cfg) (files a)))"
    by (simp_all add: run_and_release_def Let_def store_read_run_def store_write_run_def store_read_events_def
        lines_of_def update_conv')
qed

end
