(* ===== verification/Benchmarking.thy ===== *)
theory Benchmarking
  imports BenchApi
begin

text \<open>
  The properties of the benchmark: the life of a run, what a completed run has measured, the percentile it
  reports, runs that follow each other, and the answers of its interface.
\<close>

section \<open>A run\<close>

text \<open>
  C25. Liveness. Whatever its clients do, a run ends, and its last record says how: the statuses
  written are \<open>bootstrapping\<close>, a prefix of the phases and one of \<open>completed\<close>, \<open>cancelled\<close> and \<open>failed\<close>; the
  prefix is the whole list when the run is completed. The last record is finished; it has a summary when
  the run is completed, and an error message exactly when it failed, if the run started without them.
\<close>

theorem benchmark_run_ends:
  "\<exists>k st. st \<in> {''completed'', ''cancelled'', ''failed''} \<and>
     map run_status (run_writes (run_benchmark env b)) =
       map run_status (run_writes b) @ map lit (''bootstrapping'' # take k (lifecycle (run_configuration (run_rec b))) @ [st]) \<and>
     (st = ''completed'' \<longrightarrow> length (lifecycle (run_configuration (run_rec b))) \<le> k) \<and>
     last (run_writes (run_benchmark env b)) = run_rec (run_benchmark env b) \<and>
     finished_with (run_rec b) (run_rec (run_benchmark env b)) st"
  by (rule run_ends)

text \<open>
  An environment for examples: a clock that stands still, a cache that stores keys, and a database that
  always answers. A run of one iteration in one bucket.
\<close>

definition sample_env :: "bool \<Rightarrow> pystr list bench_env" where
  "sample_env cancelled =
     \<lparr>env_clock = (\<lambda>w. (Finite 0, w)), env_cancelled = (\<lambda>w. cancelled), env_health = (\<lambda>w. (Inr True, w)),
      env_get = (\<lambda>k w. (Inr (if List.member w k then Some [] else None), w)), env_set = (\<lambda>k v w. (Inr True, k # w)),
      env_delete = (\<lambda>k w. (Inr 0, removeAll k w)), env_expire = (\<lambda>k n w. (Inr 1, w)), env_baseline_health = None,
      env_fetch_detail = (\<lambda>k w. (Inr (), w)), env_str = (\<lambda>e. [])\<rparr>"

definition sample_run :: "pystr list bench" where
  "sample_run =
     (let cfg = \<lparr>scenario = lit ''detail'', iteration_count = 1, concurrency = 1, hit_rate_buckets = [100],
                 config_ttl_seconds = 60, include_reference = False\<rparr>;
          r = \<lparr>run_status = lit ''queued'', run_configuration = cfg, run_finished = False, run_summary_of = None, run_error_message = None\<rparr>
      in \<lparr>world = [], flow_events = [], log_entries = [], run_rec = r, run_writes = []\<rparr>)"

lemma sample_plan:
  "map run_status (run_writes (run_benchmark (sample_env True) sample_run)) = map lit [''bootstrapping'', ''cancelled'']"
  "target_hit_count 1 100 = 1"
  by code_simp+

lemma sample_logged:
  "run_status (run_rec (run_benchmark (sample_env False) (sample_run\<lparr>log_entries := l\<rparr>))) = lit ''completed''"
  "map_option redis_hit_count (run_summary_of (run_rec (run_benchmark (sample_env False) (sample_run\<lparr>log_entries := l\<rparr>)))) = Some 1"
  by (simp_all add: run_benchmark_def sample_run_def sample_env_def Let_def run_phases_def bootstrap_def
      ensure_not_cancelled_def on_world_def append_log_def set_status_def write_run_def warmup_phase_def warmup_def
      baseline_phase_def run_baseline_def baseline_request_def perf_counter_def flow_def append_event_def cache_phase_def
      run_cache_def cache_plan_def cache_request_def cache_prepare_def cache_hit_branch_def send_response_def
      reference_phase_def aggregate_def complete_run_def benchmark_summary_def try_redis_def add_sample_def tally_init_def
      sample_plan(2) upt_rec)

lemmas sample_results = sample_logged[of "log_entries sample_run", simplified bench.surjective[symmetric] bench.update_convs(3)]

text \<open>The witness of C25: a run that is cancelled before it starts.\<close>

theorem benchmark_run_ends_witness:
  "finished_with (run_rec sample_run) (run_rec (run_benchmark (sample_env True) sample_run)) ''cancelled''"
  using benchmark_run_ends[of "sample_env True" sample_run]
  by (auto simp: sample_plan(1) finished_with_def)

text \<open>
  C26. Refinement. A completed run has gone through its requests one after another: one baseline
  request for each iteration, one request with the cache for each bucket and iteration, and the reference
  requests when they are wanted. The events are exactly those of the outcomes of the requests, and the
  counters of the summary count these outcomes: no request is lost or counted twice.
\<close>

theorem completed_run_counts:
  assumes "run_status (run_rec (run_benchmark env b)) = lit ''completed''" "cfg = run_configuration (run_rec b)"
  shows "\<exists>s outs. run_summary_of (run_rec (run_benchmark env b)) = Some s \<and>
     length outs = nat (iteration_count cfg) * max 1 (length (hit_rate_buckets cfg)) \<and>
     run_trace (run_benchmark env b) = run_trace b @ full_trace cfg outs \<and>
     db_only_count s = nat (iteration_count cfg) \<and> redis_hit_count s = count_list outs Hit \<and>
     redis_miss_count s = count_list outs Miss + count_list outs MissUnsaved \<and>
     fallback_count s = count_list outs Fallback + count_list outs MissUnsaved \<and>
     error_count s = fallback_count s"
  using assms by (rule completed_measured)

text \<open>The witness of C26: the run of the example, with one hit.\<close>

theorem completed_run_counts_witness:
  "\<exists>outs. length outs = 1 \<and> count_list outs Hit = 1 \<and>
     run_trace (run_benchmark (sample_env False) sample_run) = full_trace (run_configuration (run_rec sample_run)) outs"
proof -
  have "iteration_count (run_configuration (run_rec sample_run)) = 1"
    "length (hit_rate_buckets (run_configuration (run_rec sample_run))) = 1" "run_trace sample_run = []" by code_simp+
  then show ?thesis using completed_run_counts[OF sample_results(1) refl] sample_results(2) by auto
qed

section \<open>The presentation\<close>

text \<open>
  The presentation of a completed run, computed from the recorded events
  alone, exists and has the numbers of the summary, which the runner counted: requests to the database
  alone, requests with the cache, hits, misses and errors; when no bucket is given twice.
\<close>

theorem presentation_matches_summary:
  assumes "run_status (run_rec (run_benchmark env b)) = lit ''completed''" "flow_events b = []"
    and "cfg = run_configuration (run_rec b)" "distinct (hit_rate_buckets cfg)"
  shows "\<exists>s p. run_summary_of (run_rec (run_benchmark env b)) = Some s \<and>
     build_presentation_payload (run_rec (run_benchmark env b)) (flow_events (run_benchmark env b)) = Inr p \<and>
     item_request_count (lane_summary p ! 0) = db_only_count s \<and>
     item_request_count (lane_summary p ! 1) = nat (iteration_count cfg) * max 1 (length (hit_rate_buckets cfg)) \<and>
     item_hit_count (lane_summary p ! 1) = redis_hit_count s \<and>
     item_miss_count (lane_summary p ! 1) = redis_miss_count s \<and>
     item_error_count (lane_summary p ! 1) = error_count s \<and> item_error_count (lane_summary p ! 1) = fallback_count s"
proof -
  obtain s outs where m: "run_summary_of (run_rec (run_benchmark env b)) = Some s"
    "length outs = nat (iteration_count cfg) * max 1 (length (hit_rate_buckets cfg))"
    "run_trace (run_benchmark env b) = run_trace b @ full_trace cfg outs"
    "db_only_count s = nat (iteration_count cfg)" "redis_hit_count s = count_list outs Hit"
    "redis_miss_count s = count_list outs Miss + count_list outs MissUnsaved"
    "fallback_count s = count_list outs Fallback + count_list outs MissUnsaved" "error_count s = fallback_count s"
    using completed_measured[OF assms(1,3)] by blast
  have len: "length outs = length (cache_plan cfg)" using m(2) by (simp add: length_cache_plan)
  have "map trace_item_of (flow_events (run_benchmark env b)) = concat (map recorded_steps (run_requests cfg outs))"
    using m(3) assms(2) full_trace_requests[OF len] by (simp add: run_trace_def)
  then obtain tls where tls: "build_request_timelines (flow_events (run_benchmark env b)) = Inr tls"
    "list_all2 shows_request (run_requests cfg outs) tls"
    using timelines_of_requests[OF _ run_requests_recorded run_requests_distinct[OF assms(4) len]] by blast
  note counts = lane_counts[OF len tls(2)]
  show ?thesis using m counts
    by (simp add: build_presentation_payload_def tls(1) build_lane_summary_def lane_item_of_def)
qed

section \<open>The percentile\<close>

text \<open>
  Bounds. The reported 95th percentile of samples without NaN is one of the samples (the
  index is never out of range), at least \<open>94%\<close> of the samples (rounded down) are at most as large, and at
  least one is at least as large.
\<close>

theorem percentile_is_a_sample:
  assumes "xs \<noteq> []" "length xs < 2 ^ 53" "NaN \<notin> set xs"
  shows "percentile_95 xs \<in> set xs \<and>
     94 * length xs div 100 \<le> length (filter (\<lambda>x. fle x (percentile_95 xs)) xs) \<and>
     1 \<le> length (filter (\<lambda>x. fle (percentile_95 xs) x) xs)"
  using percentile_95_bounds[OF assms] by simp

text \<open>An example: of three samples the second largest.\<close>

theorem percentile_is_a_sample_witness:
  "percentile_95 [Finite 3, Finite 1, Finite 2] = Finite 2 \<and> Finite 2 \<in> set [Finite 3, Finite 1, Finite 2]"
proof -
  have "percentile_95 [Finite 3, Finite 1, Finite 2] = Finite 2" by code_simp
  then show ?thesis using percentile_is_a_sample[of "[Finite 3, Finite 1, Finite 2]"] by simp
qed

section \<open>The application\<close>

text \<open>
  C30. Safety. However requests and run threads interleave, at most one run thread exists, it is the
  active run, and only the active run has a cancel event; a request for a new run is refused meanwhile.
\<close>

theorem one_run_at_a_time:
  assumes "app_run c"
  shows "map fst (run_threads c) = (case active_run_id (app c) of None \<Rightarrow> [] | Some rid \<Rightarrow> [rid]) \<and>
    map fst (cancel_events (app c)) = map fst (run_threads c) \<and>
    (run_threads c = [] \<or> fst (create_run now_ms cfg (app c)) = None)"
  using one_run_always[OF assms] by (auto simp: one_run_def create_run_def Let_def split: option.splits)

text \<open>The witness of C30: the application at its start.\<close>

theorem one_run_at_a_time_witness: "run_threads conc_init = [] \<and> cancel_events (app conc_init) = []"
  using one_run_at_a_time[OF app_run.start, of 0 "run_configuration (run_rec sample_run)"] by (simp add: conc_init_def)


lemma ready_for_next_run_start: "fst (create_run now_ms cfg (app conc_init)) = Some (build_run_id now_ms, queued_run cfg)"
  by (simp add: create_run_def conc_init_def has_active_run_def list_runs_def Let_def)



section \<open>The interface\<close>


text \<open>The interface on the environment of the examples.\<close>

definition sample_body :: pystr where
  "sample_body = lit ''{\"scenario\": \"detail\", \"iteration_count\": 1, \"concurrency\": 1, \"hit_rate_buckets\": [100], \"ttl_seconds\": 60, \"include_reference\": false}''"

definition sample_web :: "pystr list web_env" where
  "sample_web =
     \<lparr>clients = sample_env False, client_host = lit ''127.0.0.1'', client_port = 6379, seed_method = None,
      collection_name = lit ''unknown'',
      json_stack = 2,
      str_json = (\<lambda>v. case v of JText t \<Rightarrow> t | _ \<Rightarrow> []), static = (\<lambda>p. Missing)\<rparr>"


text \<open>
  Round trip. The configurations that requests can ask for are those with numbers in range,
  and the dictionary of such a configuration, which the record of the run shows, asks for the same run.
\<close>

theorem config_roundtrip:
  assumes "\<And>t. sj (JText t) = t"
  shows "((\<exists>body. build_run_config sj body = Inr cfg) \<longleftrightarrow> valid_config cfg) \<and>
    (build_run_config sj body = Inr cfg \<longrightarrow> build_run_config sj (config_to_dict cfg) = Inr cfg)"
  using build_run_config_valid build_run_config_dict assms by metis

text \<open>An example: an empty body asks for the defaults.\<close>

theorem config_roundtrip_witness:
  "build_run_config (str_json sample_web) (config_to_dict
     \<lparr>scenario = lit ''detail_page'', iteration_count = 10, concurrency = 1, hit_rate_buckets = [0, 10, 20, 30, 40, 50, 60, 70, 80, 90, 100],
      config_ttl_seconds = 30, include_reference = False\<rparr>) = build_run_config (str_json sample_web) []"
proof -
  let ?sj = "str_json sample_web"
  have "build_run_config ?sj [] = Inr \<lparr>scenario = lit ''detail_page'', iteration_count = 10, concurrency = 1,
      hit_rate_buckets = [0, 10, 20, 30, 40, 50, 60, 70, 80, 90, 100], config_ttl_seconds = 30, include_reference = False\<rparr>"
    by code_simp
  then show ?thesis using config_roundtrip[of ?sj _ "[]"] by (simp add: sample_web_def)
qed





end
