(* ===== verification/HonestCache.thy ===== *)
theory HonestCache
  imports BenchProps
begin

text \<open>
  What a run measures on a cache that keeps what it is told. The contract of such a cache, of the clock and
  of the database is the locale \<open>honest_cache\<close>; a key is \<open>fresh k n\<close> when it survives \<open>n\<close> more readings of
  the clock. Main result: such a run is completed, and it has exactly the hits it planned, no fallback and no
  error. \<open>BenchServer\<close> proves the contract for the client and the server of this repository.
\<close>

section \<open>The plan\<close>

text \<open>The outcome the runner prepares for a request, and the hits of a run.\<close>

definition planned_outcome :: "run_config \<Rightarrow> int \<times> nat \<Rightarrow> request_outcome" where
  "planned_outcome cfg p = (if int (snd p) < target_hit_count (iteration_count cfg) (fst p) then Hit else Miss)"

definition planned_hits :: "run_config \<Rightarrow> nat" where
  "planned_hits cfg =
     (\<Sum>bucket\<leftarrow>(if hit_rate_buckets cfg = [] then [50] else hit_rate_buckets cfg).
        nat (target_hit_count (iteration_count cfg) bucket))"

lemma target_hit_count_bounds: "0 \<le> target_hit_count n bucket" "0 \<le> n \<Longrightarrow> target_hit_count n bucket \<le> n"
  by (auto simp: target_hit_count_def)

lemma count_planned_bucket:
  "count_list (map (\<lambda>i. planned_outcome cfg (bucket, i)) [0..<n]) Hit = min n (nat (target_hit_count (iteration_count cfg) bucket))"
  by (induction n) (auto simp: planned_outcome_def min_def)

lemma count_list_concat: "count_list (concat xss) x = (\<Sum>xs\<leftarrow>xss. count_list xs x)"
  by (induction xss) auto

lemma count_planned: "count_list (map (planned_outcome cfg) (cache_plan cfg)) Hit = planned_hits cfg"
proof -
  have "min (nat (iteration_count cfg)) (nat (target_hit_count (iteration_count cfg) bucket)) =
      nat (target_hit_count (iteration_count cfg) bucket)" for bucket
    using target_hit_count_bounds[of "iteration_count cfg" bucket] by (auto simp: target_hit_count_def)
  then show ?thesis
    by (simp add: cache_plan_def planned_hits_def map_concat count_list_concat comp_def count_planned_bucket Let_def)
qed

lemma count_planned_other:
  "count_list (map (planned_outcome cfg) plan) Miss = length plan - count_list (map (planned_outcome cfg) plan) Hit"
  "count_list (map (planned_outcome cfg) plan) MissUnsaved = 0" "count_list (map (planned_outcome cfg) plan) Fallback = 0"
proof -
  have "count_list (map (planned_outcome cfg) plan) Miss + count_list (map (planned_outcome cfg) plan) Hit = length plan"
    by (induction plan) (auto simp: planned_outcome_def)
  then show "count_list (map (planned_outcome cfg) plan) Miss = length plan - count_list (map (planned_outcome cfg) plan) Hit"
    by simp
  show "count_list (map (planned_outcome cfg) plan) MissUnsaved = 0" "count_list (map (planned_outcome cfg) plan) Fallback = 0"
    by (induction plan) (auto simp: planned_outcome_def)
qed

text \<open>A configuration whose record identifiers satisfy \<open>fits\<close>, with the given time to live.\<close>

definition servable :: "(pystr \<Rightarrow> bool) \<Rightarrow> int \<Rightarrow> run_config \<Rightarrow> bool" where
  "servable fits ttl cfg \<longleftrightarrow> config_ttl_seconds cfg = ttl \<and>
     (\<forall>(bucket, index) \<in> set (cache_plan cfg). fits (cache_record_id bucket index)) \<and>
     (\<forall>i \<in> set (reference_plan cfg). fits (lit ''reference-'' @ show_nat i))"

section \<open>The contract\<close>

locale honest_cache =
  fixes env :: "'w bench_env"
    and good :: "'w \<Rightarrow> bool"
    and fresh :: "pystr \<Rightarrow> nat \<Rightarrow> 'w \<Rightarrow> bool"
    and absent :: "pystr \<Rightarrow> 'w \<Rightarrow> bool"
    and fits :: "pystr \<Rightarrow> bool"
    and ttl :: int
  assumes clock: "good w \<Longrightarrow> env_clock env w = (t, w') \<Longrightarrow>
      good w' \<and> (fresh k (Suc n) w \<longrightarrow> fresh k n w') \<and> (absent k w \<longrightarrow> absent k w')"
    and not_cancelled: "good w \<Longrightarrow> \<not> env_cancelled env w"
    and healthy: "good w \<Longrightarrow> \<exists>w'. env_health env w = (Inr True, w') \<and> good w'"
    and baseline_healthy: "env_baseline_health env = Some check \<Longrightarrow> good w \<Longrightarrow> \<exists>w'. check w = (Inr True, w') \<and> good w'"
    and fetched: "good w \<Longrightarrow> \<exists>w'. env_fetch_detail env r w = (Inr (), w') \<and> good w'"
    and set_fresh: "good w \<Longrightarrow> fits r \<Longrightarrow> \<exists>x w'. env_set env (detail_key r) (cached_text r) w = (Inr x, w') \<and>
      good w' \<and> fresh (detail_key r) 0 w'"
    and expire_fresh: "good w \<Longrightarrow> fits r \<Longrightarrow> fresh (detail_key r) 0 w \<Longrightarrow>
      \<exists>x w'. env_expire env (detail_key r) ttl w = (Inr x, w') \<and> good w' \<and> fresh (detail_key r) (Suc (Suc 0)) w'"
    and delete_absent: "good w \<Longrightarrow> fits r \<Longrightarrow> \<exists>x w'. env_delete env (detail_key r) w = (Inr x, w') \<and>
      good w' \<and> absent (detail_key r) w'"
    and get_fresh: "good w \<Longrightarrow> fits r \<Longrightarrow> fresh (detail_key r) 0 w \<Longrightarrow>
      \<exists>v w'. env_get env (detail_key r) w = (Inr (Some v), w') \<and> good w'"
    and get_absent: "good w \<Longrightarrow> fits r \<Longrightarrow> absent (detail_key r) w \<Longrightarrow>
      \<exists>w'. env_get env (detail_key r) w = (Inr None, w') \<and> good w'"
begin

text \<open>The steps of a phase, none of which raises.\<close>

lemma clock_ok:
  assumes "good (world b)"
    and "\<And>t b'. good (world b') \<Longrightarrow> (\<And>k n. fresh k (Suc n) (world b) \<Longrightarrow> fresh k n (world b')) \<Longrightarrow>
      (\<And>k. absent k (world b) \<Longrightarrow> absent k (world b')) \<Longrightarrow> Q t b'"
  shows "ends Q E (perf_counter env b)"
  using assms clock[OF assms(1)] by (auto simp: perf_counter_def split: prod.splits)

lemma flow_ok: "(\<And>b'. world b' = world b \<Longrightarrow> Q () b') \<Longrightarrow> ends Q E (flow md rid suffix ts type stage duration metadata b)"
  by (simp add: flow_def append_event_def)

lemma cancelled_ok: "good (world b) \<Longrightarrow> Q () b \<Longrightarrow> ends Q E (ensure_not_cancelled env b)"
  by (simp add: ensure_not_cancelled_def not_cancelled)

lemma world_ok: "f (world b) = (Inr x, w) \<Longrightarrow> Q x (b\<lparr>world := w\<rparr>) \<Longrightarrow> ends Q E (on_world f b)"
  by (simp add: on_world_def)

lemma fetch_ok: "good (world b) \<Longrightarrow> (\<And>b'. good (world b') \<Longrightarrow> Q () b') \<Longrightarrow> ends Q E (on_world (env_fetch_detail env r) b)"
  using fetched[of "world b" r] by (auto intro: world_ok)

lemma set_ok:
  assumes "good (world b)" "fits r" "\<And>x b'. good (world b') \<Longrightarrow> fresh (detail_key r) 0 (world b') \<Longrightarrow> Q x b'"
  shows "ends Q E (on_world (env_set env (detail_key r) (cached_text r)) b)"
  using set_fresh[OF assms(1,2)] assms(3) by (auto intro: world_ok)

lemma expire_ok:
  assumes "good (world b)" "fits r" "fresh (detail_key r) 0 (world b)"
    and "\<And>x b'. good (world b') \<Longrightarrow> fresh (detail_key r) (Suc (Suc 0)) (world b') \<Longrightarrow> Q x b'"
  shows "ends Q E (on_world (env_expire env (detail_key r) ttl) b)"
  using expire_fresh[OF assms(1-3)] assms(4) by (auto intro: world_ok)

lemma delete_ok:
  assumes "good (world b)" "fits r" "\<And>x b'. good (world b') \<Longrightarrow> absent (detail_key r) (world b') \<Longrightarrow> Q x b'"
  shows "ends Q E (on_world (env_delete env (detail_key r)) b)"
  using delete_absent[OF assms(1,2)] assms(3) by (auto intro: world_ok)

lemma get_ok:
  assumes "good (world b)" "fits r" "if wanted then fresh (detail_key r) 0 (world b) else absent (detail_key r) (world b)"
    and "\<And>v b'. good (world b') \<Longrightarrow> v \<noteq> None \<longleftrightarrow> wanted \<Longrightarrow> Q v b'"
  shows "ends Q E (on_world (env_get env (detail_key r)) b)"
  using get_fresh[OF assms(1,2)] get_absent[OF assms(1,2)] assms(3,4)
  by (cases wanted) (auto intro: world_ok)

lemmas steps_ok = ends_sbind ends_try_redis clock_ok flow_ok cancelled_ok fetch_ok set_ok expire_ok delete_ok ends_simps[THEN iffD2]

section \<open>The cache phase\<close>

lemma db_query_ok:
  assumes "good (world b)" "\<And>t b'. good (world b') \<Longrightarrow> Q t b'"
  shows "ends Q E (cache_db_query env rid r bucket started b)"
  unfolding cache_db_query_def Let_def
  by (intro steps_ok assms(2)) (use assms(1) in auto)

lemma hit_ok:
  assumes "good (world b)" "\<And>a' b'. good (world b') \<Longrightarrow> tallied Hit a a' \<Longrightarrow> Q a' b'"
  shows "ends Q E (cache_hit_branch env rid r bucket started lookup_started lookup_finished a b)"
  unfolding cache_hit_branch_def send_response_def Let_def
  by (intro steps_ok assms(2)) (use assms(1) in \<open>auto simp: tallied_def\<close>)

lemma writeback_ok:
  assumes "good (world b)" "fits r" "config_ttl_seconds cfg = ttl" "\<And>b'. good (world b') \<Longrightarrow> Q (a, ''miss'') b'"
  shows "ends Q E (cache_writeback env cfg rid r bucket started a b)"
  unfolding cache_writeback_def Let_def assms(3)
  by (intro steps_ok assms(4)) (use assms(1,2) in auto)

lemma miss_ok:
  assumes "good (world b)" "fits r" "config_ttl_seconds cfg = ttl" "\<And>a' b'. good (world b') \<Longrightarrow> tallied Miss a a' \<Longrightarrow> Q a' b'"
  shows "ends Q E (cache_miss_branch env cfg rid r bucket started lookup_started lookup_finished a b)"
  unfolding cache_miss_branch_def send_response_def Let_def
  by (intro steps_ok db_query_ok writeback_ok assms(2,3); (simp only: prod.case)?; (intro steps_ok assms(4))?)
    (use assms(1) in \<open>auto simp: tallied_def\<close>)

lemma prepare_ok:
  assumes "good (world b)" "fits r" "config_ttl_seconds cfg = ttl"
    and "\<And>b'. good (world b') \<Longrightarrow>
      if wanted then fresh (detail_key r) (Suc (Suc 0)) (world b') else absent (detail_key r) (world b') \<Longrightarrow> Q () b'"
  shows "ends Q E (cache_prepare env cfg r wanted b)"
  unfolding cache_prepare_def Let_def assms(3)
  by (cases wanted; simp only: if_True if_False; intro steps_ok assms(4)) (use assms(1,2) in auto)

lemma request_ok:
  assumes "good (world b)" "fits (cache_record_id bucket index)" "config_ttl_seconds cfg = ttl"
  shows "ends (\<lambda>a' b'. good (world b') \<and> tallied (planned_outcome cfg (bucket, index)) (a\<lparr>cache_total := cache_total a + 1\<rparr>) a')
    E (cache_request env cfg bucket index a b)"
proof -
  let ?wanted = "int index < target_hit_count (iteration_count cfg) bucket"
  show ?thesis unfolding cache_request_def Let_def
    by (intro steps_ok prepare_ok get_ok[where wanted = ?wanted] ends_if hit_ok miss_ok assms)
      (auto simp: planned_outcome_def split: if_splits)
qed

lemma cache_loop_ok:
  assumes "config_ttl_seconds cfg = ttl"
  shows "good (world b) \<Longrightarrow> (\<And>bucket index. (bucket, index) \<in> set plan \<Longrightarrow> fits (cache_record_id bucket index)) \<Longrightarrow>
    ends (\<lambda>a' b'. good (world b') \<and> totals (map (planned_outcome cfg) plan) a a') E (cache_loop env cfg plan a b)"
proof (induction plan arbitrary: a b)
  case Nil
  then show ?case by (simp add: totals_def)
next
  case (Cons p plan)
  obtain bucket index where [simp]: "p = (bucket, index)" by fastforce
  show ?case unfolding \<open>p = _\<close> cache_loop.simps
    by (intro ends_sbind ends_mono[OF request_ok] ends_mono[OF Cons.IH] assms Cons.prems)
      (auto intro: totals_Cons)
qed

section \<open>The other phases\<close>

lemma baseline_loop_ok:
  "good (world b) \<Longrightarrow> ends (\<lambda>xs b'. good (world b') \<and> length xs = length samples + length plan) E (baseline_loop env plan samples b)"
proof (induction plan arbitrary: samples b)
  case (Cons i plan)
  have "ends (\<lambda>d b'. good (world b')) E (baseline_request env i b)"
    unfolding baseline_request_def Let_def by (intro steps_ok) (use Cons.prems in auto)
  then show ?case unfolding baseline_loop.simps
    by (intro ends_sbind) (erule ends_mono, rule ends_mono[OF Cons.IH], auto)
qed simp

lemma warmup_loop_ok: "good (world b) \<Longrightarrow> ends (\<lambda>_ b'. good (world b')) E (warmup_loop env plan b)"
proof (induction plan arbitrary: b)
  case (Cons i plan)
  show ?case unfolding warmup_loop.simps by (intro steps_ok Cons.IH) (use Cons.prems in auto)
qed simp

lemma reference_loop_ok:
  assumes "config_ttl_seconds cfg = ttl"
  shows "good (world b) \<Longrightarrow> (\<And>i. i \<in> set plan \<Longrightarrow> fits (lit ''reference-'' @ show_nat i)) \<Longrightarrow>
    ends (\<lambda>xs b'. good (world b')) E (reference_loop env cfg plan samples b)"
proof (induction plan arbitrary: samples b)
  case (Cons i plan)
  have "ends (\<lambda>d b'. good (world b')) E (reference_request env cfg i b)"
    unfolding reference_request_def Let_def assms
    by (intro steps_ok get_ok[where wanted = True]) (use Cons.prems in auto)
  then show ?case unfolding reference_loop.simps
    by (intro ends_sbind) (erule ends_mono, rule ends_mono[OF Cons.IH], use Cons.prems in auto)
qed simp

lemma phase_world [simp]: "world (append_log level stage message metadata b) = world b" "world (set_status st b) = world b"
  by (simp_all add: append_log_def set_status_def write_run_def)

lemma bootstrap_ok:
  assumes "good (world b)"
  shows "ends (\<lambda>_ b'. good (world b')) E (bootstrap env b)"
proof -
  obtain w1 where w1: "env_health env (world b) = (Inr True, w1)" "good w1" using healthy[OF assms] by blast
  show ?thesis
  proof (cases "env_baseline_health env")
    case None
    then show ?thesis using assms w1 by (simp add: bootstrap_def ensure_not_cancelled_def not_cancelled on_world_def)
  next
    case (Some check)
    then obtain w2 where "check w1 = (Inr True, w2)" "good w2" using baseline_healthy w1(2) by blast
    then show ?thesis using Some assms w1
      by (simp add: bootstrap_def ensure_not_cancelled_def not_cancelled on_world_def)
  qed
qed

lemma warmup_phase_ok: "good (world b) \<Longrightarrow> ends (\<lambda>_ b'. good (world b')) E (warmup_phase env cfg b)"
  unfolding warmup_phase_def warmup_def Let_def
  by (intro ends_sbind ends_mono[OF warmup_loop_ok]) auto

lemma baseline_phase_ok: "good (world b) \<Longrightarrow> ends (\<lambda>_ b'. good (world b')) E (baseline_phase env cfg b)"
  unfolding baseline_phase_def run_baseline_def
  by (intro ends_sbind ends_mono[OF baseline_loop_ok]) auto

lemma cache_phase_ok:
  assumes "good (world b)" "servable fits ttl cfg"
  shows "ends (\<lambda>(a, averages) b'. good (world b') \<and> totals (map (planned_outcome cfg) (cache_plan cfg)) tally_init a) E
    (cache_phase env cfg b)"
  unfolding cache_phase_def run_cache_def
  by (intro ends_sbind ends_mono[OF cache_loop_ok]) (use assms in \<open>auto simp: servable_def\<close>)

lemma reference_phase_ok:
  assumes "good (world b)" "servable fits ttl cfg"
  shows "ends (\<lambda>_ b'. good (world b')) E (reference_phase env cfg b)"
proof (cases "include_reference cfg")
  case True
  then show ?thesis using assms unfolding reference_phase_def run_reference_def
    by (simp only: not_True_eq_False if_False)
      (intro ends_sbind ends_mono[OF reference_loop_ok]; auto simp: servable_def reference_plan_def)
qed (use assms in \<open>simp add: reference_phase_def\<close>)

lemma run_phases_ok:
  assumes "good (world b)" "servable fits ttl cfg"
  shows "ends (\<lambda>_ b'. \<exists>xs a averages ys b1. b' = complete_run (benchmark_summary xs a averages ys (hit_rate_buckets cfg)) b1 \<and>
      totals (map (planned_outcome cfg) (cache_plan cfg)) tally_init a) (\<lambda>_ _. False) (run_phases env cfg b)"
  unfolding run_phases_def
proof (rule ends_then[OF bootstrap_ok[OF assms(1)]], erule ends_then[OF warmup_phase_ok], erule ends_then[OF baseline_phase_ok],
    erule ends_then[OF cache_phase_ok[OF _ assms(2)]], goal_cases)
  case (1 _ b0 _ b1 xs b2 r b3)
  then obtain a averages where r: "r = (a, averages)" "good (world b3)" "totals (map (planned_outcome cfg) (cache_plan cfg)) tally_init a"
    by (cases r) auto
  show ?case unfolding r(1) prod.case
    by (rule ends_then[OF reference_phase_ok[OF r(2) assms(2)]])
      (use r(3) in \<open>simp add: aggregate_def ensure_not_cancelled_def not_cancelled; blast\<close>)
qed

text \<open>The run.\<close>

lemma honest_run:
  assumes "good (world b)" "cfg = run_configuration (run_rec b)" "servable fits ttl cfg"
  shows "run_status (run_rec (run_benchmark env b)) = lit ''completed'' \<and>
    (\<exists>s. run_summary_of (run_rec (run_benchmark env b)) = Some s \<and>
       redis_hit_count s = planned_hits cfg \<and> redis_miss_count s = length (cache_plan cfg) - planned_hits cfg \<and>
       fallback_count s = 0 \<and> error_count s = 0)"
proof -
  let ?b0 = "append_log ''INFO'' ''bootstrap'' (lit ''benchmark started'') [(lit ''scenario'', MetaText (scenario cfg))]
    (set_status ''bootstrapping'' b)"
  have "good (world ?b0)" using assms(1) by simp
  from run_phases_ok[OF this assms(3)] obtain xs a averages ys b1 where
    run: "run_phases env cfg ?b0 = (Inr (), complete_run (benchmark_summary xs a averages ys (hit_rate_buckets cfg)) b1)"
      and t: "totals (map (planned_outcome cfg) (cache_plan cfg)) tally_init a"
    by (auto simp: ends_def split: prod.splits sum.splits)
  have "run_benchmark env b = complete_run (benchmark_summary xs a averages ys (hit_rate_buckets cfg)) b1"
    using run by (simp add: run_benchmark_def Let_def flip: assms(2))
  then show ?thesis using t
    by (simp add: benchmark_summary_def Let_def totals_def tally_init_def count_planned count_planned_other)
qed

end

end
