(* ===== verification/BenchServer.thy ===== *)
theory BenchServer
  imports HonestCache BenchClient
begin

text \<open>
  The benchmark against the server of this repository: the runner uses \<open>MiniRedisClient\<close> over connections to
  the server and the mock database of \<open>app/adapters/baseline.py\<close>. This satisfies the contract of
  \<open>HonestCache\<close>, when the server has no memory limit and a time to live is longer than the time between
  storing a key and looking it up.
\<close>

section \<open>The environment\<close>

text \<open>
  The time of the machine, and the client with the server behind it. Reading the clock takes time (\<open>tick\<close>),
  and so does the database (\<open>nap\<close>); the commands of the client are as fast as they can be.
\<close>

record bench_world =
  server_time :: pyfloat
  client :: "(session_context option, service) client_state"

definition client_call ::
  "py_texts \<Rightarrow> resource_limits \<Rightarrow> nat \<Rightarrow> nat \<Rightarrow> ('a, session_context option, service) client_op \<Rightarrow> bench_world \<Rightarrow>
    (py_exc + 'a) \<times> bench_world" where
  "client_call tx limits stack depth op w =
     (case op tx (session_wire limits stack (server_time w)) depth (client w) of (r, st) \<Rightarrow> (r, w\<lparr>client := st\<rparr>))"

text \<open>\<open>BaselineClient.fetch_detail\<close>: it sleeps and returns a record.\<close>

definition fetch_detail :: "(pyfloat \<Rightarrow> pyfloat) \<Rightarrow> pystr \<Rightarrow> bench_world \<Rightarrow> (pystr, pystr) dict \<times> bench_world" where
  "fetch_detail nap record_id w =
     ([(lit ''id'', record_id), (lit ''title'', lit ''Detail '' @ record_id), (lit ''body'', lit ''Body for '' @ record_id)],
      w\<lparr>server_time := nap (server_time w)\<rparr>)"

definition server_env ::
  "py_texts \<Rightarrow> resource_limits \<Rightarrow> nat \<Rightarrow> nat \<Rightarrow> (pyfloat \<Rightarrow> pyfloat) \<Rightarrow> (pyfloat \<Rightarrow> pyfloat) \<Rightarrow> bench_world bench_env" where
  "server_env tx limits stack depth tick nap =
     \<lparr>env_clock = (\<lambda>w. (server_time w, w\<lparr>server_time := tick (server_time w)\<rparr>)), env_cancelled = (\<lambda>w. False),
      env_health = client_call tx limits stack depth health_check,
      env_get = (\<lambda>k. client_call tx limits stack depth (bench_get k)),
      env_set = (\<lambda>k v. client_call tx limits stack depth (bench_set k v)),
      env_delete = (\<lambda>k. client_call tx limits stack depth (bench_delete k)),
      env_expire = (\<lambda>k n. client_call tx limits stack depth (bench_expire k n)),
      env_baseline_health = None,
      env_fetch_detail = (\<lambda>r w. case fetch_detail nap r w of (_, w') \<Rightarrow> (Inr (), w')),
      env_str = str_exc tx\<rparr>"

section \<open>Numbers as text\<close>

lemma length_show_nat: "n < 10 ^ Suc m \<Longrightarrow> length (show_nat n) \<le> Suc m"
proof (induction m arbitrary: n)
  case 0
  then show ?case by (simp add: show_nat.simps)
next
  case (Suc m)
  show ?case
  proof (cases "n < 10")
    case False
    have "n div 10 < 10 ^ Suc m" using Suc.prems by (simp add: less_mult_imp_div_less)
    from Suc.IH[OF this] show ?thesis using False by (subst show_nat.simps) simp
  qed (subst show_nat.simps, simp)
qed

lemma lower_digits: "list_all is_digit s \<Longrightarrow> py_lower s = s"
  by (induction s) (auto simp: py_lower_def lower_char_def is_digit_def)

lemma underscores_digits: "list_all is_digit s \<Longrightarrow> p \<noteq> 95 \<Longrightarrow> drop_underscores p s = Some s"
  by (induction s arbitrary: p) (auto simp: is_digit_def)

lemma py_float_show_nat:
  assumes "0 < n"
  shows "py_float (show_nat n) = Some (round64 (of_nat n))"
proof -
  let ?t = "show_nat n"
  have d: "list_all is_digit ?t" using show_nat_digits by (auto simp: list_all_iff)
  obtain c cs where t: "?t = c # cs" by (cases ?t) auto
  have "is_digit c" using d t by simp
  then have c: "c \<noteq> 45" "c \<noteq> 43" "?t \<noteq> lit ''inf''" "?t \<noteq> lit ''infinity''" "?t \<noteq> lit ''nan''"
    by (auto simp: t is_digit_def lit_def)
  have n: "numeric_text ?t = ?t" by (rule numeric_text_digits) (use d in \<open>auto simp: list_all_iff\<close>)
  have w: "takeWhile is_digit ?t = ?t" "dropWhile is_digit ?t = []" using d by (auto simp: takeWhile_eq_all_conv list_all_iff)
  have "read_decimal False ?t = Some (round64 (of_nat n))"
    using assms by (simp add: w Let_def read_decimal_def decimal_float_def digits_value_def foldl_show_nat pow10_def)
  then show ?thesis using c n underscores_digits[OF d, of 0] lower_digits[OF d]
    by (simp add: py_float_def read_unsigned_def t)
qed

lemma py_float_show_int:
  assumes "0 < n" "n < 2 ^ 53"
  shows "py_float (show_int n) = Some (Finite (of_int n))"
proof -
  have "of_int n \<le> (of_int n :: rat)" "0 < (of_int n :: rat)" using assms by simp_all
  from round64_between[OF this(2,1,1) assms(2)] have "round64 (of_int n) = Finite (of_int n)" using assms by auto
  then show ?thesis using assms py_float_show_nat[of "nat n"] by (simp add: show_int_def of_nat_nat)
qed

section \<open>The commands\<close>

lemma send_parts: "encode_command p = encode_command q \<Longrightarrow> send_command tx net depth p st = send_command tx net depth q st"
proof -
  assume "encode_command p = encode_command q"
  then have eq: "attempt tx net depth p = attempt tx net depth q" by (simp add: attempt_def fun_eq_iff)
  show ?thesis unfolding send_command_def eq ..
qed

lemma plain_names:
  assumes "nm \<in> {''SET'', ''GET'', ''DEL'', ''EXPIRE''}"
  shows "py_strip (lit nm) = lit nm" "py_upper (lit nm) = lit nm" "ascii (lit nm)" "lit nm \<noteq> lit ''HELLO''" "lit nm \<noteq> []"
    "apply_session_state (cmd nm args) ctx = Inr ctx"
proof -
  have "\<forall>nm \<in> set [''SET'', ''GET'', ''DEL'', ''EXPIRE'']. py_strip (lit nm) = lit nm \<and> py_upper (lit nm) = lit nm \<and>
      ascii (lit nm) \<and> lit nm \<noteq> lit ''HELLO'' \<and> lit nm \<noteq> [] \<and> lit nm \<noteq> lit ''SELECT'' \<and> lit nm \<noteq> lit ''CLIENT''" by code_simp
  then show "py_strip (lit nm) = lit nm" "py_upper (lit nm) = lit nm" "ascii (lit nm)" "lit nm \<noteq> lit ''HELLO''" "lit nm \<noteq> []"
    "apply_session_state (cmd nm args) ctx = Inr ctx"
    using assms by (auto simp: apply_session_state_def)
qed

text \<open>A plain command on a usable connection: the value the service returned, as the client sees it.\<close>

lemma bench_command:
  assumes "nm \<in> {''SET'', ''GET'', ''DEL'', ''EXPIRE''}" "list_all ascii args" "2 \<le> stack" "1 \<le> depth" "usable ctx sock"
    and "validate (cmd nm args) = Inr ()"
    and "int (length (build_command_frame (lit nm) args)) \<le> limit_request_size_bytes limits"
    and "execute now (cmd nm args) s = (Inr v, s')" "readable v" "error_free v" "nesting v \<le> depth"
  shows "send_command tx (session_wire limits stack now) depth (Text (lit nm) # map Text args) (sock, s) =
    (Inr (materialize_response_value (seen (protocol_version ctx) v)), (Some (idle ctx), s'))"
proof -
  note n = plain_names[OF assms(1)]
  show ?thesis
    by (rule send_usable[OF assms(5) _ session_command[OF n(3) assms(2,3) _ _ assms(6) _ assms(7,8) n(6) assms(9-11)]])
      (use n assms(4) in simp_all)
qed

lemma client_hello:
  assumes "2 \<le> stack" "2 \<le> depth" "64 \<le> limit_request_size_bytes limits" "usable ctx sock"
  shows "health_check tx (session_wire limits stack now) depth (sock, s) =
    (Inr True, (Some (idle (ctx\<lparr>protocol_version := 3\<rparr>)), s))"
proof -
  let ?frame = "build_command_frame (lit ''HELLO'') [lit ''3'']" and ?ctx = "ctx\<lparr>protocol_version := 3\<rparr>"
  have f: "encode_command [Text (lit ''HELLO''), Num 3] = ?frame" "int (length ?frame) \<le> 64" by code_simp+
  have "decode stack ?frame = Inr (RespArray (map RespBlobString [lit ''HELLO'', lit ''3'']))"
    using decode_encode_array[of "[Text (lit ''HELLO''), Text (lit ''3'')]" stack] assms(1)
    by (simp add: build_command_frame_def lit_def)
  moreover have "parse (map RespBlobString [lit ''HELLO'', lit ''3'']) = Inr (cmd ''HELLO'' [lit ''3''])"
    "validate (cmd ''HELLO'' [lit ''3'']) = Inr ()" "py_int (lit ''3'') = Some 3" by code_simp+
  ultimately have "process_request stack now ?frame (ctx, s) = (Inr (encode 3 (hello_handle 3)), (?ctx, s))"
    by (simp add: process_request_def handle_with_error_response_def protocol_handle_def Let_def)
  then have "transmit (session_wire limits stack now) ?frame (idle ctx) s = (Inr (), (idle ?ctx)\<lparr>unread := encode 3 (hello_handle 3)\<rparr>, s)"
    using assms(3) f(2) by (simp add: session_wire_def idle_def is_request_size_allowed_def)
  moreover have "readable (hello_handle 3)" "error_free (hello_handle 3)" "nesting (hello_handle 3) \<le> depth"
    using assms(2) by (simp_all add: hello_handle_def lit_def scalar_def)
  ultimately have "attempt tx (session_wire limits stack now) depth [Text (lit ''HELLO''), Num 3] (Some (idle ctx), s) =
      (Inr (materialize_response_value (seen 3 (hello_handle 3))), (Some (idle ?ctx), s))"
    using parse_resp_encode[of "hello_handle 3" depth tx None 3 "[]"] by (simp add: attempt_def get_socket_def f(1) idle_def)
  from send_usable[OF assms(4) _ this] have "health_check tx (session_wire limits stack now) depth (sock, s) =
      (Inr (case materialize_response_value (seen 3 (hello_handle 3)) of
              VMap m \<Rightarrow> map_of m (lit ''server'') = Some (VText (lit ''mini-redis'')) | _ \<Rightarrow> False), (Some (idle ?ctx), s))"
    using assms(2) by (simp add: health_check_def)
  moreover have "(case materialize_response_value (seen 3 (hello_handle 3)) of
      VMap m \<Rightarrow> map_of m (lit ''server'') = Some (VText (lit ''mini-redis'')) | _ \<Rightarrow> False)" by code_simp
  ultimately show ?thesis by simp
qed

section \<open>The contract\<close>

text \<open>
  Record identifiers the benchmark makes are short and plain. The clock is slow: a key with the time to
  live \<open>x\<close> is not expired at the next two readings.
\<close>

definition plain_id :: "pystr \<Rightarrow> bool" where
  "plain_id r \<longleftrightarrow> ascii r \<and> length r \<le> 64"

definition slow_clock :: "(pyfloat \<Rightarrow> bool) \<Rightarrow> (pyfloat \<Rightarrow> pyfloat) \<Rightarrow> (pyfloat \<Rightarrow> pyfloat) \<Rightarrow> pyfloat \<Rightarrow> bool" where
  "slow_clock era tick nap x \<longleftrightarrow>
     (\<forall>t. era t \<longrightarrow> era (tick t) \<and> era (nap t) \<and> (\<forall>m \<le> 2. \<not> is_expired_at ((tick ^^ m) t) (fadd t x)))"

definition server_good :: "(pyfloat \<Rightarrow> bool) \<Rightarrow> bench_world \<Rightarrow> bool" where
  "server_good era w \<longleftrightarrow> era (server_time w) \<and> (\<exists>ctx. usable ctx (fst (client w))) \<and>
     wf_service (snd (client w)) \<and> max_memory_bytes (snd (client w)) = None"

definition server_fresh :: "(pyfloat \<Rightarrow> pyfloat) \<Rightarrow> pystr \<Rightarrow> nat \<Rightarrow> bench_world \<Rightarrow> bool" where
  "server_fresh tick k n w \<longleftrightarrow>
     (\<exists>v. entry_of (snd (client w)) k = Some (StringEntry v) \<and> list_all scalar v) \<and>
     (\<forall>m \<le> n. \<not> is_expired ((tick ^^ m) (server_time w)) k (repos (snd (client w))))"

definition server_absent :: "pystr \<Rightarrow> bench_world \<Rightarrow> bool" where
  "server_absent k w \<longleftrightarrow> entry_of (snd (client w)) k = None"

text \<open>Room for the commands of the benchmark, which are short.\<close>

definition roomy :: "resource_limits \<Rightarrow> nat \<Rightarrow> nat \<Rightarrow> bool" where
  "roomy limits stack depth \<longleftrightarrow> 2 \<le> stack \<and> 2 \<le> depth \<and> 400 \<le> limit_request_size_bytes limits"

lemma frame_length:
  "length (build_command_frame c args) =
    3 + length (show_nat (Suc (length args))) +
    (\<Sum>t\<leftarrow>c # args. 5 + length (show_nat (length (encode_utf8 t))) + length (encode_utf8 t))"
  by (simp add: build_command_frame_def encode_array_eq encode_blob_string_def Let_def comp_def crlf_def lit_def length_concat
      encode_ascii eval_nat_numeral)

lemma short_frame:
  assumes "\<And>t. t \<in> set (c # args) \<Longrightarrow> ascii t \<and> length t \<le> 100" "length args \<le> 2"
  shows "length (build_command_frame c args) \<le> 400"
proof -
  have "5 + length (show_nat (length (encode_utf8 t))) + length (encode_utf8 t) \<le> 108" if "t \<in> set (c # args)" for t
    using assms(1)[OF that] length_show_nat[of "length t" 2] by (simp add: encode_ascii)
  then have "(\<Sum>t\<leftarrow>c # args. 5 + length (show_nat (length (encode_utf8 t))) + length (encode_utf8 t)) \<le> (\<Sum>t\<leftarrow>c # args. 108)"
    by (rule sum_list_mono)
  also have "\<dots> \<le> 324" using assms(2) by (simp add: sum_list_triv)
  finally show ?thesis using length_show_nat[of "Suc (length args)" 0] assms(2) by (simp only: frame_length) simp
qed

lemma plain_texts:
  assumes "plain_id r"
  shows "ascii (detail_key r)" "length (detail_key r) \<le> 100" "ascii (cached_text r)" "length (cached_text r) \<le> 100"
  using assms by (simp_all add: plain_id_def detail_key_def cached_text_def lit_def ascii_def)

text \<open>A command of the benchmark on a good world.\<close>

lemma world_command:
  assumes "server_good era w" "nm \<in> {''SET'', ''GET'', ''DEL'', ''EXPIRE''}" "roomy limits stack depth"
    and "list_all (\<lambda>t. ascii t \<and> length t \<le> 100) args" "length args \<le> 2" "validate (cmd nm args) = Inr ()"
    and "execute (server_time w) (cmd nm args) (snd (client w)) = (Inr v, s')" "readable v" "error_free v" "nesting v \<le> 1"
    and "encode_command parts = encode_command (Text (lit nm) # map Text args)"
  shows "\<exists>ctx. send_command tx (session_wire limits stack (server_time w)) depth parts (client w) =
    (Inr (materialize_response_value (seen (protocol_version ctx) v)), (Some (idle ctx), s'))"
proof -
  have room: "2 \<le> stack" "1 \<le> depth" "400 \<le> limit_request_size_bytes limits" using assms(3) by (simp_all add: roomy_def)
  obtain ctx where ctx: "usable ctx (fst (client w))" using assms(1) by (auto simp: server_good_def)
  have "length (lit nm) \<le> 100" "ascii (lit nm)" using assms(2) by (auto simp: lit_def)
  then have "length (build_command_frame (lit nm) args) \<le> 400"
    using assms(4,5) by (intro short_frame) (auto simp: list_all_iff)
  then have "int (length (build_command_frame (lit nm) args)) \<le> limit_request_size_bytes limits" using room(3) by simp
  moreover have "list_all ascii args" using assms(4) by (auto simp: list_all_iff)
  ultimately have "send_command tx (session_wire limits stack (server_time w)) depth (Text (lit nm) # map Text args) (client w) =
      (Inr (materialize_response_value (seen (protocol_version ctx) v)), (Some (idle ctx), s'))"
    using bench_command[OF assms(2) _ room(1,2) ctx assms(6) _ assms(7-9)] room(2) assms(10) by simp
  then show ?thesis using send_parts[OF assms(11)] by metis
qed

lemma usable_idle: "usable ctx (Some (idle ctx))"
  by (simp add: usable_def)

lemma plain_valid:
  "validate (cmd ''DEL'' [k]) = Inr ()" "py_float x = Some y \<Longrightarrow> \<not> fle y (Finite 0) \<Longrightarrow> validate (cmd ''EXPIRE'' [k, x]) = Inr ()"
  by (simp_all add: validate_def validate_arity_def SUPPORTED_ARITY_def validate_float_argument_def lit_def)

text \<open>The contract, one law after the other.\<close>

lemma server_goodI:
  "server_good era w \<Longrightarrow> wf_service s \<Longrightarrow> max_memory_bytes s = None \<Longrightarrow> server_good era (w\<lparr>client := (Some (idle ctx), s)\<rparr>)"
  by (auto simp: server_good_def intro: usable_idle)

lemma server_set:
  assumes "server_good era w" "plain_id r" "roomy limits stack depth"
  shows "\<exists>x w'. client_call tx limits stack depth (bench_set (detail_key r) (cached_text r)) w = (Inr x, w') \<and>
    server_good era w' \<and> server_fresh tick (detail_key r) 0 w'"
proof -
  let ?s = "after_set (detail_key r) (cached_text r) (snd (client w))"
  have s: "wf_service (snd (client w))" "max_memory_bytes (snd (client w)) = None" using assms(1) by (simp_all add: server_good_def)
  have "execute (server_time w) (cmd ''SET'' [detail_key r, cached_text r]) (snd (client w)) = (Inr (RespSimpleString RESP_OK), ?s)"
    using s(2) by (simp add: execute_simps run_set_eq ensure_max_memory_def)
  moreover have "readable (RespSimpleString RESP_OK)" by code_simp
  ultimately obtain ctx where
    "send_command tx (session_wire limits stack (server_time w)) depth [Text (lit ''SET''), Text (detail_key r), Text (cached_text r)] (client w) =
      (Inr (VText RESP_OK), (Some (idle ctx), ?s))"
    using world_command[OF assms(1) _ assms(3), of "''SET''" "[detail_key r, cached_text r]"] plain_texts[OF assms(2)] client_names(5)
    by fastforce
  then have c: "client_call tx limits stack depth (bench_set (detail_key r) (cached_text r)) w = (Inr True, w\<lparr>client := (Some (idle ctx), ?s)\<rparr>)"
    by (simp add: client_call_def bench_set_def RESP_OK_def)
  have "server_good era (w\<lparr>client := (Some (idle ctx), ?s)\<rparr>)" using s by (intro server_goodI[OF assms(1)]) simp_all
  moreover have "server_fresh tick (detail_key r) 0 (w\<lparr>client := (Some (idle ctx), ?s)\<rparr>)"
    using plain_texts(3)[OF assms(2)] by (simp add: server_fresh_def is_expired_def ascii_scalar)
  ultimately show ?thesis using c by blast
qed

lemma server_expire:
  assumes "server_good era w" "plain_id r" "roomy limits stack depth" "server_fresh tick (detail_key r) 0 w"
    and "0 < ttl" "ttl < 2 ^ 53" "slow_clock era tick nap (Finite (of_int ttl))" "length (show_int ttl) \<le> 100"
  shows "\<exists>x w'. client_call tx limits stack depth (bench_expire (detail_key r) ttl) w = (Inr x, w') \<and>
    server_good era w' \<and> server_fresh tick (detail_key r) (Suc (Suc 0)) w'"
proof -
  let ?k = "detail_key r" and ?old = "snd (client w)" and ?x = "Finite (of_int ttl)"
  let ?s = "touch_key ?k (?old\<lparr>repos := (fst (repos ?old), set_expiration ?k (fadd (server_time w) ?x) (snd (repos ?old)))\<rparr>)"
  have s: "wf_service ?old" "max_memory_bytes ?old = None" using assms(1) by (simp_all add: server_good_def)
  note f = py_float_show_int[OF assms(5,6)]
  obtain v where v: "entry_of ?old ?k = Some (StringEntry v)" "list_all scalar v" "\<not> is_expired (server_time w) ?k (repos ?old)"
    using assms(4) by (auto simp: server_fresh_def)
  then have "live (server_time w) (repos ?old) ?k = Some (StringEntry v)" by (simp add: live_def)
  then have e: "run_expire (server_time w) ?k (show_int ttl) ?old = (Inr (RespNumber 1), ?s)" by (simp add: run_expire_state[OF f])
  have "\<not> fle ?x (Finite 0)" using assms(5) by (simp add: fle_def)
  then have "\<exists>ctx. send_command tx (session_wire limits stack (server_time w)) depth [Text (lit ''EXPIRE''), Text ?k, Num ttl] (client w) =
      (Inr (VInt 1), (Some (idle ctx), ?s))"
    using world_command[OF assms(1) _ assms(3), of "''EXPIRE''" "[?k, show_int ttl]" "RespNumber 1" ?s "[Text (lit ''EXPIRE''), Text ?k, Num ttl]" tx]
      plain_texts[OF assms(2)] plain_valid(2)[OF f] assms(8) e
    by (simp add: execute_simps encode_command_eq part_text_def)
  then obtain ctx where c: "client_call tx limits stack depth (bench_expire ?k ttl) w = (Inr 1, w\<lparr>client := (Some (idle ctx), ?s)\<rparr>)"
    by (auto simp: client_call_def bench_expire_def int_response_def)
  have "wf_service ?s" "max_memory_bytes ?s = None"
    using wf_run_expire[OF s(1), of "server_time w" ?k "show_int ttl"] max_memory_run(2)[of "server_time w" ?k "show_int ttl" ?old] s(2)
    by (simp_all add: e)
  then have "server_good era (w\<lparr>client := (Some (idle ctx), ?s)\<rparr>)" by (rule server_goodI[OF assms(1)])
  moreover have "server_fresh tick ?k (Suc (Suc 0)) (w\<lparr>client := (Some (idle ctx), ?s)\<rparr>)"
    using v(1,2) assms(1,7) by (auto simp: server_fresh_def is_expired_def slow_clock_def server_good_def numeral_2_eq_2)
  ultimately show ?thesis using c by blast
qed

lemma server_delete:
  assumes "server_good era w" "plain_id r" "roomy limits stack depth"
  shows "\<exists>x w'. client_call tx limits stack depth (bench_delete (detail_key r)) w = (Inr x, w') \<and>
    server_good era w' \<and> server_absent (detail_key r) w'"
proof -
  let ?k = "detail_key r" and ?old = "snd (client w)"
  have s: "wf_service ?old" "max_memory_bytes ?old = None" using assms(1) by (simp_all add: server_good_def)
  obtain n s' where e: "run_del (server_time w) ?k ?old = (Inr (RespNumber n), s')" 
    by (cases "del_service (server_time w) ?k (repos ?old)") (simp add: run_del_def)
  then have "\<exists>ctx. send_command tx (session_wire limits stack (server_time w)) depth [Text (lit ''DEL''), Text ?k] (client w) =
      (Inr (VInt n), (Some (idle ctx), s'))"
    using world_command[OF assms(1) _ assms(3), of "''DEL''" "[?k]" "RespNumber n" s' "[Text (lit ''DEL''), Text ?k]" tx]
      plain_texts[OF assms(2)] plain_valid(1) by (simp add: execute_simps)
  then obtain ctx where c: "client_call tx limits stack depth (bench_delete ?k) w = (Inr n, w\<lparr>client := (Some (idle ctx), s')\<rparr>)"
    by (auto simp: client_call_def bench_delete_def int_response_def)
  have "wf_service s'" "max_memory_bytes s' = None" "entry_of s' ?k = None"
    using del.wf[OF s(1), of "server_time w" ?k] del.limit[OF s(1), of "server_time w" ?k] del.entry[OF s(1), of "server_time w" ?k ?k] s(2)
    by (cases "live (server_time w) (repos ?old) ?k"; simp add: e)+
  then show ?thesis using c server_goodI[OF assms(1), of s' ctx] by (fastforce simp: server_absent_def)
qed

lemma server_get:
  assumes "server_good era w" "plain_id r" "roomy limits stack depth"
  shows "server_fresh tick (detail_key r) 0 w \<Longrightarrow>
      \<exists>v w'. client_call tx limits stack depth (bench_get (detail_key r)) w = (Inr (Some v), w') \<and> server_good era w'"
    and "server_absent (detail_key r) w \<Longrightarrow>
      \<exists>w'. client_call tx limits stack depth (bench_get (detail_key r)) w = (Inr None, w') \<and> server_good era w'"
proof -
  let ?k = "detail_key r" and ?old = "snd (client w)"
  have s: "wf_service ?old" "max_memory_bytes ?old = None" using assms(1) by (simp_all add: server_good_def)
  obtain reply s' where e: "run_get (server_time w) ?k ?old = (reply, s')" by fastforce
  have good: "server_good era (w\<lparr>client := (Some (idle ctx), s')\<rparr>)" for ctx
    using get.wf[OF s(1), of "server_time w" ?k] get.limit[OF s(1), of "server_time w" ?k] s(2)
    by (intro server_goodI[OF assms(1)]) (simp_all add: e)
  have reply: "reply = fst (spec_get (live (server_time w) (repos ?old) ?k))" using get.reply[OF s(1), of "server_time w" ?k] e by simp
  have send: "\<exists>ctx. send_command tx (session_wire limits stack (server_time w)) depth [Text (lit ''GET''), Text ?k] (client w) =
      (Inr (materialize_response_value (seen (protocol_version ctx) v)), (Some (idle ctx), s'))"
    if "reply = Inr v" "readable v" "error_free v" "nesting v \<le> 1" for v
    using world_command[OF assms(1) _ assms(3), of "''GET''" "[?k]" v s' "[Text (lit ''GET''), Text ?k]" tx]
      plain_texts[OF assms(2)] client_names(6) e that by (simp add: execute_simps)
  show "\<exists>v w'. client_call tx limits stack depth (bench_get ?k) w = (Inr (Some v), w') \<and> server_good era w'"
    if fresh: "server_fresh tick ?k 0 w"
  proof -
    obtain v where v: "live (server_time w) (repos ?old) ?k = Some (StringEntry v)" "list_all scalar v"
      using fresh by (auto simp: server_fresh_def live_def)
    then obtain ctx where "send_command tx (session_wire limits stack (server_time w)) depth [Text (lit ''GET''), Text ?k] (client w) =
      (Inr (VText v), (Some (idle ctx), s'))"
      using send[of "RespBlobString v"] reply by auto
    then show ?thesis using good by (simp add: client_call_def bench_get_def)
  qed
  show "\<exists>w'. client_call tx limits stack depth (bench_get ?k) w = (Inr None, w') \<and> server_good era w'"
    if "server_absent ?k w"
  proof -
    have "live (server_time w) (repos ?old) ?k = None" using that by (simp add: server_absent_def live_def)
    then obtain ctx where "send_command tx (session_wire limits stack (server_time w)) depth [Text (lit ''GET''), Text ?k] (client w) =
      (Inr VNone, (Some (idle ctx), s'))"
      using send[of RespNull] reply by auto
    then show ?thesis using good by (simp add: client_call_def bench_get_def)
  qed
qed

lemma server_health:
  assumes "server_good era w" "roomy limits stack depth"
  shows "\<exists>w'. client_call tx limits stack depth health_check w = (Inr True, w') \<and> server_good era w'"
proof -
  obtain ctx where "usable ctx (fst (client w))" using assms(1) by (auto simp: server_good_def)
  from client_hello[OF _ _ _ this, of stack depth limits tx "server_time w" "snd (client w)"]
  have "client_call tx limits stack depth health_check w =
      (Inr True, w\<lparr>client := (Some (idle (ctx\<lparr>protocol_version := 3\<rparr>)), snd (client w))\<rparr>)"
    using assms(2) by (simp add: client_call_def roomy_def)
  then show ?thesis using server_goodI[OF assms(1)] assms(1) by (auto simp: server_good_def)
qed

lemma server_clock:
  assumes "server_good era w" "slow_clock era tick nap x" "w' = w\<lparr>server_time := tick (server_time w)\<rparr>"
  shows "server_good era w' \<and> (server_fresh tick k (Suc n) w \<longrightarrow> server_fresh tick k n w') \<and> (server_absent k w \<longrightarrow> server_absent k w')"
proof -
  have "\<forall>m \<le> n. \<not> is_expired ((tick ^^ m) (tick t)) k ks" if "\<forall>m \<le> Suc n. \<not> is_expired ((tick ^^ m) t) k ks" for t ks
    using that by (auto simp: funpow_swap1 simp flip: funpow.simps(2)[unfolded comp_def])
  then show ?thesis
    using assms by (auto simp: server_good_def server_fresh_def server_absent_def slow_clock_def)
qed

lemma server_honest:
  assumes "roomy limits stack depth" "0 < ttl" "ttl < 2 ^ 53" "slow_clock era tick nap (Finite (of_int ttl))"
  shows "honest_cache (server_env tx limits stack depth tick nap) (server_good era) (server_fresh tick) server_absent plain_id ttl"
proof
  have "nat ttl < 10 ^ Suc 99" using assms(2,3) by simp
  then have ttl: "length (show_int ttl) \<le> 100" using length_show_nat[of "nat ttl" 99] assms(2) by (simp add: show_int_def)
  fix w w' :: bench_world and t :: pyfloat and k r :: pystr and n :: nat and check :: "bench_world \<Rightarrow> (py_exc + bool) \<times> bench_world"
  let ?env = "server_env tx limits stack depth tick nap"
  assume w: "server_good era w"
  show "server_good era w' \<and> (server_fresh tick k (Suc n) w \<longrightarrow> server_fresh tick k n w') \<and> (server_absent k w \<longrightarrow> server_absent k w')"
    if "env_clock ?env w = (t, w')"
    by (rule server_clock[OF w assms(4)]) (use that in \<open>auto simp: server_env_def\<close>)
  show "\<not> env_cancelled ?env w" by (simp add: server_env_def)
  show "\<exists>w'. env_health ?env w = (Inr True, w') \<and> server_good era w'"
    using server_health[OF w assms(1)] by (simp add: server_env_def)
  show "\<exists>w'. check w = (Inr True, w') \<and> server_good era w'" if "env_baseline_health ?env = Some check"
    using that by (simp add: server_env_def)
  show "\<exists>w'. env_fetch_detail ?env r w = (Inr (), w') \<and> server_good era w'"
    using w assms(4) by (auto simp: server_env_def fetch_detail_def server_good_def slow_clock_def)
  assume r: "plain_id r"
  show "\<exists>x w'. env_set ?env (detail_key r) (cached_text r) w = (Inr x, w') \<and> server_good era w' \<and> server_fresh tick (detail_key r) 0 w'"
    using server_set[OF w r assms(1)] by (simp add: server_env_def)
  show "\<exists>x w'. env_expire ?env (detail_key r) ttl w = (Inr x, w') \<and> server_good era w' \<and> server_fresh tick (detail_key r) (Suc (Suc 0)) w'"
    if "server_fresh tick (detail_key r) 0 w"
    using server_expire[OF w r assms(1) that assms(2-4) ttl] by (simp add: server_env_def)
  show "\<exists>x w'. env_delete ?env (detail_key r) w = (Inr x, w') \<and> server_good era w' \<and> server_absent (detail_key r) w'"
    using server_delete[OF w r assms(1)] by (simp add: server_env_def)
  show "\<exists>v w'. env_get ?env (detail_key r) w = (Inr (Some v), w') \<and> server_good era w'" if "server_fresh tick (detail_key r) 0 w"
    using server_get(1)[OF w r assms(1) that] by (simp add: server_env_def)
  show "\<exists>w'. env_get ?env (detail_key r) w = (Inr None, w') \<and> server_good era w'" if "server_absent (detail_key r) w"
    using server_get(2)[OF w r assms(1) that] by (simp add: server_env_def)
qed

text \<open>The default limits, and a clock that stands still, as the test clock does.\<close>

lemma standing_clock: "slow_clock (\<lambda>t. t = Finite 0) (\<lambda>t. t) (\<lambda>t. t) (Finite 30)"
proof -
  have "((\<lambda>t. t) ^^ m) t = t" for m and t :: pyfloat by (induction m) auto
  moreover have "\<not> is_expired_at (Finite 0) (fadd (Finite 0) (Finite 30))" by code_simp
  ultimately show ?thesis by (simp add: slow_clock_def)
qed

interpretation bench_server: honest_cache "server_env tx default_limits 1000 1000 (\<lambda>t. t) (\<lambda>t. t)" "server_good (\<lambda>t. t = Finite 0)"
  "server_fresh (\<lambda>t. t)" server_absent plain_id 30
  for tx
  using server_honest[of default_limits 1000 1000 30 "\<lambda>t. t = Finite 0" "\<lambda>t. t" "\<lambda>t. t" tx] standing_clock
  by (simp add: roomy_def default_limit)

text \<open>The record identifiers of a run are plain.\<close>

lemma plain_ids:
  assumes "\<forall>b \<in> set (hit_rate_buckets cfg). 0 \<le> b \<and> b \<le> 100" "iteration_count cfg \<le> 10 ^ 20"
  shows "servable plain_id (config_ttl_seconds cfg) cfg"
proof -
  have n: "length (show_nat i) \<le> 21" if "int i < 10 ^ 20" for i
    using length_show_nat[of i 20] that by simp
  have b: "length (show_int b) \<le> 3" "ascii (show_int b)" if "0 \<le> b" "b \<le> 100" for b
    using length_show_nat[of "nat b" 2] that by (simp_all add: show_int_def)
  have "plain_id (cache_record_id b i)" if "0 \<le> b" "b \<le> 100" "int i < 10 ^ 20" for b i
    using n[OF that(3)] b[OF that(1,2)] ascii_show_nat[of i] by (auto simp: plain_id_def cache_record_id_def lit_def ascii_def)
  moreover have "plain_id (lit ''reference-'' @ show_nat i)" if "int i < 10 ^ 20" for i
    using n[OF that] ascii_show_nat[of i] by (auto simp: plain_id_def lit_def ascii_def)
  ultimately show ?thesis using assms
    by (auto simp: servable_def cache_plan_def reference_plan_def Let_def split: if_splits)
qed

section \<open>The hit rate that was asked for\<close>


text \<open>Four requests with a hit rate of fifty percent, on an empty server.\<close>

definition sample_texts :: py_texts where
  "sample_texts = \<lparr>repr_value = (\<lambda>v. []), repr_byte = (\<lambda>b. []), str_error = (\<lambda>e. [])\<rparr>"

definition half_run :: "bench_world bench" where
  "half_run =
     (let cfg = \<lparr>scenario = lit ''detail_page'', iteration_count = 4, concurrency = 1, hit_rate_buckets = [50],
            config_ttl_seconds = 30, include_reference = True\<rparr>
      in \<lparr>world = \<lparr>server_time = Finite 0, client = (None, service_init ([], []) None)\<rparr>, flow_events = [], log_entries = [],
          run_rec = \<lparr>run_status = lit ''queued'', run_configuration = cfg, run_finished = False, run_summary_of = None,
            run_error_message = None\<rparr>, run_writes = []\<rparr>)"


end
