(* ===== verification/MongoBaseline.thy ===== *)
theory MongoBaseline
  imports JsonText Ends
begin

text \<open>
  The database of the benchmark (\<open>app/adapters/mongodb_baseline.py\<close>): a client that connects when it is first
  used, fills the collection from a seed file, and fetches records, storing those that are missing.

  \<open>pymongo\<close> is an argument, \<open>mongo_driver\<close>: opening a client, the \<open>ping\<close>, the index, a lookup by
  \<open>record_id\<close> and an \<open>update_one\<close> with \<open>$setOnInsert\<close> and \<open>upsert\<close>, which tells whether it inserted. What the
  properties need of it is \<open>honest_driver\<close>. The seed file, the depth of the stack and \<open>str\<close> are arguments too.

  Main results: on a collection that answers, every record can be fetched, twice with the same result; the
  first call of \<open>seed\<close> inserts the documents and reports none; a seed file that cannot be read fails the
  first health check only.
\<close>

section \<open>The driver\<close>

record 'd mongo_driver =
  pymongo_installed :: bool
  open_client :: "'d \<Rightarrow> (py_exc + unit) \<times> 'd"
  ping_database :: "'d \<Rightarrow> (py_exc + unit) \<times> 'd"
  create_index :: "'d \<Rightarrow> (py_exc + unit) \<times> 'd"
  find_record :: "pystr \<Rightarrow> 'd \<Rightarrow> (py_exc + json_object option) \<times> 'd"
  upsert_record :: "pystr \<Rightarrow> json_object \<Rightarrow> 'd \<Rightarrow> (py_exc + bool) \<times> 'd"

text \<open>The texts and files: the content of the seed file (\<open>None\<close>: there is no such file), its path, the stack for
  \<open>json.loads\<close>, and \<open>str\<close>.\<close>

record seed_source =
  seed_path :: pystr
  seed_content :: "bytes option"
  seed_stack :: nat
  seed_str :: "json \<Rightarrow> pystr"
  seed_str_exc :: "py_exc \<Rightarrow> pystr"

record 'd baseline =
  driver_state :: 'd
  collection_ready :: bool
  seeded :: bool

definition baseline_init :: "'d \<Rightarrow> 'd baseline" where
  "baseline_init d = \<lparr>driver_state = d, collection_ready = False, seeded = False\<rparr>"

section \<open>The seed file\<close>

definition text_or :: "(json \<Rightarrow> pystr) \<Rightarrow> json_object \<Rightarrow> string \<Rightarrow> pystr \<Rightarrow> pystr" where
  "text_or str d key fallback = (case map_of d (lit key) of None \<Rightarrow> fallback | Some v \<Rightarrow> str v)"

definition detail_document :: "pystr \<Rightarrow> pystr \<Rightarrow> pystr \<Rightarrow> json_object" where
  "detail_document record_id title body =
     [(lit ''record_id'', JText record_id), (lit ''title'', JText title), (lit ''body'', JText body)]"

definition default_title :: "pystr \<Rightarrow> pystr" where
  "default_title record_id = lit ''Detail '' @ record_id"

definition default_body :: "pystr \<Rightarrow> pystr" where
  "default_body record_id = lit ''Body for '' @ record_id"

fun seed_document :: "(json \<Rightarrow> pystr) \<Rightarrow> json \<Rightarrow> py_exc + pystr \<times> json_object" where
  "seed_document str (JObject d) =
     (case map_of d (lit ''record_id'') of
        Some (JText r) \<Rightarrow>
          if r = [] then Inl (MongoBaselineError (lit ''each seed document must have a non-empty string record_id''))
          else Inr (r, detail_document r (text_or str d ''title'' (default_title r)) (text_or str d ''body'' (default_body r)))
      | _ \<Rightarrow> Inl (MongoBaselineError (lit ''each seed document must have a non-empty string record_id'')))"
| "seed_document str _ = Inl (MongoBaselineError (lit ''seed documents must be JSON objects''))"

fun read_items :: "(json \<Rightarrow> pystr) \<Rightarrow> json list \<Rightarrow> py_exc + (pystr \<times> json_object) list" where
  "read_items str [] = Inr []"
| "read_items str (item # rest) =
     rbind (seed_document str item) (\<lambda>d. rbind (read_items str rest) (\<lambda>ds. Inr (d # ds)))"

definition read_seed_documents :: "seed_source \<Rightarrow> py_exc + (pystr \<times> json_object) list" where
  "read_seed_documents src =
     (case seed_content src of
        None \<Rightarrow> Inl (MongoBaselineError (lit ''seed file not found: '' @ seed_path src))
      | Some raw \<Rightarrow>
          (case decode_utf8 raw of
             None \<Rightarrow> Inl ValueError
           | Some t \<Rightarrow>
               (case json_loads (seed_stack src) t of
                  Inl e \<Rightarrow> Inl e
                | Inr (JList items) \<Rightarrow> read_items (seed_str src) items
                | Inr _ \<Rightarrow> Inl (MongoBaselineError (lit ''seed file must contain a JSON array'')))))"

section \<open>The client\<close>

type_synonym ('a, 'd) baseline_op = "'d baseline \<Rightarrow> (py_exc + 'a) \<times> 'd baseline"

definition on_driver :: "('d \<Rightarrow> (py_exc + 'a) \<times> 'd) \<Rightarrow> ('a, 'd) baseline_op" where
  "on_driver f st = (case f (driver_state st) of (r, d) \<Rightarrow> (r, st\<lparr>driver_state := d\<rparr>))"

text \<open>\<open>except Exception as exc: raise MongoBaselineError(str(exc))\<close>.\<close>

definition as_baseline_error :: "seed_source \<Rightarrow> (py_exc + 'a) \<times> 's \<Rightarrow> (py_exc + 'a) \<times> 's" where
  "as_baseline_error src r = (case r of (Inl e, s) \<Rightarrow> (Inl (MongoBaselineError (seed_str_exc src e)), s) | (Inr a, s) \<Rightarrow> (Inr a, s))"

fun upsert_all :: "'d mongo_driver \<Rightarrow> (pystr \<times> json_object) list \<Rightarrow> nat \<Rightarrow> (nat, 'd) baseline_op" where
  "upsert_all drv [] n st = (Inr n, st)"
| "upsert_all drv ((r, doc) # rest) n st =
     sbind (on_driver (upsert_record drv r doc) st) (\<lambda>inserted st.
       upsert_all drv rest (if inserted then n + 1 else n) st)"

text \<open>\<open>seed\<close>, after its call of \<open>_get_collection\<close>, which came to \<open>r\<close>.\<close>

definition seed_after :: "'d mongo_driver \<Rightarrow> seed_source \<Rightarrow> (py_exc + unit) \<times> 'd baseline \<Rightarrow> (py_exc + nat) \<times> 'd baseline" where
  "seed_after drv src r =
     sbind r (\<lambda>_ st. sbind (read_seed_documents src, st) (\<lambda>docs st.
       sbind (upsert_all drv docs 0 st) (\<lambda>n st. (Inr n, st\<lparr>seeded := True\<rparr>))))"

text \<open>
  The call of \<open>seed\<close> in \<open>_get_collection\<close> comes after the collection is set: the \<open>_get_collection\<close> it calls in
  turn returns at once.
\<close>

definition get_collection :: "'d mongo_driver \<Rightarrow> seed_source \<Rightarrow> (unit, 'd) baseline_op" where
  "get_collection drv src st =
     (if collection_ready st then (Inr (), st)
      else if \<not> pymongo_installed drv then
        (Inl (MongoBaselineError (lit ''pymongo is not installed. Activate .venv and install requirements.txt first.'')), st)
      else as_baseline_error src
        (sbind (on_driver (open_client drv) st) (\<lambda>_ st.
         sbind (on_driver (ping_database drv) st) (\<lambda>_ st.
         sbind (on_driver (create_index drv) st) (\<lambda>_ st.
         let st = st\<lparr>collection_ready := True\<rparr> in
         if seeded st then (Inr (), st)
         else sbind (seed_after drv src (Inr (), st)) (\<lambda>_ st. (Inr (), st)))))))"

definition baseline_seed :: "'d mongo_driver \<Rightarrow> seed_source \<Rightarrow> (nat, 'd) baseline_op" where
  "baseline_seed drv src st = seed_after drv src (get_collection drv src st)"

definition baseline_health_check :: "'d mongo_driver \<Rightarrow> seed_source \<Rightarrow> (bool, 'd) baseline_op" where
  "baseline_health_check drv src st =
     as_baseline_error src
       (sbind (get_collection drv src st) (\<lambda>_ st. sbind (on_driver (ping_database drv) st) (\<lambda>_ st. (Inr True, st))))"

definition record_of :: "seed_source \<Rightarrow> json_object \<Rightarrow> py_exc + (pystr, pystr) dict" where
  "record_of src doc =
     (case map_of doc (lit ''record_id'') of
        None \<Rightarrow> Inl KeyError
      | Some v \<Rightarrow> Inr [(lit ''id'', seed_str src v), (lit ''title'', text_or (seed_str src) doc ''title'' []),
                         (lit ''body'', text_or (seed_str src) doc ''body'' [])])"

definition baseline_fetch_detail :: "'d mongo_driver \<Rightarrow> seed_source \<Rightarrow> pystr \<Rightarrow> ((pystr, pystr) dict, 'd) baseline_op" where
  "baseline_fetch_detail drv src record_id st =
     sbind (get_collection drv src st) (\<lambda>_ st.
     sbind (on_driver (find_record drv record_id) st) (\<lambda>document st.
       case document of
         Some doc \<Rightarrow> (record_of src doc, st)
       | None \<Rightarrow>
           (let fallback = detail_document record_id (default_title record_id) (default_body record_id)
            in sbind (on_driver (upsert_record drv record_id fallback) st) (\<lambda>_ st. (record_of src fallback, st)))))"

section \<open>A collection that answers\<close>

text \<open>
  \<open>contents\<close> says which document a collection holds under a \<open>record_id\<close>: a lookup returns it, an upsert
  inserts a document where there is none and reports that, and nothing else changes it.
\<close>

definition honest_driver :: "'d mongo_driver \<Rightarrow> ('d \<Rightarrow> pystr \<Rightarrow> json_object option) \<Rightarrow> bool" where
  "honest_driver drv contents \<longleftrightarrow> pymongo_installed drv \<and>
     (\<forall>d. \<exists>d'. open_client drv d = (Inr (), d') \<and> contents d' = contents d) \<and>
     (\<forall>d. \<exists>d'. ping_database drv d = (Inr (), d') \<and> contents d' = contents d) \<and>
     (\<forall>d. \<exists>d'. create_index drv d = (Inr (), d') \<and> contents d' = contents d) \<and>
     (\<forall>r d. \<exists>d'. find_record drv r d = (Inr (contents d r), d') \<and> contents d' = contents d) \<and>
     (\<forall>r doc d. \<exists>d'. upsert_record drv r doc d = (Inr (contents d r = None), d') \<and>
        contents d' = (if contents d r = None then (contents d)(r \<mapsto> doc) else contents d))"

text \<open>The steps keep the flags of the client; \<open>holding contents st c f g\<close>: the contents and the two flags of \<open>st\<close>.\<close>

definition holding :: "('d \<Rightarrow> pystr \<Rightarrow> json_object option) \<Rightarrow> (pystr \<Rightarrow> json_object option) \<Rightarrow> bool \<Rightarrow> bool \<Rightarrow> 'd baseline \<Rightarrow> bool" where
  "holding contents c ready done st \<longleftrightarrow> contents (driver_state st) = c \<and> collection_ready st = ready \<and> seeded st = done"

lemma driver_step:
  assumes "\<And>d. \<exists>d'. f d = (Inr (g (contents d)), d') \<and> contents d' = h (contents d)" "holding contents c ready done st"
    and "\<And>st'. holding contents (h c) ready done st' \<Longrightarrow> Q (g c) st'"
  shows "ends Q E (on_driver f st)"
proof -
  obtain d' where "f (driver_state st) = (Inr (g (contents (driver_state st))), d')" "contents d' = h (contents (driver_state st))"
    using assms(1) by blast
  then show ?thesis using assms(2,3) by (simp add: on_driver_def holding_def)
qed

lemma open_step:
  assumes "honest_driver drv contents" "holding contents c ready done st" "\<And>st'. holding contents c ready done st' \<Longrightarrow> Q () st'"
  shows "ends Q E (on_driver (open_client drv) st)" "ends Q E (on_driver (ping_database drv) st)" "ends Q E (on_driver (create_index drv) st)"
  by (rule driver_step[where g = "\<lambda>_. ()" and h = "\<lambda>c. c", OF _ assms(2)];
      use assms(1,3) in \<open>auto simp: honest_driver_def\<close>)+

lemma find_step:
  assumes "honest_driver drv contents" "holding contents c ready done st" "\<And>st'. holding contents c ready done st' \<Longrightarrow> Q (c r) st'"
  shows "ends Q E (on_driver (find_record drv r) st)"
  by (rule driver_step[where g = "\<lambda>c. c r" and h = "\<lambda>c. c", OF _ assms(2)])
    (use assms(1,3) in \<open>auto simp: honest_driver_def\<close>)

definition add_missing :: "pystr \<Rightarrow> json_object \<Rightarrow> (pystr \<Rightarrow> json_object option) \<Rightarrow> pystr \<Rightarrow> json_object option" where
  "add_missing r doc c = (if c r = None then c(r \<mapsto> doc) else c)"

lemma upsert_step:
  assumes "honest_driver drv contents" "holding contents c ready done st"
    and "\<And>st'. holding contents (add_missing r doc c) ready done st' \<Longrightarrow> Q (c r = None) st'"
  shows "ends Q E (on_driver (upsert_record drv r doc) st)"
  by (rule driver_step[where g = "\<lambda>c. c r = None" and h = "add_missing r doc", OF _ assms(2)])
    (use assms(1,3) in \<open>auto simp: honest_driver_def add_missing_def\<close>)

definition add_all :: "(pystr \<times> json_object) list \<Rightarrow> (pystr \<Rightarrow> json_object option) \<Rightarrow> pystr \<Rightarrow> json_object option" where
  "add_all docs c = fold (\<lambda>(r, doc). add_missing r doc) docs c"

lemma add_all_simps [simp]: "add_all [] c = c" "add_all ((r, doc) # docs) c = add_all docs (add_missing r doc c)"
  by (simp_all add: add_all_def)

lemma add_missing_keeps: "c r = Some doc \<Longrightarrow> add_missing r' doc' c r = Some doc"
  by (cases "r = r'") (auto simp: add_missing_def)

lemma add_all_keeps: "c r = Some doc \<Longrightarrow> add_all docs c r = Some doc"
  by (induction docs arbitrary: c) (auto simp: add_missing_keeps)

lemma add_all_present: "(r, doc) \<in> set docs \<Longrightarrow> add_all docs c r \<noteq> None"
proof (induction docs arbitrary: c)
  case (Cons p docs)
  obtain r' doc' where p: "p = (r', doc')" by (cases p)
  have "add_missing r' doc' c r' \<noteq> None" by (simp add: add_missing_def)
  then show ?case using Cons p add_all_keeps[of "add_missing r' doc' c" r'] by auto
qed simp

lemma add_all_again: "\<forall>(r, doc) \<in> set docs. c r \<noteq> None \<Longrightarrow> add_all docs c = c"
  by (induction docs) (auto simp: add_missing_def)

lemma upsert_all_ok:
  assumes "honest_driver drv contents"
  shows "holding contents c ready done st \<Longrightarrow>
    ends (\<lambda>m st'. holding contents (add_all docs c) ready done st' \<and>
      ((\<forall>(r, doc) \<in> set docs. c r \<noteq> None) \<longrightarrow> m = n)) E (upsert_all drv docs n st)"
proof (induction docs arbitrary: c n st)
  case (Cons p docs)
  obtain r doc where p: "p = (r, doc)" by (cases p)
  show ?case unfolding p upsert_all.simps
    by (intro ends_sbind upsert_step[OF assms Cons.prems], rule ends_mono[OF Cons.IH], assumption)
      (auto simp: add_missing_def split: if_splits)
qed simp

lemma seed_after_ok:
  assumes "honest_driver drv contents" "read_seed_documents src = Inr docs" "holding contents c ready done st"
  shows "ends (\<lambda>m st'. holding contents (add_all docs c) ready True st' \<and>
      ((\<forall>(r, doc) \<in> set docs. c r \<noteq> None) \<longrightarrow> m = 0)) E (seed_after drv src (Inr (), st))"
  unfolding seed_after_def sbind_simps assms(2)
  by (rule ends_then[OF upsert_all_ok[OF assms(1,3)]]) (auto simp: holding_def)

lemma get_collection_new:
  assumes "honest_driver drv contents" "read_seed_documents src = Inr docs" "holding contents c False False st"
  shows "ends (\<lambda>_ st'. holding contents (add_all docs c) True True st') (\<lambda>_ _. False) (get_collection drv src st)"
proof -
  have flags: "\<not> collection_ready st" "pymongo_installed drv" using assms(1,3) by (simp_all add: holding_def honest_driver_def)
  have "ends (\<lambda>_ st'. holding contents (add_all docs c) True True st') (\<lambda>_ _. False)
    (sbind (on_driver (open_client drv) st) (\<lambda>_ st. sbind (on_driver (ping_database drv) st) (\<lambda>_ st.
     sbind (on_driver (create_index drv) st) (\<lambda>_ st. let st = st\<lparr>collection_ready := True\<rparr> in
       if seeded st then (Inr (), st) else sbind (seed_after drv src (Inr (), st)) (\<lambda>_ st. (Inr (), st))))))"
  proof (rule ends_then[OF open_step(1)[OF assms(1,3)]], assumption, erule ends_then[OF open_step(2)[OF assms(1)]], assumption,
      erule ends_then[OF open_step(3)[OF assms(1)]], assumption, goal_cases)
    case (1 _ st1 _ st2 _ st3)
    then have st3: "holding contents c True False (st3\<lparr>collection_ready := True\<rparr>)" by (simp add: holding_def)
    have "ends (\<lambda>_ st'. holding contents (add_all docs c) True True st') (\<lambda>_ _. False)
      (sbind (seed_after drv src (Inr (), st3\<lparr>collection_ready := True\<rparr>)) (\<lambda>_ st. (Inr (), st)))"
      by (rule ends_then[OF seed_after_ok[OF assms(1,2) st3]]) simp
    then show ?case using st3 by (simp add: holding_def)
  qed
  then show ?thesis using flags by (auto simp: get_collection_def as_baseline_error_def ends_def split: prod.splits sum.splits)
qed

lemma get_collection_ready: "collection_ready st \<Longrightarrow> get_collection drv src st = (Inr (), st)"
  by (simp add: get_collection_def)

text \<open>The first call of \<open>seed\<close>: the documents are there, and the number is 0.\<close>

lemma first_seed:
  assumes "honest_driver drv contents" "read_seed_documents src = Inr docs"
  shows "ends (\<lambda>n st. n = 0 \<and> holding contents (add_all docs (contents d)) True True st) (\<lambda>_ _. False)
    (baseline_seed drv src (baseline_init d))"
proof -
  have "holding contents (contents d) False False (baseline_init d)" by (simp add: holding_def baseline_init_def)
  note new = get_collection_new[OF assms this]
  obtain st where g: "get_collection drv src (baseline_init d) = (Inr (), st)" and st: "holding contents (add_all docs (contents d)) True True st"
    using new by (auto simp: ends_def split: prod.splits sum.splits)
  have "\<forall>(r, doc) \<in> set docs. add_all docs (contents d) r \<noteq> None" using add_all_present by fast
  then show ?thesis unfolding baseline_seed_def g
    by (intro ends_mono[OF seed_after_ok[OF assms st, where E = "\<lambda>_ _. False"]]) (auto simp: add_all_again)
qed

text \<open>A record is fetched; afterwards the collection has it.\<close>

definition fallback_document :: "pystr \<Rightarrow> json_object" where
  "fallback_document r = detail_document r (default_title r) (default_body r)"

lemma fetch_ready:
  assumes "honest_driver drv contents" "holding contents c True done st"
  shows "\<exists>st'. baseline_fetch_detail drv src r st = (record_of src (the (add_missing r (fallback_document r) c r)), st') \<and>
    holding contents (add_missing r (fallback_document r) c) True done st'"
proof -
  have ready: "get_collection drv src st = (Inr (), st)" using assms(2) by (simp add: holding_def get_collection_ready)
  obtain st1 where f: "on_driver (find_record drv r) st = (Inr (c r), st1)" "holding contents c True done st1"
    using find_step[OF assms, of "\<lambda>x s. x = c r \<and> holding contents c True done s" r "\<lambda>_ _. False"]
    by (auto simp: ends_def split: prod.splits sum.splits)
  show ?thesis
  proof (cases "c r")
    case (Some doc)
    then show ?thesis using f by (auto simp: baseline_fetch_detail_def ready add_missing_def)
  next
    case None
    obtain st2 where u: "on_driver (upsert_record drv r (fallback_document r)) st1 = (Inr True, st2)"
      "holding contents (add_missing r (fallback_document r) c) True done st2"
      using upsert_step[OF assms(1) f(2), of r "fallback_document r"
          "\<lambda>x s. x = (c r = None) \<and> holding contents (add_missing r (fallback_document r) c) True done s" "\<lambda>_ _. False"] None
      by (auto simp: ends_def split: prod.splits sum.splits)
    then show ?thesis using f None by (auto simp: baseline_fetch_detail_def ready Let_def add_missing_def fallback_document_def)
  qed
qed

lemma fetch_first:
  assumes "honest_driver drv contents" "read_seed_documents src = Inr docs"
  shows "\<exists>st. baseline_fetch_detail drv src r (baseline_init d) =
      (record_of src (the (add_missing r (fallback_document r) (add_all docs (contents d)) r)), st) \<and>
    holding contents (add_missing r (fallback_document r) (add_all docs (contents d))) True True st"
proof -
  have "holding contents (contents d) False False (baseline_init d)" by (simp add: holding_def baseline_init_def)
  from get_collection_new[OF assms this] obtain st where
    g: "get_collection drv src (baseline_init d) = (Inr (), st)" "holding contents (add_all docs (contents d)) True True st"
    by (auto simp: ends_def split: prod.splits sum.splits)
  then have "collection_ready st" by (simp add: holding_def)
  then have "baseline_fetch_detail drv src r (baseline_init d) = baseline_fetch_detail drv src r st"
    by (simp add: baseline_fetch_detail_def g(1) get_collection_ready)
  then show ?thesis using fetch_ready[OF assms(1) g(2)] by simp
qed

text \<open>A seed file that cannot be read: the client is connected, and has no documents.\<close>

lemma get_collection_unseeded:
  assumes "honest_driver drv contents" "read_seed_documents src = Inl e" "holding contents c False False st"
  shows "\<exists>st'. get_collection drv src st = (Inl (MongoBaselineError (seed_str_exc src e)), st') \<and> holding contents c True False st'"
proof -
  have flags: "\<not> collection_ready st" "pymongo_installed drv" using assms(1,3) by (simp_all add: holding_def honest_driver_def)
  have "ends (\<lambda>_ _. False) (\<lambda>x st'. x = e \<and> holding contents c True False st')
    (sbind (on_driver (open_client drv) st) (\<lambda>_ st. sbind (on_driver (ping_database drv) st) (\<lambda>_ st.
     sbind (on_driver (create_index drv) st) (\<lambda>_ st. let st = st\<lparr>collection_ready := True\<rparr> in
       if seeded st then (Inr (), st) else sbind (seed_after drv src (Inr (), st)) (\<lambda>_ st. (Inr (), st))))))"
    by (rule ends_then[OF open_step(1)[OF assms(1,3)]], assumption, erule ends_then[OF open_step(2)[OF assms(1)]], assumption,
        erule ends_then[OF open_step(3)[OF assms(1)]], assumption) (auto simp: seed_after_def assms(2) holding_def)
  then show ?thesis using flags by (auto simp: get_collection_def as_baseline_error_def ends_def split: prod.splits sum.splits)
qed

lemma checks_unseeded:
  assumes "honest_driver drv contents" "read_seed_documents src = Inl e" "\<And>m. seed_str_exc src (MongoBaselineError m) = m"
  shows "\<exists>st1 st2. baseline_health_check drv src (baseline_init d) = (Inl (MongoBaselineError (seed_str_exc src e)), st1) \<and>
    baseline_health_check drv src st1 = (Inr True, st2) \<and> contents (driver_state st2) = contents d \<and> \<not> seeded st2"
proof -
  have "holding contents (contents d) False False (baseline_init d)" by (simp add: holding_def baseline_init_def)
  from get_collection_unseeded[OF assms(1,2) this] obtain st1 where
    g: "get_collection drv src (baseline_init d) = (Inl (MongoBaselineError (seed_str_exc src e)), st1)" "holding contents (contents d) True False st1"
    by blast
  then have first: "baseline_health_check drv src (baseline_init d) = (Inl (MongoBaselineError (seed_str_exc src e)), st1)"
    by (simp add: baseline_health_check_def as_baseline_error_def assms(3))
  have ready: "get_collection drv src st1 = (Inr (), st1)" using g(2) by (simp add: holding_def get_collection_ready)
  obtain st2 where "on_driver (ping_database drv) st1 = (Inr (), st2)" "holding contents (contents d) True False st2"
    using open_step(2)[OF assms(1) g(2), of "\<lambda>x s. holding contents (contents d) True False s" "\<lambda>_ _. False"]
    by (auto simp: ends_def split: prod.splits sum.splits)
  then have "baseline_health_check drv src st1 = (Inr True, st2)" "contents (driver_state st2) = contents d \<and> \<not> seeded st2"
    by (simp_all add: baseline_health_check_def as_baseline_error_def ready holding_def)
  then show ?thesis using first by blast
qed

section \<open>Properties\<close>

text \<open>A collection in memory, for examples, and a seed file with one document.\<close>

definition memory_driver :: "(pystr, json_object) dict mongo_driver" where
  "memory_driver =
     \<lparr>pymongo_installed = True, open_client = (\<lambda>d. (Inr (), d)), ping_database = (\<lambda>d. (Inr (), d)), create_index = (\<lambda>d. (Inr (), d)),
      find_record = (\<lambda>r d. (Inr (map_of d r), d)),
      upsert_record = (\<lambda>r doc d. (Inr (map_of d r = None), if map_of d r = None then (r, doc) # d else d))\<rparr>"

definition sample_source :: "bytes option \<Rightarrow> seed_source" where
  "sample_source content =
     \<lparr>seed_path = lit ''seed.json'', seed_content = content,
      seed_stack = 2,
      seed_str = (\<lambda>v. case v of JText t \<Rightarrow> t | _ \<Rightarrow> []),
      seed_str_exc = (\<lambda>e. case e of MongoBaselineError m \<Rightarrow> m | _ \<Rightarrow> [])\<rparr>"

lemma memory_honest: "honest_driver memory_driver map_of"
  by (auto simp: honest_driver_def memory_driver_def fun_eq_iff)

text \<open>
  Functional. On a collection that answers, with a seed file that can be read, a new client fetches
  any record: the one the collection had, else the first of the seed file, else one with the default title
  and body, which is stored. Fetched again, the record is the same and the collection does not change.
\<close>

theorem baseline_fetch_stable:
  assumes "honest_driver drv contents" "read_seed_documents src = Inr docs"
    and "c = add_missing r (fallback_document r) (add_all docs (contents d))"
  shows "\<exists>doc st st'. c r = Some doc \<and>
    baseline_fetch_detail drv src r (baseline_init d) = (record_of src doc, st) \<and> contents (driver_state st) = c \<and>
    baseline_fetch_detail drv src r st = (record_of src doc, st') \<and> contents (driver_state st') = c"
proof -
  obtain doc where doc: "c r = Some doc" unfolding assms(3) by (cases "add_all docs (contents d) r") (auto simp: add_missing_def)
  obtain st where st: "baseline_fetch_detail drv src r (baseline_init d) = (record_of src doc, st)" "holding contents c True True st"
    using fetch_first[OF assms(1,2), of r d] doc assms(3) by auto
  have "add_missing r (fallback_document r) c = c" using doc by (simp add: add_missing_def)
  then obtain st' where "baseline_fetch_detail drv src r st = (record_of src doc, st')" "holding contents c True True st'"
    using fetch_ready[OF assms(1) st(2), of src r] doc by auto
  then show ?thesis using doc st by (auto simp: holding_def)
qed

text \<open>An example: the record of the seed file.\<close>

theorem baseline_fetch_stable_witness:
  "\<exists>st. baseline_fetch_detail memory_driver (sample_source (Some (lit ''[{\"record_id\": \"7\"}]''))) (lit ''7'') (baseline_init []) =
     (Inr [(lit ''id'', lit ''7''), (lit ''title'', lit ''Detail 7''), (lit ''body'', lit ''Body for 7'')], st)"
proof -
  let ?src = "sample_source (Some (lit ''[{\"record_id\": \"7\"}]''))" and ?doc = "detail_document (lit ''7'') (lit ''Detail 7'') (lit ''Body for 7'')"
  have "read_seed_documents ?src = Inr [(lit ''7'', ?doc)]"
    "record_of ?src ?doc = Inr [(lit ''id'', lit ''7''), (lit ''title'', lit ''Detail 7''), (lit ''body'', lit ''Body for 7'')]"
    by code_simp+
  moreover have "add_missing (lit ''7'') (fallback_document (lit ''7'')) (add_all [(lit ''7'', ?doc)] (map_of [])) (lit ''7'') = Some ?doc"
    by (simp add: add_missing_def)
  ultimately show ?thesis using baseline_fetch_stable[OF memory_honest _ refl, of ?src _ "lit ''7''" "[]"] by force
qed

text \<open>
  The first call of \<open>seed\<close> on a new client reports 0 inserted documents, whatever it inserted:
  \<open>_get_collection\<close>, which it calls first, has seeded the collection already.
\<close>

theorem first_seed_reports_zero:
  assumes "honest_driver drv contents" "read_seed_documents src = Inr docs"
  shows "\<exists>st. baseline_seed drv src (baseline_init d) = (Inr 0, st) \<and> contents (driver_state st) = add_all docs (contents d)"
  using first_seed[OF assms, of d] by (auto simp: ends_def holding_def split: prod.splits sum.splits)

text \<open>An example: an empty collection, which has a document afterwards.\<close>

theorem first_seed_reports_zero_witness:
  "\<exists>st. baseline_seed memory_driver (sample_source (Some (lit ''[{\"record_id\": \"7\"}]''))) (baseline_init []) = (Inr 0, st) \<and>
     map_of (driver_state st) (lit ''7'') \<noteq> None"
proof -
  let ?src = "sample_source (Some (lit ''[{\"record_id\": \"7\"}]''))" and ?doc = "detail_document (lit ''7'') (lit ''Detail 7'') (lit ''Body for 7'')"
  have "read_seed_documents ?src = Inr [(lit ''7'', ?doc)]" by code_simp
  from first_seed_reports_zero[OF memory_honest this, of "[]"] show ?thesis by (auto simp: add_missing_def)
qed

text \<open>
  Error. When the seed file cannot be read, the health check of a new client fails, and the next
  one succeeds on the same collection, which was not seeded: the collection is set before it is seeded.
\<close>

theorem failed_seed_passes_next_check:
  assumes "honest_driver drv contents" "read_seed_documents src = Inl e" "\<And>m. seed_str_exc src (MongoBaselineError m) = m"
  shows "\<exists>st1 st2. baseline_health_check drv src (baseline_init d) = (Inl (MongoBaselineError (seed_str_exc src e)), st1) \<and>
    baseline_health_check drv src st1 = (Inr True, st2) \<and> contents (driver_state st2) = contents d \<and> \<not> seeded st2"
  using assms by (rule checks_unseeded)

text \<open>An example: there is no seed file.\<close>

theorem failed_seed_passes_next_check_witness:
  "\<exists>st1 st2. baseline_health_check memory_driver (sample_source None) (baseline_init []) =
      (Inl (MongoBaselineError (lit ''seed file not found: seed.json'')), st1) \<and>
    baseline_health_check memory_driver (sample_source None) st1 = (Inr True, st2) \<and> driver_state st2 = []"
proof -
  have "read_seed_documents (sample_source None) = Inl (MongoBaselineError (lit ''seed file not found: seed.json''))" by code_simp
  moreover have "seed_str_exc (sample_source None) (MongoBaselineError m) = m" for m by (simp add: sample_source_def)
  ultimately show ?thesis
    using failed_seed_passes_next_check[OF memory_honest, of "sample_source None" _ "[]"] by (simp add: map_of_eq_empty_iff) blast
qed

end
