(* ===== verification/Contracts.thy ===== *)
theory Contracts
  imports BenchApi
begin

text \<open>
  The dictionaries of the benchmark: what the classes of \<open>app/benchmark/models.py\<close>, the timelines and the
  presentation become as dictionaries, how \<open>RunStore.read_run\<close> reads a record back, and the answers built by
  \<open>app/api/contracts.py\<close>.

  An object of a data class is the dictionary of its attributes, in the order of the class. \<open>str\<close> of a value is
  an argument, of which it is used that the text of a text is the text. \<open>dict(v)\<close> is modelled for dictionaries
  only (the code writes no other values there), and an attribute that a value does not have raises
  \<open>AttributeError\<close>, written \<open>TypeError []\<close> here.

  Main results: a record that was written is read back; the answers of the interface can always be built, and
  they are the dictionaries of the values they are built from.
\<close>

section \<open>Building a dictionary\<close>

text \<open>\<open>d[key]\<close>, \<open>float(v)\<close>, \<open>dict(v or {})\<close>, \<open>list(v or [])\<close>.\<close>

definition item :: "json_object \<Rightarrow> string \<Rightarrow> py_exc + json" where
  "item d key = (case map_of d (lit key) of None \<Rightarrow> Inl KeyError | Some v \<Rightarrow> Inr v)"

fun json_float :: "json \<Rightarrow> py_exc + pyfloat" where
  "json_float (JFloat x) = Inr x"
| "json_float (JInt n) = (case of_int_float n of PosInf \<Rightarrow> Inl OverflowError | NegInf \<Rightarrow> Inl OverflowError | x \<Rightarrow> Inr x)"
| "json_float (JBool b) = Inr (Finite (if b then 1 else 0))"
| "json_float (JText t) = (case py_float t of None \<Rightarrow> Inl ValueError | Some x \<Rightarrow> Inr x)"
| "json_float _ = Inl (TypeError [])"

fun as_object :: "json \<Rightarrow> py_exc + json_object" where
  "as_object (JObject d) = Inr d"
| "as_object _ = Inl (TypeError [])"

definition dict_or_empty :: "json \<Rightarrow> py_exc + json_object" where
  "dict_or_empty v = (if json_bool v then as_object v else Inr [])"

definition list_or_empty :: "json \<Rightarrow> py_exc + json list" where
  "list_or_empty v = (if json_bool v then json_iter v else Inr [])"

text \<open>A list comprehension and a dictionary display: evaluated in order, the first exception ends it.\<close>

fun each :: "('a \<Rightarrow> py_exc + 'b) \<Rightarrow> 'a list \<Rightarrow> py_exc + 'b list" where
  "each f [] = Inr []"
| "each f (x # xs) = rbind (f x) (\<lambda>y. rbind (each f xs) (\<lambda>ys. Inr (y # ys)))"

fun build :: "(string \<times> (py_exc + json)) list \<Rightarrow> py_exc + json_object" where
  "build [] = Inr []"
| "build ((k, r) # rest) = rbind r (\<lambda>v. rbind (build rest) (\<lambda>d. Inr ((lit k, v) # d)))"

definition text_item :: "(json \<Rightarrow> pystr) \<Rightarrow> json_object \<Rightarrow> string \<Rightarrow> string \<times> (py_exc + json)" where
  "text_item sj d k = (k, rbind (item d k) (\<lambda>v. Inr (JText (sj v))))"

definition float_item :: "json_object \<Rightarrow> string \<Rightarrow> string \<times> (py_exc + json)" where
  "float_item d k = (k, rbind (item d k) (\<lambda>v. rbind (json_float v) (\<lambda>x. Inr (JFloat x))))"

definition int_item :: "json_object \<Rightarrow> string \<Rightarrow> string \<times> (py_exc + json)" where
  "int_item d k = (k, rbind (item d k) (\<lambda>v. rbind (json_int v) (\<lambda>n. Inr (JInt n))))"

definition optional_float :: "json \<Rightarrow> py_exc + json" where
  "optional_float v = (if v = JNull then Inr JNull else rbind (json_float v) (\<lambda>x. Inr (JFloat x)))"

definition objects :: "json list \<Rightarrow> py_exc + json_object list" where
  "objects = each as_object"

section \<open>The contracts\<close>

definition normalize_event_entry :: "(json \<Rightarrow> pystr) \<Rightarrow> json_object \<Rightarrow> py_exc + json_object" where
  "normalize_event_entry sj entry = build
     [text_item sj entry ''event_id'', text_item sj entry ''request_id'', float_item entry ''timestamp'',
      text_item sj entry ''mode'', text_item sj entry ''event_type'', text_item sj entry ''stage'',
      float_item entry ''duration_ms'',
      (''metadata'', rbind (dict_or_empty (json_get entry ''metadata'' JNull)) (\<lambda>d. Inr (JObject d)))]"

definition normalize_log_entry :: "(json \<Rightarrow> pystr) \<Rightarrow> json_object \<Rightarrow> py_exc + json_object" where
  "normalize_log_entry sj entry = build
     [float_item entry ''timestamp'', text_item sj entry ''level'', text_item sj entry ''stage'',
      text_item sj entry ''message'',
      (''metadata'', rbind (dict_or_empty (json_get entry ''metadata'' JNull)) (\<lambda>d. Inr (JObject d)))]"

text \<open>\<open>payload["logs"] = ...\<close> on the dictionary of the record.\<close>

definition serialize_run_detail :: "(json \<Rightarrow> pystr) \<Rightarrow> json_object \<Rightarrow> json_object list \<Rightarrow> py_exc + json_object" where
  "serialize_run_detail sj record logs =
     rbind (each (normalize_log_entry sj) logs) (\<lambda>ls. Inr (AList.update (lit ''logs'') (JList (map JObject ls)) record))"

definition serialize_events_response :: "(json \<Rightarrow> pystr) \<Rightarrow> pystr \<Rightarrow> json_object list \<Rightarrow> py_exc + json_object" where
  "serialize_events_response sj rid events =
     rbind (each (normalize_event_entry sj) events) (\<lambda>es.
       build [(''run_id'', Inr (JText rid)), (''events'', Inr (JList (map JObject es)))])"

definition normalize_request :: "(json \<Rightarrow> pystr) \<Rightarrow> json_object \<Rightarrow> py_exc + json_object" where
  "normalize_request sj request = build
     [text_item sj request ''request_id'', text_item sj request ''mode'', float_item request ''started_at_ms'',
      float_item request ''finished_at_ms'', float_item request ''total_duration_ms'', text_item sj request ''cache_status'',
      text_item sj request ''path_summary'',
      (''has_error'', rbind (item request ''has_error'') (\<lambda>v. Inr (JBool (json_bool v)))),
      (''stage_durations'', rbind (dict_or_empty (json_get request ''stage_durations'' JNull)) (\<lambda>d.
         rbind (each (\<lambda>(stage, v). rbind (json_float v) (\<lambda>x. Inr (stage, JFloat x))) d) (\<lambda>d. Inr (JObject d)))),
      int_item request ''event_count'',
      (''events'', rbind (list_or_empty (json_get request ''events'' JNull)) (\<lambda>vs. rbind (objects vs) (\<lambda>es.
         rbind (each (normalize_event_entry sj) es) (\<lambda>es. Inr (JList (map JObject es))))))]"

definition serialize_requests_response :: "(json \<Rightarrow> pystr) \<Rightarrow> pystr \<Rightarrow> json_object list \<Rightarrow> py_exc + json_object" where
  "serialize_requests_response sj rid requests =
     rbind (each (normalize_request sj) requests) (\<lambda>rs.
       build [(''run_id'', Inr (JText rid)), (''requests'', Inr (JList (map JObject rs)))])"

definition normalize_kpis :: "json \<Rightarrow> py_exc + json" where
  "normalize_kpis kpis =
     (if kpis = JNull then Inr JNull
      else rbind (as_object kpis) (\<lambda>k.
        rbind (build
          [float_item k ''db_avg_ms'', float_item k ''redis_avg_ms'',
           (''redis_hit_avg_ms'', optional_float (json_get k ''redis_hit_avg_ms'' JNull)),
           (''redis_miss_avg_ms'', optional_float (json_get k ''redis_miss_avg_ms'' JNull)),
           (''reference_avg_ms'', optional_float (json_get k ''reference_avg_ms'' JNull)),
           float_item k ''speedup_ratio'', float_item k ''improvement_percent'',
           (''break_even_hit_rate'', Inr (json_get k ''break_even_hit_rate'' JNull)),
           float_item k ''cache_hit_rate'', int_item k ''error_count'']) (\<lambda>d. Inr (JObject d))))"

definition normalize_lane :: "(json \<Rightarrow> pystr) \<Rightarrow> json_object \<Rightarrow> py_exc + json_object" where
  "normalize_lane sj x = build
     [text_item sj x ''mode'', text_item sj x ''label'', int_item x ''request_count'',
      (''avg_duration_ms'', optional_float (json_get x ''avg_duration_ms'' JNull)),
      int_item x ''hit_count'', int_item x ''miss_count'', int_item x ''fallback_count'', int_item x ''error_count'']"

text \<open>One of the lists of the chart series; \<open>value_item\<close> is \<open>float_item\<close> or \<open>int_item\<close>.\<close>

definition normalize_series ::
  "(json \<Rightarrow> pystr) \<Rightarrow> (json_object \<Rightarrow> string \<Rightarrow> string \<times> (py_exc + json)) \<Rightarrow> json_object \<Rightarrow> string \<Rightarrow> string \<times> (py_exc + json)" where
  "normalize_series sj value_item payload name =
     (name, rbind (as_object (json_get payload ''chart_series'' (JObject []))) (\<lambda>series.
        rbind (list_or_empty (json_get series name JNull)) (\<lambda>vs. rbind (objects vs) (\<lambda>xs.
          rbind (each (\<lambda>x. build [text_item sj x ''label'', value_item x ''value'']) xs) (\<lambda>xs. Inr (JList (map JObject xs)))))))"

definition serialize_presentation_response :: "(json \<Rightarrow> pystr) \<Rightarrow> json_object \<Rightarrow> py_exc + json_object" where
  "serialize_presentation_response sj payload =
     rbind (normalize_kpis (json_get payload ''kpis'' JNull)) (\<lambda>kpis. build
       [text_item sj payload ''run_id'', text_item sj payload ''status'', text_item sj payload ''scenario'',
        (''config'', rbind (item payload ''config'') (\<lambda>v. rbind (as_object v) (\<lambda>d. Inr (JObject d)))),
        (''kpis'', Inr kpis),
        (''lane_summary'', rbind (list_or_empty (json_get payload ''lane_summary'' JNull)) (\<lambda>vs. rbind (objects vs) (\<lambda>xs.
           rbind (each (normalize_lane sj) xs) (\<lambda>xs. Inr (JList (map JObject xs)))))),
        (''chart_series'', rbind (build
           [normalize_series sj float_item payload ''latency_comparison'', normalize_series sj int_item payload ''path_ratio'',
            normalize_series sj float_item payload ''timeline_stage_totals'']) (\<lambda>d. Inr (JObject d)))])"

section \<open>The dictionaries of the classes\<close>

fun meta_json :: "meta \<Rightarrow> json" where
  "meta_json (MetaText t) = JText t"
| "meta_json (MetaInt n) = JInt n"
| "meta_json (MetaFloat x) = JFloat x"
| "meta_json MetaNone = JNull"

definition or_null :: "('a \<Rightarrow> json) \<Rightarrow> 'a option \<Rightarrow> json" where
  "or_null f v = (case v of None \<Rightarrow> JNull | Some x \<Rightarrow> f x)"

definition metadata_json :: "(pystr, meta) dict \<Rightarrow> json" where
  "metadata_json d = JObject (map (\<lambda>(k, v). (k, meta_json v)) d)"

definition named :: "(string \<times> json) list \<Rightarrow> json_object" where
  "named ms = map (\<lambda>(k, v). (lit k, v)) ms"

definition event_to_dict :: "flow_event \<Rightarrow> json_object" where
  "event_to_dict e = named
     [(''event_id'', JText (event_id e)), (''request_id'', JText (event_request_id e)),
      (''timestamp'', JFloat (event_timestamp e)), (''mode'', JText (event_mode e)),
      (''event_type'', JText (event_type e)), (''stage'', JText (event_stage e)),
      (''duration_ms'', JFloat (event_duration_ms e)), (''metadata'', metadata_json (event_metadata e))]"

text \<open>A log entry, with the time it was written at.\<close>

definition log_dict :: "pyfloat \<times> log_entry \<Rightarrow> json_object" where
  "log_dict l = (case l of (time, e) \<Rightarrow> named
     [(''timestamp'', JFloat time), (''level'', JText (entry_level e)), (''stage'', JText (entry_stage e)),
      (''message'', JText (entry_message e)), (''metadata'', metadata_json (entry_metadata e))])"

definition summary_to_dict :: "run_summary \<Rightarrow> json_object" where
  "summary_to_dict s = named
     [(''db_avg_ms'', JFloat (db_avg_ms s)), (''redis_avg_ms'', JFloat (redis_avg_ms s)),
      (''reference_avg_ms'', or_null JFloat (reference_avg_ms s)), (''p95_db_ms'', JFloat (p95_db_ms s)),
      (''p95_redis_ms'', JFloat (p95_redis_ms s)), (''p95_reference_ms'', or_null JFloat (p95_reference_ms s)),
      (''speedup_ratio'', JFloat (speedup_ratio s)), (''improvement_percent'', JFloat (improvement_percent s)),
      (''break_even_hit_rate'', or_null JInt (break_even_hit_rate s)), (''cache_hit_rate'', JFloat (cache_hit_rate s)),
      (''db_only_count'', JInt (int (db_only_count s))), (''redis_hit_count'', JInt (int (redis_hit_count s))),
      (''redis_miss_count'', JInt (int (redis_miss_count s))), (''fallback_count'', JInt (int (fallback_count s))),
      (''error_count'', JInt (int (error_count s)))]"

text \<open>The attributes of a record that the model of a run does not follow: identifier, times and commits.\<close>

record run_attributes =
  attr_run_id :: pystr
  attr_created_at :: pystr
  attr_updated_at :: pystr
  attr_started_at :: "pystr option"
  attr_finished_at :: "pystr option"
  attr_mini_redis_commit :: "pystr option"
  attr_app_commit :: "pystr option"

definition record_to_dict :: "run_attributes \<Rightarrow> run_record \<Rightarrow> json_object" where
  "record_to_dict a r = named
     [(''run_id'', JText (attr_run_id a)), (''status'', JText (run_status r)),
      (''config'', JObject (config_to_dict (run_configuration r))), (''created_at'', JText (attr_created_at a)),
      (''updated_at'', JText (attr_updated_at a)), (''started_at'', or_null JText (attr_started_at a)),
      (''finished_at'', or_null JText (attr_finished_at a)),
      (''summary'', or_null (JObject \<circ> summary_to_dict) (run_summary_of r)),
      (''error_message'', or_null JText (run_error_message r)),
      (''mini_redis_commit'', or_null JText (attr_mini_redis_commit a)), (''app_commit'', or_null JText (attr_app_commit a))]"

definition timeline_dict :: "request_timeline \<Rightarrow> json_object" where
  "timeline_dict r = named
     [(''request_id'', JText (tl_request_id r)), (''mode'', JText (tl_mode r)), (''started_at_ms'', JFloat (tl_started_at_ms r)),
      (''finished_at_ms'', JFloat (tl_finished_at_ms r)), (''total_duration_ms'', JFloat (tl_total_duration_ms r)),
      (''cache_status'', JText (tl_cache_status r)), (''path_summary'', JText (tl_path_summary r)),
      (''has_error'', JBool (tl_has_error r)),
      (''stage_durations'', JObject (map (\<lambda>(stage, x). (stage, JFloat x)) (tl_stage_durations r))),
      (''event_count'', JInt (int (tl_event_count r))), (''events'', JList (map (JObject \<circ> event_to_dict) (tl_events r)))]"

definition kpis_dict :: "kpis \<Rightarrow> json_object" where
  "kpis_dict k = named
     [(''db_avg_ms'', JFloat (kpi_db_avg_ms k)), (''redis_avg_ms'', JFloat (kpi_redis_avg_ms k)),
      (''redis_hit_avg_ms'', or_null JFloat (kpi_redis_hit_avg_ms k)), (''redis_miss_avg_ms'', or_null JFloat (kpi_redis_miss_avg_ms k)),
      (''reference_avg_ms'', or_null JFloat (kpi_reference_avg_ms k)), (''speedup_ratio'', JFloat (kpi_speedup_ratio k)),
      (''improvement_percent'', JFloat (kpi_improvement_percent k)), (''break_even_hit_rate'', or_null JInt (kpi_break_even_hit_rate k)),
      (''cache_hit_rate'', JFloat (kpi_cache_hit_rate k)), (''error_count'', JInt (int (kpi_error_count k)))]"

definition lane_dict :: "lane_item \<Rightarrow> json_object" where
  "lane_dict x = named
     [(''mode'', JText (item_mode x)), (''label'', JText (item_label x)), (''request_count'', JInt (int (item_request_count x))),
      (''avg_duration_ms'', or_null JFloat (item_avg_duration_ms x)), (''hit_count'', JInt (int (item_hit_count x))),
      (''miss_count'', JInt (int (item_miss_count x))), (''fallback_count'', JInt (int (item_fallback_count x))),
      (''error_count'', JInt (int (item_error_count x)))]"

definition series_dict :: "('a \<Rightarrow> json) \<Rightarrow> (pystr \<times> 'a) list \<Rightarrow> json" where
  "series_dict f xs = JList (map (\<lambda>(l, v). JObject (named [(''label'', JText l), (''value'', f v)])) xs)"

definition presentation_dict :: "pystr \<Rightarrow> presentation \<Rightarrow> json_object" where
  "presentation_dict rid p = named
     [(''run_id'', JText rid), (''status'', JText (shown_status p)), (''scenario'', JText (scenario (shown_config p))),
      (''config'', JObject (config_to_dict (shown_config p))), (''kpis'', or_null (JObject \<circ> kpis_dict) (shown_kpis p)),
      (''lane_summary'', JList (map (JObject \<circ> lane_dict) (lane_summary p))),
      (''chart_series'', JObject (named
        [(''latency_comparison'', series_dict JFloat (latency_comparison (shown_charts p))),
         (''path_ratio'', series_dict (JInt \<circ> int) (path_ratio (shown_charts p))),
         (''timeline_stage_totals'', series_dict JFloat (timeline_stage_totals (shown_charts p)))]))]"

section \<open>Reading a record\<close>

text \<open>
  \<open>C(**d)\<close> for a data class with the given attributes (\<open>None\<close>: no default): a missing attribute without a
  default and a key that is no attribute raise \<open>TypeError\<close>.
\<close>

definition construct :: "(string \<times> json option) list \<Rightarrow> json_object \<Rightarrow> py_exc + json_object" where
  "construct attributes d =
     (if list_all (\<lambda>(k, v). k \<in> set (map (lit \<circ> fst) attributes)) d
      then build (map (\<lambda>(k, default).
        (k, case map_of d (lit k) of Some v \<Rightarrow> Inr v | None \<Rightarrow> (case default of Some v \<Rightarrow> Inr v | None \<Rightarrow> Inl (TypeError [])))) attributes)
      else Inl (TypeError []))"

definition run_config_class :: "(string \<times> json option) list" where
  "run_config_class =
     map (\<lambda>k. (k, None)) [''scenario'', ''iteration_count'', ''concurrency'', ''hit_rate_buckets'', ''ttl_seconds''] @
     [(''include_reference'', Some (JBool False))]"

definition run_summary_class :: "(string \<times> json option) list" where
  "run_summary_class = map (\<lambda>k. (k, None))
     [''db_avg_ms'', ''redis_avg_ms'', ''reference_avg_ms'', ''p95_db_ms'', ''p95_redis_ms'', ''p95_reference_ms'', ''speedup_ratio'',
      ''improvement_percent'', ''break_even_hit_rate'', ''cache_hit_rate'', ''db_only_count'', ''redis_hit_count'',
      ''redis_miss_count'', ''fallback_count'', ''error_count'']"

definition read_run_payload :: "json \<Rightarrow> py_exc + json_object" where
  "read_run_payload parsed =
     rbind (as_object parsed) (\<lambda>payload.
     rbind (rbind (item payload ''config'') as_object) (\<lambda>c. rbind (construct run_config_class c) (\<lambda>config.
     let summary_payload = json_get payload ''summary'' JNull in
     rbind (if json_bool summary_payload
            then rbind (as_object summary_payload) (\<lambda>d. rbind (construct run_summary_class d) (\<lambda>s. Inr (JObject s)))
            else Inr JNull) (\<lambda>summary. build
       [(''run_id'', item payload ''run_id''), (''status'', item payload ''status''), (''config'', Inr (JObject config)),
        (''created_at'', item payload ''created_at''), (''updated_at'', item payload ''updated_at''),
        (''started_at'', Inr (json_get payload ''started_at'' JNull)), (''finished_at'', Inr (json_get payload ''finished_at'' JNull)),
        (''summary'', Inr summary), (''error_message'', Inr (json_get payload ''error_message'' JNull)),
        (''mini_redis_commit'', Inr (json_get payload ''mini_redis_commit'' JNull)),
        (''app_commit'', Inr (json_get payload ''app_commit'' JNull))]))))"

section \<open>Round trips\<close>

text \<open>Dictionaries with known keys, and the displays that rebuild them.\<close>

lemma named_simps [simp]:
  "item (named ((k, v) # ms)) n = (if k = n then Inr v else item (named ms) n)"
  "json_get (named ((k, v) # ms)) n d = (if k = n then v else json_get (named ms) n d)"
  "json_get (named []) n d = d"
  by (simp_all add: item_def json_get_def named_def)

lemma build_named [simp]: "build (map (\<lambda>(k, v). (k, Inr v)) ms) = Inr (named ms)"
  by (induction ms) (auto simp: named_def)

lemma build_cons: "build ((k, Inr v) # rest) = rbind (build rest) (\<lambda>d. Inr ((lit k, v) # d))"
  by simp

lemma each_map: "(\<And>x. x \<in> set xs \<Longrightarrow> f (g x) = Inr (h x)) \<Longrightarrow> each f (map g xs) = Inr (map h xs)"
  by (induction xs) auto

lemma objects_map [simp]: "objects (map (\<lambda>x. JObject (f x)) xs) = Inr (map f xs)"
  by (simp add: objects_def each_map)

lemma metadata_round [simp]: "dict_or_empty (metadata_json d) = Inr (map (\<lambda>(k, v). (k, meta_json v)) d)"
  by (simp add: dict_or_empty_def metadata_json_def)

lemma list_round [simp]: "list_or_empty (JList vs) = Inr vs"
  by (simp add: list_or_empty_def)

lemma optional_float_round [simp]: "optional_float (or_null JFloat v) = Inr (or_null JFloat v)"
  by (cases v) (simp_all add: or_null_def optional_float_def)

lemma json_bool_or_null [simp]: "json_bool (or_null (JObject \<circ> f) v) \<longleftrightarrow> (case v of None \<Rightarrow> False | Some x \<Rightarrow> f x \<noteq> [])"
  by (cases v) (simp_all add: or_null_def)

lemmas display_defs = text_item_def float_item_def int_item_def

definition prints_text :: "(json \<Rightarrow> pystr) \<Rightarrow> bool" where
  "prints_text sj \<longleftrightarrow> (\<forall>t. sj (JText t) = t)"

lemma prints_text_simp: "prints_text sj \<Longrightarrow> sj (JText t) = t"
  by (simp add: prints_text_def)

lemma event_round: "prints_text sj \<Longrightarrow> normalize_event_entry sj (event_to_dict e) = Inr (event_to_dict e)"
  by (simp add: normalize_event_entry_def event_to_dict_def display_defs prints_text_simp) (simp add: named_def metadata_json_def)

lemma log_round: "prints_text sj \<Longrightarrow> normalize_log_entry sj (log_dict l) = Inr (log_dict l)"
  by (cases l) (simp add: normalize_log_entry_def log_dict_def display_defs prints_text_simp, simp add: named_def metadata_json_def)

lemma timeline_round: "prints_text sj \<Longrightarrow> normalize_request sj (timeline_dict r) = Inr (timeline_dict r)"
proof -
  assume sj: "prints_text sj"
  have "each (\<lambda>(stage, v). rbind (json_float v) (\<lambda>x. Inr (stage, JFloat x))) (map (\<lambda>(stage, x). (stage, JFloat x)) d) =
    Inr (map (\<lambda>(stage, x). (stage, JFloat x)) d)" for d :: "(pystr, pyfloat) dict" by (rule each_map) auto
  moreover have "dict_or_empty (JObject d) = Inr d" for d by (simp add: dict_or_empty_def)
  moreover have "objects (map (JObject \<circ> event_to_dict) es) = Inr (map event_to_dict es)" for es
    using objects_map[of event_to_dict es] by (simp add: comp_def)
  ultimately show ?thesis
    by (simp add: normalize_request_def timeline_dict_def display_defs prints_text_simp[OF sj]
        each_map[where h = event_to_dict] event_round[OF sj]) (simp add: named_def)
qed

lemma kpis_round: "normalize_kpis (or_null (JObject \<circ> kpis_dict) k) = Inr (or_null (JObject \<circ> kpis_dict) k)"
proof (cases k)
  case (Some x)
  then show ?thesis by (simp add: normalize_kpis_def or_null_def[of "JObject \<circ> kpis_dict"] kpis_dict_def display_defs) (simp add: named_def)
qed (simp add: normalize_kpis_def or_null_def)

lemma lane_round: "prints_text sj \<Longrightarrow> normalize_lane sj (lane_dict x) = Inr (lane_dict x)"
  by (simp add: normalize_lane_def lane_dict_def display_defs prints_text_simp) (simp add: named_def)

lemma series_round:
  assumes "prints_text sj" "json_get payload ''chart_series'' (JObject []) = JObject series"
    and "json_get series name JNull = series_dict f xs"
    and "\<And>l v. value_item (named [(''label'', JText l), (''value'', f v)]) ''value'' = (''value'', Inr (f v))"
  shows "normalize_series sj value_item payload name = (name, Inr (series_dict f xs))"
proof -
  let ?d = "\<lambda>(l, v). named [(''label'', JText l), (''value'', f v)]"
  have "series_dict f xs = JList (map (\<lambda>x. JObject (?d x)) xs)" by (simp add: series_dict_def case_prod_unfold)
  moreover have "each (\<lambda>x. build [text_item sj x ''label'', value_item x ''value'']) (map ?d xs) = Inr (map ?d xs)"
  proof (rule each_map)
    fix x
    show "build [text_item sj (?d x) ''label'', value_item (?d x) ''value''] = Inr (?d x)"
      using assms(4) by (cases x) (simp add: text_item_def prints_text_simp[OF assms(1)], simp add: named_def)
  qed
  ultimately show ?thesis using assms(2,3) by (simp add: normalize_series_def comp_def)
qed

lemma presentation_charts:
  "json_get (presentation_dict rid p) ''chart_series'' (JObject []) = JObject (named
     [(''latency_comparison'', series_dict JFloat (latency_comparison (shown_charts p))),
      (''path_ratio'', series_dict (JInt \<circ> int) (path_ratio (shown_charts p))),
      (''timeline_stage_totals'', series_dict JFloat (timeline_stage_totals (shown_charts p)))])"
  by (simp add: presentation_dict_def)

lemma presentation_round:
  assumes "prints_text sj"
  shows "serialize_presentation_response sj (presentation_dict rid p) = Inr (presentation_dict rid p)"
proof -
  have "objects (map (JObject \<circ> lane_dict) xs) = Inr (map lane_dict xs)" for xs
    using objects_map[of lane_dict xs] by (simp add: comp_def)
  moreover have "each (normalize_lane sj) (map lane_dict xs) = Inr (map lane_dict xs)" for xs
    by (rule each_map) (rule lane_round[OF assms])
  moreover note series = series_round[OF assms, of "presentation_dict rid p" "named
      [(''latency_comparison'', series_dict JFloat (latency_comparison (shown_charts p))),
       (''path_ratio'', series_dict (JInt \<circ> int) (path_ratio (shown_charts p))),
       (''timeline_stage_totals'', series_dict JFloat (timeline_stage_totals (shown_charts p)))]", OF presentation_charts]
  have
    "normalize_series sj float_item (presentation_dict rid p) ''latency_comparison'' = (''latency_comparison'', Inr (series_dict JFloat (latency_comparison (shown_charts p))))"
    "normalize_series sj int_item (presentation_dict rid p) ''path_ratio'' = (''path_ratio'', Inr (series_dict (JInt \<circ> int) (path_ratio (shown_charts p))))"
    "normalize_series sj float_item (presentation_dict rid p) ''timeline_stage_totals'' = (''timeline_stage_totals'', Inr (series_dict JFloat (timeline_stage_totals (shown_charts p))))"
    by (simp_all add: series[of "''latency_comparison''" JFloat] series[of "''path_ratio''" "JInt \<circ> int"]
        series[of "''timeline_stage_totals''" JFloat] display_defs)
  ultimately show ?thesis
    by (simp add: serialize_presentation_response_def)
      (simp add: presentation_dict_def display_defs kpis_round prints_text_simp[OF assms], simp add: named_def)
qed

lemma config_dict_named: "config_to_dict cfg = named
  [(''scenario'', JText (scenario cfg)), (''iteration_count'', JInt (iteration_count cfg)),
   (''concurrency'', JInt (concurrency cfg)), (''hit_rate_buckets'', JList (map JInt (hit_rate_buckets cfg))),
   (''ttl_seconds'', JInt (config_ttl_seconds cfg)), (''include_reference'', JBool (include_reference cfg))]"
  by (simp add: config_to_dict_def named_def)

text \<open>A class gets its own dictionary back.\<close>

lemma construct_named:
  assumes "map fst attributes = map fst ms" "distinct (map fst ms)"
  shows "construct attributes (named ms) = Inr (named ms)"
proof -
  have known: "list_all (\<lambda>(k, v). k \<in> set (map (lit \<circ> fst) attributes)) (named ms)"
  proof -
    have "map (lit \<circ> fst) attributes = map lit (map fst ms)" unfolding assms(1)[symmetric] by simp
    then show ?thesis by (simp only:) (force simp: list_all_iff named_def)
  qed
  have "map (\<lambda>(k, default). (k, case map_of (named ms) (lit k) of Some v \<Rightarrow> Inr v
      | None \<Rightarrow> (case default of Some v \<Rightarrow> Inr v | None \<Rightarrow> Inl (TypeError [])))) attributes = map (\<lambda>(k, v). (k, Inr v)) ms"
  proof (rule nth_equalityI)
    fix i assume "i < length (map (\<lambda>(k, default). (k, case map_of (named ms) (lit k) of Some v \<Rightarrow> Inr v
      | None \<Rightarrow> (case default of Some v \<Rightarrow> Inr v | None \<Rightarrow> Inl (TypeError [])))) attributes)"
    then have i: "i < length attributes" "i < length ms" using arg_cong[OF assms(1), of length] by auto
    obtain k v where kv: "ms ! i = (k, v)" by fastforce
    then have "fst (attributes ! i) = k" using arg_cong[OF assms(1), of "\<lambda>xs. xs ! i"] i by simp
    moreover have "map_of (named ms) (lit k) = Some v"
    proof -
      have "distinct (map fst (named ms))" using assms(2) by (simp add: named_def comp_def case_prod_unfold distinct_map inj_on_def)
      moreover have "(lit k, v) \<in> set (named ms)" using nth_mem[OF i(2)] kv by (force simp: named_def)
      ultimately show ?thesis by (rule map_of_is_SomeI)
    qed
    ultimately show "map (\<lambda>(k, default). (k, case map_of (named ms) (lit k) of Some v \<Rightarrow> Inr v
      | None \<Rightarrow> (case default of Some v \<Rightarrow> Inr v | None \<Rightarrow> Inl (TypeError [])))) attributes ! i = map (\<lambda>(k, v). (k, Inr v)) ms ! i"
      using i kv by (simp add: case_prod_unfold)
  qed (use arg_cong[OF assms(1), of length] in simp)
  then show ?thesis using known by (simp add: construct_def)
qed

lemma record_read_back: "read_run_payload (JObject (record_to_dict a r)) = Inr (record_to_dict a r)"
proof -
  have config: "construct run_config_class (config_to_dict cfg) = Inr (config_to_dict cfg)" for cfg
    unfolding config_dict_named by (rule construct_named) (simp_all add: run_config_class_def)
  have summary: "construct run_summary_class (summary_to_dict s) = Inr (summary_to_dict s)" for s
    unfolding summary_to_dict_def by (rule construct_named) (simp_all add: run_summary_class_def)
  have nonempty: "summary_to_dict s \<noteq> []" for s by (simp add: summary_to_dict_def named_def)
  show ?thesis
    by (cases "run_summary_of r") (simp_all add: read_run_payload_def record_to_dict_def config summary nonempty or_null_def[of "JObject \<circ> summary_to_dict"], simp_all add: named_def)
qed

lemma answers_built:
  assumes "prints_text sj"
  shows "serialize_run_detail sj (record_to_dict a r) (map log_dict logs) =
      Inr (record_to_dict a r @ named [(''logs'', JList (map (JObject \<circ> log_dict) logs))])"
    "serialize_events_response sj rid (map event_to_dict es) =
      Inr (named [(''run_id'', JText rid), (''events'', JList (map (JObject \<circ> event_to_dict) es))])"
    "serialize_requests_response sj rid (map timeline_dict ts) =
      Inr (named [(''run_id'', JText rid), (''requests'', JList (map (JObject \<circ> timeline_dict) ts))])"
proof -
  have "each (normalize_log_entry sj) (map log_dict logs) = Inr (map log_dict logs)"
    by (rule each_map) (rule log_round[OF assms])
  then show "serialize_run_detail sj (record_to_dict a r) (map log_dict logs) =
      Inr (record_to_dict a r @ named [(''logs'', JList (map (JObject \<circ> log_dict) logs))])"
    by (simp add: serialize_run_detail_def record_to_dict_def named_def)
  have "each (normalize_event_entry sj) (map event_to_dict es) = Inr (map event_to_dict es)"
    by (rule each_map) (rule event_round[OF assms])
  then show "serialize_events_response sj rid (map event_to_dict es) =
      Inr (named [(''run_id'', JText rid), (''events'', JList (map (JObject \<circ> event_to_dict) es))])"
    by (simp add: serialize_events_response_def named_def)
  have "each (normalize_request sj) (map timeline_dict ts) = Inr (map timeline_dict ts)"
    by (rule each_map) (rule timeline_round[OF assms])
  then show "serialize_requests_response sj rid (map timeline_dict ts) =
      Inr (named [(''run_id'', JText rid), (''requests'', JList (map (JObject \<circ> timeline_dict) ts))])"
    by (simp add: serialize_requests_response_def named_def)
qed

text \<open>
  Round trip. A run record that was written is read back with every attribute, and the answers of
  the interface about a run (its record with the log, its events, its requests, its presentation) can
  always be built: normalising raises nothing and changes nothing in the dictionaries the code builds.
\<close>

theorem records_and_answers:
  assumes "prints_text sj"
  shows "read_run_payload (JObject (record_to_dict a r)) = Inr (record_to_dict a r) \<and>
    serialize_run_detail sj (record_to_dict a r) (map log_dict logs) =
      Inr (record_to_dict a r @ named [(''logs'', JList (map (JObject \<circ> log_dict) logs))]) \<and>
    serialize_events_response sj rid (map event_to_dict es) =
      Inr (named [(''run_id'', JText rid), (''events'', JList (map (JObject \<circ> event_to_dict) es))]) \<and>
    serialize_requests_response sj rid (map timeline_dict ts) =
      Inr (named [(''run_id'', JText rid), (''requests'', JList (map (JObject \<circ> timeline_dict) ts))]) \<and>
    serialize_presentation_response sj (presentation_dict rid p) = Inr (presentation_dict rid p)"
  by (intro conjI record_read_back answers_built[OF assms] presentation_round[OF assms])

text \<open>An example: a queued run without a log, and an event.\<close>

definition sample_attributes :: run_attributes where
  "sample_attributes =
     \<lparr>attr_run_id = lit ''run_7'', attr_created_at = lit ''2024-01-01T00:00:00Z'', attr_updated_at = lit ''2024-01-01T00:00:00Z'',
      attr_started_at = None, attr_finished_at = None, attr_mini_redis_commit = None, attr_app_commit = None\<rparr>"

definition sample_stored :: run_record where
  "sample_stored = queued_run
     \<lparr>scenario = lit ''detail_page'', iteration_count = 1, concurrency = 1, hit_rate_buckets = [50], config_ttl_seconds = 30,
      include_reference = False\<rparr>"

definition sample_event :: flow_event where
  "sample_event =
     \<lparr>event_id = lit ''e'', event_request_id = lit ''r'', event_timestamp = Finite 1, event_mode = lit ''db_only'',
      event_type = lit ''error'', event_stage = lit ''request'', event_duration_ms = Finite 0, event_metadata = []\<rparr>"

definition plain_str :: "json \<Rightarrow> pystr" where
  "plain_str v = (case v of JText t \<Rightarrow> t | _ \<Rightarrow> [])"

theorem records_and_answers_witness:
  "prints_text plain_str \<and>
   read_run_payload (JObject (record_to_dict sample_attributes sample_stored)) = Inr (record_to_dict sample_attributes sample_stored) \<and>
   serialize_events_response plain_str (lit ''run_7'') [event_to_dict sample_event] =
     Inr (named [(''run_id'', JText (lit ''run_7'')), (''events'', JList [JObject (event_to_dict sample_event)])])"
proof -
  have sj: "prints_text plain_str" by (simp add: prints_text_def plain_str_def)
  from records_and_answers[OF sj, of sample_attributes sample_stored "[]" "lit ''run_7''" "[sample_event]"] sj
  show ?thesis by simp
qed

end
