(* ===== verification/Startup.thy ===== *)
theory Startup
  imports Session BenchApi
begin

text \<open>
  How the programs are put together from the environment: the settings of the two stores of the arena, the
  choice of their implementations, the applications of the lanes, of the gateway and of the benchmark, and
  the addresses the entry points under \<open>cmd\<close> listen on.

  An environment is a lookup of the variables. Whether the packages \<open>pymongo\<close> and \<open>redis\<close> are installed is an
  argument. An application is described by the parts it was given; the objects are those of the other
  theories (\<open>RedisPy\<close>, \<open>RedisClient\<close>, \<open>PyMongo\<close>, \<open>MongoRepo\<close>, \<open>MongoBaseline\<close>).

  Main results: from one environment the server, the cached lane and the benchmark take the same address
  of the server; without settings every part finds the others.
\<close>

section \<open>The stores of the arena\<close>

record mongo_settings =
  mongo_backend :: pystr
  mongo_uri :: pystr
  mongo_db_name :: pystr
  mongo_collection_name :: pystr
  server_selection_timeout_ms :: int

definition mongo_settings_from_env :: "(pystr \<Rightarrow> pystr option) \<Rightarrow> string \<Rightarrow> string \<Rightarrow> py_exc + mongo_settings" where
  "mongo_settings_from_env env default_backend default_db_name =
     rbind (int_setting (getenv env (lit ''MONGO_SERVER_SELECTION_TIMEOUT_MS'') (lit ''1000''))) (\<lambda>timeout.
       Inr \<lparr>mongo_backend = getenv env (lit ''ARENA_MONGO_BACKEND'') (lit default_backend),
            mongo_uri = getenv env (lit ''MONGO_URI'') (lit ''mongodb://127.0.0.1:27017''),
            mongo_db_name = getenv env (lit ''MONGO_DB_NAME'') (lit default_db_name),
            mongo_collection_name = getenv env (lit ''MONGO_COLLECTION_NAME'') (lit ''documents''),
            server_selection_timeout_ms = timeout\<rparr>)"

record redis_settings =
  redis_backend :: pystr
  redis_host :: pystr
  redis_port :: int
  redis_db :: int
  socket_timeout_seconds :: pyfloat
  decode_responses :: bool

definition redis_settings_from_env :: "(pystr \<Rightarrow> pystr option) \<Rightarrow> py_exc + redis_settings" where
  "redis_settings_from_env env =
     rbind (int_setting (getenv env (lit ''MINI_REDIS_PORT'') (lit ''6379''))) (\<lambda>p.
     rbind (int_setting (getenv env (lit ''MINI_REDIS_DB'') (lit ''0''))) (\<lambda>db.
     rbind (float_setting (getenv env (lit ''MINI_REDIS_SOCKET_TIMEOUT_SECONDS'') (lit ''1.0''))) (\<lambda>timeout.
       Inr \<lparr>redis_backend = getenv env (lit ''ARENA_REDIS_BACKEND'') (lit ''inmemory''),
            redis_host = getenv env (lit ''MINI_REDIS_HOST'') (lit ''127.0.0.1''), redis_port = p, redis_db = db,
            socket_timeout_seconds = timeout, decode_responses = True\<rparr>)))"

datatype arena_store = PyMongoStore mongo_settings | InMemoryStore pystr

definition build_arena_repository :: "bool \<Rightarrow> mongo_settings \<Rightarrow> py_exc + arena_store" where
  "build_arena_repository installed s =
     (if mongo_backend s = lit ''pymongo'' then
        if installed then Inr (PyMongoStore s)
        else Inl (RuntimeError (lit ''pymongo package is required for ARENA_MONGO_BACKEND=pymongo''))
      else if mongo_backend s = lit ''inmemory'' then Inr (InMemoryStore (mongo_db_name s))
      else Inl ValueError)"

datatype arena_cache = RedisPyCache redis_settings | InMemoryCache

definition build_mini_redis_client :: "bool \<Rightarrow> redis_settings \<Rightarrow> py_exc + arena_cache" where
  "build_mini_redis_client installed s =
     (if redis_backend s = lit ''redis_py'' then
        if installed then Inr (RedisPyCache s)
        else Inl (RuntimeError (lit ''redis package is required for ARENA_REDIS_BACKEND=redis_py''))
      else if redis_backend s = lit ''inmemory'' then Inr InMemoryCache
      else Inl ValueError)"

section \<open>The applications\<close>

text \<open>The backend of the cache is only taken from the settings when the variable is set.\<close>

definition lane_a_create_app :: "bool \<Rightarrow> bool \<Rightarrow> (pystr \<Rightarrow> pystr option) \<Rightarrow> py_exc + arena_cache \<times> arena_store" where
  "lane_a_create_app redis_package pymongo_package env =
     rbind (redis_settings_from_env env) (\<lambda>rs.
     let rs = (if env (lit ''ARENA_REDIS_BACKEND'') = None then rs\<lparr>redis_backend := lit ''redis_py''\<rparr> else rs) in
     rbind (mongo_settings_from_env env ''pymongo'' ''arena_lane_a'') (\<lambda>ms.
     rbind (build_mini_redis_client redis_package rs) (\<lambda>client.
     rbind (build_arena_repository pymongo_package ms) (\<lambda>repository. Inr (client, repository)))))"

definition lane_b_create_app :: "bool \<Rightarrow> (pystr \<Rightarrow> pystr option) \<Rightarrow> py_exc + arena_store" where
  "lane_b_create_app pymongo_package env =
     rbind (mongo_settings_from_env env ''pymongo'' ''arena_lane_b'') (build_arena_repository pymongo_package)"

record lane_client_settings =
  client_lane_name :: pystr
  base_url :: pystr
  client_timeout_seconds :: pyfloat

text \<open>The clients of both lanes, and whether the state is reset at the start.\<close>

definition gateway_create_app ::
  "(pystr \<Rightarrow> pystr option) \<Rightarrow> py_exc + lane_client_settings \<times> lane_client_settings \<times> bool" where
  "gateway_create_app env =
     rbind (float_setting (getenv env (lit ''ARENA_LANE_TIMEOUT_SECONDS'') (lit ''5.0''))) (\<lambda>timeout.
       Inr (\<lparr>client_lane_name = lit ''lane-a'',
              base_url = getenv env (lit ''ARENA_LANE_A_BASE_URL'') (lit ''http://127.0.0.1:8001''), client_timeout_seconds = timeout\<rparr>,
            \<lparr>client_lane_name = lit ''lane-b'',
              base_url = getenv env (lit ''ARENA_LANE_B_BASE_URL'') (lit ''http://127.0.0.1:8002''), client_timeout_seconds = timeout\<rparr>,
            py_lower (getenv env (lit ''ARENA_RESET_ON_START'') (lit ''0'')) \<in> set (map lit [''1'', ''true'', ''yes'', ''on''])))"

text \<open>The entry points: host and port of the web server.\<close>

definition web_address :: "(pystr \<Rightarrow> pystr option) \<Rightarrow> string \<Rightarrow> string \<Rightarrow> string \<Rightarrow> py_exc + pystr \<times> int" where
  "web_address env host_variable port_variable default_port =
     rbind (int_setting (getenv env (lit port_variable) (lit default_port))) (\<lambda>p.
       Inr (getenv env (lit host_variable) (lit ''0.0.0.0''), p))"

definition arena_gateway_main :: "(pystr \<Rightarrow> pystr option) \<Rightarrow> py_exc + pystr \<times> int" where
  "arena_gateway_main env = web_address env ''ARENA_HOST'' ''ARENA_PORT'' ''8000''"

definition arena_lane_a_main :: "(pystr \<Rightarrow> pystr option) \<Rightarrow> py_exc + pystr \<times> int" where
  "arena_lane_a_main env = web_address env ''ARENA_LANE_A_HOST'' ''ARENA_LANE_A_PORT'' ''8001''"

definition arena_lane_b_main :: "(pystr \<Rightarrow> pystr option) \<Rightarrow> py_exc + pystr \<times> int" where
  "arena_lane_b_main env = web_address env ''ARENA_LANE_B_HOST'' ''ARENA_LANE_B_PORT'' ''8002''"

section \<open>The benchmark\<close>

datatype baseline_choice = MongoBaselineChoice pystr pystr pystr pystr int | MockBaseline

definition build_baseline_client :: "controller_settings \<Rightarrow> baseline_choice" where
  "build_baseline_client s =
     (if set_baseline_backend s = lit ''mongodb''
      then MongoBaselineChoice (set_mongodb_uri s) (set_mongodb_db_name s) (set_mongodb_collection s) (set_mongodb_seed_file s)
        (set_mongodb_connect_timeout_ms s)
      else MockBaseline)"

text \<open>\<open>build_application\<close> with the settings only: the database, and the address of the cache with its timeout.\<close>

definition build_application :: "controller_settings \<Rightarrow> baseline_choice \<times> pystr \<times> int \<times> pyfloat" where
  "build_application s = (build_baseline_client s, set_redis_host s, set_redis_port s, set_redis_timeout_seconds s)"

text \<open>\<open>serve(host, port)\<close>: the address that is listened on and the application; an empty host and port 0 count as not given.\<close>

definition serve ::
  "pystr option \<Rightarrow> int option \<Rightarrow> controller_settings \<Rightarrow> (pystr \<times> int) \<times> baseline_choice \<times> pystr \<times> int \<times> pyfloat" where
  "serve h p s =
     (let s1 = (if h \<noteq> None \<or> p \<noteq> None
                then s\<lparr>set_controller_host := (case h of None \<Rightarrow> set_controller_host s | Some t \<Rightarrow> if t = [] then set_controller_host s else t),
                       set_controller_port := (case p of None \<Rightarrow> set_controller_port s | Some n \<Rightarrow> if n = 0 then set_controller_port s else n)\<rparr>
                else s)
      in ((set_controller_host s1, set_controller_port s1), build_application s1))"

section \<open>One environment\<close>

lemma getenv_simps [simp]: "env k = None \<Longrightarrow> getenv env k d = d" "env k = Some v \<Longrightarrow> getenv env k d = v"
  by (simp_all add: getenv_def)

lemma setting_without_file: "setting env sj [] variable key fallback = getenv env (lit variable) (lit fallback)"
  by (simp add: setting_def getenv_def split: option.split)

text \<open>
  From one environment in which the server has no address of its own and the benchmark no file of
  settings, the server listens where its clients look for it: the cached lane and the benchmark take its
  host and port.
\<close>

theorem shared_address:
  assumes "env (lit ''MINI_REDIS_SERVER_HOST'') = None" "env (lit ''MINI_REDIS_SERVER_PORT'') = None"
    and "env (lit ''APP_SETTINGS_FILE'') = None" "server_config env = Inr cfg"
    and "settings_from_env read_text stack sj env = Inr s" "redis_settings_from_env env = Inr rs"
  shows "(redis_host rs, redis_port rs) = (host cfg, port cfg) \<and>
    (\<exists>b t. snd (serve h p s) = (b, host cfg, port cfg, t))"
proof -
  have "int_arg = int_setting" by (simp add: fun_eq_iff int_arg_def int_setting_def)
  moreover have "host (with_connection_target h p c) = h \<and> port (with_connection_target h p c) = p" for h p c
    by (simp add: with_connection_target_def)
  ultimately have "host cfg = getenv env (lit ''MINI_REDIS_HOST'') (lit ''127.0.0.1'')"
    "int_setting (getenv env (lit ''MINI_REDIS_PORT'') (lit ''6379'')) = Inr (port cfg)"
    using assms(1,2,4) by (auto simp: server_config_def Let_def rbind_def split: sum.splits)
  moreover have "redis_host rs = getenv env (lit ''MINI_REDIS_HOST'') (lit ''127.0.0.1'')"
    "int_setting (getenv env (lit ''MINI_REDIS_PORT'') (lit ''6379'')) = Inr (redis_port rs)"
    using assms(6) by (auto simp: redis_settings_from_env_def rbind_def split: sum.splits)
  moreover have "set_redis_host s = getenv env (lit ''MINI_REDIS_HOST'') (lit ''127.0.0.1'')"
    "int_setting (getenv env (lit ''MINI_REDIS_PORT'') (lit ''6379'')) = Inr (set_redis_port s)"
    using assms(3,5)
    by (auto simp: settings_from_env_def read_settings_file_def setting_without_file Let_def rbind_def split: sum.splits)
  ultimately show ?thesis by (simp add: serve_def build_application_def Let_def)
qed

text \<open>An example: only the port is set.\<close>

theorem shared_address_witness:
  "\<exists>cfg s rs. server_config [lit ''MINI_REDIS_PORT'' \<mapsto> lit ''7000''] = Inr cfg \<and>
    redis_settings_from_env [lit ''MINI_REDIS_PORT'' \<mapsto> lit ''7000''] = Inr rs \<and>
    settings_from_env (\<lambda>p. None) 0 (\<lambda>v. []) [lit ''MINI_REDIS_PORT'' \<mapsto> lit ''7000''] = Inr s \<and>
    redis_port rs = 7000 \<and> port cfg = 7000 \<and> (\<exists>b h t. snd (serve None None s) = (b, h, 7000, t))"
proof -
  let ?env = "[lit ''MINI_REDIS_PORT'' \<mapsto> lit ''7000'']"
  have "map_option port (case server_config ?env of Inr c \<Rightarrow> Some c | Inl _ \<Rightarrow> None) = Some 7000" by code_simp
  then obtain cfg where c: "server_config ?env = Inr cfg" "port cfg = 7000" by (auto split: sum.splits)
  have "(case redis_settings_from_env ?env of Inr c \<Rightarrow> True | Inl _ \<Rightarrow> False)" by code_simp
  then obtain rs where r: "redis_settings_from_env ?env = Inr rs" by (auto split: sum.splits)
  have "(case settings_from_env (\<lambda>p. None) 0 (\<lambda>v. []) ?env of Inr c \<Rightarrow> True | Inl _ \<Rightarrow> False)" by code_simp
  then obtain s where s: "settings_from_env (\<lambda>p. None) 0 (\<lambda>v. []) ?env = Inr s" by (auto split: sum.splits)
  from shared_address[OF _ _ _ c(1) s r, of None None] c(2) show ?thesis using c(1) r s by auto
qed

text \<open>
  Without settings the lanes are the cached one on the server and MongoDB and the plain one on MongoDB, with
  databases of their own, and the gateway looks for each lane at the port its entry point listens on.
\<close>

theorem default_deployment:
  assumes "env = (\<lambda>_. None)"
  shows "(\<exists>rs ms. lane_a_create_app True True env = Inr (RedisPyCache rs, PyMongoStore ms) \<and> mongo_db_name ms = lit ''arena_lane_a'') \<and>
    (\<exists>ms. lane_b_create_app True env = Inr (PyMongoStore ms) \<and> mongo_db_name ms = lit ''arena_lane_b'') \<and>
    (\<exists>a b. gateway_create_app env = Inr (a, b, False) \<and>
      (\<exists>p. arena_lane_a_main env = Inr (lit ''0.0.0.0'', p) \<and> base_url a = lit ''http://127.0.0.1:'' @ show_int p) \<and>
      (\<exists>p. arena_lane_b_main env = Inr (lit ''0.0.0.0'', p) \<and> base_url b = lit ''http://127.0.0.1:'' @ show_int p))"
proof -
  have texts: "int_setting (lit ''1000'') = Inr 1000" "int_setting (lit ''6379'') = Inr 6379" "int_setting (lit ''0'') = Inr 0"
    "int_setting (lit ''8001'') = Inr 8001" "int_setting (lit ''8002'') = Inr 8002"
    "lit ''http://127.0.0.1:'' @ show_int 8001 = lit ''http://127.0.0.1:8001''"
    "lit ''http://127.0.0.1:'' @ show_int 8002 = lit ''http://127.0.0.1:8002''"
    "py_lower (lit ''0'') \<notin> set (map lit [''1'', ''true'', ''yes'', ''on''])" by code_simp+
  have "case float_setting (lit ''1.0'') of Inr x \<Rightarrow> True | Inl _ \<Rightarrow> False" "case float_setting (lit ''5.0'') of Inr x \<Rightarrow> True | Inl _ \<Rightarrow> False"
    by code_simp+
  then obtain t u where "float_setting (lit ''1.0'') = Inr t" "float_setting (lit ''5.0'') = Inr u" by (auto split: sum.splits)
  note texts = texts this
  show ?thesis
    using texts(6-8)
    by (simp add: lane_a_create_app_def lane_b_create_app_def gateway_create_app_def mongo_settings_from_env_def
        redis_settings_from_env_def build_arena_repository_def build_mini_redis_client_def arena_lane_a_main_def
        arena_lane_b_main_def web_address_def assms texts(1-5,9,10))
qed

end
