(* ===== verification/RunFiles.thy ===== *)
theory RunFiles
  imports Contracts JsonText RedisPy
begin

text \<open>
  The store of the runs on its files (\<open>app/storage/run_store.py\<close>): what is written is the text of
  \<open>json.dumps\<close>, what is read goes through \<open>json.loads\<close>. \<open>RunStore\<close> has the same operations on tables of
  records, events and log lines; here the tables are files with text in them.

  A directory is the texts of its files by name. The texts are ASCII, so that UTF-8 does not change them. A
  file that is missing raises \<open>FileNotFoundError\<close>, an \<open>OSError\<close> here; \<open>depth\<close> is the stack that
  \<open>json.loads\<close> has left.

  Main results: after any sequence of operations, reading the files gives the dictionaries of the tables
  (records, events, log lines, the list of the runs, whether a run is active); a record that is read while
  it is being written again raises \<open>JSONDecodeError\<close>.
\<close>

section \<open>Files\<close>

type_synonym directory = "(pystr, pystr) dict"

definition record_path :: "pystr \<Rightarrow> pystr" where
  "record_path rid = rid @ lit ''.json''"

definition events_path :: "pystr \<Rightarrow> pystr" where
  "events_path rid = rid @ lit ''.events.jsonl''"

definition logs_path :: "pystr \<Rightarrow> pystr" where
  "logs_path rid = rid @ lit ''.logs.jsonl''"

text \<open>\<open>write_text\<close> opens the file, which empties it, and then writes the text.\<close>

definition open_run_file :: "pystr \<Rightarrow> directory \<Rightarrow> directory" where
  "open_run_file rid dir = AList.update (record_path rid) [] dir"

definition write_run_file :: "run_attributes \<Rightarrow> run_record \<Rightarrow> directory \<Rightarrow> directory" where
  "write_run_file a r dir =
     AList.update (record_path (attr_run_id a)) (dumps_indent (JObject (record_to_dict a r))) (open_run_file (attr_run_id a) dir)"

definition read_run_file :: "nat \<Rightarrow> pystr \<Rightarrow> directory \<Rightarrow> py_exc + json_object" where
  "read_run_file depth rid dir =
     (case map_of dir (record_path rid) of
        None \<Rightarrow> Inl OSError
      | Some t \<Rightarrow> rbind (json_loads depth t) read_run_payload)"

definition append_line :: "pystr \<Rightarrow> json_object \<Rightarrow> directory \<Rightarrow> directory" where
  "append_line path d dir =
     AList.update path ((case map_of dir path of None \<Rightarrow> [] | Some t \<Rightarrow> t) @ dumps (JObject d) @ [10]) dir"

definition read_lines :: "nat \<Rightarrow> pystr \<Rightarrow> directory \<Rightarrow> py_exc + json list" where
  "read_lines depth path dir =
     (case map_of dir path of
        None \<Rightarrow> Inr []
      | Some t \<Rightarrow> each (json_loads depth) (filter (\<lambda>l. l \<noteq> []) (split_lines [] t)))"

definition append_event_file :: "pystr \<Rightarrow> flow_event \<Rightarrow> directory \<Rightarrow> directory" where
  "append_event_file rid e dir = append_line (events_path rid) (event_to_dict e) dir"

definition read_events_file :: "nat \<Rightarrow> pystr \<Rightarrow> directory \<Rightarrow> py_exc + json list" where
  "read_events_file depth rid dir = read_lines depth (events_path rid) dir"

fun events_after :: "pyfloat \<Rightarrow> json list \<Rightarrow> py_exc + json list" where
  "events_after t [] = Inr []"
| "events_after t (v # vs) =
     rbind (as_object v) (\<lambda>event. rbind (json_float (json_get event ''timestamp'' (JInt 0))) (\<lambda>x.
       rbind (events_after t vs) (\<lambda>rest. Inr (if flt t x then v # rest else rest))))"

definition read_events_after_file :: "nat \<Rightarrow> pystr \<Rightarrow> pyfloat option \<Rightarrow> directory \<Rightarrow> py_exc + json list" where
  "read_events_after_file depth rid after dir =
     rbind (read_events_file depth rid dir) (\<lambda>es. case after of None \<Rightarrow> Inr es | Some t \<Rightarrow> events_after t es)"

definition append_log_file :: "pystr \<Rightarrow> pyfloat \<Rightarrow> log_entry \<Rightarrow> directory \<Rightarrow> directory" where
  "append_log_file rid now e dir = append_line (logs_path rid) (log_dict (now, e)) dir"

definition read_logs_file :: "nat \<Rightarrow> pystr \<Rightarrow> directory \<Rightarrow> py_exc + json list" where
  "read_logs_file depth rid dir = read_lines depth (logs_path rid) dir"

definition run_list_item :: "json_object \<Rightarrow> py_exc + json_object" where
  "run_list_item payload = build
     [(''run_id'', item payload ''run_id''), (''status'', item payload ''status''),
      (''scenario'', rbind (item payload ''config'') (\<lambda>c. rbind (as_object c) (\<lambda>c. item c ''scenario''))),
      (''created_at'', item payload ''created_at''), (''updated_at'', item payload ''updated_at'')]"

text \<open>The names that match \<open>run_*.json\<close>.\<close>

definition is_run_name :: "pystr \<Rightarrow> bool" where
  "is_run_name fname \<longleftrightarrow> 9 \<le> length fname \<and> take 4 fname = lit ''run_'' \<and> drop (length fname - 5) fname = lit ''.json''"

definition list_runs_file :: "nat \<Rightarrow> directory \<Rightarrow> py_exc + json_object list" where
  "list_runs_file depth dir =
     each (\<lambda>fname. rbind (case map_of dir fname of None \<Rightarrow> Inl OSError | Some t \<Rightarrow> json_loads depth t) (\<lambda>v.
         rbind (as_object v) run_list_item))
       (rev (sort (filter is_run_name (map fst dir))))"

text \<open>\<open>run["status"] in active_statuses\<close>: a list or a dictionary has no hash.\<close>

fun is_active_status :: "json \<Rightarrow> py_exc + bool" where
  "is_active_status (JText t) = Inr (t \<in> set active_statuses)"
| "is_active_status (JList _) = Inl (TypeError [])"
| "is_active_status (JObject _) = Inl (TypeError [])"
| "is_active_status _ = Inr False"

fun any_active :: "json_object list \<Rightarrow> py_exc + bool" where
  "any_active [] = Inr False"
| "any_active (r # rs) =
     rbind (item r ''status'') (\<lambda>st. rbind (is_active_status st) (\<lambda>b. if b then Inr True else any_active rs))"

definition has_active_run_file :: "nat \<Rightarrow> directory \<Rightarrow> py_exc + bool" where
  "has_active_run_file depth dir = rbind (list_runs_file depth dir) any_active"

section \<open>Operations\<close>

text \<open>What is written, on the files and on the tables of \<open>RunStore\<close>; \<open>archive\<close> has the tables with the times.\<close>

datatype store_op =
    SaveRun run_attributes run_record
  | SaveEvent pystr flow_event
  | SaveLog pystr pyfloat log_entry

fun file_op :: "store_op \<Rightarrow> directory \<Rightarrow> directory" where
  "file_op (SaveRun a r) dir = write_run_file a r dir"
| "file_op (SaveEvent rid e) dir = append_event_file rid e dir"
| "file_op (SaveLog rid now e) dir = append_log_file rid now e dir"

fun table_op :: "store_op \<Rightarrow> run_files \<Rightarrow> run_files" where
  "table_op (SaveRun a r) fs = store_write_run (attr_run_id a) r fs"
| "table_op (SaveEvent rid e) fs = store_append_event rid e fs"
| "table_op (SaveLog rid now e) fs = store_append_log rid e fs"

record archive =
  kept_runs :: "(pystr, run_attributes \<times> run_record) dict"
  kept_events :: "(pystr, flow_event list) dict"
  kept_logs :: "(pystr, (pyfloat \<times> log_entry) list) dict"

definition empty_archive :: archive where
  "empty_archive = \<lparr>kept_runs = [], kept_events = [], kept_logs = []\<rparr>"

fun archive_op :: "store_op \<Rightarrow> archive \<Rightarrow> archive" where
  "archive_op (SaveRun a r) ar = ar\<lparr>kept_runs := AList.update (attr_run_id a) (a, r) (kept_runs ar)\<rparr>"
| "archive_op (SaveEvent rid e) ar = ar\<lparr>kept_events := AList.update rid (lines_of (kept_events ar) rid @ [e]) (kept_events ar)\<rparr>"
| "archive_op (SaveLog rid now e) ar = ar\<lparr>kept_logs := AList.update rid (lines_of (kept_logs ar) rid @ [(now, e)]) (kept_logs ar)\<rparr>"

definition tables_of :: "archive \<Rightarrow> run_files" where
  "tables_of ar =
     \<lparr>run_table = map (map_prod id snd) (kept_runs ar), event_table = kept_events ar,
      log_table = map (map_prod id (map snd)) (kept_logs ar)\<rparr>"

lemma update_mapped: "AList.update k (f v) (map (map_prod id f) d) = map (map_prod id f) (AList.update k v d)"
  by (induction d) auto

lemma lines_mapped: "lines_of (map (map_prod id (map f)) d) rid = map f (lines_of d rid)"
  by (induction d) (auto simp: lines_of_def)

lemma tables_archive_op: "tables_of (archive_op op ar) = table_op op (tables_of ar)"
proof (cases op)
  case (SaveRun a r)
  then show ?thesis using update_mapped[of "attr_run_id a" snd "(a, r)" "kept_runs ar"] by (simp add: tables_of_def store_write_run_def)
next
  case (SaveLog rid now e)
  then show ?thesis using update_mapped[of rid "map snd" "lines_of (kept_logs ar) rid @ [(now, e)]" "kept_logs ar"]
    by (simp add: tables_of_def store_append_log_def lines_mapped)
qed (simp add: tables_of_def store_append_event_def)

section \<open>Names\<close>

lemma path_simps [simp]:
  "record_path a = record_path b \<longleftrightarrow> a = b" "events_path a = events_path b \<longleftrightarrow> a = b" "logs_path a = logs_path b \<longleftrightarrow> a = b"
  "record_path a \<noteq> events_path b" "events_path b \<noteq> record_path a" "record_path a \<noteq> logs_path b" "logs_path b \<noteq> record_path a"
  "events_path a \<noteq> logs_path b" "logs_path b \<noteq> events_path a"
proof -
  have "last (record_path a) = 110" "last (events_path b) = 108" "last (logs_path b) = 108"
    by (simp_all add: record_path_def events_path_def logs_path_def lit_def)
  then show "record_path a \<noteq> events_path b" "events_path b \<noteq> record_path a" "record_path a \<noteq> logs_path b" "logs_path b \<noteq> record_path a" by auto
  have "take 8 (rev (events_path a)) \<noteq> take 8 (rev (logs_path b))" by (simp add: events_path_def logs_path_def lit_def)
  then show "events_path a \<noteq> logs_path b" "logs_path b \<noteq> events_path a" by metis+
qed (simp_all add: record_path_def events_path_def logs_path_def)

lemma run_names [simp]:
  "\<not> is_run_name (events_path rid)" "\<not> is_run_name (logs_path rid)" "is_run_name (record_path (build_run_id n))"
  by (simp_all add: is_run_name_def events_path_def logs_path_def record_path_def build_run_id_def lit_def)

text \<open>The identifiers have digits behind \<open>run_\<close>, so that the names of the files are in the order of the identifiers.\<close>

lemma digits_below: "digit_text x \<Longrightarrow> digit_text y \<Longrightarrow> x < y \<Longrightarrow> x @ 46 # s < y @ 46 # s"
proof (induction x arbitrary: y)
  case Nil
  then show ?case by (cases y) (auto simp: is_digit_def)
next
  case (Cons c x)
  then show ?case by (cases y) auto
qed

lemma record_path_mono:
  assumes "a \<le> b" "a \<in> range build_run_id" "b \<in> range build_run_id"
  shows "record_path a \<le> record_path b"
proof -
  obtain m n where "a = build_run_id m" "b = build_run_id n" using assms(2,3) by auto
  then show ?thesis using digits_below[of "show_nat m" "show_nat n" "lit ''json''"] assms(1)
    by (auto simp: build_run_id_def record_path_def lit_def le_less)
qed

lemma run_id_front: "rid \<in> range build_run_id \<Longrightarrow> take 4 rid = lit ''run_''"
  by (auto simp: build_run_id_def lit_def)

section \<open>The files have the archive\<close>

definition line_text :: "json_object \<Rightarrow> pystr" where
  "line_text d = dumps (JObject d) @ [10]"

definition on_disk :: "archive \<Rightarrow> directory \<Rightarrow> bool" where
  "on_disk ar dir \<longleftrightarrow> distinct (map fst dir) \<and>
     (\<forall>rid. map_of dir (record_path rid) = map_option (\<lambda>(a, r). dumps_indent (JObject (record_to_dict a r))) (map_of (kept_runs ar) rid)) \<and>
     (\<forall>rid. map_of dir (events_path rid) = map_option (\<lambda>es. concat (map (line_text \<circ> event_to_dict) es)) (map_of (kept_events ar) rid)) \<and>
     (\<forall>rid. map_of dir (logs_path rid) = map_option (\<lambda>ls. concat (map (line_text \<circ> log_dict) ls)) (map_of (kept_logs ar) rid)) \<and>
     (\<forall>fname \<in> fst ` set dir. is_run_name fname \<longrightarrow> fname \<in> range record_path)"

lemma kept_empty: "on_disk empty_archive []"
  by (simp add: on_disk_def empty_archive_def)

lemma kept_op:
  assumes "on_disk ar dir"
  shows "on_disk (archive_op op ar) (file_op op dir)"
proof (cases op)
  case (SaveRun a r)
  then show ?thesis using assms
    by (auto simp: on_disk_def write_run_file_def open_run_file_def update_conv' distinct_update dom_update)
next
  case (SaveEvent rid e)
  then show ?thesis using assms
    by (auto simp: on_disk_def append_event_file_def append_line_def update_conv' distinct_update dom_update lines_of_def line_text_def
        split: option.splits)
next
  case (SaveLog rid now e)
  then show ?thesis using assms
    by (auto simp: on_disk_def append_log_file_def append_line_def update_conv' distinct_update dom_update lines_of_def line_text_def
        split: option.splits)
qed

lemma kept_ops: "on_disk ar dir \<Longrightarrow> on_disk (fold archive_op ops ar) (fold file_op ops dir)"
  by (induction ops arbitrary: ar dir) (simp_all add: kept_op)

section \<open>Reading the files\<close>

fun wf_op :: "store_op \<Rightarrow> bool" where
  "wf_op (SaveRun a r) = (attr_run_id a \<in> range build_run_id \<and> wf_json (JObject (record_to_dict a r)))"
| "wf_op (SaveEvent rid e) = wf_json (JObject (event_to_dict e))"
| "wf_op (SaveLog rid now e) = wf_json (JObject (log_dict (now, e)))"

definition wf_archive :: "archive \<Rightarrow> bool" where
  "wf_archive ar \<longleftrightarrow> distinct (map fst (kept_runs ar)) \<and>
     (\<forall>(rid, a, r) \<in> set (kept_runs ar). rid = attr_run_id a \<and> rid \<in> range build_run_id \<and> wf_json (JObject (record_to_dict a r))) \<and>
     (\<forall>rid. \<forall>e \<in> set (lines_of (kept_events ar) rid). wf_json (JObject (event_to_dict e))) \<and>
     (\<forall>rid. \<forall>l \<in> set (lines_of (kept_logs ar) rid). wf_json (JObject (log_dict l)))"

lemma set_update: "set (AList.update k v d) \<subseteq> insert (k, v) (set d)"
  by (induction d) auto

lemma lines_update: "lines_of (AList.update k v d) rid = (if rid = k then v else lines_of d rid)"
  by (simp add: lines_of_def update_conv')

lemma wf_archive_run:
  assumes "wf_archive ar" "(rid, a, r) \<in> set (kept_runs ar)"
  shows "rid = attr_run_id a" "rid \<in> range build_run_id" "wf_json (JObject (record_to_dict a r))"
  using assms unfolding wf_archive_def by blast+

lemma wf_archive_op:
  assumes "wf_archive ar" "wf_op op"
  shows "wf_archive (archive_op op ar)"
proof (cases op)
  case (SaveRun a r)
  have "rid = attr_run_id b \<and> rid \<in> range build_run_id \<and> wf_json (JObject (record_to_dict b q))"
    if "(rid, b, q) \<in> set (AList.update (attr_run_id a) (a, r) (kept_runs ar))" for rid b q
    using subsetD[OF set_update that] assms SaveRun by (auto simp: wf_archive_def simp del: wf_json.simps)
  then have "\<forall>(rid, b, q) \<in> set (AList.update (attr_run_id a) (a, r) (kept_runs ar)).
      rid = attr_run_id b \<and> rid \<in> range build_run_id \<and> wf_json (JObject (record_to_dict b q))" by blast
  then show ?thesis using assms SaveRun by (simp add: wf_archive_def distinct_update del: wf_json.simps)
qed (use assms in \<open>auto simp: wf_archive_def lines_update\<close>)

lemma wf_archive_ops: "wf_archive ar \<Longrightarrow> list_all wf_op ops \<Longrightarrow> wf_archive (fold archive_op ops ar)"
  by (induction ops arbitrary: ar) (simp_all add: wf_archive_op)

lemma plain_depth [simp]:
  "items_depth (map JInt ns) = 0" "members_depth (map (\<lambda>(k, v). (k, meta_json v)) d) = 0" "json_depth (or_null JText t) = 0"
  "json_depth (or_null JFloat x) = 0" "json_depth (or_null JInt n) = 0"
proof -
  have "json_depth (meta_json v) = 0" for v by (cases v) simp_all
  then show "members_depth (map (\<lambda>(k, v). (k, meta_json v)) d) = 0" by (induction d) auto
qed (induction ns, simp_all add: or_null_def split: option.splits)

lemma record_depth: "json_depth (JObject (record_to_dict a r)) \<le> 3"
  by (auto simp: record_to_dict_def named_def config_to_dict_def summary_to_dict_def or_null_def[of "JObject \<circ> summary_to_dict"]
      split: option.splits)

lemma line_depth: "json_depth (JObject (event_to_dict e)) \<le> 3" "json_depth (JObject (log_dict l)) \<le> 3"
  by (simp_all add: event_to_dict_def log_dict_def named_def metadata_json_def split: prod.splits)

lemma split_line: "printable l \<Longrightarrow> split_lines line (l @ 10 # rest) = (line @ l) # split_lines [] rest"
  by (induction l arbitrary: line) (auto simp: line_break_def)

lemma read_line_texts:
  assumes "\<forall>d \<in> set ds. wf_json (JObject d) \<and> json_depth (JObject d) \<le> depth"
  shows "each (json_loads depth) (filter (\<lambda>l. l \<noteq> []) (split_lines [] (concat (map line_text ds)))) = Inr (map JObject ds)"
  using assms
proof (induction ds)
  case (Cons d ds)
  then show ?case using split_line[of "dumps (JObject d)" "[]" "concat (map line_text ds)"] json_round_trip(1)[of "JObject d" depth]
    by (simp add: line_text_def[of d] del: wf_json.simps json_depth.simps)
qed simp

lemma read_run_kept:
  assumes "on_disk ar dir" "wf_archive ar" "3 \<le> depth"
  shows "read_run_file depth rid dir =
    (case map_of (kept_runs ar) rid of None \<Rightarrow> Inl OSError | Some (a, r) \<Rightarrow> Inr (record_to_dict a r))"
proof (cases "map_of (kept_runs ar) rid")
  case None
  then show ?thesis using assms(1) by (simp add: read_run_file_def on_disk_def)
next
  case (Some x)
  obtain a r where x: "x = (a, r)" by fastforce
  have "wf_json (JObject (record_to_dict a r))" using map_of_SomeD[OF Some] assms(2) x by (auto simp: wf_archive_def)
  moreover have "json_depth (JObject (record_to_dict a r)) \<le> depth" using record_depth[of a r] assms(3) by (rule le_trans)
  ultimately show ?thesis using Some x assms(1) json_round_trip(2) by (simp add: read_run_file_def on_disk_def record_read_back)
qed

lemma read_events_kept:
  assumes "on_disk ar dir" "wf_archive ar" "3 \<le> depth"
  shows "read_events_file depth rid dir = Inr (map (JObject \<circ> event_to_dict) (lines_of (kept_events ar) rid))"
    "read_logs_file depth rid dir = Inr (map (JObject \<circ> log_dict) (lines_of (kept_logs ar) rid))"
proof -
  have "\<forall>d \<in> set (map event_to_dict (lines_of (kept_events ar) rid)). wf_json (JObject d) \<and> json_depth (JObject d) \<le> depth"
    using assms(2) le_trans[OF line_depth(1) assms(3)] by (auto simp: wf_archive_def)
  from read_line_texts[OF this] show "read_events_file depth rid dir = Inr (map (JObject \<circ> event_to_dict) (lines_of (kept_events ar) rid))"
    using assms(1) by (auto simp: read_events_file_def read_lines_def on_disk_def lines_of_def comp_def split: option.splits)
  have "\<forall>d \<in> set (map log_dict (lines_of (kept_logs ar) rid)). wf_json (JObject d) \<and> json_depth (JObject d) \<le> depth"
    using assms(2) le_trans[OF line_depth(2) assms(3)] by (auto simp: wf_archive_def)
  from read_line_texts[OF this] show "read_logs_file depth rid dir = Inr (map (JObject \<circ> log_dict) (lines_of (kept_logs ar) rid))"
    using assms(1) by (auto simp: read_logs_file_def read_lines_def on_disk_def lines_of_def comp_def split: option.splits)
qed

lemma events_after_dicts:
  "events_after t (map (JObject \<circ> event_to_dict) es) = Inr (map (JObject \<circ> event_to_dict) (filter (\<lambda>e. flt t (event_timestamp e)) es))"
  by (induction es) (simp_all add: event_to_dict_def)

text \<open>The list of the runs.\<close>

definition listed_dict :: "run_attributes \<Rightarrow> run_record \<Rightarrow> json_object" where
  "listed_dict a r = named
     [(''run_id'', JText (attr_run_id a)), (''status'', JText (run_status r)), (''scenario'', JText (scenario (run_configuration r))),
      (''created_at'', JText (attr_created_at a)), (''updated_at'', JText (attr_updated_at a))]"

definition listed :: "archive \<Rightarrow> (pystr \<times> run_attributes \<times> run_record) list" where
  "listed ar = rev (sort_key fst (kept_runs ar))"

lemma run_list_item_record: "run_list_item (record_to_dict a r) = Inr (listed_dict a r)"
  by (simp add: run_list_item_def record_to_dict_def listed_dict_def config_dict_named, simp add: named_def)

lemma run_names_kept:
  assumes "on_disk ar dir" "wf_archive ar"
  shows "rev (sort (filter is_run_name (map fst dir))) = map (record_path \<circ> fst) (listed ar)"
proof -
  let ?ids = "map fst (sort_key fst (kept_runs ar))"
  have ids: "sorted ?ids" "distinct ?ids" "set ?ids = fst ` set (kept_runs ar)" "set ?ids \<subseteq> range build_run_id"
    using assms(2) by (auto simp: wf_archive_def distinct_map)
  have order: "sorted (map record_path ?ids)"
    unfolding sorted_map by (rule sorted_wrt_mono_rel[OF _ ids(1)]) (use ids(4) record_path_mono in blast)
  have once: "distinct (map record_path ?ids)" using ids(2) by (simp add: distinct_map inj_on_def)
  have at: "record_path rid \<in> fst ` set dir \<longleftrightarrow> rid \<in> fst ` set (kept_runs ar)" for rid
    using assms(1) map_of_eq_None_iff[of dir "record_path rid"] map_of_eq_None_iff[of "kept_runs ar" rid] by (auto simp: on_disk_def)
  have only: "is_run_name n \<Longrightarrow> n \<in> fst ` set dir \<Longrightarrow> n \<in> range record_path" for n using assms(1) by (auto simp: on_disk_def)
  have names: "set (map record_path ?ids) = set (filter is_run_name (map fst dir))"
  proof (intro equalityI subsetI)
    fix n assume "n \<in> set (map record_path ?ids)"
    then obtain rid where "n = record_path rid" "rid \<in> set ?ids" by auto
    moreover from this(2) obtain m where "rid = build_run_id m" using ids(4) by blast
    ultimately show "n \<in> set (filter is_run_name (map fst dir))" using ids(3) at[of rid] by simp
  next
    fix n assume n: "n \<in> set (filter is_run_name (map fst dir))"
    then obtain rid where "n = record_path rid" using only[of n] by auto
    then show "n \<in> set (map record_path ?ids)" using n ids(3) at[of rid] by (simp add: image_iff)
  qed
  have "distinct (filter is_run_name (map fst dir))" using assms(1) by (simp add: on_disk_def)
  then have "sort (filter is_run_name (map fst dir)) = map record_path ?ids"
    using order once names by (intro sorted_distinct_set_unique) simp_all
  then show ?thesis by (simp add: listed_def rev_map)
qed

lemma list_runs_kept:
  assumes "on_disk ar dir" "wf_archive ar" "3 \<le> depth"
  shows "list_runs_file depth dir = Inr (map (\<lambda>(rid, a, r). listed_dict a r) (listed ar))"
  unfolding list_runs_file_def run_names_kept[OF assms(1,2)]
proof (rule each_map, clarify)
  fix rid a r assume "(rid, a, r) \<in> set (listed ar)"
  then have x: "(rid, a, r) \<in> set (kept_runs ar)" by (simp add: listed_def)
  then have "map_of (kept_runs ar) rid = Some (a, r)" using assms(2) by (simp add: wf_archive_def)
  moreover have "json_loads depth (dumps_indent (JObject (record_to_dict a r))) = Inr (JObject (record_to_dict a r))"
    using json_round_trip(2) x assms(2) le_trans[OF record_depth assms(3)] by (auto simp: wf_archive_def simp del: wf_json.simps json_depth.simps)
  ultimately show "rbind (case map_of dir ((record_path \<circ> fst) (rid, a, r)) of None \<Rightarrow> Inl OSError | Some t \<Rightarrow> json_loads depth t)
      (\<lambda>v. rbind (as_object v) run_list_item) = Inr (listed_dict a r)"
    using assms(1) by (simp add: on_disk_def run_list_item_record)
qed

lemma sort_mapped: "sort_key fst (map (map_prod id f) xs) = map (map_prod id f) (sort_key fst xs)"
proof -
  have one: "insort_key fst (map_prod id f x) (map (map_prod id f) ys) = map (map_prod id f) (insort_key fst x ys)" for x ys
    by (induction ys) auto
  show ?thesis by (induction xs) (simp_all add: one[unfolded id_def] id_def)
qed

lemma list_runs_tables:
  assumes "wf_archive ar"
  shows "list_runs (tables_of ar) = map (\<lambda>(rid, a, r). serialize_run_list_item rid r) (listed ar)"
proof -
  have "filter (\<lambda>(rid, r). take 4 rid = lit ''run_'') (run_table (tables_of ar)) = run_table (tables_of ar)"
    using run_id_front wf_archive_run(2)[OF assms] by (fastforce simp: filter_id_conv tables_of_def)
  then show ?thesis by (simp add: list_runs_def tables_of_def listed_def sort_mapped rev_map comp_def case_prod_unfold)
qed

lemma any_active_listed:
  "any_active (map (\<lambda>(rid, a, r). listed_dict a r) xs) = Inr (list_ex (\<lambda>(rid, a, r). run_status r \<in> set active_statuses) xs)"
  by (induction xs) (auto simp: listed_dict_def)

lemma has_active_kept:
  assumes "on_disk ar dir" "wf_archive ar" "3 \<le> depth"
  shows "has_active_run_file depth dir = Inr (has_active_run (tables_of ar))"
  unfolding has_active_run_file_def list_runs_kept[OF assms] has_active_run_def list_runs_tables[OF assms(2)]
  by (simp add: any_active_listed) (simp add: serialize_run_list_item_def list_ex_iff case_prod_unfold)

section \<open>The store on its files\<close>

text \<open>
  C27. Refinement. After any sequence of operations on the store, what is read from the text of its files are
  the dictionaries of what was written: the record of a run (or \<open>FileNotFoundError\<close>), its events in order,
  those after a time, its log lines, and the list of the runs, latest first; whether a run is active is the
  answer of the tables of \<open>RunStore\<close>, which the operations keep.
\<close>

theorem files_keep_runs:
  assumes "list_all wf_op ops" "3 \<le> depth"
    and "dir = fold file_op ops []" "ar = fold archive_op ops empty_archive"
  shows "tables_of ar = fold table_op ops (tables_of empty_archive) \<and>
    read_run_file depth rid dir =
      (case map_of (kept_runs ar) rid of None \<Rightarrow> Inl OSError | Some (a, r) \<Rightarrow> Inr (record_to_dict a r)) \<and>
    read_events_after_file depth rid after dir =
      Inr (map (JObject \<circ> event_to_dict) (store_read_events_after rid after (tables_of ar))) \<and>
    read_logs_file depth rid dir = Inr (map (JObject \<circ> log_dict) (lines_of (kept_logs ar) rid)) \<and>
    list_runs_file depth dir = Inr (map (\<lambda>(rid, a, r). listed_dict a r) (listed ar)) \<and>
    has_active_run_file depth dir = Inr (has_active_run (tables_of ar))"
proof (intro conjI)
  have k: "on_disk ar dir" using kept_ops[OF kept_empty] assms(3,4) by simp
  have w: "wf_archive ar"
    using wf_archive_ops[of empty_archive ops] assms by (simp add: wf_archive_def empty_archive_def lines_of_def)
  show "tables_of ar = fold table_op ops (tables_of empty_archive)"
    unfolding assms(4) by (induction ops rule: rev_induct) (simp_all add: tables_archive_op)
  show "read_events_after_file depth rid after dir =
      Inr (map (JObject \<circ> event_to_dict) (store_read_events_after rid after (tables_of ar)))"
    using read_events_kept(1)[OF k w assms(2)]
    by (cases after) (simp_all add: read_events_after_file_def events_after_dicts store_read_events_after_def store_read_events_def tables_of_def)
  show "read_run_file depth rid dir =
      (case map_of (kept_runs ar) rid of None \<Rightarrow> Inl OSError | Some (a, r) \<Rightarrow> Inr (record_to_dict a r))"
    "read_logs_file depth rid dir = Inr (map (JObject \<circ> log_dict) (lines_of (kept_logs ar) rid))"
    "list_runs_file depth dir = Inr (map (\<lambda>(rid, a, r). listed_dict a r) (listed ar))"
    "has_active_run_file depth dir = Inr (has_active_run (tables_of ar))"
    by (rule read_run_kept[OF k w assms(2)] read_events_kept(2)[OF k w assms(2)] list_runs_kept[OF k w assms(2)]
        has_active_kept[OF k w assms(2)])+
qed

text \<open>The witness of C27: a queued run with one event, which is active.\<close>

theorem files_keep_runs_witness:
  "read_run_file 3 (lit ''run_7'') (fold file_op [SaveRun sample_attributes sample_stored, SaveEvent (lit ''run_7'') sample_event] []) =
     Inr (record_to_dict sample_attributes sample_stored) \<and>
   read_events_after_file 3 (lit ''run_7'') None (fold file_op [SaveRun sample_attributes sample_stored, SaveEvent (lit ''run_7'') sample_event] []) =
     Inr [JObject (event_to_dict sample_event)]"
proof -
  let ?ops = "[SaveRun sample_attributes sample_stored, SaveEvent (lit ''run_7'') sample_event]"
  have "lit ''run_7'' = build_run_id 7" by code_simp
  then have id: "attr_run_id sample_attributes \<in> range build_run_id" by (simp add: sample_attributes_def)
  have "round64 1 = Finite 1" "round64 0 = Finite 0" by code_simp+
  then have float: "float64 (Finite 1)" "float64 (Finite 0)" by (simp_all add: float64_def)
  have "wf_json (JObject (record_to_dict sample_attributes sample_stored))" "wf_json (JObject (event_to_dict sample_event))"
    by (simp_all add: float record_to_dict_def event_to_dict_def metadata_json_def named_def config_to_dict_def sample_attributes_def
        sample_stored_def sample_event_def queued_run_def or_null_def json_text_def lit_def)
  then have "list_all wf_op ?ops" using id by simp
  from files_keep_runs[OF this order_refl refl refl, of "lit ''run_7''" None] show ?thesis
    by (simp add: empty_archive_def sample_attributes_def store_read_events_after_def store_read_events_def tables_of_def lines_of_def)
qed

section \<open>A record that is being written\<close>

lemma each_fails: "x \<in> set xs \<Longrightarrow> f x = Inl e \<Longrightarrow> \<exists>e'. each f xs = Inl e'"
proof (induction xs)
  case (Cons y ys)
  then show ?case by (cases "f y") auto
qed simp

text \<open>
  Between the opening and the writing of a record its file is empty: whoever reads it then, or asks for the
  list of the runs or whether one is active, gets an exception that the handlers do not catch.
\<close>

theorem torn_record:
  assumes "rid \<in> range build_run_id"
  shows "read_run_file depth rid (open_run_file rid dir) = Inl ValueError \<and>
    (\<exists>e. has_active_run_file depth (open_run_file rid dir) = Inl e)"
proof -
  have empty: "json_loads depth [] = Inl ValueError" by (simp add: json_loads_def skip_space_def read_value.simps)
  have at: "map_of (open_run_file rid dir) (record_path rid) = Some []" by (simp add: open_run_file_def update_conv')
  have "record_path rid \<in> set (rev (sort (filter is_run_name (map fst (open_run_file rid dir)))))"
    using assms by (auto simp: open_run_file_def dom_update)
  from each_fails[OF this, of "\<lambda>n. rbind (case map_of (open_run_file rid dir) n of None \<Rightarrow> Inl OSError | Some t \<Rightarrow> json_loads depth t) (\<lambda>v.
      rbind (as_object v) run_list_item)" ValueError]
  obtain e where "list_runs_file depth (open_run_file rid dir) = Inl e" unfolding list_runs_file_def by (auto simp: at empty)
  then show ?thesis by (simp add: has_active_run_file_def read_run_file_def at empty)
qed

end
