(* ===== verification/BenchHttp.thy ===== *)
theory BenchHttp
  imports RunFiles Benchmarking
begin

text \<open>
  The answers of the benchmark interface as they are sent (\<open>BenchmarkRequestHandler\<close> in \<open>app/api/server.py\<close>):
  status, headers and the bytes of the body, and the static files (\<open>_serve_static\<close>).

  The headers are those the handler sets; \<open>send_response\<close> of the standard library puts \<open>Server\<close> and \<open>Date\<close> in
  front of them. The times and commits of a run and the times of its log lines, which \<open>BenchApi\<close> does not
  follow, are arguments, and so are \<open>str\<close> of a value and \<open>guess_type\<close>. Paths are resolved without symbolic
  links. The texts of the scenarios are in Korean; they are written as code points.

  Main results: every answer can be sent, its length is announced, and a client that reads the body has the
  dictionary of the answer; a static file that is sent lies inside the directory of the static files.
\<close>

section \<open>Dictionaries of the answers\<close>

record scenario_text =
  shown_title :: pystr
  shown_subtitle :: pystr
  shown_description :: pystr
  shown_tags :: "pystr list"

definition SCENARIO_TEXTS :: "(pystr, scenario_text) dict" where
  "SCENARIO_TEXTS =
     [(lit ''detail_page'',
       \<lparr>shown_title = [49345, 49464, 32, 54168, 51060, 51648],
        shown_subtitle = [44172, 49884, 44544, 32, 49345, 49464, 47484, 32, 48152, 48373, 32, 51312, 54924, 54616, 47728, 32, 68, 66,
          32, 51204, 50857, 44284, 32, 82, 101, 100, 105, 115, 32, 43, 32, 68, 66, 47484, 32, 48708, 44368, 54633,
          45768, 45796, 46],
        shown_description = [52880, 49884, 32, 104, 105, 116, 47, 109, 105, 115, 115, 32, 52264, 51060, 50752, 32, 84, 84, 76, 32,
          51312, 44148, 51012, 32, 44032, 51109, 32, 51649, 44288, 51201, 51004, 47196, 32, 49444, 47749, 54616,
          45716, 32, 44592, 48376, 32, 49884, 45208, 47532, 50724, 51077, 45768, 45796, 46],
        shown_tags = [[54588, 46300, 32, 54868, 47732], [44160, 49353, 32, 48512, 54616], [50908, 32, 52880, 49884, 32, 48708,
          44368]]\<rparr>),
      (lit ''search_autocomplete'',
       \<lparr>shown_title = [44160, 49353, 32, 51088, 46041, 50756, 49457],
        shown_subtitle = [51687, 51008, 32, 53412, 32, 48152, 48373, 32, 51312, 54924, 47484, 32, 53685, 54644, 32, 52880, 49884, 32,
          51201, 51473, 47456, 44284, 32, 51025, 45813, 32, 50504, 51221, 49457, 51012, 32, 48708, 44368, 54633,
          45768, 45796, 46],
        shown_description = [51687, 51008, 32, 50836, 52397, 51060, 32, 47566, 51060, 32, 46308, 50612, 50724, 45716, 32, 49345, 54889,
          50640, 49436, 32, 82, 101, 100, 105, 115, 32, 51201, 51473, 47456, 51060, 32, 51025, 45813, 32, 44844,
          47532, 47484, 32, 50620, 47560, 45208, 32, 51460, 51060, 45716, 51648, 32, 54869, 51064, 54633, 45768,
          45796, 46],
        shown_tags = [[44160, 49353, 32, 48512, 54616], [51687, 51008, 32, 51025, 45813], [54844, 54633, 32, 52880, 49884]]\<rparr>)]"

definition scenario_dict :: "demo_scenario \<Rightarrow> json_object" where
  "scenario_dict s =
     (let texts = map_of SCENARIO_TEXTS (demo_scenario_id s)
      in named
        [(''scenario_id'', JText (demo_scenario_id s)), (''title'', or_null (JText \<circ> shown_title) texts),
         (''subtitle'', or_null (JText \<circ> shown_subtitle) texts), (''description'', or_null (JText \<circ> shown_description) texts),
         (''tags'', or_null (JList \<circ> map JText \<circ> shown_tags) texts), (''default_iteration_count'', JInt (default_iteration_count s)),
         (''default_concurrency'', JInt (default_concurrency s)), (''default_ttl_seconds'', JInt (default_ttl_seconds s)),
         (''default_hit_rate_buckets'', JList (map JInt (default_hit_rate_buckets s))),
         (''supported_cache_modes'', JList (map JText (supported_cache_modes s))),
         (''supported_data_scales'', JList (map JText (supported_data_scales s)))])"

definition labelled_choice :: "string \<Rightarrow> pystr \<Rightarrow> (string \<times> json) list \<Rightarrow> json" where
  "labelled_choice i text extra = JObject (named ([(''id'', JText (lit i)), (''label'', JText text)] @ extra))"

definition default_demo_config :: json_object where
  "default_demo_config = named
     [(''data_scales'', JList
        [labelled_choice ''small'' [49, 52380, 32, 44148] [(''iteration_count'', JInt 10)],
         labelled_choice ''medium'' [49, 47564, 32, 44148] [(''iteration_count'', JInt 100)],
         labelled_choice ''large'' [49, 48, 47564, 32, 44148] [(''iteration_count'', JInt 1000)]]),
      (''cache_modes'', JList
        [labelled_choice ''cold'' [53084, 46300, 32, 52880, 49884] [],
         labelled_choice ''warm'' [50908, 32, 52880, 49884] [],
         labelled_choice ''mixed'' [54844, 54633, 32, 52880, 49884] []]),
      (''key_patterns'', JList
        [labelled_choice ''same_key'' [46041, 51068, 32, 53412] [],
         labelled_choice ''random_key'' [47004, 45924, 32, 53412] []])]"

record answer_context =
  attributes_of :: "pystr \<Rightarrow> run_attributes"
  log_times :: "pystr \<Rightarrow> pyfloat list"

definition run_item_dict :: "answer_context \<Rightarrow> run_item \<Rightarrow> json_object" where
  "run_item_dict ctx x =
     (let a = attributes_of ctx (listed_id x)
      in named
        [(''run_id'', JText (listed_id x)), (''status'', JText (listed_status x)), (''scenario'', JText (listed_scenario x)),
         (''created_at'', JText (attr_created_at a)), (''updated_at'', JText (attr_updated_at a))])"

fun payload_dict :: "(json \<Rightarrow> pystr) \<Rightarrow> answer_context \<Rightarrow> payload \<Rightarrow> py_exc + json_object" where
  "payload_dict sj ctx (ErrorMessage m) = Inr (named [(''error'', JText m)])"
| "payload_dict sj ctx (Health st host port err) =
     Inr (named ([(''status'', JText (lit st)), (''host'', JText host), (''port'', JInt port)] @
       (case err of None \<Rightarrow> [] | Some e \<Rightarrow> [(''error'', JText e)])))"
| "payload_dict sj ctx (RunCreated rid r) =
     Inr (named [(''run_id'', JText rid), (''status'', JText (run_status r)), (''scenario'', JText (scenario (run_configuration r))),
       (''created_at'', JText (attr_created_at (attributes_of ctx rid)))])"
| "payload_dict sj ctx (RunDetail rid r logs) =
     serialize_run_detail sj (record_to_dict (attributes_of ctx rid) r) (map log_dict (zip (log_times ctx rid) logs))"
| "payload_dict sj ctx (Stopping rid m) =
     Inr (named [(''run_id'', JText rid), (''status'', JText (lit ''cancelling'')), (''message'', JText (lit m))])"
| "payload_dict sj ctx (Seeded n collection) =
     Inr (named [(''status'', JText (lit ''ok'')), (''action'', JText (lit ''seed-data'')), (''inserted'', JInt n),
       (''collection'', JText collection)])"
| "payload_dict sj ctx (Cleared st n removed err) =
     Inr (named [(''status'', JText (lit st)), (''action'', JText (lit ''clear-redis'')), (''candidate_key_count'', JInt (int n)),
       (''removed'', JInt removed), (''error'', or_null JText err)])"
| "payload_dict sj ctx (Events rid es) = serialize_events_response sj rid (map event_to_dict es)"
| "payload_dict sj ctx (Requests rid ts) = serialize_requests_response sj rid (map timeline_dict ts)"
| "payload_dict sj ctx (Presentation rid p) = serialize_presentation_response sj (presentation_dict rid p)"
| "payload_dict sj ctx (Runs items) = Inr (named [(''runs'', JList (map (JObject \<circ> run_item_dict ctx) items))])"
| "payload_dict sj ctx (Scenarios ss) = Inr (named [(''scenarios'', JList (map (JObject \<circ> scenario_dict) ss))])"
| "payload_dict sj ctx (Scenario s) = Inr (scenario_dict s)"
| "payload_dict sj ctx DemoConfig = Inr default_demo_config"

section \<open>Responses\<close>

record http_response =
  http_status :: nat
  http_headers :: "(string \<times> pystr) list"
  http_body :: bytes

definition common_headers :: "(string \<times> pystr) list" where
  "common_headers =
     [(''Access-Control-Allow-Origin'', lit ''*''), (''Access-Control-Allow-Methods'', lit ''GET, POST, OPTIONS''),
      (''Access-Control-Allow-Headers'', lit ''Content-Type'')]"

definition write_json :: "json_object \<Rightarrow> nat \<Rightarrow> http_response" where
  "write_json payload st =
     (let body = encode_utf8 (dumps (JObject payload))
      in \<lparr>http_status = st,
          http_headers = common_headers @ [(''Content-Type'', lit ''application/json; charset=utf-8''),
            (''Content-Length'', show_nat (length body))],
          http_body = body\<rparr>)"

definition do_OPTIONS :: http_response where
  "do_OPTIONS = \<lparr>http_status = 204, http_headers = common_headers @ [(''Content-Length'', lit ''0'')], http_body = []\<rparr>"

definition write_static :: "pystr option \<Rightarrow> bytes \<Rightarrow> http_response" where
  "write_static guessed body =
     (let content_type = (case guessed of None \<Rightarrow> lit ''application/octet-stream'' | Some t \<Rightarrow> t)
      in \<lparr>http_status = 200,
          http_headers = common_headers @
            [(''Content-Type'',
              if starts_with ''text/'' content_type \<or> content_type = lit ''application/javascript''
              then content_type @ lit ''; charset=utf-8'' else content_type),
             (''Content-Length'', show_nat (length body))],
          http_body = body\<rparr>)"

section \<open>Static files\<close>

text \<open>A path is the list of its names. \<open>..\<close> of the root is the root, an absolute text starts there.\<close>

fun follow_names :: "pystr list \<Rightarrow> pystr list \<Rightarrow> pystr list" where
  "follow_names p [] = p"
| "follow_names p (n # ns) =
     follow_names (if n = [] \<or> n = lit ''.'' then p else if n = lit ''..'' then butlast p else p @ [n]) ns"

definition resolve :: "pystr list \<Rightarrow> pystr \<Rightarrow> pystr list" where
  "resolve base relative_path =
     follow_names (if starts_with ''/'' relative_path then [] else base) (split_on 47 relative_path)"

definition parents :: "'a list \<Rightarrow> 'a list list" where
  "parents p = map (\<lambda>n. take n p) (rev [0..<length p])"

text \<open>\<open>disk\<close> has the regular files.\<close>

definition static_lookup :: "pystr list \<Rightarrow> (pystr list \<Rightarrow> bytes option) \<Rightarrow> pystr \<Rightarrow> static_result" where
  "static_lookup base disk relative_path =
     (let candidate = resolve base relative_path
      in if base \<notin> set (parents candidate) \<and> candidate \<noteq> base then Outside
         else if disk candidate = None then Missing else Served)"

text \<open>What is sent for a reply, \<open>None\<close> when nothing is.\<close>

fun send_reply ::
  "(json \<Rightarrow> pystr) \<Rightarrow> answer_context \<Rightarrow> pystr list \<Rightarrow> (pystr list \<Rightarrow> bytes option) \<Rightarrow> (pystr list \<Rightarrow> pystr option) \<Rightarrow> reply \<Rightarrow>
    http_response option" where
  "send_reply sj ctx base disk guess (Reply st p) =
     (case payload_dict sj ctx p of Inl e \<Rightarrow> None | Inr d \<Rightarrow> Some (write_json d st))"
| "send_reply sj ctx base disk guess (StaticFile rel) =
     map_option (write_static (guess (resolve base rel))) (disk (resolve base rel))"
| "send_reply sj ctx base disk guess Unanswered = None"

section \<open>The body is read back\<close>

lemma items_depth_map: "(\<And>x. x \<in> set xs \<Longrightarrow> json_depth (f x) \<le> n) \<Longrightarrow> items_depth (map f xs) \<le> n"
  by (induction xs) auto

lemma members_depth_map: "\<forall>m \<in> set ms. json_depth (snd m) \<le> n \<Longrightarrow> members_depth ms \<le> n"
  by (induction ms) auto

lemma members_depth_append [simp]: "members_depth (xs @ ys) = max (members_depth xs) (members_depth ys)"
  by (induction xs) auto

lemma text_depth [simp]: "items_depth (map JText ts) = 0"
  by (induction ts) simp_all

text \<open>How deep the dictionaries of the parts are.\<close>

lemma part_depth:
  "members_depth (event_to_dict e) \<le> 1" "members_depth (log_dict l) \<le> 1" "members_depth (config_to_dict c) \<le> 1"
  "members_depth (kpis_dict k) = 0" "members_depth (lane_dict x) = 0" "members_depth (scenario_dict s) \<le> 1"
  "members_depth (run_item_dict ctx y) = 0"
  by (auto simp: event_to_dict_def log_dict_def config_to_dict_def kpis_dict_def lane_dict_def scenario_dict_def run_item_dict_def
      named_def metadata_json_def Let_def or_null_def split: prod.splits option.splits)

lemma record_members_depth: "members_depth (record_to_dict a r) \<le> 2"
  using record_depth[of a r] by simp

lemma timeline_depth: "members_depth (timeline_dict t) \<le> 3"
proof -
  have "items_depth (map (JObject \<circ> event_to_dict) es) \<le> 2" for es
    by (rule items_depth_map) (use part_depth(1) in simp)
  moreover have "members_depth (map (\<lambda>(stage, x). (stage, JFloat x)) d) \<le> 0" for d by (rule members_depth_map) auto
  ultimately show ?thesis by (simp add: timeline_dict_def named_def)
qed

lemma series_depth:
  assumes "\<And>v. json_depth (f v) = 0"
  shows "json_depth (series_dict f ys) \<le> 2"
proof -
  have "items_depth (map (\<lambda>(l, v). JObject (named [(''label'', JText l), (''value'', f v)])) ys) \<le> 1"
    by (rule items_depth_map) (auto simp: named_def assms)
  then show ?thesis by (simp add: series_dict_def)
qed

lemma presentation_depth: "members_depth (presentation_dict rid p) \<le> 3"
proof -
  have "items_depth (map (JObject \<circ> lane_dict) (lane_summary p)) \<le> 1" by (rule items_depth_map) (simp add: part_depth(5))
  moreover have "json_depth (or_null (JObject \<circ> kpis_dict) (shown_kpis p)) \<le> 1"
    by (cases "shown_kpis p") (simp_all add: or_null_def part_depth(4))
  ultimately show ?thesis using part_depth(3)[of "shown_config p"] by (simp add: presentation_dict_def named_def series_depth)
qed

lemma payload_depth:
  assumes "prints_text sj" "payload_dict sj ctx p = Inr d"
  shows "json_depth (JObject d) \<le> 6"
proof (cases p)
  case (RunDetail rid r logs)
  have "items_depth (map (JObject \<circ> log_dict) (zip (log_times ctx rid) logs)) \<le> 2"
    by (rule items_depth_map) (use part_depth(2) in simp)
  then show ?thesis using RunDetail assms record_members_depth[of "attributes_of ctx rid" r]
    by (auto simp: answers_built[OF assms(1)] named_def intro: le_trans le_SucI)
next
  case (Events rid es)
  have "items_depth (map (JObject \<circ> event_to_dict) es) \<le> 2" by (rule items_depth_map) (use part_depth(1) in simp)
  then show ?thesis using Events assms by (auto simp: answers_built[OF assms(1)] named_def)
next
  case (Requests rid ts)
  have "items_depth (map (JObject \<circ> timeline_dict) ts) \<le> 4" by (rule items_depth_map) (use timeline_depth in simp)
  then show ?thesis using Requests assms by (auto simp: answers_built[OF assms(1)] named_def)
next
  case (Presentation rid pr)
  then show ?thesis using assms presentation_depth[of rid pr] by (simp add: presentation_round)
next
  case (Runs items)
  have "items_depth (map (JObject \<circ> run_item_dict ctx) items) \<le> 1" by (rule items_depth_map) (simp add: part_depth(7))
  then show ?thesis using Runs assms(2) by (auto simp: named_def)
next
  case (Scenarios ss)
  have "items_depth (map (JObject \<circ> scenario_dict) ss) \<le> 2" by (rule items_depth_map) (use part_depth(6) in simp)
  then show ?thesis using Scenarios assms(2) by (auto simp: named_def)
next
  case (Scenario s)
  then show ?thesis using assms(2) part_depth(6)[of s] by simp
next
  case (Cleared st n removed err)
  then show ?thesis using assms(2) by (auto simp: named_def)
qed (use assms(2) in \<open>auto simp: named_def default_demo_config_def labelled_choice_def split: option.splits\<close>)

lemma payload_built: "prints_text sj \<Longrightarrow> \<exists>d. payload_dict sj ctx p = Inr d"
  by (cases p) (simp_all add: answers_built presentation_round)

lemma dumps_ascii: "encode_utf8 (dumps v) = dumps v" "decode_utf8 (dumps v) = Some (dumps v)"
proof -
  have "ascii (dumps v)" using printable_dumps[of v] by (auto simp: printable_def ascii_def list_all_iff)
  then show "encode_utf8 (dumps v) = dumps v" "decode_utf8 (dumps v) = Some (dumps v)" by (simp_all add: encode_ascii decode_ascii)
qed

text \<open>
  C37. Round trip. Every answer of the benchmark interface can be sent: its dictionary can be built, the status
  is the one of the handler, the length announced is the length of the body, any page may read it, and a
  client that reads the body has the dictionary, floats to the last bit.
\<close>

theorem answers_on_the_wire:
  assumes "prints_text sj" "6 \<le> depth"
  shows "\<exists>d r. payload_dict sj ctx p = Inr d \<and> send_reply sj ctx base disk guess (Reply st p) = Some r \<and> http_status r = st \<and>
    map_of (http_headers r) ''Content-Length'' = Some (show_nat (length (http_body r))) \<and>
    map_of (http_headers r) ''Access-Control-Allow-Origin'' = Some (lit ''*'') \<and>
    (wf_json (JObject d) \<longrightarrow> map_option (json_loads depth) (decode_utf8 (http_body r)) = Some (Inr (JObject d)))"
proof -
  obtain d where d: "payload_dict sj ctx p = Inr d" using payload_built[OF assms(1)] by blast
  have "json_depth (JObject d) \<le> depth" using payload_depth[OF assms(1) d] assms(2) by (rule le_trans)
  then have "wf_json (JObject d) \<longrightarrow> json_loads depth (dumps (JObject d)) = Inr (JObject d)" using json_round_trip(1) by blast
  then show ?thesis using d by (simp add: write_json_def common_headers_def dumps_ascii Let_def del: wf_json.simps)
qed

text \<open>The witness of C37: an unknown run.\<close>

definition sample_context :: answer_context where
  "sample_context = \<lparr>attributes_of = \<lambda>_. sample_attributes, log_times = \<lambda>_. []\<rparr>"

theorem answers_on_the_wire_witness:
  "\<exists>r. send_reply plain_str sample_context [] (\<lambda>_. None) (\<lambda>_. None) (Reply 404 (ErrorMessage (lit ''run not found''))) = Some r \<and>
     http_status r = 404 \<and>
     map_option (json_loads 6) (decode_utf8 (http_body r)) = Some (Inr (JObject (named [(''error'', JText (lit ''run not found''))])))"
proof -
  have sj: "prints_text plain_str" by (simp add: prints_text_def plain_str_def)
  have "wf_json (JObject (named [(''error'', JText (lit ''run not found''))]))" by (simp add: named_def json_text_def lit_def)
  with answers_on_the_wire[OF sj order_refl, of sample_context "ErrorMessage (lit ''run not found'')" "[]" "\<lambda>_. None" "\<lambda>_. None" 404]
  show ?thesis by (simp del: wf_json.simps)
qed

section \<open>A run is requested\<close>

lemma config_text:
  assumes "json_text (scenario cfg)"
  shows "wf_json (JObject (config_to_dict cfg))" "json_depth (JObject (config_to_dict cfg)) \<le> 2"
proof -
  have "wf_items (map JInt ns)" for ns by (induction ns) simp_all
  then show "wf_json (JObject (config_to_dict cfg))" using assms by (simp add: config_to_dict_def json_text_def lit_def)
  show "json_depth (JObject (config_to_dict cfg)) \<le> 2" using part_depth(3)[of cfg] by simp
qed

lemma read_posted_config:
  assumes "json_text (scenario cfg)" "2 \<le> stack" "body = encode_utf8 (dumps (JObject (config_to_dict cfg)))"
  shows "read_json_body stack (Some (show_nat (length body))) body = Inr (config_to_dict cfg)"
proof -
  have "json_loads stack (dumps (JObject (config_to_dict cfg))) = Inr (JObject (config_to_dict cfg))"
    using json_round_trip(1) config_text[OF assms(1)] assms(2) le_trans by blast
  moreover have "body \<noteq> []" by (simp only: assms(3) dumps_ascii dumps_object not_False_eq_True)
  ultimately show ?thesis by (simp add: read_json_body_def int_setting_def assms(3) dumps_ascii Let_def)
qed

lemma run_id_text: "json_text (build_run_id n)"
  using show_nat_digits[of _ n] by (force simp: json_text_def build_run_id_def lit_def list_all_iff is_digit_def)

text \<open>
  C39. Round trip. A client that posts the dictionary of a valid configuration as JSON, while no run is active, starts a
  run with exactly this configuration, and reads from the answer the identifier of the run, its status and
  its scenario.
\<close>

theorem run_over_http:
  assumes "valid_config cfg" "json_text (scenario cfg)" "2 \<le> json_stack env" "prints_text (str_json env)"
    and "active_run_id (application s) = None" "\<not> has_active_run (files (application s))"
    and "body = encode_utf8 (dumps (JObject (config_to_dict cfg)))" "rid = build_run_id now_ms"
    and "json_text (attr_created_at (attributes_of ctx rid))" "1 \<le> depth"
  shows "\<exists>a r. do_POST env now_ms (lit ''/api/benchmark-runs'') (Some (show_nat (length body))) body s =
      (Reply 201 (RunCreated rid (queued_run cfg)), s\<lparr>application := a\<rparr>) \<and>
    active_run_id a = Some rid \<and> store_read_run rid (files a) = Some (queued_run cfg) \<and>
    send_reply (str_json env) ctx base disk guess (Reply 201 (RunCreated rid (queued_run cfg))) = Some r \<and>
    map_option (json_loads depth) (decode_utf8 (http_body r)) = Some (Inr (JObject (named
      [(''run_id'', JText rid), (''status'', JText (lit ''queued'')), (''scenario'', JText (scenario cfg)),
       (''created_at'', JText (attr_created_at (attributes_of ctx rid)))])))"
proof -
  let ?d = "named [(''run_id'', JText rid), (''status'', JText (lit ''queued'')), (''scenario'', JText (scenario cfg)),
       (''created_at'', JText (attr_created_at (attributes_of ctx rid)))]"
  have "build_run_config (str_json env) (config_to_dict cfg) = Inr cfg"
    using assms(4) by (intro build_run_config_dict[OF assms(1)]) (simp add: prints_text_def)
  then have post: "do_POST env now_ms (lit ''/api/benchmark-runs'') (Some (show_nat (length body))) body s =
      (Reply 201 (RunCreated rid (queued_run cfg)), s\<lparr>application := snd (create_run now_ms cfg (application s))\<rparr>)"
    using assms(5,6,8) read_posted_config[OF assms(2,3,7)] by (simp add: do_POST_def handle_create_run_def create_run_def Let_def)
  have started: "active_run_id (snd (create_run now_ms cfg (application s))) = Some rid"
    "store_read_run rid (files (snd (create_run now_ms cfg (application s)))) = Some (queued_run cfg)"
    using assms(5,6,8) by (simp_all add: create_run_def Let_def store_read_run_def store_append_log_def store_write_run_def update_conv')
  have "wf_json (JObject ?d)" using assms(2,8,9) run_id_text by (simp add: named_def) (simp add: lit_def json_text_def)
  then have "json_loads depth (dumps (JObject ?d)) = Inr (JObject ?d)" using assms(10) by (intro json_round_trip(1)) (simp_all add: named_def)
  then show ?thesis using post started
    by (intro exI[of _ "snd (create_run now_ms cfg (application s))"]) (simp add: write_json_def dumps_ascii Let_def queued_run_def)
qed

text \<open>The witness of C39: the configuration of the example, posted to an application without runs.\<close>

theorem run_over_http_witness:
  "let body = encode_utf8 (dumps (JObject (config_to_dict (run_configuration sample_stored))))
   in \<exists>a. do_POST sample_web 7 (lit ''/api/benchmark-runs'') (Some (show_nat (length body))) body \<lparr>application = app conc_init, outside = []\<rparr> =
     (Reply 201 (RunCreated (lit ''run_7'') sample_stored), \<lparr>application = a, outside = []\<rparr>)"
proof -
  let ?cfg = "run_configuration sample_stored"
  have "valid_config ?cfg" "json_text (scenario ?cfg)" "2 \<le> json_stack sample_web" "prints_text (str_json sample_web)"
    "active_run_id (app conc_init) = None" "\<not> has_active_run (files (app conc_init))" "build_run_id 7 = lit ''run_7''"
    "json_text (attr_created_at (attributes_of sample_context (lit ''run_7'')))"
    by (simp_all add: valid_config_def sample_stored_def queued_run_def json_text_def lit_def sample_web_def prints_text_def
        sample_context_def sample_attributes_def) code_simp+
  from run_over_http[OF this(1-4), of "\<lparr>application = app conc_init, outside = []\<rparr>" _ "lit ''run_7''" 7 sample_context 1] this
  show ?thesis by (auto simp: sample_stored_def queued_run_def)
qed

section \<open>Static files stay in their directory\<close>

lemma parents_iff: "q \<in> set (parents p) \<longleftrightarrow> (\<exists>rest. rest \<noteq> [] \<and> p = q @ rest)"
proof
  assume "q \<in> set (parents p)"
  then obtain n where "n < length p" "q = take n p" by (auto simp: parents_def)
  then show "\<exists>rest. rest \<noteq> [] \<and> p = q @ rest" by (intro exI[of _ "drop n p"]) simp
next
  assume "\<exists>rest. rest \<noteq> [] \<and> p = q @ rest"
  then show "q \<in> set (parents p)" by (auto simp: parents_def image_iff intro!: bexI[of _ "length q"])
qed

text \<open>
  Whatever path is asked for, a static file that is sent lies below the directory of the static files, and a path
  that leaves it is answered with 404.
\<close>

theorem static_inside:
  assumes "static env = static_lookup base disk" "disk base = None"
    and "try_serve_static_path env p s = (r, s')"
  shows "(\<exists>rel rest. r = StaticFile rel \<and> rest \<noteq> [] \<and> resolve base rel = base @ rest \<and> disk (base @ rest) \<noteq> None) \<or>
    r = Reply 404 (ErrorMessage (lit ''not found''))"
  using assms(3) assms(2)
  by (auto simp: try_serve_static_path_def serve_static_def refuse_def Let_def assms(1) static_lookup_def parents_iff split: if_splits)

end
