(* ===== verification/Operations.thy ===== *)
theory Operations
  imports Startup MongoBaseline
begin

text \<open>
  What is left around the programs: the commit a run is recorded with (\<open>read_git_head\<close> in
  \<open>app/benchmark/runner.py\<close>), the script that seeds the database (\<open>scripts/seed_mongodb.py\<close>), and how the server
  stops (\<open>_accept_timeout_seconds\<close> and \<open>_wait_for_active_connections\<close> in \<open>internal/server/server.py\<close>).

  The files under \<open>.git\<close> and the database are arguments; a wait is driven by what it observes, the number of
  active connections and the clock.

  Main results: the wait for the clients ends at the deadline and, for this server, at once; the first run of
  the script reports no document; a branch whose commit is in the packed references is recorded as a
  piece of its name.
\<close>

section \<open>The commit of a working copy\<close>

definition read_git_head :: "(pystr \<Rightarrow> pystr option) \<Rightarrow> py_exc + pystr option" where
  "read_git_head dot_git =
     (case dot_git (lit ''HEAD'') of
        None \<Rightarrow> Inr None
      | Some t \<Rightarrow>
          (let head = py_strip t; words = dropWhile (\<lambda>c. c \<noteq> 32) head
           in if starts_with ''ref:'' head
              then if words = [] then Inl IndexError
                   else (case dot_git (tl words) of
                           Some r \<Rightarrow> Inr (Some (take 12 (py_strip r)))
                         | None \<Rightarrow> Inr (Some (take 12 head)))
              else Inr (Some (take 12 head))))"

text \<open>A commit on its own, one behind a branch, and a branch without a file of its own.\<close>

theorem git_head_cases:
  assumes "py_strip commit = commit" "\<not> starts_with ''ref:'' commit" "py_strip (lit ''ref: '' @ branch) = lit ''ref: '' @ branch"
  shows "dot_git (lit ''HEAD'') = Some commit \<Longrightarrow> read_git_head dot_git = Inr (Some (take 12 commit))"
    "dot_git (lit ''HEAD'') = Some (lit ''ref: '' @ branch) \<Longrightarrow> dot_git branch = Some commit \<Longrightarrow>
      read_git_head dot_git = Inr (Some (take 12 commit))"
    "dot_git (lit ''HEAD'') = Some (lit ''ref: '' @ branch) \<Longrightarrow> dot_git branch = None \<Longrightarrow>
      read_git_head dot_git = Inr (Some (take 12 (lit ''ref: '' @ branch)))"
  using assms by (simp_all add: read_git_head_def starts_with_def lit_def)

text \<open>The branch \<open>main\<close> of a repository that was packed.\<close>

lemma packed_branch:
  "read_git_head [lit ''HEAD'' \<mapsto> lit ''ref: refs/heads/main'' @ [10]] = Inr (Some (lit ''ref: refs/he''))"
  by code_simp

section \<open>The script that seeds the database\<close>

text \<open>\<open>source\<close> gives the seed file for its path; the result is the line that is printed.\<close>

definition seed_mongodb_main ::
  "(pystr \<Rightarrow> pystr option) \<Rightarrow> nat \<Rightarrow> (json \<Rightarrow> pystr) \<Rightarrow> (pystr \<Rightarrow> pystr option) \<Rightarrow> 'd mongo_driver \<Rightarrow> (pystr \<Rightarrow> seed_source) \<Rightarrow>
    'd \<Rightarrow> (py_exc + pystr) \<times> 'd" where
  "seed_mongodb_main read_text stack sj env drv source d =
     (case settings_from_env read_text stack sj env of
        Inl e \<Rightarrow> (Inl e, d)
      | Inr s \<Rightarrow>
          (case baseline_seed drv (source (set_mongodb_seed_file s)) (baseline_init d) of
             (Inl e, st) \<Rightarrow> (Inl e, driver_state st)
           | (Inr inserted, st) \<Rightarrow>
               (Inr (lit ''mongodb seed completed: db='' @ set_mongodb_db_name s @ lit '' collection='' @ set_mongodb_collection s @
                     lit '' inserted='' @ show_nat inserted), driver_state st)))"

text \<open>The script fills an empty collection and prints that it inserted nothing.\<close>

theorem seed_script_reports_zero:
  assumes "settings_from_env read_text stack sj env = Inr s" "honest_driver drv contents"
    and "read_seed_documents (source (set_mongodb_seed_file s)) = Inr docs"
  shows "\<exists>d'. seed_mongodb_main read_text stack sj env drv source d =
      (Inr (lit ''mongodb seed completed: db='' @ set_mongodb_db_name s @ lit '' collection='' @ set_mongodb_collection s @
        lit '' inserted='' @ lit ''0''), d') \<and> contents d' = add_all docs (contents d)"
proof -
  have "show_nat 0 = lit ''0''" by code_simp
  then show ?thesis using first_seed_reports_zero[OF assms(2,3), of d] assms(1) by (auto simp: seed_mongodb_main_def)
qed

section \<open>Stopping the server\<close>

text \<open>\<open>max(0.1, min(1.0, float(seconds)))\<close>; \<open>float\<close> of an integer that is too large raises \<open>OverflowError\<close>.\<close>

definition accept_timeout_seconds :: "int \<Rightarrow> py_exc + pyfloat" where
  "accept_timeout_seconds seconds =
     (case of_int_float seconds of
        PosInf \<Rightarrow> Inl OverflowError
      | NegInf \<Rightarrow> Inl OverflowError
      | x \<Rightarrow> (let low = round64 (1 / 10); m = (if flt x (Finite 1) then x else Finite 1) in Inr (if flt low m then m else low)))"

text \<open>
  The loop: what it observes in each round, the number of active connections and, if there is one, the clock.
  The result is the number of naps of 10 milliseconds, \<open>None\<close> when it still waits at the end of the observations.
\<close>

fun wait_rounds :: "pyfloat \<Rightarrow> (nat \<times> pyfloat) list \<Rightarrow> nat option" where
  "wait_rounds deadline [] = None"
| "wait_rounds deadline ((active, now) # rest) =
     (if 0 < active \<and> flt now deadline then map_option Suc (wait_rounds deadline rest) else Some 0)"

definition wait_for_active_connections :: "pyfloat \<Rightarrow> int \<Rightarrow> (nat \<times> pyfloat) list \<Rightarrow> nat option" where
  "wait_for_active_connections start seconds rounds = wait_rounds (fadd start (of_int_float seconds)) rounds"

lemma wait_ends:
  assumes "i < length rounds" "fst (rounds ! i) = 0 \<or> \<not> flt (snd (rounds ! i)) deadline"
  shows "\<exists>n \<le> i. wait_rounds deadline rounds = Some n"
  using assms
proof (induction deadline rounds arbitrary: i rule: wait_rounds.induct)
  case (2 deadline active now rest)
  show ?case
  proof (cases "0 < active \<and> flt now deadline")
    case True
    then obtain j where j: "i = Suc j" using 2 by (cases i) auto
    then obtain n where "n \<le> j" "wait_rounds deadline rest = Some n" using 2 True by auto
    then show ?thesis using True j by auto
  qed auto
qed simp

text \<open>
  The wait for the clients ends at the first round without a client or after the deadline; and the server
  has none left when its loop ends, so that it does not wait.
\<close>

theorem server_stops:
  shows "i < length rounds \<Longrightarrow> fst (rounds ! i) = 0 \<or> \<not> flt (snd (rounds ! i)) (fadd start (of_int_float seconds)) \<Longrightarrow>
      \<exists>n \<le> i. wait_for_active_connections start seconds rounds = Some n"
    and "r = run cfg stack events (server_init cfg) \<Longrightarrow>
      wait_for_active_connections start seconds ((active_connections (server_metrics (snd r)), now) # rounds) = Some 0"
proof -
  show "i < length rounds \<Longrightarrow> fst (rounds ! i) = 0 \<or> \<not> flt (snd (rounds ! i)) (fadd start (of_int_float seconds)) \<Longrightarrow>
      \<exists>n \<le> i. wait_for_active_connections start seconds rounds = Some n"
    unfolding wait_for_active_connections_def by (rule wait_ends)
  assume r: "r = run cfg stack events (server_init cfg)"
  have "(\<lambda>_ n. n = 0) (server_service (snd r)) (active_connections (server_metrics (snd r)))"
    unfolding r run_def Let_def by (rule run_loop_inv) (simp_all add: server_init_def metrics_init_def serve_client_active)
  then show "wait_for_active_connections start seconds ((active_connections (server_metrics (snd r)), now) # rounds) = Some 0"
    by (simp add: wait_for_active_connections_def)
qed

text \<open>The timeout of \<open>accept\<close> is a tenth of a second or a second.\<close>

lemma accept_timeout_bounds:
  assumes "accept_timeout_seconds seconds = Inr t"
  shows "fle (round64 (1 / 10)) t \<and> fle t (Finite 1)"
proof -
  have "case round64 (1 / 10) of Finite a \<Rightarrow> 0 < a \<and> a < 1 | _ \<Rightarrow> False" by code_simp
  then obtain a where a: "round64 (1 / 10) = Finite a" "0 < a \<and> a < 1" by (auto split: pyfloat.splits)
  note timeout = assms[unfolded accept_timeout_seconds_def a(1)]
  have "fle (Finite a) t \<and> fle t (Finite 1)" if "of_int_float seconds = x" for x
    using timeout a(2) unfolding that by (cases x) (auto simp: Let_def flt_def fle_def split: if_splits)
  then show ?thesis unfolding a(1) by blast
qed

end
