(* ===== verification/Spec2Isabelle.thy ===== *)
theory Spec2Isabelle
  imports Prelude PyText PyFloat Resp Command Repository Expiration Eviction ServiceState
    CommandService KeyCommands ServiceProps Session Cli CliMain MongoRepo RedisClient Lanes
    Models Events Workloads Gateway Arena
    LaneServer ArenaApi EventStream PyMongo RedisPy BenchClient Benchmarking BenchServer MongoBaseline
    Contracts Startup RunFiles BenchHttp Operations
begin

text \<open>
  A verification library for \<open>mini-redis-test-app\<close>: a Redis-like server in Python with its command
  line client; the arena, which runs the same requests against a lane with a cache in front of a
  document store and a lane with the document store only, and compares them; and the benchmark, which
  measures a database alone and with the server as its cache.

  \<^bold>\<open>The program and its theories.\<close> Paths are under \<open>src/\<close>.

  \<^item> \<open>Prelude\<close>, \<open>PyText\<close>, \<open>PyFloat\<close>, \<open>FloatText\<close>, \<open>Json\<close>, \<open>JsonText\<close>: exceptions as values (\<open>py_exc + 'a\<close>), dictionaries as association
    lists in insertion order, Python's texts as lists of code points with UTF-8, \<open>int\<close>, \<open>str\<close>, \<open>upper\<close>,
    \<open>strip\<close>, 64-bit floats with rounding, infinities and NaN, their \<open>repr\<close> (the shortest digits that round to
    the float) with the proof that it is read back, and \<open>json.dumps\<close> and \<open>json.loads\<close> on text with the proof that
    a value is read back. CPython's limit of 4300 digits on
    \<open>int(text)\<close> is not modelled; a request has at most 4096 bytes, so no argument reaches it.
  \<^item> \<open>Resp\<close> (\<open>internal/protocol/resp\<close>): the request decoder and the reply encoder.
  \<^item> \<open>Command\<close> (\<open>internal/command\<close>, protocol and \<open>HELLO\<close> handlers): parser, validator, immediate replies.
  \<^item> \<open>Repository\<close>, \<open>Expiration\<close> (\<open>internal/repository\<close>, \<open>internal/expiration\<close>, \<open>internal/clock\<close>): the two
    dictionaries behind the interface \<open>keyed_store\<close>, times to live, the sweeper.
  \<^item> \<open>Eviction\<close>, \<open>ServiceState\<close>, \<open>CommandService\<close> (\<open>internal/service\<close>): the eviction loop for any store
    that keeps its laws, the state of the service (entries, access order, memory limit), and every
    command with the dispatcher \<open>execute\<close>.
  \<^item> \<open>KeyCommands\<close>, \<open>ServiceProps\<close>: commands on one key as an interface (\<open>key_command\<close>), the pure
    function each of them implements, and the invariants.
  \<^item> \<open>Session\<close> (\<open>internal/server\<close>, \<open>guard\<close>, \<open>observability\<close>, \<open>config\<close>, \<open>cmd/mini_redis_server\<close>):
    configuration, limits, metrics, the session handler, the accept loop, and the server as a step
    relation.
  \<^item> \<open>Cli\<close>, \<open>CliMain\<close> (\<open>cmd/mini_redis_cli\<close>): frames, the reader of replies, rendering, the prompt and
    the exit codes, and the client put together with the server.
  \<^item> \<open>MongoRepo\<close>, \<open>RedisClient\<close>, \<open>Lanes\<close> (\<open>internal/arena/mongo\<close>, \<open>internal/arena/lane\<close>): the in-memory
    document store and cache client, and the two lane adapters.
  \<^item> \<open>Events\<close>, \<open>Models\<close>, \<open>Gateway\<close>, \<open>Workloads\<close>, \<open>Arena\<close> (\<open>internal/arena/events\<close>, \<open>common\<close>, \<open>gateway\<close>,
    \<open>scenario\<close>): event bus and history, the records on the wire, the gateway over two lanes (interfaces
    \<open>lane\<close> and \<open>cached_lane\<close>, interpreted for the adapters), the plans of requests, and the runner.
  \<^item> \<open>LaneServer\<close>, \<open>ArenaApi\<close> (\<open>internal/arena/lane_a\<close>, \<open>lane_b\<close>, \<open>gateway/lane_client.py\<close>, \<open>api\<close>): the
    lanes as servers behind their HTTP clients (interpreted for the same interfaces), and the gateway's
    own interface. \<open>EventStream\<close> (\<open>api/events_api.py\<close>): the stream of events as a generator between the tasks of
    the gateway.
  \<^item> \<open>PyMongo\<close>, \<open>RedisPy\<close> (\<open>internal/arena/mongo\<close>, \<open>internal/arena/lane/redis_client.py\<close>): the document store
    on MongoDB and the cache client on the package \<open>redis\<close>, over arguments for the packages.
  \<^item> \<open>BenchClient\<close>, \<open>MongoBaseline\<close> (\<open>app/adapters\<close>): the client of the benchmark, which keeps its connection,
    and its database on MongoDB.
  \<^item> \<open>Ends\<close>, \<open>Benchmark\<close>, \<open>BenchProps\<close> (\<open>app/benchmark\<close>): a run with its phases, events, log and summary, and
    the rules (collection \<open>wp\<close>) by which its steps are followed.
  \<^item> \<open>Timeline\<close>, \<open>RunStore\<close>, \<open>BenchApi\<close> (\<open>app/api\<close>, \<open>app/storage\<close>): the timelines and the presentation
    computed from the events, the files of the runs, the application that starts and stops runs with its
    threads as a step relation \<open>app_step\<close>, and the HTTP interface with its settings. \<open>Contracts\<close>
    (\<open>app/api/contracts.py\<close>): the dictionaries of records and answers, and how they are read. \<open>RunFiles\<close>
    (\<open>app/storage/run_store.py\<close>): the store on the text of its files, which refines the tables of \<open>RunStore\<close>.
    \<open>BenchHttp\<close> (\<open>app/api/server.py\<close>, \<open>scenarios.py\<close>): the answers with headers and bytes, and the static files.
  \<^item> \<open>Startup\<close> (\<open>create_app\<close>, \<open>cmd\<close>, \<open>app/api/server.py\<close>): settings, the choice of backends, and addresses.
    \<open>Operations\<close>: the commit a run is recorded with, the script that seeds the database, and how the server stops.
  \<^item> \<open>HonestCache\<close>, \<open>BenchServer\<close>, \<open>Benchmarking\<close>: what a run measures on a cache that keeps its contract
    (interface \<open>honest_cache\<close>), the proof that client and server keep it, and the properties.

  \<^bold>\<open>How the code is modelled.\<close> State is passed explicitly: an operation is a function from arguments and
  state to a result or exception and the new state, and an exception keeps the changes made before it.
  The reading of the clock is an argument of every operation that reads it. Threads and tasks are
  sequences of atomic steps: a request, a sweep, a command of the gateway, a section under a lock or a write
  of a file; the step relations \<open>server_step\<close>, \<open>gateway_step\<close> and \<open>app_step\<close> take them in any order. Packages
  that are not part of the repository are arguments (records of functions), and what is documented about
  them is a named hypothesis (\<open>honest_arena\<close>, \<open>honest_driver\<close>, \<open>relays\<close>). Recursive readers (\<open>decode_value\<close>, \<open>read_response\<close>, \<open>json_loads\<close>) take
  the depth of the interpreter stack left to them and raise \<open>RecursionError\<close> without it; C13 shows that
  a stack deeper than the request is long is enough, and CPython's default of 1000 is not always.
  Loops over external events (\<open>handle\<close>, \<open>run_loop\<close>, \<open>run_repl\<close>, \<open>run_actions\<close>) recurse on the list of
  those events; the eviction loops terminate because each round removes a key.

  \<^bold>\<open>What is shown.\<close> The invariant of every reachable server state (C1, C15) and gateway state
  (C21); commands as pure functions on what a client sees (C2) and laws between them (C3, C4, C9, C10);
  what can raise and what a session survives (C5, C6, C13, C14); memory limits and the order of eviction
  (C7, C8); round trips between clients and server (C11, C12, C35) and the command line client as
  a program (C20); the cached lane as a refinement of the plain one, for one
  request, for sequences and for whole scenarios (C16, C17, C22); the arena over HTTP (C23, C24); the two
  repositories of the arena (C34) and its stream of events (C36). Of the benchmark: how a run ends and
  what it counts (C25, C26), that a run against the server measures the hit rate it was asked for (C28),
  that the presentation computed from the events agrees with the counters (C29), that its record, events
  and log are read back from the text of the files (C27), that a run can be requested as JSON (C39)
  and every answer is read by the client as it was meant (C37), that one run is active at a time and the
  next one can start (C30, C31), the request that clears the cache (C32) and refused requests (C33).
  C18, C19, C38, C40 state behaviour that differs from what the code means to do. Theorems without a number
  settle smaller questions: \<open>TTL\<close>, \<open>DBSIZE\<close>, the sweeper, the end of the accept loop, the memory of the lane's cache, resets, the mix of a read plan, events lost while a stream is opened, the
  percentile, the configuration as a round trip, seeding, a record that is read while it is written, static files
  that stay in their directory, a time to live that arrives to the last bit, the end of the server, and
  the addresses the programs take from one environment.

  \<^bold>\<open>Not modelled.\<close> Sockets, timeouts as durations, logging and measured times (a time is an argument where
  a result depends on it). What FastAPI, pydantic and \<open>http.server\<close> do is used as documented (status 422 for a
  payload that is refused, 500 for an exception nobody catches). \<open>str\<close> of a nested JSON value and
  the text of an exception are arguments. The command line of the client is taken as \<open>argparse\<close> returns it. The
  dashboard is not modelled.
\<close>

section \<open>The server\<close>

text \<open>
  C1. In every state the server can reach (connections, requests of any bytes, sweeps, in any order
  and at any readings of the clock) the service is well-formed, stored collections are non-empty and
  free of duplicate members, and the memory in use is within the configured limit.
\<close>

theorem reachable_invariant:
  assumes "reachable cfg w"
  shows "wf_service (snd w) \<and> sound_store (snd w) \<and> within_limit (snd w)"
  using reachable_good[OF assms] by (simp add: good_service_def)

text \<open>The hypothesis of C1 at the initial state of the default configuration.\<close>

theorem reachable_invariant_witness:
  "reachable default_config (session_context_init, server_service (server_init default_config)) \<and>
   within_limit (server_service (server_init default_config))"
  using reachable_invariant[OF reachable.start[of default_config]] reachable.start[of default_config] by simp

section \<open>Commands\<close>

text \<open>
  C2. Refinement. Every validated command on one key is the pure function \<open>key_spec\<close> on the entry a
  client sees under the key: the reply is the specified one, and the live view afterwards is the old
  one with that entry replaced. With a memory limit, keys may also have been evicted; nothing else
  changes. (Purging, the access order and the mutation in place are invisible.)
\<close>

theorem execute_refines_spec:
  assumes "wf_service s" "validate c = Inr ()" "key_spec (name c) (arguments c) = Some f"
    and "key = arguments c ! 0" "view = live now (repos s)"
    and "view' = live now (repos (snd (execute now c s)))"
  shows "fst (execute now c s) = fst (f (view key)) \<and>
     (\<forall>k. view' k = (view(key := snd (f (view key)))) k \<or> view' k = None) \<and>
     (max_memory_bytes s = None \<longrightarrow> view' = view(key := snd (f (view key))))"
  using refined_execute[OF assms(1) validated_args[OF assms(2)] assms(3), of now] assms(4-6)
  by (simp add: refined_def Let_def)

text \<open>The witness of C2: \<open>HSET k f v\<close> on an empty service creates the hash and replies 1.\<close>

theorem execute_refines_spec_witness:
  "fst (execute (Finite 0) (cmd ''HSET'' [lit ''k'', lit ''f'', lit ''v'']) (service_init ([], []) None)) =
     Inr (RespNumber 1) \<and>
   live (Finite 0) (repos (snd (execute (Finite 0) (cmd ''HSET'' [lit ''k'', lit ''f'', lit ''v''])
     (service_init ([], []) None)))) (lit ''k'') = Some (HashEntry [(lit ''f'', lit ''v'')])"
proof -
  let ?c = "cmd ''HSET'' [lit ''k'', lit ''f'', lit ''v'']" and ?s = "service_init ([], []) None"
  have v: "validate ?c = Inr ()" by code_simp
  have k: "key_spec (name ?c) (arguments ?c) = Some (spec_number (spec_hset (lit ''f'') (lit ''v'')))"
    by (simp add: key_spec_def)
  have l: "live (Finite 0) (repos ?s) (lit ''k'') = None" by code_simp
  have m: "max_memory_bytes ?s = None" by code_simp
  show ?thesis
    using execute_refines_spec[OF wf_service_init v k refl refl refl, of "Finite 0"] m l
    by (simp add: spec_number_def spec_hset_def on_type_def)
qed

text \<open>
  C3. A stored string is read back: after \<open>SET k v\<close>, if the entry fits the memory limit, \<open>GET k\<close> at
  any later reading of the clock replies \<open>v\<close>, whatever the key held before (an older value of another
  type, an expiration).
\<close>

theorem set_then_get:
  assumes "wf_service s"
    and "\<And>m. max_memory_bytes s = Some m \<Longrightarrow> int (estimate_entry_bytes k (StringEntry v)) \<le> m"
  shows "fst (execute later (cmd ''GET'' [k]) (snd (execute now (cmd ''SET'' [k, v]) s))) =
    Inr (RespBlobString v)"
  using assms by (rule set_get_reply)

text \<open>The witness of C3, with a limit of ten bytes.\<close>

theorem set_then_get_witness:
  "fst (execute (Finite 9) (cmd ''GET'' [lit ''k'']) (snd (execute (Finite 0) (cmd ''SET'' [lit ''k'', lit ''v''])
     (service_init ([], []) (Some 10))))) = Inr (RespBlobString (lit ''v''))"
proof (rule set_then_get[OF wf_service_init])
  fix m
  assume "max_memory_bytes (service_init ([], []) (Some 10)) = Some m"
  then have "m = 10" by (simp add: service_init_def normalize_max_memory_bytes_def)
  moreover have "int (estimate_entry_bytes (lit ''k'') (StringEntry (lit ''v''))) \<le> 10" by code_simp
  ultimately show "int (estimate_entry_bytes (lit ''k'') (StringEntry (lit ''v''))) \<le> m" by simp
qed

text \<open>
  C4. Expiration takes effect exactly at its time: after \<open>EXPIRE k sec\<close> on a live string, \<open>GET k\<close> at
  a later reading replies the string while the reading is before \<open>now + sec\<close> (in floating point), and
  null from then on.
\<close>

theorem expire_then_get:
  assumes "wf_service s" "live now (repos s) k = Some (StringEntry v)" "py_float sec = Some x"
  shows "fst (execute later (cmd ''GET'' [k]) (snd (execute now (cmd ''EXPIRE'' [k, sec]) s))) =
    Inr (if fle (fadd now x) later then RespNull else RespBlobString v)"
proof -
  have "entry_of s k = Some (StringEntry v)" using assms(2) by (simp add: live_def split: if_splits)
  then have "live later (repos (snd (run_expire now k sec s))) k =
      (if fle (fadd now x) later then None else Some (StringEntry v))"
    using assms(2) by (simp add: run_expire_state[OF assms(3)] live_def is_expired_def is_expired_at_def)
  then show ?thesis
    using get.reply[OF wf_run_expire[OF assms(1)], of later k now k sec] by (simp add: execute_simps)
qed

text \<open>The witness of C4: an expiration of 1.5 seconds, read after one second.\<close>

theorem expire_then_get_witness:
  "fst (execute (Finite 1) (cmd ''GET'' [lit ''k'']) (snd (execute (Finite 0) (cmd ''EXPIRE'' [lit ''k'', lit ''1.5''])
     (snd (execute (Finite 0) (cmd ''SET'' [lit ''k'', lit ''v'']) (service_init ([], []) None)))))) =
   Inr (RespBlobString (lit ''v''))"
proof -
  let ?s = "snd (execute (Finite 0) (cmd ''SET'' [lit ''k'', lit ''v'']) (service_init ([], []) None))"
  have "live (Finite 0) (repos ?s) (lit ''k'') = Some (StringEntry (lit ''v''))" by code_simp
  moreover have "py_float (lit ''1.5'') = Some (Finite (3 / 2))" by code_simp
  moreover have "\<not> fle (fadd (Finite 0) (Finite (3 / 2))) (Finite 1)" by code_simp
  ultimately show ?thesis
    using expire_then_get[OF wf_execute[OF wf_service_init], of "Finite 0" "Finite 0" _ None] by simp
qed

text \<open>
  C5. A validated command raises only command errors, which become error replies, with one exception:
  \<open>TTL\<close> on a key whose expiration is infinite or not a number.
\<close>

theorem execute_raises:
  assumes "wf_service s" "validate c = Inr ()" "fst (execute now c s) = Inl e"
  shows "is_command_error e \<or> name c = lit ''TTL'' \<and> endless now (arguments c ! 0) (repos s)"
  using clean_execute[OF assms(1) validated_args[OF assms(2)], of now] assms(3) by (auto simp: clean_def)

text \<open>The witness of C5: \<open>GET\<close> on a list is a command error.\<close>

theorem execute_raises_witness:
  "is_command_error (CommandValidationError ERR_WRONG_TYPE) \<or>
   name (cmd ''GET'' [lit ''k'']) = lit ''TTL'' \<and> endless (Finite 0) (lit ''k'')
     (repos (snd (execute (Finite 0) (cmd ''LPUSH'' [lit ''k'', lit ''v'']) (service_init ([], []) None))))"
proof -
  let ?s = "snd (execute (Finite 0) (cmd ''LPUSH'' [lit ''k'', lit ''v'']) (service_init ([], []) None))"
  have v: "validate (cmd ''GET'' [lit ''k'']) = Inr ()" by code_simp
  have e: "fst (execute (Finite 0) (cmd ''GET'' [lit ''k'']) ?s) = Inl (CommandValidationError ERR_WRONG_TYPE)"
    by code_simp
  show ?thesis
    using execute_raises[OF wf_execute[OF wf_service_init] v e] by simp
qed

text \<open>
  C6. The only exceptions that end a session: the nesting of a request exhausts the interpreter's
  stack, which needs a stack no deeper than the request is long, or a key has an expiration that is
  not a finite number. Every other failure is an error reply.
\<close>

theorem session_survives:
  assumes "wf_service s" "length data < stack" "\<And>key. \<not> endless now key (repos s)"
  shows "\<exists>response. fst (process_request stack now data (ctx, s)) = Inr response"
proof -
  obtain r w where "process_request stack now data (ctx, s) = (r, w)" by (metis surj_pair)
  then show ?thesis using process_request_raises[of s stack now data ctx _ w] assms by (cases r) auto
qed

text \<open>The witness of C6: a request that is no RESP at all.\<close>

theorem session_survives_witness:
  "\<exists>response. fst (process_request 1000 (Finite 0) (lit ''hello'')
     (session_context_init, service_init ([], []) None)) = Inr response"
proof (rule session_survives[OF wf_service_init])
  show "length (lit ''hello'') < 1000" by (simp add: lit_def)
  show "\<not> endless (Finite 0) key (repos (service_init ([], []) None))" for key
    by (simp add: endless_def service_init_def repo_defs)
qed

section \<open>Memory\<close>

text \<open>
  C7. Eviction is by least recent use: a key the eviction loop drops was not accessed more recently
  than any unprotected key it keeps.
\<close>

theorem eviction_is_lru:
  assumes "wf_service s" "entry_of s dropped \<noteq> None" "entry_of (evict_loop protected m s) dropped = None"
    and "entry_of (evict_loop protected m s) kept \<noteq> None" "kept \<notin> set protected"
  shows "access_of s dropped < access_of s kept"
proof -
  have "access_of s dropped \<le> access_of s kept"
    using lru.loop_lru[OF wf_serviceD(3)[OF assms(1)], of dropped protected m kept] assms
    by (simp add: key_list_found)
  moreover have "entry_of s kept \<noteq> None"
    using evict_loop_shrinks[OF assms(1), of protected m] assms(4) shrinks_entry by fastforce
  then have "access_of s dropped \<noteq> access_of s kept"
    using access_times_differ[OF assms(1,2), of kept] assms(3,4) by metis
  ultimately show ?thesis by simp
qed

text \<open>The witness of C7: two keys of two bytes, the first one older, and room for one of them.\<close>

theorem eviction_is_lru_witness:
  "access_of (snd (execute (Finite 0) (cmd ''SET'' [lit ''b'', lit ''2''])
     (snd (execute (Finite 0) (cmd ''SET'' [lit ''a'', lit ''1'']) (service_init ([], []) None))))) (lit ''a'') <
   access_of (snd (execute (Finite 0) (cmd ''SET'' [lit ''b'', lit ''2''])
     (snd (execute (Finite 0) (cmd ''SET'' [lit ''a'', lit ''1'']) (service_init ([], []) None))))) (lit ''b'')"
  (is "access_of ?s ?a < access_of ?s ?b")
proof (rule eviction_is_lru[where protected = "[]" and m = 2])
  show "wf_service ?s" by (intro wf_execute wf_service_init)
  show "entry_of ?s ?a \<noteq> None" by code_simp
  show "entry_of (evict_loop [] 2 ?s) ?a = None" by code_simp
  show "entry_of (evict_loop [] 2 ?s) ?b \<noteq> None" by code_simp
qed simp

text \<open>
  C8. \<open>CONFIG SET maxmemory n\<close> takes effect at once: afterwards \<open>n\<close> is the limit (none when it is not
  positive), the memory in use is within it, and a key that is left has the entry it had.
\<close>

theorem config_set_maxmemory:
  assumes "wf_service s" "r = execute now (cmd ''CONFIG'' [lit ''SET'', lit ''maxmemory'', show_int n]) s"
  shows "fst r = Inr (RespSimpleString RESP_OK) \<and>
    max_memory_bytes (snd r) = (if n \<le> 0 then None else Some n) \<and>
    (0 < n \<longrightarrow> int (memory_use (snd r)) \<le> n) \<and>
    (\<forall>k. live now (repos (snd r)) k = live now (repos s) k \<or> live now (repos (snd r)) k = None)"
proof -
  let ?t = "s\<lparr>max_memory_bytes := if n \<le> 0 then None else Some n\<rparr>"
  have up: "py_upper (lit ''SET'') = lit ''SET''" "py_lower (lit ''maxmemory'') = lit ''maxmemory''" by code_simp+
  have wf: "wf_service ?t" using assms(1) by (simp add: wf_service_def wf_access_def)
  have r: "r = (Inr (RespSimpleString RESP_OK), ensure_max_memory now [] ?t)"
    using assms(2) by (simp add: execute_def execute_config_def up int_arg_def arg_def normalize_max_memory_bytes_def Let_def)
  have "0 < n \<longrightarrow> int (memory_use (ensure_max_memory now [] ?t)) \<le> n"
    using ensure_max_memory_limit[OF wf, of n now "[]"] by simp
  then show ?thesis using view_ensure(1)[OF wf, of now "[]"] wf by (simp add: r)
qed

text \<open>The witness of C8: a limit of one byte evicts an entry of two.\<close>

theorem config_set_maxmemory_witness:
  "int (memory_use (snd (execute (Finite 0) (cmd ''CONFIG'' [lit ''SET'', lit ''maxmemory'', show_int 1])
     (snd (execute (Finite 0) (cmd ''SET'' [lit ''k'', lit ''v'']) (service_init ([], []) None)))))) \<le> 1"
  using config_set_maxmemory[OF wf_execute[OF wf_service_init] refl, of "Finite 0" 1 "Finite 0" _ None] by simp

section \<open>Collections\<close>

text \<open>
  C9. The slice of \<open>LRANGE\<close> and \<open>ZRANGE\<close> is the elements whose position lies between the two bounds,
  inclusive, a negative bound counting from the end; for all bounds, inside the list or not.
\<close>

theorem slice_sequence_positions:
  "slice_sequence vs a b =
     map ((!) vs) (filter (\<lambda>i. from_end (length vs) a \<le> int i \<and> int i \<le> from_end (length vs) b)
       [0..<length vs])"
proof (cases "from_end (length vs) b < 0")
  case True
  then show ?thesis by (auto simp: slice_sequence_def from_end_def Let_def filter_empty_conv split: if_splits)
next
  case False
  let ?a = "nat (from_end (length vs) a)" and ?b = "nat (from_end (length vs) b)"
  have "filter (\<lambda>i. from_end (length vs) a \<le> int i \<and> int i \<le> from_end (length vs) b) [0..<length vs] =
      filter (\<lambda>i. ?a \<le> i \<and> i \<le> ?b) [0..<length vs]"
    using False by (intro filter_cong) auto
  also have "map ((!) vs) \<dots> = take (Suc ?b - ?a) (drop ?a vs)"
    by (simp add: filter_upt_range take_drop_nth)
  also have "\<dots> = slice_sequence vs a b"
    using False by (auto simp: slice_sequence_def from_end_def Let_def nat_le_iff Suc_nat_eq_nat_zadd1
        not_less min_def add.commute split: if_splits intro!: take_all[symmetric] drop_all[symmetric])
  finally show ?thesis by simp
qed

text \<open>
  C10. \<open>ZRANGE k 0 -1\<close> lists every member of a sorted set once, ordered by score and, for equal
  scores, by name, when no score is NaN.
\<close>

theorem zrange_sorted:
  assumes "wf_service s" "live now (repos s) k = Some (ZsetEntry z)" "nan_free z"
  shows "\<exists>items. fst (execute now (cmd ''ZRANGE'' [k, lit ''0'', lit ''-1'']) s) =
      Inr (RespArray (map (RespBlobString \<circ> fst) items)) \<and>
    mset items = mset z \<and> sorted_wrt (\<lambda>a b. \<not> item_less b a) items"
proof -
  let ?items = "sort_items z"
  have bounds: "py_int (lit ''0'') = Some 0" "py_int (lit ''-1'') = Some (-1)" by code_simp+
  have "execute now (cmd ''ZRANGE'' [k, lit ''0'', lit ''-1'']) s = execute_zrange now k 0 (-1) s"
    by (simp add: execute_def with_range_def int_arg_def bounds arg_def)
  moreover have "slice_sequence vs 0 (-1) = vs" for vs :: "pystr list"
    by (cases vs) (simp_all add: slice_sequence_def Let_def)
  ultimately have "fst (execute now (cmd ''ZRANGE'' [k, lit ''0'', lit ''-1'']) s) =
      Inr (RespArray (map (RespBlobString \<circ> fst) ?items))"
    using assms(2) zrange.reply[OF assms(1), of now k 0 "-1"] by (simp add: spec_zrange_def on_type_def)
  then show ?thesis using sort_items_props[OF assms(3)] by blast
qed

text \<open>The witness of C10: three members, two of them with the same score.\<close>

theorem zrange_sorted_witness:
  "\<exists>items. mset items = mset [(lit ''b'', Finite 1), (lit ''a'', Finite 1), (lit ''c'', Finite 0)] \<and>
     sorted_wrt (\<lambda>a b. \<not> item_less b a) items"
proof -
  let ?s = "snd (execute (Finite 0) (cmd ''ZADD'' [lit ''z'', lit ''1'', lit ''b'', lit ''1'', lit ''a'', lit ''0'', lit ''c''])
    (service_init ([], []) None))"
  let ?z = "[(lit ''b'', Finite 1), (lit ''a'', Finite 1), (lit ''c'', Finite 0)]"
  have wf: "wf_service ?s" by (intro wf_execute wf_service_init)
  have "live (Finite 0) (repos ?s) (lit ''z'') = Some (ZsetEntry ?z)" by code_simp
  then show ?thesis using zrange_sorted[OF wf] by (fastforce simp: nan_free_def)
qed

text \<open>
  \<open>SADD\<close> then \<open>SMEMBERS\<close>: on a key that holds no entry, the reply of \<open>SADD\<close> counts the distinct
  members and \<open>SMEMBERS\<close>, at any later reading, lists each of them once in ascending order.
\<close>

theorem sadd_then_smembers:
  assumes "wf_service s" "max_memory_bytes s = None" "get_expiration (snd (repos s)) k = None"
    and "entry_of s k = None" "r = execute now (cmd ''SADD'' (k # ms)) s"
  shows "fst r = Inr (RespNumber (int (card (set ms)))) \<and>
    fst (execute later (cmd ''SMEMBERS'' [k]) (snd r)) =
      Inr (RespArray (map RespBlobString (sorted_list_of_set (set ms))))"
proof -
  let ?l = "snd (add_members ms 0 [])"
  have l: "distinct ?l" "set ?l = set ms" "fst (add_members ms 0 []) = int (length ?l)"
    using add_members_props[of "[]" ms 0 "fst (add_members ms 0 [])" ?l] by simp_all
  then have len: "length ?l = card (set ms)" using distinct_card by metis
  have view: "live now (repos s) k = None" using assms(3,4) by (simp add: live_no_expiration)
  have r: "r = limited_reply now k (execute_sadd now k ms s)" using assms(5) by (simp add: execute_simps)
  note after = write_then_live[OF sadd.key_command_axioms[of now k ms] assms(1-3), folded r]
  have "fst r = Inr (RespNumber (int (card (set ms))))"
    using sadd.reply[OF assms(1), of now k ms] l len view
    by (simp add: r reply_fst spec_sadd_def on_type_def Let_def case_prod_unfold)
  moreover have "live later (repos (snd r)) k = Some (SetEntry ?l)"
    using after(1) view by (simp add: spec_sadd_def on_type_def Let_def case_prod_unfold)
  moreover have "sort ?l = sorted_list_of_set (set ms)"
    using l by (metis sorted_list_of_set_sort_remdups distinct_remdups_id)
  ultimately show ?thesis
    using smembers.reply[OF after(2), of later k] by (simp add: execute_simps spec_smembers_def on_type_def)
qed

text \<open>The witness of the theorem above: a member given twice.\<close>

theorem sadd_then_smembers_witness:
  "fst (execute (Finite 7) (cmd ''SMEMBERS'' [lit ''k''])
     (snd (execute (Finite 0) (cmd ''SADD'' [lit ''k'', lit ''b'', lit ''a'', lit ''b'']) (service_init ([], []) None)))) =
   Inr (RespArray (map RespBlobString (sorted_list_of_set {lit ''b'', lit ''a''})))"
proof -
  let ?s = "service_init ([], []) None"
  have s: "max_memory_bytes ?s = None" "get_expiration (snd (repos ?s)) (lit ''k'') = None"
    "entry_of ?s (lit ''k'') = None" by code_simp+
  show ?thesis using sadd_then_smembers[OF wf_service_init s refl, of "Finite 0" "[lit ''b'', lit ''a'', lit ''b'']"]
    by (simp add: insert_commute)
qed

text \<open>
  \<open>HSET\<close> then \<open>HGET\<close>: after a hash field is set, at any later reading \<open>HGET\<close> replies the new
  value for that field and the old one, if any, for every other field.
\<close>

theorem hset_then_hget:
  assumes "wf_service s" "max_memory_bytes s = None" "get_expiration (snd (repos s)) k = None"
    and "entry_of s k = Some (HashEntry h)"
  shows "fst (execute later (cmd ''HGET'' [k, g]) (snd (execute now (cmd ''HSET'' [k, f, v]) s))) =
    Inr (if g = f then RespBlobString v
         else case map_of h g of None \<Rightarrow> RespNull | Some w \<Rightarrow> RespBlobString w)"
proof -
  have view: "live now (repos s) k = Some (HashEntry h)" using assms(3,4) by (simp add: live_no_expiration)
  note after = write_then_live[OF hset.key_command_axioms[of now k f v] assms(1-3)]
  show ?thesis
    using hget.reply[OF after(2), of later k g] after(1)[of later] view
    by (simp add: execute_simps reply_fst spec_hset_def spec_hget_def on_type_def dict_simps)
qed

text \<open>A witness of it: the other field of a hash with one field.\<close>

theorem hset_then_hget_witness:
  "fst (execute (Finite 5) (cmd ''HGET'' [lit ''k'', lit ''g''])
     (snd (execute (Finite 0) (cmd ''HSET'' [lit ''k'', lit ''f'', lit ''v''])
       (snd (execute (Finite 0) (cmd ''HSET'' [lit ''k'', lit ''g'', lit ''w'']) (service_init ([], []) None)))))) =
   Inr (RespBlobString (lit ''w''))"
proof -
  let ?s = "snd (execute (Finite 0) (cmd ''HSET'' [lit ''k'', lit ''g'', lit ''w'']) (service_init ([], []) None))"
  have wf: "wf_service ?s" by (intro wf_execute wf_service_init)
  have s: "max_memory_bytes ?s = None" "get_expiration (snd (repos ?s)) (lit ''k'') = None"
    "entry_of ?s (lit ''k'') = Some (HashEntry [(lit ''g'', lit ''w'')])" by code_simp+
  show ?thesis using hset_then_hget[OF wf s, of "Finite 5" "lit ''g''" "Finite 0" "lit ''f''"] by simp
qed

text \<open>
  Lists are queues: what \<open>RPUSH\<close> appends behind the elements of a list is popped by \<open>LPOP\<close> after
  them and in order; \<open>LPOP\<close> replies the head and leaves the rest, and the list that becomes empty is
  no longer a key.
\<close>

theorem rpush_then_lpop:
  assumes "wf_service s" "max_memory_bytes s = None" "get_expiration (snd (repos s)) k = None"
    and "entry_of s k = (if l = [] then None else Some (ListEntry l))" "l @ vs = x # rest"
    and "p = execute later (cmd ''LPOP'' [k]) (snd (execute now (cmd ''RPUSH'' (k # vs)) s))"
  shows "fst p = Inr (RespBlobString x) \<and>
    entry_of (snd p) k = (if rest = [] then None else Some (ListEntry rest))"
proof -
  let ?t = "snd (execute now (cmd ''RPUSH'' (k # vs)) s)"
  have view: "live now (repos s) k = (if l = [] then None else Some (ListEntry l))"
    using assms(3,4) by (simp add: live_no_expiration)
  note after = write_then_live[OF rpush.key_command_axioms[of now k vs] assms(1-3)]
  have live: "live later (repos ?t) k = Some (ListEntry (x # rest))"
    using after(1)[of later] view assms(5) by (auto simp: execute_simps spec_push_def on_type_def)
  have wf: "wf_service ?t" using after(2) by (simp add: execute_simps)
  have p: "p = blob_reply (execute_lpop later k ?t)" using assms(6) by (simp add: execute_simps)
  show ?thesis
    using lpop.reply[OF wf, of later k] lpop.entry[OF wf, of later k k] live
    by (simp add: p reply_fst spec_lpop_def on_type_def unless_empty_def)
qed

text \<open>The witness of the theorem above: a push of two elements on a new key.\<close>

theorem rpush_then_lpop_witness:
  "fst (execute (Finite 1) (cmd ''LPOP'' [lit ''k''])
     (snd (execute (Finite 0) (cmd ''RPUSH'' [lit ''k'', lit ''a'', lit ''b'']) (service_init ([], []) None)))) =
   Inr (RespBlobString (lit ''a''))"
proof -
  let ?s = "service_init ([], []) None"
  have s: "max_memory_bytes ?s = None" "get_expiration (snd (repos ?s)) (lit ''k'') = None"
    "entry_of ?s (lit ''k'') = (if [] = ([] :: pystr list) then None else Some (ListEntry []))" by code_simp+
  have l: "[] @ [lit ''a'', lit ''b''] = lit ''a'' # [lit ''b'']" by simp
  show ?thesis using rpush_then_lpop[OF wf_service_init s l refl] by blast
qed

section \<open>Expiration\<close>

text \<open>
  The replies of \<open>TTL\<close>: -2 for a key a client cannot see, -1 for one without an expiration, and
  otherwise, for a finite remaining time, its number of seconds rounded up.
\<close>

theorem ttl_replies:
  assumes "wf_service s" "reply = fst (execute now (cmd ''TTL'' [k]) s)"
  shows "(live now (repos s) k = None \<longrightarrow> reply = Inr (RespNumber (-2))) \<and>
    (live now (repos s) k \<noteq> None \<longrightarrow> get_expiration (snd (repos s)) k = None \<longrightarrow> reply = Inr (RespNumber (-1))) \<and>
    (\<forall>x d. live now (repos s) k \<noteq> None \<longrightarrow> get_expiration (snd (repos s)) k = Some x \<longrightarrow>
       fsub x now = Finite d \<longrightarrow> reply = Inr (RespNumber (max 0 \<lceil>d\<rceil>)))"
proof -
  have "entry_of s k \<noteq> None" if "get_expiration (snd (repos s)) k \<noteq> None"
    using that assms(1) by (simp add: wf_service_def wf_keyspace_def)
  then show ?thesis
    using assms(2)
    by (auto simp: execute_simps run_ttl_def ttl_service_def purge_simps purge_if_expired_def live_def
        calculate_remaining_seconds_def remaining_seconds_at_def is_expired_def split: option.splits if_splits)
qed

text \<open>An example: one second before an expiration of 1.5 seconds.\<close>

theorem ttl_replies_witness:
  "fst (execute (Finite (1 / 2)) (cmd ''TTL'' [lit ''k''])
     (snd (execute (Finite 0) (cmd ''EXPIRE'' [lit ''k'', lit ''1.5''])
       (snd (execute (Finite 0) (cmd ''SET'' [lit ''k'', lit ''v'']) (service_init ([], []) None)))))) =
   Inr (RespNumber (max 0 \<lceil>1 :: rat\<rceil>))"
proof -
  let ?s = "snd (execute (Finite 0) (cmd ''EXPIRE'' [lit ''k'', lit ''1.5''])
       (snd (execute (Finite 0) (cmd ''SET'' [lit ''k'', lit ''v'']) (service_init ([], []) None))))"
  have wf: "wf_service ?s" by (intro wf_execute wf_service_init)
  have "live (Finite (1 / 2)) (repos ?s) (lit ''k'') \<noteq> None" by code_simp
  moreover have "get_expiration (snd (repos ?s)) (lit ''k'') = Some (Finite (3 / 2))" by code_simp
  moreover have "fsub (Finite (3 / 2)) (Finite (1 / 2)) = Finite 1" by code_simp
  ultimately show ?thesis using ttl_replies[OF wf refl, of "Finite (1 / 2)" "lit ''k''"] by blast
qed

text \<open>
  A sweep deletes exactly the expired keys of its batch, with their expirations, and returns
  their number; a client sees no difference; and a batch as large as the table of expirations leaves
  no expired key behind.
\<close>

theorem sweep_exact:
  assumes "wf_keyspace ks" "r = sweep_once now batch ks"
  shows "(\<forall>k. store_get (fst (snd r)) k = (if k \<in> set (sweep_batch now batch ks) then None else store_get (fst ks) k)) \<and>
    fst r = length (sweep_batch now batch ks) \<and>
    live now (snd r) = live now ks \<and> wf_keyspace (snd r) \<and>
    (int (length (snd ks)) \<le> batch \<longrightarrow> (\<forall>k. \<not> is_expired now k (snd r)))"
proof -
  have all: "take_slice batch (ttl_list_keys (snd ks)) = ttl_list_keys (snd ks)" if "int (length (snd ks)) \<le> batch"
    using that by (auto simp: take_slice_def repo_defs keys_of_def)
  have "\<not> is_expired now k (snd r)" if "int (length (snd ks)) \<le> batch" for k
    using is_expired_listed[of now k ks] all[OF that] assms
    by (auto simp: sweep_once_eq is_expired_fold_delete_key)
  then show ?thesis
    using assms live_sweep[OF assms(1), of now batch] wf_sweep_once[OF assms(1), of now batch]
    by (simp add: sweep_once_eq fold_delete_key_get)
qed

text \<open>An example: one expired key in a batch of a hundred.\<close>

theorem sweep_exact_witness:
  "fst (sweep_once (Finite 5) 100 ([(lit ''k'', StringEntry (lit ''v''))], [(lit ''k'', Finite 3)])) =
   length (sweep_batch (Finite 5) 100 ([(lit ''k'', StringEntry (lit ''v''))], [(lit ''k'', Finite 3)]))"
proof -
  let ?ks = "([(lit ''k'', StringEntry (lit ''v''))], [(lit ''k'', Finite 3)]) :: keyspace"
  have "wf_keyspace ?ks" by (simp add: wf_keyspace_def wf_dict_single repo_defs)
  from sweep_exact[OF this refl] show ?thesis by blast
qed

text \<open>
  \<open>DBSIZE\<close> replies the number of keys a client can see, and purges the others.
\<close>

theorem dbsize_counts_live_keys:
  assumes "wf_service s" "r = execute now (cmd ''DBSIZE'' []) s"
  shows "fst r = Inr (RespNumber (int (card (dom (live now (repos s)))))) \<and>
    entry_of (snd r) = live now (repos s)"
proof -
  let ?p = "purge_all_expired_keys now s"
  have "set (key_list ?p) = dom (live now (repos s))" by (auto simp: key_list_found purge_all_exact)
  moreover have "distinct (key_list ?p)"
    using assms(1) by (intro store.distinct_keys) (simp add: wf_serviceD(3))
  ultimately have "length (key_list ?p) = card (dom (live now (repos s)))" using distinct_card by metis
  then show ?thesis using assms(2) by (simp add: execute_simps execute_dbsize_def Let_def fun_eq_iff purge_all_exact)
qed

text \<open>An example: the empty database.\<close>

theorem dbsize_counts_live_keys_witness:
  "fst (execute (Finite 0) (cmd ''DBSIZE'' []) (service_init ([], []) None)) =
   Inr (RespNumber (int (card (dom (live (Finite 0) (repos (service_init ([], []) None)))))))"
  using dbsize_counts_live_keys[OF wf_service_init refl] by blast

text \<open>
  \<open>FLUSHDB\<close> leaves no key, no expiration and no memory in use, and resets the count of evictions.
\<close>

theorem flushdb_empties:
  assumes "wf_service s" "t = snd (execute now (cmd ''FLUSHDB'' []) s)"
  shows "key_list t = [] \<and> (\<forall>k. get_expiration (snd (repos t)) k = None) \<and> memory_use t = 0 \<and>
    evicted_keys t = 0 \<and> access_order t = []"
proof -
  have t: "t = execute_flushdb s" using assms(2) by (simp add: execute_simps)
  have "wf_service t" using t assms(1) by simp
  then have "get_expiration (snd (repos t)) k = None" for k
    using flushdb_entry[of s k] by (auto simp: t wf_service_def wf_keyspace_def)
  then show ?thesis by (simp add: t memory_use_def) (simp add: execute_flushdb_def Let_def)
qed

text \<open>A witness of it: a database with one key.\<close>

theorem flushdb_empties_witness:
  "key_list (snd (execute (Finite 0) (cmd ''FLUSHDB'' [])
     (snd (execute (Finite 0) (cmd ''SET'' [lit ''k'', lit ''v'']) (service_init ([], []) None))))) = []"
  using flushdb_empties[OF wf_execute[OF wf_service_init] refl] by blast

section \<open>Protocol\<close>

text \<open>
  C11. Round trip from the command line client to the parser: a command frame built from ASCII text
  decodes, with a stack of two calls or more, to the array of its words.
\<close>

theorem command_frame_roundtrip:
  assumes "ascii c" "list_all ascii args" "2 \<le> stack"
  shows "decode stack (build_command_frame c args) = Inr (RespArray (map RespBlobString (c # args)))"
proof -
  have "list_all item_ascii (Text c # map Text args)" using assms(1,2) by (simp add: list_all_iff)
  from decode_encode_array[OF this assms(3)] show ?thesis by (simp add: build_command_frame_def comp_def)
qed

text \<open>The witness of C11: \<open>GET k\<close>.\<close>

theorem command_frame_roundtrip_witness:
  "decode 2 (build_command_frame (lit ''GET'') [lit ''k'']) =
   Inr (RespArray (map RespBlobString [lit ''GET'', lit ''k'']))"
  by (rule command_frame_roundtrip) (simp_all add: lit_def)

text \<open>
  C12. Round trip from the server to the client: in either protocol version the client reads an encoded
  reply as the value that was sent, and leaves the bytes behind it unread. The reply has to be readable
  (no line break in a simple string or an error, string keys, no boolean) and the client's stack as deep
  as the reply is nested.
\<close>

theorem reply_roundtrip:
  assumes "readable v" "nesting v \<le> stack"
  shows "read_response repr stack (encode version v @ rest) = Inr (seen version v, rest)"
  using read_response_encode[OF assms] by simp

text \<open>The witness of C12: a map in version 3, followed by another reply.\<close>

theorem reply_roundtrip_witness:
  "read_response (\<lambda>_. []) 2 (encode 3 (RespMap [(RespBlobString (lit ''f''), RespBlobString (lit ''v''))]) @ lit ''+OK'') =
   Inr (Map [(lit ''f'', VText (lit ''v''))], lit ''+OK'')"
  using reply_roundtrip[of "RespMap [(RespBlobString (lit ''f''), RespBlobString (lit ''v''))]" 2 "\<lambda>_. []" 3 "lit ''+OK''"]
  by (simp add: lit_def scalar_def del: read_response.simps encode.simps)

text \<open>
  The decoder always advances and stays inside the text: a value it returns ends after the place it
  starts at and not behind the end of the text.
\<close>

theorem decoder_progress:
  assumes "decode_value stack data i = Inr (v, j)"
  shows "i < j \<and> j \<le> length data"
  using decode_progress(1)[OF assms] by simp

text \<open>A witness of it: a number of four characters.\<close>

theorem decoder_progress_witness: "0 < (4 :: nat) \<and> 4 \<le> length (lit '':5'' @ crlf)"
  by (rule decoder_progress[of 1 _ _ "RespNumber 5"]) code_simp

text \<open>
  C13. The decoder never fails with anything but a protocol error when the stack is deeper than the
  request is long; in particular the recursion on nested arrays is bounded by the request.
\<close>

theorem decoder_errors:
  assumes "decode stack data = Inl e" "length data < stack"
  shows "is_command_error e"
  using decode_raises[OF assms(1)] assms(2) by auto

text \<open>The witness of C13: an array header without its item.\<close>

theorem decoder_errors_witness: "is_command_error (CommandParseError ERR_PROTOCOL_ERROR)"
  by (rule decoder_errors[of 9 "lit ''*1'' @ crlf"]) (code_simp, simp add: lit_def crlf_def)

text \<open>
  C14. Validation and parsing report every problem as a command error, and a validated command has the
  arguments its branch of the dispatcher reads.
\<close>

theorem validation_is_clean:
  "clean (parse items) \<and> clean (validate c) \<and>
   (validate c = Inr () \<longrightarrow> argument_shape (name c) (arguments c))"
  using clean_parse clean_validate validated_args by blast

text \<open>The witness of C14: \<open>LRANGE\<close> with its two integers.\<close>

theorem validation_is_clean_witness:
  "argument_shape (lit ''LRANGE'') [lit ''k'', lit ''0'', lit ''-1'']"
proof -
  have "validate (cmd ''LRANGE'' [lit ''k'', lit ''0'', lit ''-1'']) = Inr ()" by code_simp
  then show ?thesis using validation_is_clean[of "[]" "cmd ''LRANGE'' [lit ''k'', lit ''0'', lit ''-1'']"] by simp
qed

section \<open>The accept loop\<close>

text \<open>
  C15. Through any run of the accept loop on a fresh server the number of active connections is back at
  zero whenever the loop looks, and the service keeps its invariant.
\<close>

theorem run_invariant:
  assumes "r = run cfg stack io (server_init cfg)"
  shows "active_connections (server_metrics (snd r)) = 0 \<and> good_service (server_service (snd r))"
proof -
  let ?P = "\<lambda>s n. good_service s \<and> n = 0"
  have step: "?P (server_service (serve_client limits stack io v))
      (active_connections (server_metrics (serve_client limits stack io v)))"
    if "?P (server_service v) (active_connections (server_metrics v))" for limits io v
    using that good_handle by (simp add: serve_client_active) (simp add: serve_client_def Let_def)
  have "?P (server_service (snd r)) (active_connections (server_metrics (snd r)))"
    unfolding assms run_def Let_def
    by (rule run_loop_inv[where P = ?P]) (use step in \<open>simp_all add: server_init_def metrics_init_def good_init\<close>)
  then show ?thesis by simp
qed

text \<open>The witness of C15: a run that times out once and is then interrupted.\<close>

theorem run_invariant_witness:
  "active_connections (server_metrics (snd (run default_config 9 [(False, AcceptTimeout), (False, AcceptInterrupt)]
     (server_init default_config)))) = 0"
  using run_invariant[OF refl] by blast

text \<open>
  After \<open>stop\<close> the loop ends: if the stop request arrives with the next event, whatever that event
  is, the loop returns without an exception unless it has to serve a client first, and then at the
  following turn; the sweeper is stopped and the socket closed.
\<close>

theorem stop_ends_run:
  "\<exists>v'. run_loop limits stack ((True, result) # rest) v = (Some (Inr ()), v') \<and>
     \<not> running (server_sweeper v') \<and> \<not> listening v'"
proof -
  have fin: "\<not> running (server_sweeper (finish v)) \<and> \<not> listening (finish v)" for v
    by (simp add: finish_def sweeper_stop_def)
  have stopped: "run_loop limits stack es u = (Some (Inr ()), finish u)" if "shutdown_requested u" for es u
    using that by (simp add: run_loop.simps)
  have "shutdown_requested (stop u)" for u by (simp add: stop_def request_shutdown_def)
  moreover have "shutdown_requested (serve_client limits stack io u) = shutdown_requested u" for io u
    by (simp add: serve_client_def Let_def)
  ultimately show ?thesis
    using fin by (cases result) (auto simp: stopped run_loop.simps[of _ _ "_ # _"] Let_def)
qed

section \<open>The lanes of the arena\<close>



text \<open>
  C17. The cache is transparent, for a whole run: over any sequence of \<open>SET\<close>, \<open>GET\<close> and \<open>DEL\<close> requests,
  at any readings of the clock, with any times to live and any memory limit, both lanes give the same
  answers in the same order.
\<close>

theorem lanes_agree_run:
  assumes "coherent c docs" "sound_docs docs"
    and "\<forall>(now, req) \<in> set reqs. request_command req \<in> {lit ''SET'', lit ''GET'', lit ''DEL''}"
  shows "list_all2 same_answer (cached_run dttl reqs (c, docs)) (plain_run reqs docs)"
  using assms
proof (induction reqs arbitrary: c docs)
  case (Cons x reqs)
  obtain now req where x: "x = (now, req)" by (cases x)
  let ?r = "redis_db_execute dttl now req (c, docs)" and ?p = "db_only_execute req docs"
  have agree: "lanes_agree ?r ?p"
    using Cons.prems x by (intro lanes_agree_execute) auto
  moreover have "sound_docs (snd ?p)" using Cons.prems(2) by (rule sound_docs_execute)
  moreover have "snd ?r = (fst (snd ?r), snd ?p)" using agree by (simp add: lanes_agree_def prod_eq_iff)
  ultimately show ?case
    using Cons.IH[of "fst (snd ?r)" "snd ?p"] Cons.prems(3) x
    by (auto simp: lanes_agree_def case_prod_unfold)
qed simp

text \<open>The witness of C17: a write and a read of one key.\<close>

theorem lanes_agree_run_witness:
  "list_all2 same_answer
     (cached_run (Finite 5)
        [(Finite 0, \<lparr>request_id = lit ''1'', mode = lit ''manual'', request_command = lit ''SET'', request_key = lit ''k'',
            request_field = None, request_value = Some (lit ''v''), ttl_enabled = True, ttl_seconds = None\<rparr>),
         (Finite 9, \<lparr>request_id = lit ''2'', mode = lit ''manual'', request_command = lit ''GET'', request_key = lit ''k'',
            request_field = None, request_value = None, ttl_enabled = True, ttl_seconds = None\<rparr>)] (client_init, []))
     (plain_run
        [(Finite 0, \<lparr>request_id = lit ''1'', mode = lit ''manual'', request_command = lit ''SET'', request_key = lit ''k'',
            request_field = None, request_value = Some (lit ''v''), ttl_enabled = True, ttl_seconds = None\<rparr>),
         (Finite 9, \<lparr>request_id = lit ''2'', mode = lit ''manual'', request_command = lit ''GET'', request_key = lit ''k'',
            request_field = None, request_value = None, ttl_enabled = True, ttl_seconds = None\<rparr>)] [])"
  by (rule lanes_agree_run) (simp_all add: coherent_def client_init_def sound_docs_def)

text \<open>
  The cache of the lane respects its memory limit: after \<open>_enforce_max_memory\<close> the bytes in use are at
  most the limit, whichever keys were protected.
\<close>

theorem cache_memory_bound:
  assumes "wf_dict (entries c)" "client_max_memory c = Some m" "0 \<le> m"
  shows "int (used_memory_bytes (enforce_max_memory now protected c)) \<le> m"
  using enforce_bound[OF assms] by simp

text \<open>An example: an empty cache with a limit of one byte.\<close>

theorem cache_memory_bound_witness:
  "int (used_memory_bytes (enforce_max_memory (Finite 0) [] (client_init\<lparr>client_max_memory := Some 1\<rparr>))) \<le> 1"
  by (rule cache_memory_bound) (simp_all add: client_init_def)

section \<open>Where the code does not do what it means to\<close>


text \<open>
  \<open>HELLO\<close> with an unsupported version is answered with an error, but the session switches to that
  version all the same.
\<close>

theorem hello_switches_anyway:
  "fst (process_request 9 (Finite 0) (encode_array [Text (lit ''HELLO''), Num 7])
     (session_context_init, service_init ([], []) None)) =
     Inr (encode 7 (RespSimpleError ERR_UNSUPPORTED_PROTOCOL_VERSION)) \<and>
   protocol_version (fst (snd (process_request 9 (Finite 0) (encode_array [Text (lit ''HELLO''), Num 7])
     (session_context_init, service_init ([], []) None)))) = 7"
  by code_simp

text \<open>
  \<open>EXPIRE k inf\<close> is accepted, and the \<open>TTL k\<close> that follows raises \<open>OverflowError\<close>, which is no command
  error and ends the session.
\<close>

theorem infinite_expiration_ends_session:
  "fst (process_request 9 (Finite 0) (build_command_frame (lit ''TTL'') [lit ''k''])
     (session_context_init,
      snd (execute (Finite 0) (cmd ''EXPIRE'' [lit ''k'', lit ''inf''])
        (snd (execute (Finite 0) (cmd ''SET'' [lit ''k'', lit ''v'']) (service_init ([], []) None)))))) =
   Inl OverflowError"
  by code_simp


section \<open>The command line client\<close>

text \<open>
  C20. From prompt to prompt: run as a program against the server, \<open>SET k v\<close> prints \<open>OK\<close> and exits
  with 0, and \<open>GET k\<close> afterwards prints \<open>v\<close> and exits with 0, when the texts are ASCII, the frames fit
  the request limit and the entry fits the memory limit.
\<close>

theorem client_set_get:
  assumes "wf_service s" "ascii k" "ascii v" "2 \<le> stack" "2 \<le> depth"
    and "\<And>m. max_memory_bytes s = Some m \<Longrightarrow> int (estimate_entry_bytes k (StringEntry v)) \<le> m"
    and "0 < p" "p \<le> 65535"
    and "set_args = \<lparr>cli_host = h, cli_port = p, cli_command = Some (lit ''set''), cli_command_arguments = [k, v]\<rparr>"
    and "get_args = \<lparr>cli_host = h, cli_port = p, cli_command = Some (lit ''get''), cli_command_arguments = [k]\<rparr>"
    and "net = (\<lambda>now cfg. served (resource_limits_of cfg) stack now)"
    and "int (length (build_command_frame (lit ''set'') [k, v])) \<le> 4096"
    and "int (length (build_command_frame (lit ''get'') [k])) \<le> 4096"
    and "first = cli_main text usage repr (net now) depth (Inr set_args) [] s"
    and "second = cli_main text usage repr (net later) depth (Inr get_args) [] (snd (snd first))"
  shows "fst first = Inr 0 \<and> fst (snd first) = [Stdout (lit ''OK'' @ [10])] \<and>
    fst second = Inr 0 \<and> fst (snd second) = [Stdout (v @ [10])]"
proof -
  have "list_all scalar v" using assms(3) by (auto simp: list_all_iff scalar_def ascii_def)
  note get = client_get[OF assms(2) this assms(4,5,13) set_get_reply[OF assms(1,6), of later now]]
  have "first = (Inr 0, [Stdout (lit ''OK'' @ [10])], snd (execute now (cmd ''SET'' [k, v]) s))"
    using assms(7,8) client_set[OF assms(2-5,12)]
    by (simp add: assms(9,11,14) cli_main_def parse_cli_arguments_def client_limits RESP_OK_def CLI_EXIT_SUCCESS_def)
  then show ?thesis
    using assms(7,8) get
    by (simp add: assms(10,11,15) cli_main_def parse_cli_arguments_def client_limits CLI_EXIT_SUCCESS_def)
qed

text \<open>The witness of C20, on an empty server with a limit of a hundred bytes.\<close>

theorem client_set_get_witness:
  "fst (snd (cli_main (\<lambda>_. []) [] (\<lambda>_. []) (\<lambda>cfg. served (resource_limits_of cfg) 1000 (Finite 9)) 1000
     (Inr \<lparr>cli_host = lit ''127.0.0.1'', cli_port = 6379, cli_command = Some (lit ''get''), cli_command_arguments = [lit ''k'']\<rparr>) []
     (snd (snd (cli_main (\<lambda>_. []) [] (\<lambda>_. []) (\<lambda>cfg. served (resource_limits_of cfg) 1000 (Finite 0)) 1000
       (Inr \<lparr>cli_host = lit ''127.0.0.1'', cli_port = 6379, cli_command = Some (lit ''set''),
             cli_command_arguments = [lit ''k'', lit ''v'']\<rparr>) [] (service_init ([], []) (Some 100))))))) =
   [Stdout (lit ''v'' @ [10])]"
proof -
  have "int (length (build_command_frame (lit ''set'') [lit ''k'', lit ''v''])) \<le> 4096"
    "int (length (build_command_frame (lit ''get'') [lit ''k''])) \<le> 4096" by code_simp+
  moreover have "int (estimate_entry_bytes (lit ''k'') (StringEntry (lit ''v''))) \<le> 100" by code_simp
  then have "max_memory_bytes (service_init ([], []) (Some 100)) = Some m \<Longrightarrow>
      int (estimate_entry_bytes (lit ''k'') (StringEntry (lit ''v''))) \<le> m" for m
    by (simp add: service_init_def normalize_max_memory_bytes_def)
  moreover have "ascii (lit ''k'')" "ascii (lit ''v'')" by (simp_all add: lit_def)
  ultimately show ?thesis
    using client_set_get[OF wf_service_init, of "lit ''k''" "lit ''v''" 1000 1000 "Some 100" 6379, OF _ _ _ _ _ _ _ refl refl refl _ _ refl refl]
    by simp
qed

section \<open>The arena\<close>



text \<open>
  A manual command sent to a reachable gateway is answered by both lanes, with the key that was
  asked for and its time to live resolved; the comparison is the last event of the history, and the
  memory profile is locked afterwards: choosing another one raises and changes nothing.
\<close>

theorem command_is_answered:
  assumes "gateway_reachable g"
    and "r = execute_manual_command (redis_executor dttl now t) (db_executor u) rid inp g"
    and "map_of MEMORY_PROFILES key \<noteq> None"
  shows "(\<exists>x. fst r = Inr x \<and> request_key (exec_request x) = input_key inp \<and>
      (ttl_enabled (exec_request x) \<longrightarrow> ttl_seconds (exec_request x) \<noteq> None) \<and>
      last (history_snapshot (history (snd r))) = Executed (lit ''manual_command_completed'') x) \<and>
    memory_locked (snd r) \<and>
    set_memory_profile (redis_executor dttl now t) key (snd r) = (Inl (RuntimeError LOCKED_MESSAGE), snd r)"
proof -
  have good: "good_gateway g" using assms(1) by (rule gateway_reachable_good)
  then have v: "valid_controls g" by (simp add: good_gateway_def)
  then have "valid_controls (lock_memory_profile g)" by (simp add: valid_controls_def lock_memory_profile_def)
  note built = build_request_valid[OF this, of rid "lit ''manual''" inp]
  let ?e = "execute_command ''manual'' ''manual_command_completed'' (redis_executor dttl now t) (db_executor u) rid inp g"
  have r: "r = ?e" by (simp add: assms(2) execute_manual_command_def)
  obtain req x where e: "build_request rid (lit ''manual'') inp (lock_memory_profile g) = Inr req"
      "?e = (Inr x, snd (execute_request (redis_executor dttl now t) (db_executor u)
          (lit ''manual_command_completed'') req (lock_memory_profile g)))" "exec_request x = req"
      "memory_locked (snd ?e)" "history (snd ?e) = history_append (Executed (lit ''manual_command_completed'') x) (history g)"
      "valid_controls (snd ?e)"
    by (rule answered[OF v])
  have x: "build_request rid (lit ''manual'') inp (lock_memory_profile g) = Inr req" "exec_request x = req"
      "fst r = Inr x" "memory_locked (snd r)" "valid_controls (snd r)"
      "history (snd r) = history_append (Executed (lit ''manual_command_completed'') x) (history g)"
    unfolding r by (rule e(1), rule e(3), subst e(2), rule fst_conv) (rule e(4) e(6) e(5))+
  have "set_memory_profile (redis_executor dttl now t) key (snd r) = (Inl (RuntimeError LOCKED_MESSAGE), snd r)"
    using lanes.memory_profile_effect(1)[OF x(5) refl] x(4) assms(3) by blast
  moreover have "last (history_snapshot (history (snd r))) = Executed (lit ''manual_command_completed'') x"
    using good by (simp add: x(6) history_snapshot_def history_append_last good_gateway_def)
  ultimately show ?thesis using x built by auto
qed

text \<open>A witness of it: a \<open>GET\<close> as the first command.\<close>

theorem command_is_answered_witness:
  "memory_locked (snd (execute_manual_command (redis_executor (Finite 60) (Finite 0) (Finite 1, metrics_default)) (db_executor (Finite 2, metrics_default))
     (lit ''1'') \<lparr>input_command = lit ''GET'', input_key = lit ''k'', input_field = None, input_value = None,
       input_ttl_enabled = True, input_ttl_seconds = None\<rparr> (gateway_init (client_init, []) [])))"
proof -
  have "map_of MEMORY_PROFILES (lit ''small'') \<noteq> None" by code_simp
  from command_is_answered[OF gateway_reachable.start refl this] show ?thesis by blast
qed

text \<open>
  A reset of a reachable gateway empties both lanes, forgets the keys and unlocks the memory
  profile: choosing any known profile then succeeds.
\<close>

theorem reset_unlocks:
  assumes "gateway_reachable g" "map_of MEMORY_PROFILES key \<noteq> None"
    and "r = reset_state (redis_executor dttl now t) (db_executor u) g"
    and "chosen = set_memory_profile (redis_executor dttl now t) key (snd r)"
  shows "fst r = Inr () \<and> snd (redis_lane (snd r)) = [] \<and> db_only_lane (snd r) = [] \<and> known_keys (snd r) = [] \<and>
    (\<exists>info. fst chosen = Inr info) \<and> selected_memory_profile (snd chosen) = key"
proof -
  have v: "valid_controls g" using gateway_reachable_good[OF assms(1)] by (simp add: good_gateway_def)
  have "snd r = snd (reset_state (redis_executor dttl now t) (db_executor u) g)" by (simp add: assms(3))
  note reset = lanes.reset_effect[OF v this]
  have "set (keys_of d) = {} \<longleftrightarrow> d = []" for d :: "(pystr, 'v) dict" by (simp add: keys_of_def)
  then show ?thesis
    using reset lanes.memory_profile_effect(1)[OF reset(7) assms(4)] assms(2,3) by simp
qed

text \<open>An example: at the start.\<close>

theorem reset_unlocks_witness:
  "selected_memory_profile (snd (set_memory_profile (redis_executor (Finite 60) (Finite 0) (Finite 1, metrics_default)) (lit ''small'')
     (snd (reset_state (redis_executor (Finite 60) (Finite 0) (Finite 1, metrics_default)) (db_executor (Finite 2, metrics_default))
       (gateway_init (client_init, []) []))))) = lit ''small''"
proof -
  have "map_of MEMORY_PROFILES (lit ''small'') \<noteq> None" by code_simp
  from reset_unlocks[OF gateway_reachable.start this refl refl] show ?thesis by blast
qed



text \<open>
  The mix of a read scenario is exact: over whole blocks of a hundred requests the requested
  percentage of them asks for one of the four hot keys, every request is a \<open>GET\<close>, and every key asked
  for is among the seeded documents.
\<close>

theorem read_plan_mix:
  assumes "build_read_plan us secs hot = Inr plan" "length (actions plan) = k * 100"
  shows "int (length (filter (\<lambda>a. action_key a \<in> set hot_keys) (actions plan))) = int k * hot \<and>
    (\<forall>a \<in> set (actions plan). action_command a = lit ''GET'' \<and> action_key a \<in> set (keys_of (seed_docs plan)))"
proof -
  have plan: "actions plan = map (read_action hot) [0..<k * 100]" "seed_docs plan = build_catalog_documents"
    and hot: "hot \<in> set READ_LEVELS"
    using assms by (auto simp: build_read_plan_def split: if_splits)
  have "length (filter (\<lambda>a. action_key a \<in> set hot_keys) (actions plan)) = length (filter (is_hot hot) [0..<k * 100])"
    by (simp add: plan filter_map comp_def hot_key_iff)
  then show ?thesis
    using hot_count[OF hot] read_action_known by (auto simp: plan) (simp add: read_action_def action_def)
qed

text \<open>An example: ten users for ten seconds at 80 percent.\<close>

theorem read_plan_mix_witness:
  "\<exists>plan. build_read_plan 10 10 80 = Inr plan \<and>
     length (filter (\<lambda>a. action_key a \<in> set hot_keys) (actions plan)) = 80"
proof -
  obtain plan where plan: "build_read_plan 10 10 80 = Inr plan" "length (actions plan) = 1 * 100"
    by (simp add: build_read_plan_def READ_LEVELS_def total_of_def)
  from read_plan_mix[OF this] plan(1) show ?thesis by auto
qed

text \<open>
  A subscriber of the event bus receives every event published after its subscription, once and
  in the order of publication, whatever other subscribers do: what it has received and what waits in
  its queue is what was published.
\<close>

theorem event_delivery:
  assumes "wf_bus b" "bus_subscribe b = (q, b')" "Unsubscribe q \<notin> set ops"
  shows "\<exists>waiting. map_of (subscribers (fold bus_step ops b')) q = Some waiting \<and>
    received q ops b' @ waiting = published ops"
proof -
  have "wf_bus b'" using wf_bus_step[OF assms(1), of Subscribe] assms(2) by simp
  moreover have "map_of (subscribers b') q = Some []" using assms(2) by (auto simp: bus_subscribe_def dict_simps)
  ultimately show ?thesis using delivery[OF _ _ assms(3), of b' "[]"] by simp
qed

text \<open>An example: two events, the first one fetched.\<close>

theorem event_delivery_witness:
  "\<exists>waiting. map_of (subscribers (fold bus_step [Publish (1 :: nat), Get 0, Publish 2] (snd (bus_subscribe bus_init)))) 0 = Some waiting \<and>
    received 0 [Publish 1, Get 0, Publish 2] (snd (bus_subscribe bus_init)) @ waiting = [1, 2]"
  using event_delivery[of "bus_init :: nat event_bus" 0 "snd (bus_subscribe bus_init)" "[Publish 1, Get 0, Publish 2]"]
  by (simp add: wf_bus_def bus_init_def bus_subscribe_def keys_of_def)

text \<open>
  A read scenario at zero percent is run as one at sixty: \<open>read_hot_percent or 60\<close> takes the
  offered level 0 for a missing one.
\<close>

theorem zero_percent_runs_as_sixty:
  "0 \<in> set READ_LEVELS \<and> build_plan (inp\<lparr>read_hot_percent := Some 0\<rparr>) = build_plan (inp\<lparr>read_hot_percent := Some 60\<rparr>) \<and>
   scenario_label (inp\<lparr>read_hot_percent := Some 0\<rparr>) = scenario_label (inp\<lparr>read_hot_percent := Some 60\<rparr>)"
  by (simp add: READ_LEVELS_def build_plan_def scenario_label_def int_or_def)

section \<open>The arena over HTTP\<close>





text \<open>
  A lane server knows what it stores: a reset that names no keys leaves no document, on a server
  that has answered any requests before.
\<close>

theorem lane_reset_empties:
  assumes "lane_a_reachable a" "lane_b_reachable b" "p = \<lparr>reset_keys = [], reset_full = full\<rparr>"
  shows "snd (lane_store (snd (lane_a_reset p a))) = [] \<and> lane_store (snd (lane_b_reset p b)) = []"
proof -
  have "mongo_delete_many (lane_known a) (snd (lane_store a)) = []" "mongo_delete_many (lane_known b) (lane_store b) = []"
    using lane_a_tracks[OF assms(1)] lane_b_tracks[OF assms(2)] by (auto intro: reset_all_empties)
  then show ?thesis
    by (simp add: assms(3) lane_a_reset_def lane_b_reset_def redis_db_clear_def db_only_clear_def mongo_clear_def
        Let_def case_prod_unfold)
qed

text \<open>An example: a lane B that was seeded.\<close>

theorem lane_reset_empties_witness:
  "lane_store (snd (lane_b_reset \<lparr>reset_keys = [], reset_full = False\<rparr>
     (snd (lane_b_seed \<lparr>seed_documents = [(lit ''k'', lit ''v'')], warm_cache = False, seed_ttl_enabled = False, seed_ttl_seconds = None\<rparr>
       (lane_app_init []))))) = []"
  using lane_reset_empties[OF lane_a_reachable.start lane_b_reachable.seed[OF lane_b_reachable.start] refl] by blast

text \<open>
  C40. A choice of the memory profile that fails stays: when lane A is not reached, the interface
  answers with status 409 as for a locked profile, and the gateway nevertheless has the new profile
  selected although lane A never applied it.
\<close>

theorem failed_choice_sticks:
  assumes "map_of MEMORY_PROFILES key \<noteq> None" "\<not> memory_locked g" "key \<noteq> []"
    and "r = api_set_memory_profile str_of detail (http_executor nm (Unreachable reason) x routes) key g"
  shows "fst r = Inl (HttpFailure 409 (nm @ lit '' request failed: '' @ reason)) \<and>
    selected_memory_profile (snd r) = key \<and> redis_lane (snd r) = redis_lane g"
proof -
  obtain p where "map_of MEMORY_PROFILES key = Some p" using assms(1) by blast
  then show ?thesis
    using assms keys_of_iff[of key MEMORY_PROFILES]
    by (simp add: api_set_memory_profile_def set_memory_profile_def apply_selected_memory_profile_def http_executor_def
        open_json_def)
qed

text \<open>The witness of C40, at the start.\<close>

theorem failed_choice_sticks_witness:
  "selected_memory_profile (snd (api_set_memory_profile (\<lambda>_. []) []
     (http_executor (lit ''lane-a'') (Unreachable (lit ''timed out'')) (Finite 0) (lane_a_routes [] (Finite 60) (Finite 0) (Finite 1, metrics_default)))
     (lit ''small'') (gateway_init (lane_app_init (client_init, [])) (lane_app_init [])))) = lit ''small''"
proof -
  have "map_of MEMORY_PROFILES (lit ''small'') \<noteq> None" by code_simp
  moreover have "\<not> memory_locked (gateway_init (lane_app_init (client_init, [])) (lane_app_init []))" "lit ''small'' \<noteq> []"
    by (simp_all add: gateway_init_def lit_def)
  ultimately show ?thesis using failed_choice_sticks[OF _ _ _ refl] by blast
qed

section \<open>The benchmark's client\<close>

text \<open>
  Over a session of the server, \<open>set\<close> of the benchmark's client succeeds and \<open>get\<close> then returns
  what was stored, in either protocol version, and also when the client has no connection yet or finds
  its connection closed by the server.
\<close>

theorem bench_set_get:
  assumes "wf_service s" "ascii k" "ascii v" "2 \<le> stack" "1 \<le> depth" "usable ctx sock"
    and "\<And>m. max_memory_bytes s = Some m \<Longrightarrow> int (estimate_entry_bytes k (StringEntry v)) \<le> m"
    and "int (length (encode_command [Text (lit ''SET''), Text k, Text v])) \<le> limit_request_size_bytes limits"
    and "int (length (encode_command [Text (lit ''GET''), Text k])) \<le> limit_request_size_bytes limits"
    and "(stored, st) = bench_set k v tx (session_wire limits stack now) depth (sock, s)"
  shows "stored = Inr True \<and> fst (bench_get k tx (session_wire limits stack later) depth st) = Inr (Some v)"
proof -
  have frames: "encode_command [Text (lit ''SET''), Text k, Text v] = build_command_frame (lit ''SET'') [k, v]"
    "encode_command [Text (lit ''GET''), Text k] = build_command_frame (lit ''GET'') [k]"
    by (simp_all add: encode_command_eq build_command_frame_def part_text_def)
  have "(stored, st) = (Inr True, (Some (idle ctx), snd (execute now (cmd ''SET'' [k, v]) s)))"
    unfolding assms(10) by (rule bench_set_reply[OF assms(2-5)]) (use assms(6,8) frames in simp_all)
  moreover have "usable ctx (Some (idle ctx))" by (simp add: usable_def)
  note get = bench_get_reply[OF assms(2) ascii_scalar[OF assms(3)] assms(4,5) assms(9)[unfolded frames(2)]
      set_get_reply[OF assms(1,7), of later now] this]
  ultimately show ?thesis by (simp add: get)
qed

text \<open>An example: without a connection.\<close>

theorem bench_set_get_witness:
  "fst (bench_get (lit ''k'') \<lparr>repr_value = \<lambda>_. [], repr_byte = \<lambda>_. [], str_error = \<lambda>_. []\<rparr>
     (session_wire default_limits 1000 (Finite 5)) 1000
     (snd (bench_set (lit ''k'') (lit ''v'') \<lparr>repr_value = \<lambda>_. [], repr_byte = \<lambda>_. [], str_error = \<lambda>_. []\<rparr>
       (session_wire default_limits 1000 (Finite 0)) 1000 (None, service_init ([], []) None)))) = Inr (Some (lit ''v''))"
proof -
  let ?tx = "\<lparr>repr_value = \<lambda>_. [], repr_byte = \<lambda>_. [], str_error = \<lambda>_. []\<rparr>"
  have "int (length (encode_command [Text (lit ''SET''), Text (lit ''k''), Text (lit ''v'')])) \<le> limit_request_size_bytes default_limits"
    "int (length (encode_command [Text (lit ''GET''), Text (lit ''k'')])) \<le> limit_request_size_bytes default_limits"
    unfolding default_limit by code_simp+
  moreover have "usable session_context_init None" by (simp add: usable_def)
  moreover have "max_memory_bytes (service_init ([], []) None) = Some m \<Longrightarrow>
      int (estimate_entry_bytes (lit ''k'') (StringEntry (lit ''v''))) \<le> m" for m
    by (simp add: service_init_def normalize_max_memory_bytes_def)
  moreover have "ascii (lit ''k'')" "ascii (lit ''v'')" by (simp_all add: lit_def)
  ultimately show ?thesis
    using bench_set_get[OF wf_service_init, of "lit ''k''" "lit ''v''" 1000 1000 session_context_init None None default_limits,
        OF _ _ _ _ _ _ _ _ prod.collapse, of ?tx "Finite 0" "Finite 5"]
    by simp
qed

end
